(* ===== verification/RV_Prelude.thy ===== *)
theory RV_Prelude
  imports Main "HOL-Library.Word" "HOL-Library.Monad_Syntax"
begin

text \<open>
  Shared ground of the development: the C integer types, the reading of undefined
  behaviour, little-endian byte access to a flat memory, and the word lemmas that the
  component theories use.

  Conventions used by every theory:
  \<^item> \<open>uint8_t\<close> \dots \<open>uint64_t\<close> are \<open>8 word\<close> \dots \<open>64 word\<close>; a C \<open>int\<close> that
    is used as a counter or an index is an \<open>int\<close> with its range checks written out, and a C
    \<open>int\<close> that is only tested for zero is a \<open>bool\<close>;
  \<^item> \<open>x >> n\<close> is \<open>shr x n\<close>, \<open>x << n\<close> is \<open>shl x n\<close>, a cast between
    unsigned types is \<open>ucast\<close>, a cast through a signed type is \<open>scast\<close>;
  \<^item> a step whose meaning C leaves undefined (an access outside an object, a null pointer,
    a division by zero, a signed overflow) has the value \<open>None\<close> of type \<open>'a option\<close>;
    every defined step is \<open>Some\<close>. Errors that the code itself reports are values
    of a sum type below that.
\<close>

unbundle bit_operations_syntax

type_synonym u8 = "8 word"
type_synonym u16 = "16 word"
type_synonym u32 = "32 word"
type_synonym u64 = "64 word"
type_synonym u128 = "128 word"

text \<open>The meaning of a C statement that may be undefined.\<close>

type_synonym 'a undef = "'a option"

abbreviation shr :: "'a::len word \<Rightarrow> nat \<Rightarrow> 'a word" where
  "shr w n \<equiv> drop_bit n w"

abbreviation shl :: "'a::len word \<Rightarrow> nat \<Rightarrow> 'a word" where
  "shl w n \<equiv> push_bit n w"

abbreviation sar :: "'a::len word \<Rightarrow> nat \<Rightarrow> 'a word" where
  "sar w n \<equiv> signed_drop_bit n w"

named_theorems model_defs \<open>definitions of the straight-line operations of the model\<close>
named_theorems frame_simps \<open>fields an operation leaves alone\<close>

subsection \<open>Signed counters and ring slots\<close>

text \<open>\<open>n++\<close> on a C \<open>int\<close>: undefined past \<open>INT_MAX\<close>.\<close>

definition int_inc :: "int \<Rightarrow> int undef" where
  "int_inc n = (if n < 2147483647 then Some (n + 1) else None)"

text \<open>\<open>a[n % k]\<close> for a C \<open>int\<close> \<open>n\<close>: the remainder takes the sign of \<open>n\<close>, so a
  negative counter that is no multiple of \<open>k\<close> indexes before the array.\<close>

definition ring_slot :: "int \<Rightarrow> nat \<Rightarrow> nat undef" where
  "ring_slot n k =
     (if 0 \<le> n then Some (nat (n mod int k))
      else if (- n) mod int k = 0 then Some 0 else None)"

lemma ring_slot_nonneg [simp]: "0 \<le> n \<Longrightarrow> ring_slot n k = Some (nat (n mod int k))"
  by (simp add: ring_slot_def)

lemma ring_slot_bound: "ring_slot n k = Some i \<Longrightarrow> 0 < k \<Longrightarrow> i < k"
  by (auto simp: ring_slot_def nat_less_iff split: if_splits)

lemma int_inc_less [simp]: "n < 2147483647 \<Longrightarrow> int_inc n = Some (n + 1)"
  by (simp add: int_inc_def)

lemma int_inc_SomeD: "int_inc n = Some m \<Longrightarrow> m = n + 1 \<and> n < 2147483647"
  by (simp add: int_inc_def split: if_splits)

subsection \<open>Bytes of a flat memory\<close>

type_synonym mem = "u64 \<Rightarrow> u8"

definition read_bytes :: "mem \<Rightarrow> u64 \<Rightarrow> nat \<Rightarrow> u8 list" where
  "read_bytes m a n = map (\<lambda>i. m (a + of_nat i)) [0..<n]"

definition write_bytes :: "mem \<Rightarrow> u64 \<Rightarrow> u8 list \<Rightarrow> mem" where
  "write_bytes m a bs = (\<lambda>b. if unat (b - a) < length bs then bs ! unat (b - a) else m b)"

text \<open>Little-endian value of a byte list, and the low \<open>n\<close> bytes of a value.\<close>

fun le_val :: "u8 list \<Rightarrow> u64" where
  "le_val [] = 0"
| "le_val (b # bs) = ucast b OR shl (le_val bs) 8"

fun le_bytes :: "nat \<Rightarrow> u64 \<Rightarrow> u8 list" where
  "le_bytes 0 v = []"
| "le_bytes (Suc n) v = ucast v # le_bytes n (shr v 8)"

definition load_le :: "mem \<Rightarrow> u64 \<Rightarrow> nat \<Rightarrow> u64" where
  "load_le m a n = le_val (read_bytes m a n)"

definition store_le :: "mem \<Rightarrow> u64 \<Rightarrow> nat \<Rightarrow> u64 \<Rightarrow> mem" where
  "store_le m a n v = write_bytes m a (le_bytes n v)"

lemma length_read_bytes [simp]: "length (read_bytes m a n) = n"
  by (simp add: read_bytes_def)

lemma nth_read_bytes [simp]: "i < n \<Longrightarrow> read_bytes m a n ! i = m (a + of_nat i)"
  by (simp add: read_bytes_def)

lemma length_le_bytes [simp]: "length (le_bytes n v) = n"
  by (induction n arbitrary: v) auto

lemma unat_add_diff_small:
  fixes a :: u64
  assumes "i < 2 ^ 64"
  shows "unat (a + of_nat i - a) = i"
  using assms by (simp add: unat_of_nat)

lemma read_write_bytes:
  assumes "length bs \<le> 2 ^ 64"
  shows "read_bytes (write_bytes m a bs) a (length bs) = bs"
  using assms by (auto intro!: nth_equalityI simp: write_bytes_def unat_of_nat)

lemma write_bytes_outside:
  "length bs \<le> unat (b - a) \<Longrightarrow> write_bytes m a bs b = m b"
  by (simp add: write_bytes_def)

text \<open>Two ranges that do not meet: reading one is not affected by writing the other.\<close>

lemma read_write_bytes_disjoint:
  assumes "unat a + length bs \<le> unat b \<or> unat b + n \<le> unat a"
    and "unat a + length bs \<le> 2 ^ 64" and "unat b + n \<le> 2 ^ 64"
  shows "read_bytes (write_bytes m a bs) b n = read_bytes m b n"
proof (rule nth_equalityI)
  fix i assume "i < length (read_bytes (write_bytes m a bs) b n)"
  then have i: "i < n" by simp
  have ub: "unat (b + of_nat i) = unat b + i"
    using assms(3) i by (simp add: unat_word_ariths unat_of_nat)
  have "length bs \<le> unat (b + of_nat i - a)"
    using assms i unat_sub_if' [of "b + of_nat i" a] ub by auto
  with i show "read_bytes (write_bytes m a bs) b n ! i = read_bytes m b n ! i"
    by (simp add: write_bytes_outside)
qed simp

lemma le_val_le_bytes: "le_val (le_bytes n v) = take_bit (8 * n) v"
proof (induction n arbitrary: v)
  case 0
  then show ?case by simp
next
  case (Suc n)
  show ?case
    by (rule bit_word_eqI) (auto simp: Suc.IH bit_simps not_less)
qed

lemma le_val_bound: "length bs \<le> 8 \<Longrightarrow> take_bit (8 * length bs) (le_val bs) = le_val bs"
proof (induction bs)
  case Nil
  then show ?case by simp
next
  case (Cons b bs)
  then have "take_bit (8 * length bs) (le_val bs) = le_val bs" by simp
  then have low: "bit (le_val bs) i \<Longrightarrow> i < 8 * length bs" for i
    by (metis bit_take_bit_iff)
  show ?case
  proof (rule bit_word_eqI)
    fix n
    show "bit (take_bit (8 * length (b # bs)) (le_val (b # bs))) n = bit (le_val (b # bs)) n"
      using low [of "n - 8"] bit_imp_le_length [of b n] by (auto simp: bit_simps)
  qed
qed

lemma load_store_le:
  "n \<le> 8 \<Longrightarrow> load_le (store_le m a n v) a n = take_bit (8 * n) v"
  using read_write_bytes [of "le_bytes n v" m a]
  by (simp add: load_le_def store_le_def le_val_le_bytes)

lemma load_store_le_disjoint:
  assumes "unat a + n \<le> unat b \<or> unat b + k \<le> unat a"
    and "unat a + n \<le> 2 ^ 64" and "unat b + k \<le> 2 ^ 64"
  shows "load_le (store_le m a n v) b k = load_le m b k"
  using read_write_bytes_disjoint [of a "le_bytes n v" b k m] assms
  by (simp add: load_le_def store_le_def)

lemma and_byte_mask: "(w :: u64) AND 0xFF = take_bit 8 w"
  by (simp add: take_bit_eq_mask mask_eq_exp_minus_1)

lemma ucast_byte_mask: "(ucast (b :: u8) :: u64) AND 0xFF = ucast b"
  by (rule bit_word_eqI) (auto simp: bit_simps and_byte_mask dest: bit_imp_le_length)

lemma le_val_snoc: "le_val (bs @ [b]) = le_val bs OR shl (ucast b) (8 * length bs)"
  by (induction bs) (simp_all add: push_bit_or or.assoc add.commute)

subsection \<open>Results with a state\<close>

text \<open>Elimination of a step that returns a sum and a new state: the error and the success branch.\<close>

lemma bind_sum_Some:
  "(f \<bind> (\<lambda>(r, s). case r of Inl e \<Rightarrow> g e s | Inr x \<Rightarrow> h x s)) = Some y \<longleftrightarrow>
     (\<exists>e s. f = Some (Inl e, s) \<and> g e s = Some y) \<or> (\<exists>x s. f = Some (Inr x, s) \<and> h x s = Some y)"
  by (auto simp: bind_eq_Some_conv split: sum.split_asm)

end
