(* ===== verification/RV_State.thy ===== *)
theory RV_State
  imports RV_Prelude
begin

text \<open>
  The constants and the data of \<open>rv64_cpu.h\<close>, \<open>rv64_virtio.h\<close> and \<open>rv64_jit.h\<close>:
  one record per C structure, one field per member, named after the pointer the code reaches
  it through (\<open>cpu->pc\<close> is \<open>cpu_pc\<close>, \<open>te->ppn\<close> is \<open>te_ppn\<close>,
  \<open>vq->num\<close> is \<open>vq_num\<close>).

  Arrays are total functions on their index. Pointers into guest RAM are offsets into it.
  A function pointer that only reports to the outside (the console, the dirty-block tracker)
  is a flag that says whether it is set, and a log of the calls made through it.
  The packet library behind \<open>virtio-net\<close> is not part of the repository: a handle to it
  is a \<open>slirp\<close> record whose field \<open>sl_packets\<close> is an arbitrary function that says, for
  the calls made so far, which packets the library passes back during the last of them.
\<close>

subsection \<open>Privilege levels, interrupt and exception codes\<close>

abbreviation (input) PRIV_U :: u8 where "PRIV_U \<equiv> 0"
abbreviation (input) PRIV_S :: u8 where "PRIV_S \<equiv> 1"
abbreviation (input) PRIV_M :: u8 where "PRIV_M \<equiv> 3"

abbreviation (input) MSTATUS_SIE :: u64 where "MSTATUS_SIE \<equiv> shl 1 1"
abbreviation (input) MSTATUS_MIE :: u64 where "MSTATUS_MIE \<equiv> shl 1 3"
abbreviation (input) MSTATUS_SPIE :: u64 where "MSTATUS_SPIE \<equiv> shl 1 5"
abbreviation (input) MSTATUS_MPIE :: u64 where "MSTATUS_MPIE \<equiv> shl 1 7"
abbreviation (input) MSTATUS_SPP :: u64 where "MSTATUS_SPP \<equiv> shl 1 8"
abbreviation (input) MSTATUS_MPP :: u64 where "MSTATUS_MPP \<equiv> shl 3 11"
abbreviation (input) MSTATUS_FS :: u64 where "MSTATUS_FS \<equiv> shl 3 13"
abbreviation (input) MSTATUS_SUM :: u64 where "MSTATUS_SUM \<equiv> shl 1 18"
abbreviation (input) MSTATUS_MXR :: u64 where "MSTATUS_MXR \<equiv> shl 1 19"
abbreviation (input) MSTATUS_UXL :: u64 where "MSTATUS_UXL \<equiv> shl 3 32"
abbreviation (input) MSTATUS_SD :: u64 where "MSTATUS_SD \<equiv> shl 1 63"

definition SSTATUS_MASK :: u64 where
  "SSTATUS_MASK = MSTATUS_SIE OR MSTATUS_SPIE OR MSTATUS_SPP OR
     MSTATUS_FS OR MSTATUS_SUM OR MSTATUS_MXR OR MSTATUS_UXL OR MSTATUS_SD"

abbreviation (input) IRQ_S_SOFT :: u64 where "IRQ_S_SOFT \<equiv> 1 OR shl 1 63"
abbreviation (input) IRQ_M_SOFT :: u64 where "IRQ_M_SOFT \<equiv> 3 OR shl 1 63"
abbreviation (input) IRQ_S_TIMER :: u64 where "IRQ_S_TIMER \<equiv> 5 OR shl 1 63"
abbreviation (input) IRQ_M_TIMER :: u64 where "IRQ_M_TIMER \<equiv> 7 OR shl 1 63"
abbreviation (input) IRQ_S_EXT :: u64 where "IRQ_S_EXT \<equiv> 9 OR shl 1 63"
abbreviation (input) IRQ_M_EXT :: u64 where "IRQ_M_EXT \<equiv> 11 OR shl 1 63"

abbreviation (input) MIP_SSIP :: u64 where "MIP_SSIP \<equiv> shl 1 1"
abbreviation (input) MIP_MSIP :: u64 where "MIP_MSIP \<equiv> shl 1 3"
abbreviation (input) MIP_STIP :: u64 where "MIP_STIP \<equiv> shl 1 5"
abbreviation (input) MIP_MTIP :: u64 where "MIP_MTIP \<equiv> shl 1 7"
abbreviation (input) MIP_SEIP :: u64 where "MIP_SEIP \<equiv> shl 1 9"
abbreviation (input) MIP_MEIP :: u64 where "MIP_MEIP \<equiv> shl 1 11"

abbreviation (input) EXC_INSN_ACCESS :: u64 where "EXC_INSN_ACCESS \<equiv> 1"
abbreviation (input) EXC_ILLEGAL_INSN :: u64 where "EXC_ILLEGAL_INSN \<equiv> 2"
abbreviation (input) EXC_BREAKPOINT :: u64 where "EXC_BREAKPOINT \<equiv> 3"
abbreviation (input) EXC_LOAD_ACCESS :: u64 where "EXC_LOAD_ACCESS \<equiv> 5"
abbreviation (input) EXC_STORE_ACCESS :: u64 where "EXC_STORE_ACCESS \<equiv> 7"
abbreviation (input) EXC_ECALL_U :: u64 where "EXC_ECALL_U \<equiv> 8"
abbreviation (input) EXC_ECALL_S :: u64 where "EXC_ECALL_S \<equiv> 9"
abbreviation (input) EXC_ECALL_M :: u64 where "EXC_ECALL_M \<equiv> 11"
abbreviation (input) EXC_INSN_PAGE_FAULT :: u64 where "EXC_INSN_PAGE_FAULT \<equiv> 12"
abbreviation (input) EXC_LOAD_PAGE_FAULT :: u64 where "EXC_LOAD_PAGE_FAULT \<equiv> 13"
abbreviation (input) EXC_STORE_PAGE_FAULT :: u64 where "EXC_STORE_PAGE_FAULT \<equiv> 15"

subsection \<open>Control and status register numbers\<close>

abbreviation (input) CSR_MSTATUS :: u32 where "CSR_MSTATUS \<equiv> 0x300"
abbreviation (input) CSR_MISA :: u32 where "CSR_MISA \<equiv> 0x301"
abbreviation (input) CSR_MEDELEG :: u32 where "CSR_MEDELEG \<equiv> 0x302"
abbreviation (input) CSR_MIDELEG :: u32 where "CSR_MIDELEG \<equiv> 0x303"
abbreviation (input) CSR_MIE :: u32 where "CSR_MIE \<equiv> 0x304"
abbreviation (input) CSR_MTVEC :: u32 where "CSR_MTVEC \<equiv> 0x305"
abbreviation (input) CSR_MCOUNTEREN :: u32 where "CSR_MCOUNTEREN \<equiv> 0x306"
abbreviation (input) CSR_MSCRATCH :: u32 where "CSR_MSCRATCH \<equiv> 0x340"
abbreviation (input) CSR_MEPC :: u32 where "CSR_MEPC \<equiv> 0x341"
abbreviation (input) CSR_MCAUSE :: u32 where "CSR_MCAUSE \<equiv> 0x342"
abbreviation (input) CSR_MTVAL :: u32 where "CSR_MTVAL \<equiv> 0x343"
abbreviation (input) CSR_MIP :: u32 where "CSR_MIP \<equiv> 0x344"
abbreviation (input) CSR_MHARTID :: u32 where "CSR_MHARTID \<equiv> 0xF14"
abbreviation (input) CSR_MVENDORID :: u32 where "CSR_MVENDORID \<equiv> 0xF11"
abbreviation (input) CSR_MARCHID :: u32 where "CSR_MARCHID \<equiv> 0xF12"
abbreviation (input) CSR_MIMPID :: u32 where "CSR_MIMPID \<equiv> 0xF13"
abbreviation (input) CSR_PMPCFG0 :: u32 where "CSR_PMPCFG0 \<equiv> 0x3A0"
abbreviation (input) CSR_PMPADDR0 :: u32 where "CSR_PMPADDR0 \<equiv> 0x3B0"
abbreviation (input) CSR_SSTATUS :: u32 where "CSR_SSTATUS \<equiv> 0x100"
abbreviation (input) CSR_SIE :: u32 where "CSR_SIE \<equiv> 0x104"
abbreviation (input) CSR_STVEC :: u32 where "CSR_STVEC \<equiv> 0x105"
abbreviation (input) CSR_SCOUNTEREN :: u32 where "CSR_SCOUNTEREN \<equiv> 0x106"
abbreviation (input) CSR_SSCRATCH :: u32 where "CSR_SSCRATCH \<equiv> 0x140"
abbreviation (input) CSR_SEPC :: u32 where "CSR_SEPC \<equiv> 0x141"
abbreviation (input) CSR_SCAUSE :: u32 where "CSR_SCAUSE \<equiv> 0x142"
abbreviation (input) CSR_STVAL :: u32 where "CSR_STVAL \<equiv> 0x143"
abbreviation (input) CSR_SIP :: u32 where "CSR_SIP \<equiv> 0x144"
abbreviation (input) CSR_SATP :: u32 where "CSR_SATP \<equiv> 0x180"
abbreviation (input) CSR_CYCLE :: u32 where "CSR_CYCLE \<equiv> 0xC00"
abbreviation (input) CSR_TIME :: u32 where "CSR_TIME \<equiv> 0xC01"
abbreviation (input) CSR_INSTRET :: u32 where "CSR_INSTRET \<equiv> 0xC02"

subsection \<open>Page tables and the memory map\<close>

datatype access = ACCESS_READ | ACCESS_WRITE | ACCESS_EXEC

abbreviation (input) SATP_MODE_BARE :: u64 where "SATP_MODE_BARE \<equiv> 0"
abbreviation (input) SATP_MODE_SV39 :: u64 where "SATP_MODE_SV39 \<equiv> 8"
abbreviation (input) SATP_MODE_SHIFT :: nat where "SATP_MODE_SHIFT \<equiv> 60"

abbreviation (input) PTE_V :: u64 where "PTE_V \<equiv> 1"
abbreviation (input) PTE_R :: u64 where "PTE_R \<equiv> 2"
abbreviation (input) PTE_W :: u64 where "PTE_W \<equiv> 4"
abbreviation (input) PTE_X :: u64 where "PTE_X \<equiv> 8"
abbreviation (input) PTE_U :: u64 where "PTE_U \<equiv> 16"
abbreviation (input) PTE_A :: u64 where "PTE_A \<equiv> 64"
abbreviation (input) PTE_D :: u64 where "PTE_D \<equiv> 128"

abbreviation (input) PAGE_SHIFT :: nat where "PAGE_SHIFT \<equiv> 12"
abbreviation (input) PAGE_SIZE :: u64 where "PAGE_SIZE \<equiv> 0x1000"
abbreviation (input) PAGE_MASK :: u64 where "PAGE_MASK \<equiv> 0xFFF"

abbreviation (input) CLINT_BASE :: u64 where "CLINT_BASE \<equiv> 0x02000000"
abbreviation (input) CLINT_SIZE :: u64 where "CLINT_SIZE \<equiv> 0x00010000"
abbreviation (input) CLINT_MTIMECMP :: u64 where "CLINT_MTIMECMP \<equiv> 0x4000"
abbreviation (input) CLINT_MTIME :: u64 where "CLINT_MTIME \<equiv> 0xBFF8"
abbreviation (input) PLIC_BASE :: u64 where "PLIC_BASE \<equiv> 0x0C000000"
abbreviation (input) PLIC_SIZE :: u64 where "PLIC_SIZE \<equiv> 0x04000000"
abbreviation (input) UART0_BASE :: u64 where "UART0_BASE \<equiv> 0x10000000"
abbreviation (input) UART0_SIZE :: u64 where "UART0_SIZE \<equiv> 0x00001000"
abbreviation (input) UART0_IRQ :: nat where "UART0_IRQ \<equiv> 10"
abbreviation (input) VIRTIO_MMIO_BASE :: u64 where "VIRTIO_MMIO_BASE \<equiv> 0x10001000"
abbreviation (input) VIRTIO_MMIO_SIZE :: u64 where "VIRTIO_MMIO_SIZE \<equiv> 0x00001000"
abbreviation (input) VIRTIO_MMIO_COUNT :: nat where "VIRTIO_MMIO_COUNT \<equiv> 2"
abbreviation (input) VIRTIO_BLK_IRQ :: u32 where "VIRTIO_BLK_IRQ \<equiv> 8"
abbreviation (input) VIRTIO_NET_IRQ :: u32 where "VIRTIO_NET_IRQ \<equiv> 9"
abbreviation (input) RAM_BASE :: u64 where "RAM_BASE \<equiv> 0x80000000"
abbreviation (input) RAM_SIZE_DEFAULT :: u64 where "RAM_SIZE_DEFAULT \<equiv> 256 * 1024 * 1024"

subsection \<open>Devices\<close>

record rv64_uart =
  u_rbr :: u8
  u_thr :: u8
  u_ier :: u8
  u_iir :: u8
  u_lcr :: u8
  u_mcr :: u8
  u_lsr :: u8
  u_msr :: u8
  u_scr :: u8
  u_dll :: u8
  u_dlm :: u8
  u_rx_ready :: bool
  u_thre_pending :: bool
  u_tx_callback :: bool
  u_tx_log :: "u8 list"
  u_rx_buf :: "int \<Rightarrow> u8"
  u_rx_head :: int
  u_rx_tail :: int

record rv64_clint =
  c_mtimecmp :: u64
  c_mtime :: u64

record rv64_plic =
  p_priority :: "u32 \<Rightarrow> u32"
  p_pending :: "nat \<Rightarrow> u32"
  p_enable :: "nat \<Rightarrow> nat \<Rightarrow> u32"
  p_threshold :: "nat \<Rightarrow> u32"
  p_claim :: "nat \<Rightarrow> u32"

record rv64_reservation =
  rsv_valid :: bool
  rsv_addr :: u64

abbreviation (input) TLB_SIZE :: nat where "TLB_SIZE \<equiv> 4096"
abbreviation (input) TLB_INDEX_MASK :: u64 where "TLB_INDEX_MASK \<equiv> 0xFFF"

text \<open>\<open>te_host_base\<close> is the offset of the page in guest RAM, or \<open>None\<close> for a null pointer.\<close>

record tlb_entry =
  te_vpn :: u64
  te_ppn :: u64
  te_host_base :: "u64 option"
  te_perm :: u8
  te_level :: u8
  te_dirty :: bool
  te_valid :: bool

subsection \<open>Virtio\<close>

record virtio_queue =
  vq_num :: u32
  vq_ready :: u32
  vq_desc_addr :: u64
  vq_avail_addr :: u64
  vq_used_addr :: u64
  vq_last_avail :: u16

datatype slirp_call = Slirp_Input "u8 list" | Slirp_Poll

record slirp =
  sl_calls :: "slirp_call list"
  sl_packets :: "slirp_call list \<Rightarrow> u8 list list"

record virtio_mmio_dev =
  dev_device_id :: u32
  dev_irq :: u32
  dev_status :: u32
  dev_int_status :: u32
  dev_features_sel :: u32
  dev_drv_features_sel :: u32
  dev_dev_features :: u64
  dev_drv_features :: u64
  dev_queue_sel :: u32
  dev_config_gen :: u32
  dev_queues :: "nat \<Rightarrow> virtio_queue"
  dev_disk_data :: "mem option"
  dev_disk_size :: u64
  dev_slirp :: "slirp option"
  dev_ram :: bool
  dev_ram_size :: u64
  dev_rx_ring_buffers :: "nat \<Rightarrow> u8 list"
  dev_rx_ring_sizes :: "nat \<Rightarrow> nat"
  dev_rx_head :: int
  dev_rx_tail :: int
  dev_mark_dirty :: bool
  dev_dirty_log :: "(u64 \<times> u64) list"
  dev_blk_reads :: u64
  dev_blk_writes :: u64
  dev_blk_bytes_read :: u64
  dev_blk_bytes_written :: u64

text \<open>What an entry of \<open>cpu->virtio_devs\<close> points to.\<close>

datatype virtio_ref = Virtio_Blk | Virtio_Net

subsection \<open>Debug logs and profiling counters\<close>

record dbg_store =
  st_pc :: u64
  st_addr :: u64
  st_value :: u64
  st_size :: u32
  st_instret :: u64

record dbg_break =
  bk_pc :: u64
  bk_x :: "u32 \<Rightarrow> u64"
  bk_f :: "u32 \<Rightarrow> u64"
  bk_sp :: u64
  bk_instret :: u64

record dbg_trap =
  tl_cause :: u64
  tl_tval :: u64
  tl_pc :: u64
  tl_instret :: u64
  tl_priv :: u8
  tl_a7 :: u64
  tl_a0 :: u64
  tl_a1 :: u64
  tl_a2 :: u64
  tl_ret_a0 :: u64
  tl_ret_pc :: u64

record dbg_inst =
  il_pc :: u64
  il_insn :: u32
  il_instret :: u64

record dbg_console =
  cl_instret :: u64
  cl_console_pos :: int

abbreviation (input) DBG_STORE_LOG_SIZE :: nat where "DBG_STORE_LOG_SIZE \<equiv> 64"
abbreviation (input) DBG_BREAK_LOG_SIZE :: nat where "DBG_BREAK_LOG_SIZE \<equiv> 16"
abbreviation (input) DBG_TRAP_LOG_SIZE :: nat where "DBG_TRAP_LOG_SIZE \<equiv> 4096"
abbreviation (input) DBG_INST_LOG_SIZE :: nat where "DBG_INST_LOG_SIZE \<equiv> 4096"

record rv64_dbg =
  dbg_watch_addr :: u64
  dbg_watch_size :: u32
  dbg_watch_active :: bool
  dbg_break_pc :: u64
  dbg_break_active :: bool
  dbg_break_halt :: bool
  dbg_debug_halt :: bool
  dbg_store_log :: "nat \<Rightarrow> dbg_store"
  dbg_store_log_count :: int
  dbg_break_log :: "nat \<Rightarrow> dbg_break"
  dbg_break_log_count :: int
  dbg_console_log :: "nat \<Rightarrow> dbg_console"
  dbg_console_log_count :: int
  dbg_trap_log :: "nat \<Rightarrow> dbg_trap"
  dbg_trap_log_count :: int
  dbg_trap_log_last_slot :: nat
  dbg_inst_log :: "nat \<Rightarrow> dbg_inst"
  dbg_inst_log_idx :: int

record perf_sample =
  ps_pc :: u64
  ps_ra :: u64
  ps_fp :: u64

abbreviation (input) DBG_PERF_LOG_SIZE :: u32 where "DBG_PERF_LOG_SIZE \<equiv> 65536"

record rv64_prof =
  prof_exec_cycles :: u64
  prof_wfi_cycles :: u64
  prof_irq_checks :: u64
  prof_irq_taken :: u64
  prof_mmu_walks :: u64
  prof_mmu_walk_steps :: u64
  prof_tlb_hits :: u64
  prof_tlb_misses :: u64
  prof_insn_alu :: u64
  prof_insn_load :: u64
  prof_insn_store :: u64
  prof_insn_branch :: u64
  prof_insn_jump :: u64
  prof_insn_csr :: u64
  prof_insn_fpu :: u64
  prof_insn_atomic :: u64
  prof_insn_system :: u64
  prof_insn_other :: u64
  prof_blk_reads :: u64
  prof_blk_writes :: u64
  prof_blk_bytes_read :: u64
  prof_blk_bytes_written :: u64
  prof_perf_samples :: "u32 \<Rightarrow> perf_sample"
  prof_perf_sample_idx :: u32
  prof_perf_sample_tick :: u32

subsection \<open>The translation cache of the just-in-time compiler\<close>

text \<open>
  \<open>jb_host_code\<close> is the compiled block: \<open>None\<close> is the null pointer that marks a block the
  compiler gave up on. Nothing below depends on what the code is, so its type is a parameter.
\<close>

record 'c jit_block =
  jb_guest_pc :: u64
  jb_host_code :: "'c option"
  jb_insn_count :: u32
  jb_valid :: bool
  jb_has_store :: bool
  jb_pending :: bool

record 'c jit_state =
  jit_cache :: "u32 \<Rightarrow> 'c jit_block"
  jit_enabled :: bool
  jit_stat_jit_insns :: u64
  jit_rt_max_block_insns :: int
  jit_disabled_ops :: "nat \<Rightarrow> u64"

subsection \<open>The processor\<close>

datatype run_exit = RUN_EXIT_NONE | RUN_EXIT_BUDGET | RUN_EXIT_ERROR
  | RUN_EXIT_DEBUG_HALT | RUN_EXIT_WFI_TIMEOUT

record 'c rv64_cpu =
  cpu_x :: "u32 \<Rightarrow> u64"
  cpu_pc :: u64
  cpu_f :: "u32 \<Rightarrow> u64"
  cpu_fcsr :: u32
  cpu_priv :: u8
  cpu_mstatus :: u64
  cpu_misa :: u64
  cpu_medeleg :: u64
  cpu_mideleg :: u64
  cpu_mie :: u64
  cpu_mtvec :: u64
  cpu_mcounteren :: u64
  cpu_mscratch :: u64
  cpu_mepc :: u64
  cpu_mcause :: u64
  cpu_mtval :: u64
  cpu_mip :: u64
  cpu_satp :: u64
  cpu_sscratch :: u64
  cpu_sepc :: u64
  cpu_scause :: u64
  cpu_stval :: u64
  cpu_stvec :: u64
  cpu_scounteren :: u64
  cpu_stimecmp :: u64
  cpu_menvcfg :: u64
  cpu_cycle :: u64
  cpu_instret :: u64
  cpu_pmpcfg :: "nat \<Rightarrow> u64"
  cpu_pmpaddr :: "u32 \<Rightarrow> u64"
  cpu_reservation :: rv64_reservation
  cpu_tlb :: "u64 \<Rightarrow> tlb_entry"
  cpu_uart :: rv64_uart
  cpu_clint :: rv64_clint
  cpu_plic :: rv64_plic
  cpu_virtio_blk :: virtio_mmio_dev
  cpu_virtio_net :: virtio_mmio_dev
  cpu_virtio_devs :: "nat \<Rightarrow> virtio_ref option"
  cpu_id :: u64
  cpu_ram_size :: u64
  cpu_jit :: "'c jit_state option"
  cpu_pending_irq_check :: bool
  cpu_halted :: bool
  cpu_error :: bool
  cpu_run_exit_reason :: run_exit
  cpu_dbg :: rv64_dbg
  cpu_prof :: rv64_prof

text \<open>
  The processor together with what it reaches outside its structure: the guest RAM that
  \<open>get_guest_ram_ptr\<close> returns (\<open>None\<close> is the null pointer; the block behind a non-null
  pointer has \<open>cpu_ram_size\<close> bytes), and the host's monotonic clock: the reading that each
  \<open>clock_gettime\<close> in turn returns, in nanoseconds, and how many have been taken.
\<close>

record 'c vm = "'c rv64_cpu" +
  vm_ram :: "mem option"
  vm_clock :: "nat \<Rightarrow> u64"
  vm_clock_reads :: nat
  vm_boot_time_ns :: u64

end
