(* ===== verification/RV_Uart.thy ===== *)
theory RV_Uart
  imports RV_State
begin

text \<open>
  The 16550 console port of \<open>rv64_bus.c\<close>: register reads (which may take a byte out of the
  receive ring) and writes (which may send one), and the enqueueing half of \<open>rv64_uart_rx\<close>.

  The receive ring is shown to implement a bounded byte queue: the locale \<open>byte_queue\<close>
  states what a queue of at most \<open>cap\<close> bytes promises, and the ring of the code is an
  instance of it with capacity 255.
\<close>

subsection \<open>Registers\<close>

definition uart_dlab :: "rv64_uart \<Rightarrow> bool" where
  "uart_dlab u \<longleftrightarrow> shr (u_lcr u) 7 AND 1 \<noteq> 0"

text \<open>The dequeue of a receive-buffer read.\<close>

definition uart_pop :: "rv64_uart \<Rightarrow> u64 \<times> rv64_uart" where
  "uart_pop u =
     (let u1 = (if u_rx_head u \<noteq> u_rx_tail u
                then u\<lparr>u_rbr := u_rx_buf u (u_rx_tail u),
                       u_rx_tail := (u_rx_tail u + 1) AND 0xFF\<rparr>
                else u);
          u2 = u1\<lparr>u_rx_ready := (u_rx_head u1 \<noteq> u_rx_tail u1)\<rparr>
      in (ucast (u_rbr u2), u2))"

definition uart_load :: "rv64_uart \<Rightarrow> u64 \<Rightarrow> u64 \<times> rv64_uart" where
  "uart_load u offset =
     (if offset = 0 then
        (if uart_dlab u then (ucast (u_dll u), u) else uart_pop u)
      else if offset = 1 then
        ((if uart_dlab u then ucast (u_dlm u) else ucast (u_ier u)), u)
      else if offset = 2 then
        (if u_rx_ready u \<and> u_ier u AND 1 \<noteq> 0 then (0x04, u)
         else if u_ier u AND 2 \<noteq> 0 then (0x02, u\<lparr>u_thre_pending := False\<rparr>)
         else (0x01, u))
      else if offset = 3 then (ucast (u_lcr u), u)
      else if offset = 4 then (ucast (u_mcr u), u)
      else if offset = 5 then ((if u_rx_ready u then 0x01 else 0) OR 0x60, u)
      else if offset = 6 then (ucast (u_msr u), u)
      else if offset = 7 then (ucast (u_scr u), u)
      else (0, u))"

text \<open>A character that is sent appears in \<open>u_tx_log\<close> when the callback is set.\<close>

definition uart_transmit :: "rv64_uart \<Rightarrow> u8 \<Rightarrow> rv64_uart" where
  "uart_transmit u ch = (if u_tx_callback u then u\<lparr>u_tx_log := u_tx_log u @ [ch]\<rparr> else u)"

definition uart_store :: "rv64_uart \<Rightarrow> u64 \<Rightarrow> u64 \<Rightarrow> rv64_uart" where
  "uart_store u offset val =
     (if offset = 0 then
        (if uart_dlab u then u\<lparr>u_dll := ucast (val AND 0xFF)\<rparr>
         else let u1 = uart_transmit u (ucast val)
              in if u_ier u1 AND 2 \<noteq> 0 then u1\<lparr>u_thre_pending := True\<rparr> else u1)
      else if offset = 1 then
        (if uart_dlab u then u\<lparr>u_dlm := ucast (val AND 0xFF)\<rparr>
         else let u1 = u\<lparr>u_ier := ucast (val AND 0x0F)\<rparr>
              in u1\<lparr>u_thre_pending := (u_ier u1 AND 2 \<noteq> 0)\<rparr>)
      else if offset = 2 then u
      else if offset = 3 then u\<lparr>u_lcr := ucast (val AND 0xFF)\<rparr>
      else if offset = 4 then u\<lparr>u_mcr := ucast (val AND 0x1F)\<rparr>
      else if offset = 7 then u\<lparr>u_scr := ucast (val AND 0xFF)\<rparr>
      else u)"

text \<open>A byte that arrives is dropped when the ring is full.\<close>

definition uart_push :: "rv64_uart \<Rightarrow> u8 \<Rightarrow> rv64_uart" where
  "uart_push u ch =
     (let next = (u_rx_head u + 1) AND 0xFF
      in if next \<noteq> u_rx_tail u
         then u\<lparr>u_rx_buf := (u_rx_buf u)(u_rx_head u := ch), u_rx_head := next,
                u_rx_ready := True\<rparr>
         else u)"

text \<open>The interrupt condition that \<open>bus_store\<close> tests after a write to the port.\<close>

definition uart_irq :: "rv64_uart \<Rightarrow> bool" where
  "uart_irq u \<longleftrightarrow> u_thre_pending u \<or> (u_rx_ready u \<and> u_ier u AND 1 \<noteq> 0)"

subsection \<open>The receive ring as a bounded queue\<close>

locale byte_queue =
  fixes push :: "'q \<Rightarrow> u8 \<Rightarrow> 'q"
    and pop :: "'q \<Rightarrow> 'q"
    and front :: "'q \<Rightarrow> u8"
    and contents :: "'q \<Rightarrow> u8 list"
    and inv :: "'q \<Rightarrow> bool"
    and cap :: nat
  assumes push_room: "inv q \<Longrightarrow> length (contents q) < cap \<Longrightarrow>
      contents (push q b) = contents q @ [b]"
    and push_full: "inv q \<Longrightarrow> length (contents q) = cap \<Longrightarrow> contents (push q b) = contents q"
    and pop_contents: "inv q \<Longrightarrow> contents (pop q) = tl (contents q)"
    and front_contents: "inv q \<Longrightarrow> contents q \<noteq> [] \<Longrightarrow> front q = hd (contents q)"
    and inv_push: "inv q \<Longrightarrow> inv (push q b)"
    and inv_pop: "inv q \<Longrightarrow> inv (pop q)"
    and inv_bound: "inv q \<Longrightarrow> length (contents q) \<le> cap"
begin

text \<open>Pushing a burst into a queue keeps the bytes that fit, in order, and drops the rest.\<close>

lemma push_burst:
  "inv q \<Longrightarrow>
     inv (foldl push q bs) \<and>
     contents (foldl push q bs) = contents q @ take (cap - length (contents q)) bs"
proof (induction bs arbitrary: q)
  case Nil
  then show ?case by simp
next
  case (Cons b bs)
  have inv': "inv (push q b)" using Cons.prems by (rule inv_push)
  show ?case
  proof (cases "length (contents q) < cap")
    case True
    with Cons.prems have "contents (push q b) = contents q @ [b]" by (rule push_room)
    moreover from True have "cap - length (contents q) = Suc (cap - Suc (length (contents q)))"
      by simp
    ultimately show ?thesis using Cons.IH [OF inv'] by simp
  next
    case False
    with inv_bound [OF Cons.prems] have full: "length (contents q) = cap" by simp
    with Cons.prems have "contents (push q b) = contents q" by (rule push_full)
    with full show ?thesis using Cons.IH [OF inv'] by simp
  qed
qed

text \<open>Reading \<open>n\<close> times returns the first \<open>n\<close> bytes in the order they were pushed.\<close>

fun drain :: "nat \<Rightarrow> 'q \<Rightarrow> u8 list" where
  "drain 0 q = []"
| "drain (Suc n) q = front q # drain n (pop q)"

lemma drain_take: "inv q \<Longrightarrow> n \<le> length (contents q) \<Longrightarrow> drain n q = take n (contents q)"
proof (induction n arbitrary: q)
  case 0
  then show ?case by simp
next
  case (Suc n)
  then have ne: "contents q \<noteq> []" by auto
  have "drain n (pop q) = take n (tl (contents q))"
    using Suc by (simp add: pop_contents inv_pop)
  with ne Suc.prems show ?case
    by (cases "contents q") (simp_all add: front_contents)
qed

end

text \<open>Indices stay in the array, and the flag says whether a byte is waiting.\<close>

definition uart_inv :: "rv64_uart \<Rightarrow> bool" where
  "uart_inv u \<longleftrightarrow> 0 \<le> u_rx_head u \<and> u_rx_head u < 256 \<and> 0 \<le> u_rx_tail u \<and> u_rx_tail u < 256 \<and>
     (u_rx_ready u \<longleftrightarrow> u_rx_head u \<noteq> u_rx_tail u)"

definition uart_level :: "rv64_uart \<Rightarrow> nat" where
  "uart_level u = nat ((u_rx_head u - u_rx_tail u) mod 256)"

definition uart_contents :: "rv64_uart \<Rightarrow> u8 list" where
  "uart_contents u = map (\<lambda>i. u_rx_buf u ((u_rx_tail u + int i) mod 256)) [0..<uart_level u]"

lemma and_0xFF: "(n :: int) AND 0xFF = n mod 256"
  using take_bit_eq_mask [of 8 n] by (simp add: mask_eq_exp_minus_1 take_bit_eq_mod)

text \<open>Arithmetic modulo 256 on indices that are in range.\<close>

lemma ring_diff:
  fixes h t :: int
  assumes "0 \<le> h" "h < 256" "0 \<le> t" "t < 256"
  shows "(h - t) mod 256 = (if t \<le> h then h - t else h - t + 256)"
  using assms mod_add_self2 [of "h - t" 256] mod_pos_pos_trivial [of "h - t + 256" 256]
    mod_pos_pos_trivial [of "h - t" 256] by (auto simp del: mod_add_self2)

lemma ring_add:
  fixes t i :: int
  assumes "0 \<le> t" "t < 256" "0 \<le> i" "i < 256"
  shows "(t + i) mod 256 = (if t + i < 256 then t + i else t + i - 256)"
  using assms minus_mod_self2 [of "t + i" 256] mod_pos_pos_trivial [of "t + i - 256" 256]
    mod_pos_pos_trivial [of "t + i" 256] by (auto simp del: minus_mod_self2)

lemma uart_level_eq:
  "uart_inv u \<Longrightarrow> uart_level u =
     nat (if u_rx_tail u \<le> u_rx_head u then u_rx_head u - u_rx_tail u
          else u_rx_head u - u_rx_tail u + 256)"
  by (simp add: uart_level_def uart_inv_def ring_diff)

lemma uart_next_eq:
  "uart_inv u \<Longrightarrow> (u_rx_head u + 1) mod 256 = (if u_rx_head u = 255 then 0 else u_rx_head u + 1)"
  "uart_inv u \<Longrightarrow> (u_rx_tail u + 1) mod 256 = (if u_rx_tail u = 255 then 0 else u_rx_tail u + 1)"
  by (auto simp: uart_inv_def ring_add)

lemma uart_level_bound: "uart_level u \<le> 255"
  unfolding uart_level_def using pos_mod_bound [of 256 "u_rx_head u - u_rx_tail u"] by linarith

lemma length_uart_contents [simp]: "length (uart_contents u) = uart_level u"
  by (simp add: uart_contents_def)

lemma uart_level_zero: "uart_inv u \<Longrightarrow> uart_level u = 0 \<longleftrightarrow> u_rx_head u = u_rx_tail u"
  by (auto simp: uart_level_eq) (auto simp: uart_inv_def)

lemma uart_push_next:
  "uart_inv u \<Longrightarrow> (u_rx_head u + 1) mod 256 = u_rx_tail u \<longleftrightarrow> uart_level u = 255"
  by (auto simp: uart_level_eq uart_next_eq) (auto simp: uart_inv_def)

lemma uart_push_inv: "uart_inv u \<Longrightarrow> uart_inv (uart_push u b)"
  by (auto simp: uart_inv_def uart_push_def and_0xFF Let_def)

lemma uart_pop_inv: "uart_inv u \<Longrightarrow> uart_inv (snd (uart_pop u))"
  by (auto simp: uart_inv_def uart_pop_def and_0xFF Let_def)

lemma uart_push_full: "uart_inv u \<Longrightarrow> uart_level u = 255 \<Longrightarrow> uart_push u b = u"
  by (simp add: uart_push_def and_0xFF uart_push_next)

lemma uart_push_room:
  assumes inv: "uart_inv u" and room: "uart_level u < 255"
  shows "uart_contents (uart_push u b) = uart_contents u @ [b]"
proof -
  let ?h = "u_rx_head u" and ?t = "u_rx_tail u"
  have next_ne: "(?h + 1) mod 256 \<noteq> ?t"
    using uart_push_next [OF inv] room by simp
  have fields: "u_rx_head (uart_push u b) = (?h + 1) mod 256" "u_rx_tail (uart_push u b) = ?t"
    "u_rx_buf (uart_push u b) = (u_rx_buf u)(?h := b)"
    using next_ne by (simp_all add: uart_push_def and_0xFF Let_def)
  have level: "uart_level (uart_push u b) = Suc (uart_level u)"
    using next_ne inv uart_push_inv [OF inv, of b]
    by (auto simp: uart_level_eq fields uart_next_eq) (auto simp: uart_inv_def)
  have idx: "(?t + int i) mod 256 = ?h \<longleftrightarrow> i = uart_level u" if "i \<le> uart_level u" for i
    using inv that by (auto simp: uart_level_eq ring_add uart_inv_def split: if_splits)
  show ?thesis
    using idx by (simp add: uart_contents_def level fields)
qed

lemma uart_pop_contents:
  assumes inv: "uart_inv u"
  shows "uart_contents (snd (uart_pop u)) = tl (uart_contents u)"
proof (cases "u_rx_head u = u_rx_tail u")
  case True
  then show ?thesis
    by (simp add: uart_pop_def uart_contents_def uart_level_def Let_def)
next
  case False
  let ?h = "u_rx_head u" and ?t = "u_rx_tail u" and ?u = "snd (uart_pop u)"
  have fields: "u_rx_head ?u = ?h" "u_rx_tail ?u = (?t + 1) mod 256" "u_rx_buf ?u = u_rx_buf u"
    using False by (simp_all add: uart_pop_def and_0xFF Let_def)
  have level: "uart_level u = Suc (uart_level ?u)"
    using False inv uart_pop_inv [OF inv]
    by (auto simp: uart_level_eq fields uart_next_eq) (auto simp: uart_inv_def)
  have shift: "((?t + 1) mod 256 + int i) mod 256 = (?t + int (Suc i)) mod 256" for i
    by (simp add: mod_simps add.assoc)
  show ?thesis
  proof (rule nth_equalityI)
    fix i assume "i < length (uart_contents ?u)"
    then have "i < uart_level ?u" by simp
    moreover from this level have "Suc i < uart_level u" by simp
    ultimately show "uart_contents ?u ! i = tl (uart_contents u) ! i"
      by (simp add: uart_contents_def nth_tl fields shift del: of_nat_Suc upt_Suc)
  qed (simp add: level)
qed

lemma uart_pop_value:
  assumes "uart_inv u" and "uart_contents u \<noteq> []"
  shows "fst (uart_pop u) = ucast (hd (uart_contents u))"
proof -
  have lvl: "0 < uart_level u" using assms(2) by (metis length_uart_contents length_greater_0_conv)
  with uart_level_zero [OF assms(1)] have "u_rx_head u \<noteq> u_rx_tail u" by simp
  moreover from assms(1) have "u_rx_tail u mod 256 = u_rx_tail u" by (simp add: uart_inv_def)
  ultimately show ?thesis
    using lvl by (simp add: uart_pop_def uart_contents_def hd_map Let_def)
qed

interpretation uart_ring: byte_queue uart_push "\<lambda>u. snd (uart_pop u)"
  "\<lambda>u. ucast (fst (uart_pop u))" uart_contents uart_inv 255
  by unfold_locales
    (simp_all add: uart_push_room uart_push_full uart_pop_contents uart_pop_value uart_push_inv
       uart_pop_inv uart_level_bound ucast_down_ucast_id is_down)

subsection \<open>The console input path\<close>

text \<open>The port after \<open>rv64_init\<close>: zeroed, with the transmitter-empty bits set.\<close>

definition uart_reset :: rv64_uart where
  "uart_reset = \<lparr>u_rbr = 0, u_thr = 0, u_ier = 0, u_iir = 0, u_lcr = 0, u_mcr = 0, u_lsr = 0x60,
     u_msr = 0, u_scr = 0, u_dll = 0, u_dlm = 0, u_rx_ready = False, u_thre_pending = False,
     u_tx_callback = False, u_tx_log = [], u_rx_buf = (\<lambda>_. 0), u_rx_head = 0, u_rx_tail = 0\<rparr>"

text \<open>A driver that reads the receive buffer register \<open>n\<close> times.\<close>

fun uart_reads :: "nat \<Rightarrow> rv64_uart \<Rightarrow> u64 list" where
  "uart_reads 0 u = []"
| "uart_reads (Suc n) u = (let (v, u') = uart_load u 0 in v # uart_reads n u')"

lemma uart_pop_dlab [simp]: "uart_dlab (snd (uart_pop u)) = uart_dlab u"
  by (simp add: uart_dlab_def uart_pop_def Let_def)

lemma uart_push_dlab [simp]: "uart_dlab (uart_push u b) = uart_dlab u"
  by (simp add: uart_dlab_def uart_push_def Let_def)

lemma uart_burst_dlab [simp]: "uart_dlab (foldl uart_push u bs) = uart_dlab u"
  by (induction bs arbitrary: u) simp_all

lemma uart_reads_drain:
  "\<not> uart_dlab u \<Longrightarrow> uart_reads n u = map ucast (uart_ring.drain n u)"
proof (induction n arbitrary: u)
  case 0
  then show ?case by simp
next
  case (Suc n)
  have "fst (uart_pop u) = ucast (ucast (fst (uart_pop u)) :: u8)"
    by (simp add: uart_pop_def Let_def ucast_down_ucast_id is_down)
  with Suc show ?case
    by (simp add: uart_load_def split_def Let_def)
qed

text \<open>C24. Console input is delivered in order and without duplication: after any burst of
  bytes from the host, the driver's reads of the receive register return the bytes that were
  waiting followed by the burst, cut at the 255 bytes that the ring holds.\<close>

theorem uart_burst_fifo:
  assumes "uart_inv u" "\<not> uart_dlab u"
    and "n \<le> length (uart_contents u @ take (255 - uart_level u) bs)"
  shows "uart_reads n (foldl uart_push u bs) =
    map ucast (take n (uart_contents u @ take (255 - uart_level u) bs))"
  using assms uart_ring.push_burst [OF assms(1), of bs]
    uart_ring.drain_take [of "foldl uart_push u bs" n]
  by (simp add: uart_reads_drain)

theorem uart_burst_fifo_witness:
  "uart_reads 2 (foldl uart_push uart_reset [0x68, 0x69]) = [0x68, 0x69]"
  using uart_burst_fifo [of uart_reset 2 "[0x68, 0x69]"]
  by (simp add: uart_inv_def uart_reset_def uart_dlab_def uart_contents_def uart_level_def)

end
