(* ===== verification/RV_Irqchip.thy ===== *)
theory RV_Irqchip
  imports RV_State
begin

text \<open>
  The core-local timer (CLINT) and the platform interrupt controller (PLIC) of
  \<open>rv64_bus.c\<close>, with what a claim does: it takes the lowest-numbered interrupt that is
  pending and enabled in the context and clears its pending bit.
\<close>

subsection \<open>CLINT\<close>

definition clint_load :: "rv64_clint \<Rightarrow> u64 \<Rightarrow> u64" where
  "clint_load c offset =
     (if offset = 0x0000 then 0
      else if offset = CLINT_MTIMECMP \<or> offset = CLINT_MTIMECMP + 4 then
        (if offset = CLINT_MTIMECMP then c_mtimecmp c AND 0xFFFFFFFF else shr (c_mtimecmp c) 32)
      else if offset = CLINT_MTIME \<or> offset = CLINT_MTIME + 4 then
        (if offset = CLINT_MTIME then c_mtime c AND 0xFFFFFFFF else shr (c_mtime c) 32)
      else 0)"

definition clint_store :: "rv64_clint \<Rightarrow> u64 \<Rightarrow> u64 \<Rightarrow> nat \<Rightarrow> rv64_clint" where
  "clint_store c offset val sz =
     (if offset = 0x0000 then c
      else if offset = CLINT_MTIMECMP then
        (if sz = 8 then c\<lparr>c_mtimecmp := val\<rparr>
         else c\<lparr>c_mtimecmp := (c_mtimecmp c AND 0xFFFFFFFF00000000) OR (val AND 0xFFFFFFFF)\<rparr>)
      else if offset = CLINT_MTIMECMP + 4 then
        c\<lparr>c_mtimecmp := (c_mtimecmp c AND 0xFFFFFFFF) OR shl (val AND 0xFFFFFFFF) 32\<rparr>
      else if offset = CLINT_MTIME then
        (if sz = 8 then c\<lparr>c_mtime := val\<rparr>
         else c\<lparr>c_mtime := (c_mtime c AND 0xFFFFFFFF00000000) OR (val AND 0xFFFFFFFF)\<rparr>)
      else if offset = CLINT_MTIME + 4 then
        c\<lparr>c_mtime := (c_mtime c AND 0xFFFFFFFF) OR shl (val AND 0xFFFFFFFF) 32\<rparr>
      else c)"

lemma and_low32: "(w :: u64) AND 0xFFFFFFFF = take_bit 32 w"
  by (simp add: take_bit_eq_mask mask_eq_exp_minus_1)

lemma and_high32: "(w :: u64) AND 0xFFFFFFFF00000000 = shl (shr w 32) 32"
proof -
  have "(0xFFFFFFFF00000000 :: u64) = NOT (mask 32)" by (simp add: mask_eq_exp_minus_1)
  show ?thesis unfolding \<open>0xFFFFFFFF00000000 = NOT (mask 32)\<close>
    by (rule bit_word_eqI) (auto simp: bit_simps not_less)
qed

lemma join_halves: "take_bit 32 (w :: u64) OR shl (shr w 32) 32 = w"
proof (rule bit_word_eqI)
  fix n show "bit (take_bit 32 w OR shl (shr w 32) 32) n = bit w n"
    by (cases "n < 32") (auto simp: bit_simps dest: bit_imp_le_length)
qed

text \<open>A 64-bit compare value written as two 32-bit halves, in either order, is that value.\<close>

lemma clint_mtimecmp_halves:
  "c_mtimecmp (clint_store (clint_store c CLINT_MTIMECMP lo 4) (CLINT_MTIMECMP + 4) hi 4)
     = take_bit 32 lo OR shl hi 32"
  "c_mtimecmp (clint_store (clint_store c (CLINT_MTIMECMP + 4) hi 4) CLINT_MTIMECMP lo 4)
     = take_bit 32 lo OR shl hi 32"
  by (simp_all add: clint_store_def and_low32 and_high32)
    (rule bit_word_eqI, auto simp: bit_simps)+

subsection \<open>PLIC\<close>

definition plic_irq_bit :: "nat \<Rightarrow> u32" where
  "plic_irq_bit i = shl 1 (i mod 32)"

definition plic_ready :: "rv64_plic \<Rightarrow> nat \<Rightarrow> nat \<Rightarrow> bool" where
  "plic_ready p ctx i \<longleftrightarrow>
     p_pending p (i div 32) AND p_enable p ctx (i div 32) AND plic_irq_bit i \<noteq> 0"

text \<open>The loop of the claim: \<open>n\<close> candidates are left, \<open>i\<close> is the next.\<close>

fun plic_claim_loop :: "rv64_plic \<Rightarrow> nat \<Rightarrow> nat \<Rightarrow> nat \<Rightarrow> u64 \<times> rv64_plic" where
  "plic_claim_loop p ctx i 0 = (0, p)"
| "plic_claim_loop p ctx i (Suc n) =
     (if plic_ready p ctx i
      then (of_nat i,
            p\<lparr>p_pending := (p_pending p)(i div 32 := p_pending p (i div 32) AND NOT (plic_irq_bit i)),
              p_claim := (p_claim p)(ctx := of_nat i)\<rparr>)
      else plic_claim_loop p ctx (Suc i) n)"

definition plic_claim :: "rv64_plic \<Rightarrow> nat \<Rightarrow> u64 \<times> rv64_plic" where
  "plic_claim p ctx = plic_claim_loop p ctx 1 63"

definition plic_load :: "rv64_plic \<Rightarrow> u64 \<Rightarrow> u64 \<times> rv64_plic" where
  "plic_load p offset =
     (if offset < 0x1000 then
        (let src = ucast (offset div 4) :: u32
         in ((if src < 64 then ucast (p_priority p src) else 0), p))
      else if offset \<ge> 0x1000 \<and> offset < 0x1080 then
        (let idx = unat ((offset - 0x1000) div 4)
         in ((if idx < 2 then ucast (p_pending p idx) else 0), p))
      else if offset \<ge> 0x2000 \<and> offset < 0x2100 then
        (let ctx = (if offset \<ge> 0x2080 then 1 else 0);
             base = (if ctx = 1 then 0x2080 else 0x2000);
             idx = unat ((offset - base) div 4)
         in ((if idx < 2 then ucast (p_enable p ctx idx) else 0), p))
      else if offset \<ge> 0x200000 \<and> offset < 0x202000 then
        (let ctx = (if offset \<ge> 0x201000 then 1 else 0);
             off = offset - (if ctx = 1 then 0x201000 else 0x200000)
         in if off = 0 then (ucast (p_threshold p ctx), p)
            else if off = 4 then plic_claim p ctx
            else (0, p))
      else (0, p))"

definition plic_store :: "rv64_plic \<Rightarrow> u64 \<Rightarrow> u64 \<Rightarrow> rv64_plic" where
  "plic_store p offset val =
     (if offset < 0x1000 then
        (let src = ucast (offset div 4) :: u32
         in if src < 64 then p\<lparr>p_priority := (p_priority p)(src := ucast (val AND 0x7))\<rparr> else p)
      else if offset \<ge> 0x2000 \<and> offset < 0x2100 then
        (let ctx = (if offset \<ge> 0x2080 then 1 else 0);
             base = (if ctx = 1 then 0x2080 else 0x2000);
             idx = unat ((offset - base) div 4)
         in if idx < 2
            then p\<lparr>p_enable := (p_enable p)(ctx := (p_enable p ctx)(idx := ucast val))\<rparr>
            else p)
      else if offset \<ge> 0x200000 \<and> offset < 0x202000 then
        (let ctx = (if offset \<ge> 0x201000 then 1 else 0);
             off = offset - (if ctx = 1 then 0x201000 else 0x200000);
             p1 = (if off = 0
                   then p\<lparr>p_threshold := (p_threshold p)(ctx := ucast (val AND 0x7))\<rparr> else p)
         in if off = 4 then p1\<lparr>p_claim := (p_claim p1)(ctx := 0)\<rparr> else p1)
      else p)"

definition plic_raise :: "rv64_plic \<Rightarrow> nat \<Rightarrow> rv64_plic" where
  "plic_raise p irq =
     p\<lparr>p_pending := (p_pending p)(irq div 32 := p_pending p (irq div 32) OR plic_irq_bit irq)\<rparr>"

lemma bit_plic_irq_bit: "bit (plic_irq_bit i) n \<longleftrightarrow> n = i mod 32"
  by (auto simp: plic_irq_bit_def bit_simps)

lemma and_plic_irq_bit: "w AND plic_irq_bit i \<noteq> 0 \<longleftrightarrow> bit w (i mod 32)"
  by (auto simp: bit_eq_iff [of "w AND _"] bit_simps bit_plic_irq_bit)

lemma plic_ready_iff:
  "plic_ready p ctx i \<longleftrightarrow>
     bit (p_pending p (i div 32)) (i mod 32) \<and> bit (p_enable p ctx (i div 32)) (i mod 32)"
  by (simp add: plic_ready_def and_plic_irq_bit bit_simps flip: and.assoc)

lemma plic_claim_loop_none:
  "(\<And>j. i \<le> j \<Longrightarrow> j < i + n \<Longrightarrow> \<not> plic_ready p ctx j) \<Longrightarrow> plic_claim_loop p ctx i n = (0, p)"
  by (induction n arbitrary: i) auto

lemma plic_claim_loop_least:
  "i \<le> k \<Longrightarrow> k < i + n \<Longrightarrow> plic_ready p ctx k \<Longrightarrow>
   (\<And>j. i \<le> j \<Longrightarrow> j < k \<Longrightarrow> \<not> plic_ready p ctx j) \<Longrightarrow>
   plic_claim_loop p ctx i n = plic_claim_loop p ctx k 1"
proof (induction n arbitrary: i)
  case 0
  then show ?case by simp
next
  case (Suc n)
  show ?case
  proof (cases "i = k")
    case True
    with Suc.prems show ?thesis by simp
  next
    case False
    with Suc.prems have "\<not> plic_ready p ctx i" by simp
    with False Suc show ?thesis by simp
  qed
qed

lemma plic_ready_raise:
  "plic_ready (plic_raise p irq) ctx i \<longleftrightarrow>
     (if i = irq then bit (p_enable p ctx (i div 32)) (i mod 32) else plic_ready p ctx i)"
proof -
  have "i div 32 = irq div 32 \<Longrightarrow> i mod 32 = irq mod 32 \<Longrightarrow> i = irq"
    by (metis div_mod_decomp)
  then show ?thesis
    by (auto simp: plic_ready_iff plic_raise_def bit_simps bit_plic_irq_bit)
qed

text \<open>What a claim leaves behind: the claimed source is no longer ready, every other one is
  as before.\<close>

lemma plic_ready_after_claim:
  assumes "plic_ready p ctx k"
  shows "plic_ready (snd (plic_claim_loop p ctx k 1)) c i \<longleftrightarrow> i \<noteq> k \<and> plic_ready p c i"
proof -
  have "i div 32 = k div 32 \<Longrightarrow> i mod 32 = k mod 32 \<Longrightarrow> i = k"
    by (metis div_mod_decomp)
  with assms show ?thesis
    by (auto simp: plic_ready_iff bit_simps bit_plic_irq_bit)
qed

text \<open>The claim register of a context.\<close>

abbreviation plic_claim_reg :: "nat \<Rightarrow> u64" where
  "plic_claim_reg ctx \<equiv> (if ctx = 1 then 0x201004 else 0x200004)"

lemma plic_load_claim: "ctx < 2 \<Longrightarrow> plic_load p (plic_claim_reg ctx) = plic_claim p ctx"
  by (auto simp: plic_load_def less_2_cases_iff)

text \<open>A read of a claim register returns the lowest-numbered source that is pending and
  enabled in the context, and takes exactly that source out of the pending set of every
  context.\<close>

theorem plic_claim_lowest:
  assumes "ctx < 2" "1 \<le> k" "k < 64" "plic_ready p ctx k"
    and "\<forall>j. 1 \<le> j \<and> j < k \<longrightarrow> \<not> plic_ready p ctx j"
  shows "fst (plic_load p (plic_claim_reg ctx)) = of_nat k \<and>
    (plic_ready (snd (plic_load p (plic_claim_reg ctx))) c i \<longleftrightarrow> i \<noteq> k \<and> plic_ready p c i)"
proof -
  have claim: "plic_load p (plic_claim_reg ctx) = plic_claim_loop p ctx k 1"
    using assms plic_claim_loop_least [of 1 k 63 p ctx] unfolding plic_load_claim [OF assms(1)]
    by (simp add: plic_claim_def)
  show ?thesis
    unfolding claim using plic_ready_after_claim [OF assms(4)] assms(4) by simp
qed

definition plic_zero :: rv64_plic where
  "plic_zero = \<lparr>p_priority = (\<lambda>_. 0), p_pending = (\<lambda>_. 0), p_enable = (\<lambda>_ _. 0),
     p_threshold = (\<lambda>_. 0), p_claim = (\<lambda>_. 0)\<rparr>"

text \<open>Two sources wait in context 1, the higher-numbered one with the higher priority.\<close>

definition plic_two_sources :: rv64_plic where
  "plic_two_sources = plic_zero\<lparr>p_priority := (\<lambda>i. if i = 10 then 7 else 1),
     p_pending := (\<lambda>_. 0x500), p_enable := (\<lambda>_ _. 0x500)\<rparr>"

theorem plic_claim_lowest_witness:
  "fst (plic_load plic_two_sources 0x201004) = 8 \<and>
   \<not> plic_ready (snd (plic_load plic_two_sources 0x201004)) 1 8"
proof -
  have "plic_ready plic_two_sources 1 8"
    by (simp add: plic_two_sources_def plic_ready_def plic_irq_bit_def)
  moreover have "\<not> plic_ready plic_two_sources 1 j" if "j < 8" for j
  proof -
    have "j \<in> {0, 1, 2, 3, 4, 5, 6, 7}" using that by auto
    then show ?thesis
      by (auto simp: plic_two_sources_def plic_ready_def plic_irq_bit_def)
  qed
  ultimately show ?thesis
    using plic_claim_lowest [of 1 8 plic_two_sources 1 8] by simp
qed

end
