(* ===== verification/RV_Virtio.thy ===== *)
theory RV_Virtio
  imports RV_State
begin

text \<open>
  \<open>rv64_virtio.c\<close>: guest memory access, the virtio-blk request queue and the MMIO register
  file, with the queue structures of \<open>rv64_virtio.h\<close>.

  The bounds tests are the code's own: \<open>addr + len <= RAM_BASE + ram_size\<close> in 64-bit
  arithmetic. Where such a test passes although the copy lies outside the buffer, the copy is
  undefined (\<open>None\<close>).
\<close>

subsection \<open>Register offsets and codes\<close>

abbreviation (input) VIRTIO_MMIO_MAGIC :: u64 where "VIRTIO_MMIO_MAGIC \<equiv> 0x000"
abbreviation (input) VIRTIO_MMIO_VERSION :: u64 where "VIRTIO_MMIO_VERSION \<equiv> 0x004"
abbreviation (input) VIRTIO_MMIO_DEVICE_ID :: u64 where "VIRTIO_MMIO_DEVICE_ID \<equiv> 0x008"
abbreviation (input) VIRTIO_MMIO_VENDOR_ID :: u64 where "VIRTIO_MMIO_VENDOR_ID \<equiv> 0x00C"
abbreviation (input) VIRTIO_MMIO_DEV_FEATURES :: u64 where "VIRTIO_MMIO_DEV_FEATURES \<equiv> 0x010"
abbreviation (input) VIRTIO_MMIO_DEV_FEATURES_SEL :: u64 where "VIRTIO_MMIO_DEV_FEATURES_SEL \<equiv> 0x014"
abbreviation (input) VIRTIO_MMIO_DRV_FEATURES :: u64 where "VIRTIO_MMIO_DRV_FEATURES \<equiv> 0x020"
abbreviation (input) VIRTIO_MMIO_DRV_FEATURES_SEL :: u64 where "VIRTIO_MMIO_DRV_FEATURES_SEL \<equiv> 0x024"
abbreviation (input) VIRTIO_MMIO_QUEUE_SEL :: u64 where "VIRTIO_MMIO_QUEUE_SEL \<equiv> 0x030"
abbreviation (input) VIRTIO_MMIO_QUEUE_NUM_MAX :: u64 where "VIRTIO_MMIO_QUEUE_NUM_MAX \<equiv> 0x034"
abbreviation (input) VIRTIO_MMIO_QUEUE_NUM :: u64 where "VIRTIO_MMIO_QUEUE_NUM \<equiv> 0x038"
abbreviation (input) VIRTIO_MMIO_QUEUE_READY :: u64 where "VIRTIO_MMIO_QUEUE_READY \<equiv> 0x044"
abbreviation (input) VIRTIO_MMIO_QUEUE_NOTIFY :: u64 where "VIRTIO_MMIO_QUEUE_NOTIFY \<equiv> 0x050"
abbreviation (input) VIRTIO_MMIO_INT_STATUS :: u64 where "VIRTIO_MMIO_INT_STATUS \<equiv> 0x060"
abbreviation (input) VIRTIO_MMIO_INT_ACK :: u64 where "VIRTIO_MMIO_INT_ACK \<equiv> 0x064"
abbreviation (input) VIRTIO_MMIO_STATUS :: u64 where "VIRTIO_MMIO_STATUS \<equiv> 0x070"
abbreviation (input) VIRTIO_MMIO_QUEUE_DESC_LOW :: u64 where "VIRTIO_MMIO_QUEUE_DESC_LOW \<equiv> 0x080"
abbreviation (input) VIRTIO_MMIO_QUEUE_DESC_HIGH :: u64 where "VIRTIO_MMIO_QUEUE_DESC_HIGH \<equiv> 0x084"
abbreviation (input) VIRTIO_MMIO_QUEUE_DRV_LOW :: u64 where "VIRTIO_MMIO_QUEUE_DRV_LOW \<equiv> 0x090"
abbreviation (input) VIRTIO_MMIO_QUEUE_DRV_HIGH :: u64 where "VIRTIO_MMIO_QUEUE_DRV_HIGH \<equiv> 0x094"
abbreviation (input) VIRTIO_MMIO_QUEUE_DEV_LOW :: u64 where "VIRTIO_MMIO_QUEUE_DEV_LOW \<equiv> 0x0A0"
abbreviation (input) VIRTIO_MMIO_QUEUE_DEV_HIGH :: u64 where "VIRTIO_MMIO_QUEUE_DEV_HIGH \<equiv> 0x0A4"
abbreviation (input) VIRTIO_MMIO_CONFIG_GEN :: u64 where "VIRTIO_MMIO_CONFIG_GEN \<equiv> 0x0FC"
abbreviation (input) VIRTIO_MMIO_CONFIG :: u64 where "VIRTIO_MMIO_CONFIG \<equiv> 0x100"
abbreviation (input) VIRTIO_MMIO_MAGIC_VALUE :: u64 where "VIRTIO_MMIO_MAGIC_VALUE \<equiv> 0x74726976"

abbreviation (input) VIRTIO_DEV_NET :: u32 where "VIRTIO_DEV_NET \<equiv> 1"
abbreviation (input) VIRTIO_DEV_BLK :: u32 where "VIRTIO_DEV_BLK \<equiv> 2"
abbreviation (input) VIRTIO_BLK_F_BLK_SIZE :: u64 where "VIRTIO_BLK_F_BLK_SIZE \<equiv> shl 1 6"
abbreviation (input) VIRTIO_F_VERSION_1 :: u64 where "VIRTIO_F_VERSION_1 \<equiv> shl 1 32"
abbreviation (input) VIRTIO_INT_USED_RING :: u32 where "VIRTIO_INT_USED_RING \<equiv> 1"
abbreviation (input) VRING_DESC_F_NEXT :: u16 where "VRING_DESC_F_NEXT \<equiv> 1"
abbreviation (input) VRING_DESC_F_WRITE :: u16 where "VRING_DESC_F_WRITE \<equiv> 2"
abbreviation (input) VIRTIO_BLK_T_IN :: u32 where "VIRTIO_BLK_T_IN \<equiv> 0"
abbreviation (input) VIRTIO_BLK_T_OUT :: u32 where "VIRTIO_BLK_T_OUT \<equiv> 1"
abbreviation (input) VIRTIO_BLK_T_FLUSH :: u32 where "VIRTIO_BLK_T_FLUSH \<equiv> 4"
abbreviation (input) VIRTIO_BLK_S_OK :: u8 where "VIRTIO_BLK_S_OK \<equiv> 0"
abbreviation (input) VIRTIO_BLK_S_IOERR :: u8 where "VIRTIO_BLK_S_IOERR \<equiv> 1"
abbreviation (input) VIRTIO_BLK_S_UNSUPP :: u8 where "VIRTIO_BLK_S_UNSUPP \<equiv> 2"
abbreviation (input) VIRTIO_QUEUE_SIZE_MAX :: u64 where "VIRTIO_QUEUE_SIZE_MAX \<equiv> 256"

subsection \<open>Structures in guest memory\<close>

record vring_desc =
  d_addr :: u64
  d_len :: u32
  d_flags :: u16
  d_next :: u16

definition vring_desc_of :: "u8 list \<Rightarrow> vring_desc" where
  "vring_desc_of bs =
     \<lparr>d_addr = le_val (take 8 bs), d_len = ucast (le_val (take 4 (drop 8 bs))),
      d_flags = ucast (le_val (take 2 (drop 12 bs))), d_next = ucast (le_val (take 2 (drop 14 bs)))\<rparr>"

definition vring_used_elem_bytes :: "u32 \<Rightarrow> u32 \<Rightarrow> u8 list" where
  "vring_used_elem_bytes eid len = le_bytes 4 (ucast eid) @ le_bytes 4 (ucast len)"

subsection \<open>Initialisation\<close>

definition zero_queue :: virtio_queue where
  "zero_queue = \<lparr>vq_num = 0, vq_ready = 0, vq_desc_addr = 0, vq_avail_addr = 0, vq_used_addr = 0,
     vq_last_avail = 0\<rparr>"

text \<open>\<open>memset(dev, 0, sizeof(*dev))\<close>; the log of dirty calls is not part of the structure.\<close>

definition zero_dev :: "(u64 \<times> u64) list \<Rightarrow> virtio_mmio_dev" where
  "zero_dev dirty = \<lparr>dev_device_id = 0, dev_irq = 0, dev_status = 0, dev_int_status = 0,
     dev_features_sel = 0, dev_drv_features_sel = 0, dev_dev_features = 0, dev_drv_features = 0,
     dev_queue_sel = 0, dev_config_gen = 0, dev_queues = (\<lambda>_. zero_queue), dev_disk_data = None,
     dev_disk_size = 0, dev_slirp = None, dev_ram = False, dev_ram_size = 0,
     dev_rx_ring_buffers = (\<lambda>_. replicate 2048 0), dev_rx_ring_sizes = (\<lambda>_. 0), dev_rx_head = 0,
     dev_rx_tail = 0, dev_mark_dirty = False, dev_dirty_log = dirty, dev_blk_reads = 0,
     dev_blk_writes = 0, dev_blk_bytes_read = 0, dev_blk_bytes_written = 0\<rparr>"

definition virtio_blk_init :: "virtio_mmio_dev \<Rightarrow> u32 \<Rightarrow> mem option \<Rightarrow> u64 \<Rightarrow> virtio_mmio_dev" where
  "virtio_blk_init dev irq disk disk_size =
     (zero_dev (dev_dirty_log dev))\<lparr>dev_device_id := VIRTIO_DEV_BLK, dev_irq := irq,
        dev_disk_data := disk, dev_disk_size := disk_size,
        dev_dev_features := VIRTIO_F_VERSION_1 OR VIRTIO_BLK_F_BLK_SIZE\<rparr>"

subsection \<open>Guest memory helpers\<close>

text \<open>The range test of \<open>guest_read\<close> and \<open>guest_write\<close>, and when the copy it admits is
  really inside the RAM block.\<close>

definition guest_range :: "u64 \<Rightarrow> u64 \<Rightarrow> u64 \<Rightarrow> bool" where
  "guest_range ram_size addr len \<longleftrightarrow> addr \<ge> RAM_BASE \<and> addr + len \<le> RAM_BASE + ram_size"

definition in_block :: "u64 \<Rightarrow> u64 \<Rightarrow> nat \<Rightarrow> bool" where
  "in_block block_size off n \<longleftrightarrow> unat off + n \<le> unat block_size"

text \<open>\<open>Some None\<close> is the return value -1.\<close>

definition guest_read :: "mem option \<Rightarrow> u64 \<Rightarrow> u64 \<Rightarrow> u64 \<Rightarrow> u8 list option undef" where
  "guest_read ram ram_size addr len =
     (if guest_range ram_size addr len then
        (case ram of None \<Rightarrow> None
         | Some m \<Rightarrow> if in_block ram_size (addr - RAM_BASE) (unat len)
                     then Some (Some (read_bytes m (addr - RAM_BASE) (unat len))) else None)
      else Some None)"

text \<open>The flag is \<open>True\<close> for the return value 0 and \<open>False\<close> for -1.\<close>

definition guest_write :: "mem option \<Rightarrow> u64 \<Rightarrow> u64 \<Rightarrow> u8 list \<Rightarrow> (bool \<times> mem option) undef" where
  "guest_write ram ram_size addr bs =
     (if guest_range ram_size addr (of_nat (length bs)) then
        (case ram of None \<Rightarrow> None
         | Some m \<Rightarrow> if in_block ram_size (addr - RAM_BASE) (length bs)
                     then Some (True, Some (write_bytes m (addr - RAM_BASE) bs)) else None)
      else Some (False, ram))"

subsection \<open>The virtio-blk request queue\<close>

text \<open>Local variables of one request: the header's type and sector (read only once
  \<open>rq_phase\<close> is not 0), the status byte, the phase and the byte count.\<close>

record blk_req =
  rq_type :: u32
  rq_sector :: u64
  rq_status :: u8
  rq_phase :: nat
  rq_total :: u32

definition blk_req_start :: blk_req where
  "blk_req_start = \<lparr>rq_type = 0, rq_sector = 0, rq_status = VIRTIO_BLK_S_OK, rq_phase = 0, rq_total = 0\<rparr>"

text \<open>Disk to guest. The copy happens only when both tests pass, and reads
  \<open>desc.len\<close> bytes of the disk block.\<close>

definition blk_data_in ::
  "virtio_mmio_dev \<Rightarrow> mem option \<Rightarrow> u64 \<Rightarrow> blk_req \<Rightarrow> vring_desc \<Rightarrow>
   (virtio_mmio_dev \<times> mem option \<times> blk_req) undef" where
  "blk_data_in dev ram ram_size rq desc =
     (let disk_offset = rq_sector rq * 512; len = ucast (d_len desc) :: u64;
          rq' = rq\<lparr>rq_sector := rq_sector rq + len div 512\<rparr>
      in if disk_offset + len > dev_disk_size dev
         then Some (dev, ram, rq'\<lparr>rq_status := VIRTIO_BLK_S_IOERR\<rparr>)
         else if \<not> guest_range ram_size (d_addr desc) len
         then Some (dev, ram, rq'\<lparr>rq_status := VIRTIO_BLK_S_IOERR\<rparr>)
         else (case dev_disk_data dev of None \<Rightarrow> None
               | Some disk \<Rightarrow>
                   if in_block (dev_disk_size dev) disk_offset (unat len) then do {
                     (_, ram') \<leftarrow> guest_write ram ram_size (d_addr desc)
                                   (read_bytes disk disk_offset (unat len));
                     Some (dev\<lparr>dev_blk_reads := dev_blk_reads dev + 1,
                               dev_blk_bytes_read := dev_blk_bytes_read dev + len\<rparr>,
                           ram', rq'\<lparr>rq_total := rq_total rq + d_len desc\<rparr>)
                   } else None))"

text \<open>Guest to disk, with the dirty-block notification.\<close>

definition blk_data_out ::
  "virtio_mmio_dev \<Rightarrow> mem option \<Rightarrow> u64 \<Rightarrow> blk_req \<Rightarrow> vring_desc \<Rightarrow>
   (virtio_mmio_dev \<times> mem option \<times> blk_req) undef" where
  "blk_data_out dev ram ram_size rq desc =
     (let disk_offset = rq_sector rq * 512; len = ucast (d_len desc) :: u64;
          rq' = rq\<lparr>rq_sector := rq_sector rq + len div 512\<rparr>
      in if disk_offset + len > dev_disk_size dev
         then Some (dev, ram, rq'\<lparr>rq_status := VIRTIO_BLK_S_IOERR\<rparr>)
         else do {
           r \<leftarrow> guest_read ram ram_size (d_addr desc) len;
           (case r of
              None \<Rightarrow> Some (dev, ram, rq'\<lparr>rq_status := VIRTIO_BLK_S_IOERR\<rparr>)
            | Some bs \<Rightarrow>
                (case dev_disk_data dev of None \<Rightarrow> None
                 | Some disk \<Rightarrow>
                     if in_block (dev_disk_size dev) disk_offset (unat len)
                     then Some (dev\<lparr>dev_disk_data := Some (write_bytes disk disk_offset bs),
                                    dev_blk_writes := dev_blk_writes dev + 1,
                                    dev_blk_bytes_written := dev_blk_bytes_written dev + len,
                                    dev_dirty_log := (if dev_mark_dirty dev
                                      then dev_dirty_log dev @ [(disk_offset, len)]
                                      else dev_dirty_log dev)\<rparr>,
                                ram, rq'\<lparr>rq_total := rq_total rq + d_len desc\<rparr>)
                     else None))
         })"

text \<open>One descriptor; the flag says that the loop is left by \<open>break\<close>.\<close>

definition blk_desc ::
  "virtio_mmio_dev \<Rightarrow> mem option \<Rightarrow> u64 \<Rightarrow> blk_req \<Rightarrow> vring_desc \<Rightarrow>
   (bool \<times> virtio_mmio_dev \<times> mem option \<times> blk_req) undef" where
  "blk_desc dev ram ram_size rq desc =
     (if rq_phase rq = 0 then
        (if d_len desc < 16 then Some (True, dev, ram, rq\<lparr>rq_status := VIRTIO_BLK_S_IOERR\<rparr>)
         else do {
           r \<leftarrow> guest_read ram ram_size (d_addr desc) 16;
           (case r of
              None \<Rightarrow> Some (True, dev, ram, rq\<lparr>rq_status := VIRTIO_BLK_S_IOERR\<rparr>)
            | Some bs \<Rightarrow> Some (False, dev, ram,
                rq\<lparr>rq_type := ucast (le_val (take 4 bs)), rq_sector := le_val (take 8 (drop 8 bs)),
                   rq_phase := 1\<rparr>))
         })
      else if d_flags desc AND VRING_DESC_F_NEXT = 0 \<or>
              (d_flags desc AND VRING_DESC_F_WRITE \<noteq> 0 \<and> d_len desc = 1)
      then Some (False, dev, ram, rq\<lparr>rq_phase := 2\<rparr>)
      else if rq_type rq = VIRTIO_BLK_T_IN then
        map_option (Pair False) (blk_data_in dev ram ram_size rq desc)
      else if rq_type rq = VIRTIO_BLK_T_OUT then
        map_option (Pair False) (blk_data_out dev ram ram_size rq desc)
      else if rq_type rq = VIRTIO_BLK_T_FLUSH then
        Some (False, dev, ram, rq\<lparr>rq_status := VIRTIO_BLK_S_OK\<rparr>)
      else Some (False, dev, ram, rq\<lparr>rq_status := VIRTIO_BLK_S_UNSUPP\<rparr>))"

text \<open>The walk along the chain; the first argument counts the iterations
  that \<open>i < vq->num\<close> still allows.\<close>

fun blk_chain ::
  "nat \<Rightarrow> virtio_queue \<Rightarrow> u16 \<Rightarrow> virtio_mmio_dev \<Rightarrow> mem option \<Rightarrow> u64 \<Rightarrow> blk_req \<Rightarrow>
   (virtio_mmio_dev \<times> mem option \<times> blk_req) undef" where
  "blk_chain 0 vq idx dev ram ram_size rq = Some (dev, ram, rq)"
| "blk_chain (Suc n) vq idx dev ram ram_size rq = do {
     r \<leftarrow> guest_read ram ram_size (vq_desc_addr vq + ucast idx * 16) 16;
     (case r of
        None \<Rightarrow> Some (dev, ram, rq\<lparr>rq_status := VIRTIO_BLK_S_IOERR\<rparr>)
      | Some bs \<Rightarrow> do {
          (brk, dev', ram', rq') \<leftarrow> blk_desc dev ram ram_size rq (vring_desc_of bs);
          if brk \<or> d_flags (vring_desc_of bs) AND VRING_DESC_F_NEXT = 0
          then Some (dev', ram', rq')
          else blk_chain n vq (d_next (vring_desc_of bs)) dev' ram' ram_size rq'
        })
   }"

text \<open>The second walk, which looks for the descriptor that takes the status
  byte. \<open>None\<close> as the descriptor is the uninitialised local variable.\<close>

fun blk_find_last ::
  "nat \<Rightarrow> virtio_queue \<Rightarrow> u16 \<Rightarrow> mem option \<Rightarrow> u64 \<Rightarrow> vring_desc option \<Rightarrow> vring_desc undef" where
  "blk_find_last 0 vq idx ram ram_size desc = desc"
| "blk_find_last (Suc n) vq idx ram ram_size desc = do {
     r \<leftarrow> guest_read ram ram_size (vq_desc_addr vq + ucast idx * 16) 16;
     (case (case r of None \<Rightarrow> desc | Some bs \<Rightarrow> Some (vring_desc_of bs)) of
        None \<Rightarrow> None
      | Some d \<Rightarrow> if d_flags d AND VRING_DESC_F_NEXT = 0 then Some d
                  else blk_find_last n vq (d_next d) ram ram_size (Some d))
   }"

definition blk_write_status ::
  "virtio_queue \<Rightarrow> u16 \<Rightarrow> mem option \<Rightarrow> u64 \<Rightarrow> blk_req \<Rightarrow> mem option undef" where
  "blk_write_status vq desc_head ram ram_size rq =
     (if rq_phase rq \<ge> 1 then do {
        d \<leftarrow> blk_find_last (unat (vq_num vq)) vq desc_head ram ram_size None;
        (_, ram') \<leftarrow> guest_write ram ram_size (d_addr d) [rq_status rq];
        Some ram'
      } else Some ram)"

text \<open>The used-ring entry (the same code in \<open>rv64_virtio_net.c\<close>).\<close>

definition vring_add_used ::
  "virtio_queue \<Rightarrow> u16 \<Rightarrow> u32 \<Rightarrow> mem option \<Rightarrow> u64 \<Rightarrow> mem option undef" where
  "vring_add_used vq desc_head len ram ram_size = do {
     r \<leftarrow> guest_read ram ram_size (vq_used_addr vq + 2) 2;
     let used_idx = (case r of None \<Rightarrow> 0 :: u16 | Some bs \<Rightarrow> ucast (le_val bs));
     used_ring_idx \<leftarrow> (if vq_num vq = 0 then None
                      else Some (ucast (ucast used_idx mod vq_num vq) :: u16));
     (_, ram1) \<leftarrow> guest_write ram ram_size (vq_used_addr vq + 4 + ucast used_ring_idx * 8)
                    (vring_used_elem_bytes (ucast desc_head) len);
     (_, ram2) \<leftarrow> guest_write ram1 ram_size (vq_used_addr vq + 2) (le_bytes 2 (ucast (used_idx + 1)));
     Some ram2
   }"

text \<open>One request.\<close>

definition blk_request ::
  "virtio_queue \<Rightarrow> u16 \<Rightarrow> virtio_mmio_dev \<Rightarrow> mem option \<Rightarrow> u64 \<Rightarrow>
   (virtio_mmio_dev \<times> mem option) undef" where
  "blk_request vq desc_head dev ram ram_size = do {
     (dev1, ram1, rq) \<leftarrow> blk_chain (unat (vq_num vq)) vq desc_head dev ram ram_size blk_req_start;
     ram2 \<leftarrow> blk_write_status vq desc_head ram1 ram_size rq;
     ram3 \<leftarrow> vring_add_used vq desc_head (rq_total rq) ram2 ram_size;
     Some (dev1, ram3)
   }"

text \<open>The head of the chain that the available ring names next.\<close>

definition vring_avail_slot :: "virtio_queue \<Rightarrow> u16 undef" where
  "vring_avail_slot vq =
     (if vq_num vq = 0 then None else Some (ucast (ucast (vq_last_avail vq) mod vq_num vq)))"

function blk_loop ::
  "u16 \<Rightarrow> virtio_mmio_dev \<Rightarrow> virtio_queue \<Rightarrow> mem option \<Rightarrow> u64 \<Rightarrow>
   (virtio_mmio_dev \<times> virtio_queue \<times> mem option) undef" where
  "blk_loop avail_idx dev vq ram ram_size =
     (if vq_last_avail vq = avail_idx then Some (dev, vq, ram)
      else do {
        ring_idx \<leftarrow> vring_avail_slot vq;
        r \<leftarrow> guest_read ram ram_size (vq_avail_addr vq + 4 + ucast ring_idx * 2) 2;
        (case r of
           None \<Rightarrow> Some (dev, vq, ram)
         | Some bs \<Rightarrow> do {
             (dev', ram') \<leftarrow> blk_request vq (ucast (le_val bs)) dev ram ram_size;
             blk_loop avail_idx dev' (vq\<lparr>vq_last_avail := vq_last_avail vq + 1\<rparr>) ram' ram_size
           })
      })"
  by pat_completeness auto

lemma unat_diff_Suc:
  fixes a l :: u16
  assumes "l \<noteq> a"
  shows "unat (a - (l + 1)) < unat (a - l)"
proof -
  have "a - l \<noteq> 0" using assms by simp
  then have "unat (a - l - 1) < unat (a - l)" by (simp add: unat_minus_one unat_gt_0)
  then show ?thesis by (simp add: diff_diff_eq)
qed

termination blk_loop
  by (relation "measure (\<lambda>(avail_idx, dev, vq, ram, ram_size). unat (avail_idx - vq_last_avail vq))")
    (simp_all add: unat_diff_Suc)

declare blk_loop.simps [simp del]

definition virtio_blk_process_queue ::
  "virtio_mmio_dev \<Rightarrow> nat \<Rightarrow> mem option \<Rightarrow> u64 \<Rightarrow> (virtio_mmio_dev \<times> mem option) undef" where
  "virtio_blk_process_queue dev qi ram ram_size =
     (let vq = dev_queues dev qi
      in if vq_ready vq = 0 \<or> vq_desc_addr vq = 0 then Some (dev, ram)
         else do {
           r \<leftarrow> guest_read ram ram_size (vq_avail_addr vq + 2) 2;
           (case r of
              None \<Rightarrow> Some (dev, ram)
            | Some bs \<Rightarrow> do {
                (dev1, vq1, ram1) \<leftarrow> blk_loop (ucast (le_val bs)) dev vq ram ram_size;
                let dev2 = dev1\<lparr>dev_queues := (dev_queues dev1)(qi := vq1)\<rparr>;
                Some ((if vq_last_avail vq1 \<noteq> vq_last_avail vq
                       then dev2\<lparr>dev_int_status := dev_int_status dev2 OR VIRTIO_INT_USED_RING\<rparr>
                       else dev2), ram1)
              })
         })"

subsection \<open>The packet transmit queue\<close>

text \<open>
  \<open>virtio_net_process_queue\<close> of \<open>rv64_virtio_net.c\<close> (built with libslirp). The local packet
  buffer has 65536 bytes; a byte that was never written is \<open>None\<close>. The descriptor walk is a
  \<open>while (1)\<close> loop with no bound, so it may not return: here \<open>None\<close> also stands for that.
\<close>

type_synonym pkt = "nat \<Rightarrow> u8 option"

definition pkt_write :: "pkt \<Rightarrow> nat \<Rightarrow> u8 list \<Rightarrow> pkt undef" where
  "pkt_write pkt at bs =
     (if at + length bs \<le> 65536
      then Some (\<lambda>i. if at \<le> i \<and> i < at + length bs then Some (bs ! (i - at)) else pkt i)
      else None)"

definition vring_read_desc ::
  "virtio_queue \<Rightarrow> u16 \<Rightarrow> mem option \<Rightarrow> u64 \<Rightarrow> vring_desc option \<Rightarrow> vring_desc undef" where
  "vring_read_desc vq idx ram ram_size old = do {
     r \<leftarrow> guest_read ram ram_size (vq_desc_addr vq + ucast idx * 16) 16;
     (case r of None \<Rightarrow> old | Some bs \<Rightarrow> Some (vring_desc_of bs))
   }"

partial_function (option) net_tx_chain ::
  "virtio_queue \<Rightarrow> u16 \<Rightarrow> mem option \<Rightarrow> u64 \<Rightarrow> vring_desc option \<Rightarrow> pkt \<Rightarrow> u32 \<Rightarrow> (pkt \<times> u32) undef" where
  "net_tx_chain vq cur ram ram_size old pkt pkt_len = do {
     desc \<leftarrow> vring_read_desc vq cur ram ram_size old;
     (pkt', pkt_len') \<leftarrow>
       (if pkt_len + d_len desc \<le> 65536 then do {
          r \<leftarrow> guest_read ram ram_size (d_addr desc) (ucast (d_len desc));
          p \<leftarrow> (case r of None \<Rightarrow> Some pkt | Some bs \<Rightarrow> pkt_write pkt (unat pkt_len) bs);
          Some (p, pkt_len + d_len desc)
        } else Some (pkt, pkt_len));
     if d_flags desc AND VRING_DESC_F_NEXT = 0 then Some (pkt', pkt_len')
     else net_tx_chain vq (d_next desc) ram ram_size (Some desc) pkt' pkt_len'
   }"

text \<open>The library may hand packets back while it is being called: each goes through
  \<open>slirp_send_packet\<close> into the receive ring, or is dropped when 256 are waiting.\<close>

definition slirp_send_packet :: "virtio_mmio_dev \<Rightarrow> u8 list \<Rightarrow> virtio_mmio_dev undef" where
  "slirp_send_packet dev buf =
     (if dev_rx_head dev - dev_rx_tail dev \<ge> 256 then Some dev
      else do {
        idx \<leftarrow> ring_slot (dev_rx_head dev) 256;
        head \<leftarrow> int_inc (dev_rx_head dev);
        let data = take 2048 buf;
        Some (dev\<lparr>dev_rx_ring_sizes := (dev_rx_ring_sizes dev)(idx := length data),
                  dev_rx_ring_buffers := (dev_rx_ring_buffers dev)
                    (idx := data @ drop (length data) (dev_rx_ring_buffers dev idx)),
                  dev_rx_head := head\<rparr>)
      })"

fun slirp_deliver :: "u8 list list \<Rightarrow> virtio_mmio_dev \<Rightarrow> virtio_mmio_dev undef" where
  "slirp_deliver [] dev = Some dev"
| "slirp_deliver (p # ps) dev = do { dev' \<leftarrow> slirp_send_packet dev p; slirp_deliver ps dev' }"

definition slirp_call :: "virtio_mmio_dev \<Rightarrow> slirp_call \<Rightarrow> virtio_mmio_dev undef" where
  "slirp_call dev c =
     (case dev_slirp dev of None \<Rightarrow> Some dev
      | Some sl \<Rightarrow>
          let calls = sl_calls sl @ [c]
          in slirp_deliver (sl_packets sl calls) (dev\<lparr>dev_slirp := Some (sl\<lparr>sl_calls := calls\<rparr>)\<rparr>))"

text \<open>The frame without its ten-byte header; undefined if a byte of it was never written.\<close>

definition net_tx_frame :: "pkt \<Rightarrow> u32 \<Rightarrow> u8 list undef" where
  "net_tx_frame pkt pkt_len =
     those (map pkt [10..<unat pkt_len])"

definition net_tx_request ::
  "virtio_queue \<Rightarrow> virtio_mmio_dev \<Rightarrow> mem option \<Rightarrow> u64 \<Rightarrow> (virtio_mmio_dev \<times> mem option) undef" where
  "net_tx_request vq dev ram ram_size = do {
     ring_idx \<leftarrow> vring_avail_slot vq;
     r \<leftarrow> guest_read ram ram_size (vq_avail_addr vq + 4 + ucast ring_idx * 2) 2;
     let desc_head = (case r of None \<Rightarrow> 0 :: u16 | Some bs \<Rightarrow> ucast (le_val bs));
     r0 \<leftarrow> guest_read ram ram_size (vq_desc_addr vq + ucast desc_head * 16) 16;
     (pkt, pkt_len) \<leftarrow> net_tx_chain vq desc_head ram ram_size (map_option vring_desc_of r0) (\<lambda>_. None) 0;
     dev' \<leftarrow> (if pkt_len > 10 \<and> dev_slirp dev \<noteq> None
             then do { frame \<leftarrow> net_tx_frame pkt pkt_len; slirp_call dev (Slirp_Input frame) }
             else Some dev);
     ram' \<leftarrow> vring_add_used vq desc_head 0 ram ram_size;
     Some (dev', ram')
   }"

function net_tx_loop ::
  "u16 \<Rightarrow> virtio_mmio_dev \<Rightarrow> virtio_queue \<Rightarrow> mem option \<Rightarrow> u64 \<Rightarrow>
   (virtio_mmio_dev \<times> virtio_queue \<times> mem option) undef" where
  "net_tx_loop avail_idx dev vq ram ram_size =
     (if vq_last_avail vq = avail_idx then Some (dev, vq, ram)
      else do {
        (dev', ram') \<leftarrow> net_tx_request vq dev ram ram_size;
        net_tx_loop avail_idx dev' (vq\<lparr>vq_last_avail := vq_last_avail vq + 1\<rparr>) ram' ram_size
      })"
  by pat_completeness auto
termination net_tx_loop
  by (relation "measure (\<lambda>(avail_idx, dev, vq, ram, ram_size). unat (avail_idx - vq_last_avail vq))")
    (simp_all add: unat_diff_Suc)

declare net_tx_loop.simps [simp del]

definition virtio_net_process_queue ::
  "virtio_mmio_dev \<Rightarrow> nat \<Rightarrow> mem option \<Rightarrow> u64 \<Rightarrow> (virtio_mmio_dev \<times> mem option) undef" where
  "virtio_net_process_queue dev qid ram ram_size =
     (if qid = 1 then do {
        let vq = dev_queues dev qid;
        r \<leftarrow> guest_read ram ram_size (vq_avail_addr vq + 2) 2;
        let avail_idx = (case r of None \<Rightarrow> 0 :: u16 | Some bs \<Rightarrow> ucast (le_val bs));
        (dev1, vq1, ram1) \<leftarrow> net_tx_loop avail_idx dev vq ram ram_size;
        let dev2 = dev1\<lparr>dev_queues := (dev_queues dev1)(qid := vq1)\<rparr>;
        Some ((if vq_last_avail vq1 \<noteq> vq_last_avail vq
               then dev2\<lparr>dev_int_status := dev_int_status dev2 OR VIRTIO_INT_USED_RING\<rparr>
               else dev2), ram1)
      } else Some (dev, ram))"

subsection \<open>MMIO registers\<close>

text \<open>\<open>int qi = dev->queue_sel\<close> and the test \<open>qi < 4\<close>: the inner \<open>None\<close> is a selector
  that the test rejects, the outer one a negative \<open>qi\<close>, which the test lets through to
  index before the array.\<close>

definition mmio_queue :: "virtio_mmio_dev \<Rightarrow> nat option undef" where
  "mmio_queue dev =
     (let qi = sint (dev_queue_sel dev)
      in if qi < 4 then (if 0 \<le> qi then Some (Some (nat qi)) else None) else Some None)"

definition virtio_blk_cfg :: "virtio_mmio_dev \<Rightarrow> u8 list" where
  "virtio_blk_cfg dev =
     le_bytes 8 (dev_disk_size dev div 512) @ replicate 12 0 @ le_bytes 4 512"

definition virtio_mmio_load :: "virtio_mmio_dev \<Rightarrow> u64 \<Rightarrow> nat \<Rightarrow> u64 undef" where
  "virtio_mmio_load dev offset sz =
     (if offset \<ge> VIRTIO_MMIO_CONFIG then
        (let cfg_off = offset - VIRTIO_MMIO_CONFIG
         in if dev_device_id dev = VIRTIO_DEV_BLK \<and> cfg_off + of_nat sz \<le> 24
            then Some (le_val (take sz (drop (unat cfg_off) (virtio_blk_cfg dev))))
            else Some 0)
      else if offset = VIRTIO_MMIO_MAGIC then Some VIRTIO_MMIO_MAGIC_VALUE
      else if offset = VIRTIO_MMIO_VERSION then Some 2
      else if offset = VIRTIO_MMIO_DEVICE_ID then Some (ucast (dev_device_id dev))
      else if offset = VIRTIO_MMIO_VENDOR_ID then Some 0x554D4551
      else if offset = VIRTIO_MMIO_DEV_FEATURES then
        (if dev_features_sel dev = 0 then Some (take_bit 32 (dev_dev_features dev))
         else if dev_features_sel dev = 1 then Some (shr (dev_dev_features dev) 32)
         else Some 0)
      else if offset = VIRTIO_MMIO_QUEUE_NUM_MAX then Some VIRTIO_QUEUE_SIZE_MAX
      else if offset = VIRTIO_MMIO_QUEUE_READY then do {
        q \<leftarrow> mmio_queue dev;
        (case q of None \<Rightarrow> Some 0 | Some qi \<Rightarrow> Some (ucast (vq_ready (dev_queues dev qi))))
      }
      else if offset = VIRTIO_MMIO_INT_STATUS then Some (ucast (dev_int_status dev))
      else if offset = VIRTIO_MMIO_STATUS then Some (ucast (dev_status dev))
      else if offset = VIRTIO_MMIO_CONFIG_GEN then Some (ucast (dev_config_gen dev))
      else Some 0)"

definition mmio_update_queue ::
  "virtio_mmio_dev \<Rightarrow> (virtio_queue \<Rightarrow> virtio_queue) \<Rightarrow> virtio_mmio_dev undef" where
  "mmio_update_queue dev upd = do {
     q \<leftarrow> mmio_queue dev;
     (case q of None \<Rightarrow> Some dev
      | Some qi \<Rightarrow> Some (dev\<lparr>dev_queues := (dev_queues dev)(qi := upd (dev_queues dev qi))\<rparr>))
   }"

definition set_low32 :: "u64 \<Rightarrow> u64 \<Rightarrow> u64" where
  "set_low32 old val = (old AND 0xFFFFFFFF00000000) OR (val AND 0xFFFFFFFF)"

definition set_high32 :: "u64 \<Rightarrow> u64 \<Rightarrow> u64" where
  "set_high32 old val = (old AND 0xFFFFFFFF) OR shl (val AND 0xFFFFFFFF) 32"

text \<open>Driver reset.\<close>

definition virtio_reset :: "virtio_mmio_dev \<Rightarrow> virtio_mmio_dev" where
  "virtio_reset dev =
     (zero_dev (dev_dirty_log dev))\<lparr>dev_device_id := dev_device_id dev, dev_irq := dev_irq dev,
        dev_disk_data := dev_disk_data dev, dev_disk_size := dev_disk_size dev,
        dev_dev_features := dev_dev_features dev\<rparr>"

definition virtio_notify ::
  "virtio_mmio_dev \<Rightarrow> u64 \<Rightarrow> mem option \<Rightarrow> u64 \<Rightarrow> (virtio_mmio_dev \<times> mem option) undef" where
  "virtio_notify dev val ram ram_size =
     (if val < 4 \<and> vq_ready (dev_queues dev (unat val)) \<noteq> 0 then
        (if dev_device_id dev = VIRTIO_DEV_BLK
         then virtio_blk_process_queue dev (unat val) ram ram_size
         else if dev_device_id dev = VIRTIO_DEV_NET
         then virtio_net_process_queue dev (unat val) ram ram_size
         else Some (dev, ram))
      else Some (dev, ram))"

text \<open>Every register but \<open>QUEUE_NOTIFY\<close>.\<close>

definition mmio_store_reg :: "virtio_mmio_dev \<Rightarrow> u64 \<Rightarrow> u64 \<Rightarrow> virtio_mmio_dev undef" where
  "mmio_store_reg dev offset val =
     (if offset = VIRTIO_MMIO_DEV_FEATURES_SEL then Some (dev\<lparr>dev_features_sel := ucast val\<rparr>)
      else if offset = VIRTIO_MMIO_DRV_FEATURES then
        Some (if dev_drv_features_sel dev = 0
              then dev\<lparr>dev_drv_features := set_low32 (dev_drv_features dev) val\<rparr>
              else if dev_drv_features_sel dev = 1
              then dev\<lparr>dev_drv_features := set_high32 (dev_drv_features dev) val\<rparr>
              else dev)
      else if offset = VIRTIO_MMIO_DRV_FEATURES_SEL then
        Some (dev\<lparr>dev_drv_features_sel := ucast val\<rparr>)
      else if offset = VIRTIO_MMIO_QUEUE_SEL then Some (dev\<lparr>dev_queue_sel := ucast val\<rparr>)
      else if offset = VIRTIO_MMIO_QUEUE_NUM then
        mmio_update_queue dev (\<lambda>q. q\<lparr>vq_num := ucast val\<rparr>)
      else if offset = VIRTIO_MMIO_QUEUE_READY then
        mmio_update_queue dev (\<lambda>q. q\<lparr>vq_ready := ucast val\<rparr>)
      else if offset = VIRTIO_MMIO_INT_ACK then
        Some (dev\<lparr>dev_int_status := dev_int_status dev AND NOT (ucast val)\<rparr>)
      else if offset = VIRTIO_MMIO_STATUS then
        (let dev1 = dev\<lparr>dev_status := ucast val\<rparr>
         in Some (if val = 0 then virtio_reset dev1 else dev1))
      else if offset = VIRTIO_MMIO_QUEUE_DESC_LOW then
        mmio_update_queue dev (\<lambda>q. q\<lparr>vq_desc_addr := set_low32 (vq_desc_addr q) val\<rparr>)
      else if offset = VIRTIO_MMIO_QUEUE_DESC_HIGH then
        mmio_update_queue dev (\<lambda>q. q\<lparr>vq_desc_addr := set_high32 (vq_desc_addr q) val\<rparr>)
      else if offset = VIRTIO_MMIO_QUEUE_DRV_LOW then
        mmio_update_queue dev (\<lambda>q. q\<lparr>vq_avail_addr := set_low32 (vq_avail_addr q) val\<rparr>)
      else if offset = VIRTIO_MMIO_QUEUE_DRV_HIGH then
        mmio_update_queue dev (\<lambda>q. q\<lparr>vq_avail_addr := set_high32 (vq_avail_addr q) val\<rparr>)
      else if offset = VIRTIO_MMIO_QUEUE_DEV_LOW then
        mmio_update_queue dev (\<lambda>q. q\<lparr>vq_used_addr := set_low32 (vq_used_addr q) val\<rparr>)
      else if offset = VIRTIO_MMIO_QUEUE_DEV_HIGH then
        mmio_update_queue dev (\<lambda>q. q\<lparr>vq_used_addr := set_high32 (vq_used_addr q) val\<rparr>)
      else Some dev)"

definition virtio_mmio_store ::
  "virtio_mmio_dev \<Rightarrow> u64 \<Rightarrow> u64 \<Rightarrow> mem option \<Rightarrow> u64 \<Rightarrow> (virtio_mmio_dev \<times> mem option) undef" where
  "virtio_mmio_store dev offset val ram ram_size =
     (if offset = VIRTIO_MMIO_QUEUE_NOTIFY then virtio_notify dev val ram ram_size
      else do { dev' \<leftarrow> mmio_store_reg dev offset val; Some (dev', ram) })"

subsection \<open>Memory safety of the guest accesses\<close>

text \<open>A range that does not wrap passes the test exactly when it lies in RAM, and then the
  copy is inside the block.\<close>

lemma guest_range_sound:
  assumes "guest_range rs addr len" "unat addr + unat len < 2 ^ 64" "unat rs < 2 ^ 64 - 2 ^ 31"
  shows "in_block rs (addr - RAM_BASE) (unat len)"
proof -
  have "unat (RAM_BASE + rs) = 0x80000000 + unat rs"
    using assms(3) by (simp add: unat_word_ariths)
  moreover have "unat (addr + len) = unat addr + unat len"
    using assms(2) by (simp add: unat_word_ariths)
  moreover have "unat (addr - RAM_BASE) = unat addr - 0x80000000"
    using assms(1) by (simp add: guest_range_def unat_sub)
  ultimately show ?thesis
    using assms(1) by (auto simp: guest_range_def in_block_def word_le_nat_alt)
qed

text \<open>No device operation replaces the RAM block by a null pointer or a null pointer by a
  block.\<close>

lemma guest_write_null:
  "guest_write ram rs addr bs = Some (ok, ram') \<Longrightarrow> (ram' = None) = (ram = None)"
  by (auto simp: guest_write_def split: if_splits option.splits)

lemma blk_desc_null:
  "blk_desc dev ram rs rq desc = Some (brk, dev', ram', rq') \<Longrightarrow> (ram' = None) = (ram = None)"
  by (auto simp: blk_desc_def blk_data_in_def blk_data_out_def Let_def bind_eq_Some_conv
      dest!: guest_write_null split: if_splits option.splits)

lemma blk_chain_null:
  "blk_chain n vq idx dev ram rs rq = Some (dev', ram', rq') \<Longrightarrow> (ram' = None) = (ram = None)"
proof (induction n vq idx dev ram rs rq rule: blk_chain.induct)
  case (2 n vq idx dev ram rs rq)
  then show ?case
    by (auto simp: bind_eq_Some_conv split: option.splits if_splits prod.splits)
      (blast dest: blk_desc_null)+
qed auto

lemma vring_add_used_null:
  "vring_add_used vq h len ram rs = Some ram' \<Longrightarrow> (ram' = None) = (ram = None)"
  by (auto simp: vring_add_used_def Let_def bind_eq_Some_conv dest!: guest_write_null
      split: if_splits)

lemma blk_request_null:
  "blk_request vq h dev ram rs = Some (dev', ram') \<Longrightarrow> (ram' = None) = (ram = None)"
  by (auto simp: blk_request_def blk_write_status_def bind_eq_Some_conv
      dest!: guest_write_null blk_chain_null vring_add_used_null split: if_splits)

lemma blk_loop_null:
  "blk_loop a dev vq ram rs = Some (dev', vq', ram') \<Longrightarrow> (ram' = None) = (ram = None)"
proof (induction a dev vq ram rs rule: blk_loop.induct)
  case (1 a dev vq ram rs)
  from "1.prems" show ?case
    by (subst (asm) blk_loop.simps, auto simp: bind_eq_Some_conv split: if_splits option.splits)
      (metis "1.IH" blk_request_null)+
qed

lemma net_tx_request_null:
  "net_tx_request vq dev ram rs = Some (dev', ram') \<Longrightarrow> (ram' = None) = (ram = None)"
  by (auto simp: net_tx_request_def Let_def bind_eq_Some_conv dest!: vring_add_used_null
      split: if_splits)

lemma net_tx_loop_null:
  "net_tx_loop a dev vq ram rs = Some (dev', vq', ram') \<Longrightarrow> (ram' = None) = (ram = None)"
proof (induction a dev vq ram rs rule: net_tx_loop.induct)
  case (1 a dev vq ram rs)
  from "1.prems" show ?case
    by (subst (asm) net_tx_loop.simps, auto simp: bind_eq_Some_conv split: if_splits)
      (metis "1.IH" net_tx_request_null)+
qed

lemma virtio_mmio_store_null:
  "virtio_mmio_store dev offset val ram rs = Some (dev', ram') \<Longrightarrow> (ram' = None) = (ram = None)"
  by (auto simp: virtio_mmio_store_def virtio_notify_def virtio_blk_process_queue_def
      virtio_net_process_queue_def Let_def bind_eq_Some_conv dest!: blk_loop_null net_tx_loop_null
      split: if_splits option.splits)

end
