(* ===== verification/RV_Virtio_Net.thy ===== *)
theory RV_Virtio_Net
  imports RV_Virtio
begin

text \<open>
  The rest of \<open>rv64_virtio_net.c\<close>: the initialisation of the network device and
  \<open>virtio_net_poll\<close>, which lets the packet library run and moves the packets it handed back
  from the receive ring of the device into the guest's receive queue.

  The library itself (and \<open>poll\<close>) is outside the repository; a call to it is
  \<open>slirp_call\<close>, which appends to the log of calls and delivers the packets that the
  library's oracle names. The transmit half of the file is in \<open>RV_Virtio\<close>, because the
  register file dispatches to it.
\<close>

subsection \<open>Initialisation\<close>

text \<open>\<open>sl\<close> is what \<open>slirp_new\<close> returns.\<close>

definition virtio_net_init ::
  "virtio_mmio_dev \<Rightarrow> u32 \<Rightarrow> bool \<Rightarrow> u64 \<Rightarrow> slirp option \<Rightarrow> virtio_mmio_dev" where
  "virtio_net_init dev irq ram ram_size sl =
     (zero_dev (dev_dirty_log dev))\<lparr>dev_device_id := VIRTIO_DEV_NET, dev_irq := irq,
        dev_ram := ram, dev_ram_size := ram_size, dev_slirp := sl\<rparr>"

subsection \<open>Poll descriptors\<close>

text \<open>The array that the library fills during a poll holds at most 256 descriptors:
  \<open>slirp_add_poll_cb\<close> refuses the next one (\<open>None\<close> is the return value -1).
  The events are the flags of the library (in, out, priority) and of \<open>poll\<close>.\<close>

record pollfd =
  pfd_fd :: int
  pfd_in :: bool
  pfd_out :: bool
  pfd_pri :: bool

definition slirp_add_poll_cb ::
  "int \<Rightarrow> bool \<times> bool \<times> bool \<Rightarrow> pollfd list \<Rightarrow> nat option \<times> pollfd list" where
  "slirp_add_poll_cb fd events ps =
     (if length ps \<ge> 256 then (None, ps)
      else (Some (length ps),
            ps @ [\<lparr>pfd_fd = fd, pfd_in = fst events, pfd_out = fst (snd events),
                   pfd_pri = snd (snd events)\<rparr>]))"

text \<open>What \<open>poll\<close> reported for a descriptor (in, out, priority, error, hang-up), handed to the library;
  an index that was not handed out has no events.\<close>

definition slirp_get_revents_cb ::
  "int \<Rightarrow> (bool \<times> bool \<times> bool \<times> bool \<times> bool) list \<Rightarrow> bool \<times> bool \<times> bool \<times> bool \<times> bool" where
  "slirp_get_revents_cb idx rs =
     (if idx < 0 \<or> idx \<ge> int (length rs) then (False, False, False, False, False) else rs ! nat idx)"

subsection \<open>Delivery to the guest\<close>

text \<open>The ten zero bytes of \<open>struct virtio_net_hdr\<close>.\<close>

definition net_hdr :: "u8 list" where
  "net_hdr = replicate 10 0"

text \<open>One packet of the ring. The result says whether it was pushed into a
  descriptor; a descriptor shorter than the header drops it.\<close>

definition net_rx_packet ::
  "virtio_queue \<Rightarrow> virtio_mmio_dev \<Rightarrow> mem option \<Rightarrow> u64 \<Rightarrow>
   (bool \<times> virtio_queue \<times> virtio_mmio_dev \<times> mem option) undef" where
  "net_rx_packet vq dev ram ram_size = do {
     r_idx \<leftarrow> ring_slot (dev_rx_tail dev) 256;
     let curlen = dev_rx_ring_sizes dev r_idx;
     let buf = dev_rx_ring_buffers dev r_idx;
     ring_idx \<leftarrow> vring_avail_slot vq;
     r \<leftarrow> guest_read ram ram_size (vq_avail_addr vq + 4 + ucast ring_idx * 2) 2;
     let desc_head = (case r of None \<Rightarrow> 0 :: u16 | Some bs \<Rightarrow> ucast (le_val bs));
     desc \<leftarrow> vring_read_desc vq desc_head ram ram_size None;
     tail \<leftarrow> int_inc (dev_rx_tail dev);
     if d_len desc \<ge> 10 then do {
       let payload_space = unat (d_len desc - 10);
       let to_copy = (if curlen > payload_space then payload_space else curlen);
       (_, ram1) \<leftarrow> guest_write ram ram_size (d_addr desc) net_hdr;
       (_, ram2) \<leftarrow> (if to_copy \<le> length buf
                    then guest_write ram1 ram_size (d_addr desc + 10) (take to_copy buf) else None);
       ram3 \<leftarrow> vring_add_used vq desc_head (of_nat (10 + to_copy)) ram2 ram_size;
       Some (True, vq\<lparr>vq_last_avail := vq_last_avail vq + 1\<rparr>, dev\<lparr>dev_rx_tail := tail\<rparr>, ram3)
     } else Some (False, vq, dev\<lparr>dev_rx_tail := tail\<rparr>, ram)
   }"

lemma net_rx_packet_tail:
  "net_rx_packet vq dev ram ram_size = Some (p, vq', dev', ram') \<Longrightarrow>
     dev_rx_tail dev' = dev_rx_tail dev + 1 \<and> dev_rx_tail dev < 2147483647 \<and>
     dev_rx_head dev' = dev_rx_head dev"
  by (auto simp: net_rx_packet_def Let_def bind_eq_Some_conv dest: int_inc_SomeD split: if_splits)

function net_rx_loop ::
  "u16 \<Rightarrow> bool \<Rightarrow> virtio_queue \<Rightarrow> virtio_mmio_dev \<Rightarrow> mem option \<Rightarrow> u64 \<Rightarrow>
   (bool \<times> virtio_queue \<times> virtio_mmio_dev \<times> mem option) undef" where
  "net_rx_loop avail_idx pushed vq dev ram ram_size =
     (if dev_rx_head dev \<noteq> dev_rx_tail dev \<and> vq_last_avail vq \<noteq> avail_idx
      then (case net_rx_packet vq dev ram ram_size of
              None \<Rightarrow> None
            | Some (p, vq', dev', ram') \<Rightarrow> net_rx_loop avail_idx (pushed \<or> p) vq' dev' ram' ram_size)
      else Some (pushed, vq, dev, ram))"
  by pat_completeness auto
termination net_rx_loop
  by (relation "measure (\<lambda>(_, _, _, dev, _). nat (2147483647 - dev_rx_tail dev))")
    (auto dest!: net_rx_packet_tail)

declare net_rx_loop.simps [simp del]

text \<open>\<open>ram\<close> is the guest RAM; the device reaches it through its own pointer and size.\<close>

definition virtio_net_poll ::
  "virtio_mmio_dev \<Rightarrow> mem option \<Rightarrow> (virtio_mmio_dev \<times> mem option) undef" where
  "virtio_net_poll dev ram =
     (if dev_slirp dev = None then Some (dev, ram)
      else do {
        dev1 \<leftarrow> slirp_call dev Slirp_Poll;
        let vq = dev_queues dev1 0;
        if vq_ready vq \<noteq> 0 \<and> dev_rx_head dev1 \<noteq> dev_rx_tail dev1 then do {
          let dram = (if dev_ram dev1 then ram else None);
          r \<leftarrow> guest_read dram (dev_ram_size dev1) (vq_avail_addr vq + 2) 2;
          let avail_idx = (case r of None \<Rightarrow> 0 :: u16 | Some bs \<Rightarrow> ucast (le_val bs));
          (pushed, vq2, dev2, ram2) \<leftarrow> net_rx_loop avail_idx False vq dev1 dram (dev_ram_size dev1);
          let dev3 = dev2\<lparr>dev_queues := (dev_queues dev2)(0 := vq2)\<rparr>;
          Some ((if pushed then dev3\<lparr>dev_int_status := dev_int_status dev3 OR VIRTIO_INT_USED_RING\<rparr>
                 else dev3), (if dev_ram dev1 then ram2 else ram))
        } else Some (dev1, ram)
      })"

subsection \<open>The receive ring\<close>

text \<open>Between calls the ring holds at most 256 packets and no recorded size exceeds a buffer.\<close>

definition net_ring_inv :: "virtio_mmio_dev \<Rightarrow> bool" where
  "net_ring_inv dev \<longleftrightarrow> 0 \<le> dev_rx_tail dev \<and> dev_rx_tail dev \<le> dev_rx_head dev \<and>
     dev_rx_head dev - dev_rx_tail dev \<le> 256 \<and>
     (\<forall>i. length (dev_rx_ring_buffers dev i) = 2048 \<and> dev_rx_ring_sizes dev i \<le> 2048)"

lemma zero_dev_ring_inv [simp]: "net_ring_inv (zero_dev d)"
  by (simp add: net_ring_inv_def zero_dev_def)

lemma slirp_send_packet_inv:
  "net_ring_inv dev \<Longrightarrow> slirp_send_packet dev buf = Some dev' \<Longrightarrow> net_ring_inv dev'"
  by (auto simp: net_ring_inv_def slirp_send_packet_def Let_def bind_eq_Some_conv
      dest!: int_inc_SomeD split: if_splits)

lemma slirp_deliver_inv:
  "net_ring_inv dev \<Longrightarrow> slirp_deliver ps dev = Some dev' \<Longrightarrow> net_ring_inv dev'"
  by (induction ps arbitrary: dev) (auto simp: bind_eq_Some_conv dest: slirp_send_packet_inv)

lemma net_ring_inv_slirp [simp]: "net_ring_inv (dev\<lparr>dev_slirp := s\<rparr>) = net_ring_inv dev"
  by (simp add: net_ring_inv_def)

lemma slirp_call_inv:
  "net_ring_inv dev \<Longrightarrow> slirp_call dev c = Some dev' \<Longrightarrow> net_ring_inv dev'"
  by (auto simp: slirp_call_def Let_def split: option.splits dest: slirp_deliver_inv [rotated])

lemma net_rx_packet_inv:
  assumes "net_ring_inv dev" "dev_rx_head dev \<noteq> dev_rx_tail dev"
    and "net_rx_packet vq dev ram ram_size = Some (p, vq', dev', ram')"
  shows "net_ring_inv dev'"
  using assms
  by (auto simp: net_ring_inv_def net_rx_packet_def Let_def bind_eq_Some_conv
      dest!: int_inc_SomeD split: if_splits)

lemma net_rx_loop_inv:
  "net_ring_inv dev \<Longrightarrow> net_rx_loop avail_idx pushed vq dev ram ram_size = Some (p, vq', dev', ram') \<Longrightarrow>
     net_ring_inv dev' \<and> (dev_rx_head dev' = dev_rx_tail dev' \<or> vq_last_avail vq' = avail_idx)"
proof (induction avail_idx pushed vq dev ram ram_size rule: net_rx_loop.induct)
  case (1 avail_idx pushed vq dev ram ram_size)
  show ?case
  proof (cases "dev_rx_head dev \<noteq> dev_rx_tail dev \<and> vq_last_avail vq \<noteq> avail_idx")
    case True
    with 1 show ?thesis
      by (subst (asm) (2) net_rx_loop.simps)
        (auto split: option.splits prod.splits dest: net_rx_packet_inv)
  next
    case False
    with "1.prems" show ?thesis by (auto simp: net_rx_loop.simps)
  qed
qed

lemma virtio_net_poll_inv:
  assumes "net_ring_inv dev" "virtio_net_poll dev ram = Some (dev', ram')"
  shows "net_ring_inv dev'"
proof -
  have upd: "net_ring_inv (d\<lparr>dev_queues := q\<rparr>) = net_ring_inv d"
    "net_ring_inv (d\<lparr>dev_int_status := s\<rparr>) = net_ring_inv d" for d q s
    by (simp_all add: net_ring_inv_def)
  show ?thesis
    using assms
    by (auto simp: virtio_net_poll_def Let_def bind_eq_Some_conv upd
        dest!: net_rx_loop_inv [rotated] slirp_call_inv [rotated] split: if_splits prod.splits)
qed

subsection \<open>The RAM block\<close>

lemma net_rx_packet_null:
  "net_rx_packet vq dev ram rs = Some (p, vq', dev', ram') \<Longrightarrow> (ram' = None) = (ram = None)"
  by (auto simp: net_rx_packet_def Let_def bind_eq_Some_conv dest!: guest_write_null vring_add_used_null split: if_splits)

lemma net_rx_loop_null:
  "net_rx_loop avail_idx pushed vq dev ram rs = Some (p, vq', dev', ram') \<Longrightarrow> (ram' = None) = (ram = None)"
proof (induction avail_idx pushed vq dev ram rs rule: net_rx_loop.induct)
  case (1 avail_idx pushed vq dev ram rs)
  show ?case
  proof (cases "dev_rx_head dev \<noteq> dev_rx_tail dev \<and> vq_last_avail vq \<noteq> avail_idx")
    case True
    with 1 show ?thesis
      by (subst (asm) (2) net_rx_loop.simps) (auto split: option.splits prod.splits dest: net_rx_packet_null)
  next
    case False
    with "1.prems" show ?thesis by (auto simp: net_rx_loop.simps)
  qed
qed

lemma virtio_net_poll_null:
  "virtio_net_poll dev ram = Some (dev', ram') \<Longrightarrow> (ram' = None) = (ram = None)"
  by (auto simp: virtio_net_poll_def Let_def bind_eq_Some_conv dest!: net_rx_loop_null split: if_splits)

end
