(* ===== verification/RV_Bus.thy ===== *)
theory RV_Bus
  imports RV_Uart RV_Irqchip RV_Virtio_Net
begin

text \<open>
  \<open>bus_load\<close>, \<open>bus_store\<close> and \<open>rv64_uart_rx\<close> of \<open>rv64_bus.c\<close>: the routing of a physical
  address to RAM or to a device.

  A bus access returns a sum: \<open>Inl ()\<close> is the return value -1. A RAM access whose
  first byte is inside the block and whose last byte is not is undefined, as in C.
  The lemmas show that the address map has no overlap, that RAM behaves as a byte store, and
  which accesses are defined.
\<close>

subsection \<open>Routing\<close>

definition ram_hit :: "u64 \<Rightarrow> u64 \<Rightarrow> bool" where
  "ram_hit ram_size addr \<longleftrightarrow> addr \<ge> RAM_BASE \<and> addr < RAM_BASE + ram_size"

definition mmio_hit :: "u64 \<Rightarrow> u64 \<Rightarrow> u64 \<Rightarrow> bool" where
  "mmio_hit base sz addr \<longleftrightarrow> addr \<ge> base \<and> addr < base + sz"

definition bus_size :: "nat \<Rightarrow> bool" where
  "bus_size sz \<longleftrightarrow> sz = 1 \<or> sz = 2 \<or> sz = 4 \<or> sz = 8"

text \<open>The loop over the virtio slots: slot \<open>i\<close> at
  \<open>vbase\<close>, \<open>n\<close> slots left. A slot without a device does not end the search.\<close>

fun virtio_find ::
  "(nat \<Rightarrow> virtio_ref option) \<Rightarrow> u64 \<Rightarrow> nat \<Rightarrow> u64 \<Rightarrow> nat \<Rightarrow> (virtio_ref \<times> u64) option" where
  "virtio_find devs addr i vbase 0 = None"
| "virtio_find devs addr i vbase (Suc n) =
     (if mmio_hit vbase VIRTIO_MMIO_SIZE addr \<and> devs i \<noteq> None
      then Some (the (devs i), addr - vbase)
      else virtio_find devs addr (Suc i) (vbase + VIRTIO_MMIO_SIZE) n)"

definition virtio_slot :: "'c vm \<Rightarrow> u64 \<Rightarrow> (virtio_ref \<times> u64) option" where
  "virtio_slot m addr = virtio_find (cpu_virtio_devs m) addr 0 VIRTIO_MMIO_BASE VIRTIO_MMIO_COUNT"

definition virtio_dev :: "'c vm \<Rightarrow> virtio_ref \<Rightarrow> virtio_mmio_dev" where
  "virtio_dev m r = (case r of Virtio_Blk \<Rightarrow> cpu_virtio_blk m | Virtio_Net \<Rightarrow> cpu_virtio_net m)"

definition set_virtio_dev :: "'c vm \<Rightarrow> virtio_ref \<Rightarrow> virtio_mmio_dev \<Rightarrow> 'c vm" where
  "set_virtio_dev m r dev =
     (case r of Virtio_Blk \<Rightarrow> m\<lparr>cpu_virtio_blk := dev\<rparr> | Virtio_Net \<Rightarrow> m\<lparr>cpu_virtio_net := dev\<rparr>)"

text \<open>\<open>plic.pending\<close> has two words.\<close>

definition bus_raise :: "'c vm \<Rightarrow> nat \<Rightarrow> 'c vm undef" where
  "bus_raise m irq =
     (if irq < 64 then Some (m\<lparr>cpu_plic := plic_raise (cpu_plic m) irq\<rparr>) else None)"

subsection \<open>RAM\<close>

definition ram_load :: "'c vm \<Rightarrow> u64 \<Rightarrow> nat \<Rightarrow> (unit + u64) undef" where
  "ram_load m addr sz =
     (case vm_ram m of
        None \<Rightarrow> Some (Inl ())
      | Some ram \<Rightarrow>
          if \<not> bus_size sz then Some (Inl ())
          else if in_block (cpu_ram_size m) (addr - RAM_BASE) sz
          then Some (Inr (load_le ram (addr - RAM_BASE) sz))
          else None)"

definition ram_store :: "'c vm \<Rightarrow> u64 \<Rightarrow> nat \<Rightarrow> u64 \<Rightarrow> ((unit + unit) \<times> 'c vm) undef" where
  "ram_store m addr sz val =
     (case vm_ram m of
        None \<Rightarrow> Some (Inl (), m)
      | Some ram \<Rightarrow>
          if \<not> bus_size sz then Some (Inl (), m)
          else if in_block (cpu_ram_size m) (addr - RAM_BASE) sz
          then Some (Inr (), m\<lparr>vm_ram := Some (store_le ram (addr - RAM_BASE) sz val)\<rparr>)
          else None)"

subsection \<open>Loads and stores\<close>

definition bus_load :: "'c vm \<Rightarrow> u64 \<Rightarrow> nat \<Rightarrow> ((unit + u64) \<times> 'c vm) undef" where
  "bus_load m addr sz =
     (if ram_hit (cpu_ram_size m) addr then do { r \<leftarrow> ram_load m addr sz; Some (r, m) }
      else if mmio_hit UART0_BASE UART0_SIZE addr then
        (let (v, u) = uart_load (cpu_uart m) (addr - UART0_BASE)
         in Some (Inr v, m\<lparr>cpu_uart := u\<rparr>))
      else if mmio_hit CLINT_BASE CLINT_SIZE addr then
        Some (Inr (clint_load (cpu_clint m) (addr - CLINT_BASE)), m)
      else if mmio_hit PLIC_BASE PLIC_SIZE addr then
        (let (v, p) = plic_load (cpu_plic m) (addr - PLIC_BASE)
         in Some (Inr v, m\<lparr>cpu_plic := p\<rparr>))
      else
        (case virtio_slot m addr of
           Some (r, offset) \<Rightarrow> do {
             v \<leftarrow> virtio_mmio_load (virtio_dev m r) offset sz;
             Some (Inr v, m)
           }
         | None \<Rightarrow> Some (Inr 0, m)))"

definition uart_bus_store :: "'c vm \<Rightarrow> u64 \<Rightarrow> u64 \<Rightarrow> 'c vm undef" where
  "uart_bus_store m offset val =
     (let m1 = m\<lparr>cpu_uart := uart_store (cpu_uart m) offset val\<rparr>
      in if uart_irq (cpu_uart m1) then bus_raise m1 UART0_IRQ else Some m1)"

definition virtio_bus_store :: "'c vm \<Rightarrow> virtio_ref \<Rightarrow> u64 \<Rightarrow> u64 \<Rightarrow> 'c vm undef" where
  "virtio_bus_store m r offset val = do {
     (dev, ram) \<leftarrow> virtio_mmio_store (virtio_dev m r) offset val (vm_ram m) (cpu_ram_size m);
     let m1 = (set_virtio_dev m r dev)\<lparr>vm_ram := ram\<rparr>;
     if dev_int_status dev \<noteq> 0 then bus_raise m1 (unat (dev_irq dev)) else Some m1
   }"

definition bus_store :: "'c vm \<Rightarrow> u64 \<Rightarrow> nat \<Rightarrow> u64 \<Rightarrow> ((unit + unit) \<times> 'c vm) undef" where
  "bus_store m addr sz val =
     (if ram_hit (cpu_ram_size m) addr then ram_store m addr sz val
      else if mmio_hit UART0_BASE UART0_SIZE addr then
        map_option (Pair (Inr ())) (uart_bus_store m (addr - UART0_BASE) val)
      else if mmio_hit CLINT_BASE CLINT_SIZE addr then
        Some (Inr (), m\<lparr>cpu_clint := clint_store (cpu_clint m) (addr - CLINT_BASE) val sz\<rparr>)
      else if mmio_hit PLIC_BASE PLIC_SIZE addr then
        Some (Inr (), m\<lparr>cpu_plic := plic_store (cpu_plic m) (addr - PLIC_BASE) val\<rparr>)
      else
        (case virtio_slot m addr of
           Some (r, offset) \<Rightarrow> map_option (Pair (Inr ())) (virtio_bus_store m r offset val)
         | None \<Rightarrow> Some (Inr (), m)))"

text \<open>Input from the host console; the interrupt is raised even when the byte is dropped.\<close>

definition rv64_uart_rx :: "'c vm \<Rightarrow> u8 \<Rightarrow> 'c vm" where
  "rv64_uart_rx m ch =
     m\<lparr>cpu_uart := uart_push (cpu_uart m) ch, cpu_plic := plic_raise (cpu_plic m) UART0_IRQ\<rparr>"

subsection \<open>What the bus keeps\<close>

text \<open>The size of RAM is sane: the block is not empty, a whole number of pages, and its end
  does not wrap around the address space.\<close>

definition ram_ok :: "'c vm \<Rightarrow> bool" where
  "ram_ok m \<longleftrightarrow> vm_ram m \<noteq> None \<and> 4096 dvd unat (cpu_ram_size m) \<and>
     unat (cpu_ram_size m) \<le> 2 ^ 64 - 2 ^ 31 - 4096"

lemma ram_hit_iff:
  assumes "unat rs \<le> 2 ^ 64 - 2 ^ 31 - 4096"
  shows "ram_hit rs addr \<longleftrightarrow> 0x80000000 \<le> unat addr \<and> unat addr - 0x80000000 < unat rs"
proof -
  have "unat (RAM_BASE + rs) = 0x80000000 + unat rs"
    using assms by (simp add: unat_word_ariths)
  then show ?thesis by (auto simp: ram_hit_def word_le_nat_alt word_less_nat_alt)
qed

lemma unat_ram_offset: "addr \<ge> RAM_BASE \<Longrightarrow> unat (addr - RAM_BASE) = unat addr - 0x80000000"
  by (simp add: unat_sub word_le_nat_alt)

text \<open>A hit on RAM whose access stays in its page is inside the block.\<close>

lemma page_room:
  fixes n rs k :: nat
  assumes "n < rs" "4096 dvd rs" "n mod 4096 + k \<le> 4096"
  shows "n + k \<le> rs"
proof -
  obtain q where q: "rs = 4096 * q" using assms(2) by blast
  have "n div 4096 < q" using assms(1) q by (simp add: less_mult_imp_div_less mult.commute)
  then have "4096 * (n div 4096) + 4096 \<le> rs" using q by simp
  moreover have "n = 4096 * (n div 4096) + n mod 4096" by simp
  ultimately show ?thesis using assms(3) by linarith
qed

lemma ram_hitD:
  assumes "ram_ok m" "ram_hit (cpu_ram_size m) addr"
  shows "0x80000000 \<le> unat addr" "unat addr - 0x80000000 < unat (cpu_ram_size m)"
    "unat (addr - RAM_BASE) = unat addr - 0x80000000"
  using assms ram_hit_iff [of "cpu_ram_size m" addr]
  by (auto simp: ram_ok_def ram_hit_def intro: unat_ram_offset)

lemma page_offset_shift:
  "0x80000000 \<le> (n :: nat) \<Longrightarrow> (n - 0x80000000) mod 4096 = n mod 4096"
  using mod_mult_self2 [of "n - 0x80000000" 4096 "0x80000"] by simp

lemma ram_page_in_block:
  assumes "ram_ok m" "ram_hit (cpu_ram_size m) addr" "unat addr mod 4096 + sz \<le> 4096"
  shows "in_block (cpu_ram_size m) (addr - RAM_BASE) sz"
  using ram_hitD [OF assms(1,2)] assms(1,3)
    page_room [of "unat addr - 0x80000000" "unat (cpu_ram_size m)" sz]
  by (simp add: in_block_def ram_ok_def page_offset_shift)

text \<open>What a bus access leaves alone: everything but RAM and the devices. RAM stays where it is.\<close>

definition bus_same :: "'c vm \<Rightarrow> 'c vm \<Rightarrow> bool" where
  "bus_same m m' \<longleftrightarrow> ((vm_ram m' = None) = (vm_ram m = None)) \<and>
     (\<exists>u c p b n ram. m' = m\<lparr>cpu_uart := u, cpu_clint := c, cpu_plic := p, cpu_virtio_blk := b,
        cpu_virtio_net := n, vm_ram := ram\<rparr>)"

lemma bus_sameI:
  assumes "(ram = None) = (vm_ram m = None)"
    and "m' = m\<lparr>cpu_uart := u, cpu_clint := c, cpu_plic := p, cpu_virtio_blk := b,
        cpu_virtio_net := n, vm_ram := ram\<rparr>"
  shows "bus_same m m'"
  unfolding bus_same_def
proof (intro conjI exI)
  show "(vm_ram m' = None) = (vm_ram m = None)" using assms by simp
  show "m' = m\<lparr>cpu_uart := u, cpu_clint := c, cpu_plic := p, cpu_virtio_blk := b,
        cpu_virtio_net := n, vm_ram := ram\<rparr>"
    by (rule assms(2))
qed

lemma bus_sameE:
  assumes "bus_same m m'"
  obtains u c p b n ram where "(ram = None) = (vm_ram m = None)"
    and "m' = m\<lparr>cpu_uart := u, cpu_clint := c, cpu_plic := p, cpu_virtio_blk := b,
        cpu_virtio_net := n, vm_ram := ram\<rparr>"
  using assms unfolding bus_same_def by force

lemma bus_same_refl [simp]: "bus_same m m"
  by (rule bus_sameI [where u = "cpu_uart m" and c = "cpu_clint m" and p = "cpu_plic m"
        and b = "cpu_virtio_blk m" and n = "cpu_virtio_net m" and ram = "vm_ram m"]) simp_all

lemma bus_same_uart [simp]: "bus_same m (m\<lparr>cpu_uart := u\<rparr>)"
  by (rule bus_sameI [where u = u and c = "cpu_clint m" and p = "cpu_plic m"
        and b = "cpu_virtio_blk m" and n = "cpu_virtio_net m" and ram = "vm_ram m"]) simp_all

lemma bus_same_clint [simp]: "bus_same m (m\<lparr>cpu_clint := c\<rparr>)"
  by (rule bus_sameI [where u = "cpu_uart m" and c = c and p = "cpu_plic m"
        and b = "cpu_virtio_blk m" and n = "cpu_virtio_net m" and ram = "vm_ram m"]) simp_all

lemma bus_same_plic [simp]: "bus_same m (m\<lparr>cpu_plic := p\<rparr>)"
  by (rule bus_sameI [where u = "cpu_uart m" and c = "cpu_clint m" and p = p
        and b = "cpu_virtio_blk m" and n = "cpu_virtio_net m" and ram = "vm_ram m"]) simp_all

lemma bus_same_ram:
  "(ram = None) = (vm_ram m = None) \<Longrightarrow> bus_same m (m\<lparr>vm_ram := ram\<rparr>)"
  by (rule bus_sameI [where u = "cpu_uart m" and c = "cpu_clint m" and p = "cpu_plic m"
        and b = "cpu_virtio_blk m" and n = "cpu_virtio_net m" and ram = ram]) simp_all

lemma bus_same_virtio [simp]: "bus_same m (set_virtio_dev m r dev)"
proof (cases r)
  case Virtio_Blk
  then show ?thesis
    by (intro bus_sameI [where u = "cpu_uart m" and c = "cpu_clint m" and p = "cpu_plic m"
          and b = dev and n = "cpu_virtio_net m" and ram = "vm_ram m"])
      (simp_all add: set_virtio_dev_def)
next
  case Virtio_Net
  then show ?thesis
    by (intro bus_sameI [where u = "cpu_uart m" and c = "cpu_clint m" and p = "cpu_plic m"
          and b = "cpu_virtio_blk m" and n = dev and ram = "vm_ram m"])
      (simp_all add: set_virtio_dev_def)
qed

lemma bus_same_trans [trans]:
  assumes "bus_same m m'" "bus_same m' m''"
  shows "bus_same m m''"
proof -
  from assms(2) obtain u c p b n ram where "(ram = None) = (vm_ram m' = None)"
    and m'': "m'' = m'\<lparr>cpu_uart := u, cpu_clint := c, cpu_plic := p, cpu_virtio_blk := b,
        cpu_virtio_net := n, vm_ram := ram\<rparr>" by (rule bus_sameE)
  with assms(1) have "(ram = None) = (vm_ram m = None)" by (simp add: bus_same_def)
  moreover from assms(1) m'' have "m'' = m\<lparr>cpu_uart := u, cpu_clint := c, cpu_plic := p,
      cpu_virtio_blk := b, cpu_virtio_net := n, vm_ram := ram\<rparr>"
    by (elim bus_sameE) simp
  ultimately show ?thesis by (rule bus_sameI)
qed

lemma bus_same_ram_ok: "bus_same m m' \<Longrightarrow> ram_ok m' = ram_ok m"
  by (elim bus_sameE) (simp add: ram_ok_def)

lemma bus_raise_same: "bus_raise m irq = Some m' \<Longrightarrow> bus_same m m'"
  by (auto simp: bus_raise_def split: if_splits)

lemma set_virtio_dev_ram [simp]: "vm_ram (set_virtio_dev m r dev) = vm_ram m"
  by (cases r) (simp_all add: set_virtio_dev_def)

lemma virtio_bus_store_same:
  assumes "virtio_bus_store m r offset val = Some m'"
  shows "bus_same m m'"
proof -
  obtain dev ram where st: "virtio_mmio_store (virtio_dev m r) offset val (vm_ram m) (cpu_ram_size m)
      = Some (dev, ram)"
    and m': "(if dev_int_status dev \<noteq> 0
              then bus_raise ((set_virtio_dev m r dev)\<lparr>vm_ram := ram\<rparr>) (unat (dev_irq dev))
              else Some ((set_virtio_dev m r dev)\<lparr>vm_ram := ram\<rparr>)) = Some m'"
    using assms by (auto simp: virtio_bus_store_def Let_def bind_eq_Some_conv)
  have "bus_same m ((set_virtio_dev m r dev)\<lparr>vm_ram := ram\<rparr>)"
    using virtio_mmio_store_null [OF st] by (intro bus_same_trans [OF bus_same_virtio bus_same_ram]) simp
  with m' show ?thesis
    by (auto split: if_splits intro: bus_same_trans dest: bus_raise_same)
qed

lemma bus_load_same: "bus_load m addr sz = Some (r, m') \<Longrightarrow> bus_same m m'"
  by (auto simp: bus_load_def bind_eq_Some_conv split: if_splits option.splits prod.splits)

lemma bus_store_same: "bus_store m addr sz val = Some (r, m') \<Longrightarrow> bus_same m m'"
  by (auto simp: bus_store_def ram_store_def uart_bus_store_def Let_def
      split: if_splits option.splits prod.splits
      intro: bus_same_ram bus_same_trans [OF bus_same_uart] dest: bus_raise_same
        virtio_bus_store_same)

text \<open>A load from RAM changes nothing.\<close>

lemma bus_load_ram:
  "ram_hit (cpu_ram_size m) addr \<Longrightarrow> bus_load m addr sz = map_option (\<lambda>r. (r, m)) (ram_load m addr sz)"
  by (auto simp: bus_load_def split: Option.bind_splits)

lemma bus_store_ram:
  "ram_hit (cpu_ram_size m) addr \<Longrightarrow> bus_store m addr sz val = ram_store m addr sz val"
  by (simp add: bus_store_def)

lemma virtio_slot_none: "cpu_virtio_devs m = (\<lambda>_. None) \<Longrightarrow> virtio_slot m a = None"
proof -
  have "virtio_find (\<lambda>_. None) a i b n = None" for i b n by (induction n arbitrary: i b) auto
  then show "cpu_virtio_devs m = (\<lambda>_. None) \<Longrightarrow> virtio_slot m a = None" by (simp add: virtio_slot_def)
qed

subsection \<open>RAM as a byte store\<close>

text \<open>
  What the rest of the machine relies on: inside its domain a store succeeds, a load of
  the same bytes returns what was stored, other bytes keep their value, and a load
  has no effect. The client lemma joins single bytes, as a page-crossing access does.
\<close>

locale byte_store =
  fixes load :: "'m \<Rightarrow> u64 \<Rightarrow> nat \<Rightarrow> u64 option"
    and store :: "'m \<Rightarrow> u64 \<Rightarrow> nat \<Rightarrow> u64 \<Rightarrow> 'm option"
    and dom :: "'m \<Rightarrow> u64 \<Rightarrow> nat \<Rightarrow> bool"
    and mem :: "'m \<Rightarrow> u64 \<Rightarrow> u8"
  assumes load_mem: "dom m a n \<Longrightarrow> load m a n = Some (le_val (read_bytes (mem m) a n))"
    and store_mem: "dom m a n \<Longrightarrow>
      \<exists>m'. store m a n v = Some m' \<and> mem m' = write_bytes (mem m) a (le_bytes n v) \<and> dom m' = dom m"
    and dom_byte: "dom m a n \<Longrightarrow> i < n \<Longrightarrow> dom m (a + of_nat i) 1"
    and dom_size: "dom m a n \<Longrightarrow> n \<le> 8"
begin

lemma load_store:
  assumes "dom m a n" "store m a n v = Some m'"
  shows "load m' a n = Some (take_bit (8 * n) v)"
proof -
  have "mem m' = write_bytes (mem m) a (le_bytes n v)" "dom m' a n"
    using store_mem [OF assms(1), of v] assms by auto
  then show ?thesis
    using load_mem [of m' a n] read_write_bytes [of "le_bytes n v" "mem m" a] dom_size [OF assms(1)]
    by (simp add: le_val_le_bytes)
qed

text \<open>Joining the bytes of \<open>n\<close> single-byte loads, as the page-crossing loop does.\<close>

fun join :: "'m \<Rightarrow> u64 \<Rightarrow> nat \<Rightarrow> u64 option" where
  "join m a 0 = Some 0"
| "join m a (Suc n) =
     (case (join m a n, load m (a + of_nat n) 1) of
        (Some r, Some b) \<Rightarrow> Some (r OR shl (b AND 0xFF) (n * 8))
      | _ \<Rightarrow> None)"

lemma join_load:
  assumes "dom m a n" "k \<le> n"
  shows "join m a k = Some (le_val (read_bytes (mem m) a k))"
  using assms(2)
proof (induction k)
  case 0
  then show ?case by (simp add: read_bytes_def)
next
  case (Suc k)
  have "load m (a + of_nat k) 1 = Some (ucast (mem m (a + of_nat k)))"
    using load_mem [OF dom_byte [OF assms(1), of k]] Suc.prems by (simp add: read_bytes_def)
  moreover have "read_bytes (mem m) a (Suc k) = read_bytes (mem m) a k @ [mem m (a + of_nat k)]"
    by (simp add: read_bytes_def)
  ultimately show ?case
    using Suc by (simp add: le_val_snoc mult.commute ucast_byte_mask)
qed

lemma join_eq_load: "dom m a n \<Longrightarrow> join m a n = load m a n"
  using join_load [of m a n n] load_mem by simp

end

text \<open>The bus is such a store on RAM: the values of successful accesses, and the accesses that
  lie inside the block.\<close>

definition bus_read :: "'c vm \<Rightarrow> u64 \<Rightarrow> nat \<Rightarrow> u64 option" where
  "bus_read m a n = (case bus_load m a n of Some (Inr v, _) \<Rightarrow> Some v | _ \<Rightarrow> None)"

definition bus_write :: "'c vm \<Rightarrow> u64 \<Rightarrow> nat \<Rightarrow> u64 \<Rightarrow> 'c vm option" where
  "bus_write m a n v = (case bus_store m a n v of Some (Inr _, m') \<Rightarrow> Some m' | _ \<Rightarrow> None)"

definition ram_dom :: "'c vm \<Rightarrow> u64 \<Rightarrow> nat \<Rightarrow> bool" where
  "ram_dom m a n \<longleftrightarrow> ram_ok m \<and> bus_size n \<and> ram_hit (cpu_ram_size m) a \<and>
     in_block (cpu_ram_size m) (a - RAM_BASE) n"

definition ram_mem :: "'c vm \<Rightarrow> u64 \<Rightarrow> u8" where
  "ram_mem m a = the (vm_ram m) (a - RAM_BASE)"

lemma ram_dom_byte:
  assumes "ram_dom m a n" "i < n"
  shows "ram_dom m (a + of_nat i) 1"
proof -
  have ok: "ram_ok m" and hit: "ram_hit (cpu_ram_size m) a"
    and blk: "unat (a - RAM_BASE) + n \<le> unat (cpu_ram_size m)" and n: "n \<le> 8"
    using assms(1) by (auto simp: ram_dom_def in_block_def bus_size_def)
  note h = ram_hitD [OF ok hit]
  have "unat a + i < 2 ^ 64" using h blk ok assms(2) n by (auto simp: ram_ok_def)
  then have "unat (a + of_nat i) = unat a + i"
    by (simp add: unat_word_ariths unat_of_nat)
  moreover from this have "unat (a + of_nat i - RAM_BASE) = unat a + i - 0x80000000"
    using h(1) by (simp add: unat_sub word_le_nat_alt)
  ultimately show ?thesis
    using h blk ok assms(2)
    by (auto simp: ram_dom_def bus_size_def in_block_def ram_hit_iff ram_ok_def)
qed

lemma ram_dom_size: "ram_dom m a n \<Longrightarrow> n \<le> 8"
  by (auto simp: ram_dom_def bus_size_def)

lemma ram_mem_read: "read_bytes (ram_mem m) a n = read_bytes (the (vm_ram m)) (a - RAM_BASE) n"
  by (simp add: read_bytes_def ram_mem_def algebra_simps)

lemma ram_mem_write:
  "vm_ram m \<noteq> None \<Longrightarrow>
   ram_mem (m\<lparr>vm_ram := Some (write_bytes (the (vm_ram m)) (a - RAM_BASE) bs)\<rparr>) = write_bytes (ram_mem m) a bs"
  by (rule ext) (simp add: ram_mem_def write_bytes_def)

lemma bus_read_ram:
  "ram_dom m a n \<Longrightarrow> bus_read m a n = Some (le_val (read_bytes (ram_mem m) a n))"
  by (auto simp: ram_dom_def ram_ok_def bus_read_def bus_load_ram ram_load_def ram_mem_read load_le_def)

lemma bus_write_ram:
  assumes "ram_dom m a n"
  shows "\<exists>m'. bus_write m a n v = Some m' \<and>
      ram_mem m' = write_bytes (ram_mem m) a (le_bytes n v) \<and> ram_dom m' = ram_dom m"
proof -
  obtain ram where ram: "vm_ram m = Some ram" using assms by (auto simp: ram_dom_def ram_ok_def)
  let ?m = "m\<lparr>vm_ram := Some (store_le ram (a - RAM_BASE) n v)\<rparr>"
  have "bus_write m a n v = Some ?m"
    using assms ram by (simp add: ram_dom_def bus_write_def bus_store_ram ram_store_def)
  moreover have "ram_mem ?m = write_bytes (ram_mem m) a (le_bytes n v)"
    using ram_mem_write [of m a "le_bytes n v"] ram by (simp add: store_le_def)
  moreover have "ram_dom ?m = ram_dom m"
    by (intro ext) (simp add: ram_dom_def ram_ok_def ram)
  ultimately show ?thesis by blast
qed

interpretation ram_bus: byte_store bus_read bus_write ram_dom ram_mem
  by unfold_locales (fact bus_read_ram bus_write_ram ram_dom_byte ram_dom_size)+

end
