(* ===== verification/RV_Init.thy ===== *)
theory RV_Init
  imports RV_Uart RV_Irqchip RV_Virtio_Net
begin

text \<open>
  The machine after \<open>memset(cpu, 0, sizeof(*cpu))\<close> and after \<open>rv64_init\<close>
  (\<open>rv64_cpu.c\<close>). The zeroed structures are written out field by field.
\<close>

subsection \<open>Zeroed structures\<close>

definition zero_tlb_entry :: tlb_entry where
  "zero_tlb_entry = \<lparr>te_vpn = 0, te_ppn = 0, te_host_base = None, te_perm = 0, te_level = 0,
     te_dirty = False, te_valid = False\<rparr>"

definition zero_dbg :: rv64_dbg where
  "zero_dbg = \<lparr>dbg_watch_addr = 0, dbg_watch_size = 0, dbg_watch_active = False, dbg_break_pc = 0,
     dbg_break_active = False, dbg_break_halt = False, dbg_debug_halt = False,
     dbg_store_log = (\<lambda>_. \<lparr>st_pc = 0, st_addr = 0, st_value = 0, st_size = 0, st_instret = 0\<rparr>),
     dbg_store_log_count = 0,
     dbg_break_log = (\<lambda>_. \<lparr>bk_pc = 0, bk_x = (\<lambda>_. 0), bk_f = (\<lambda>_. 0), bk_sp = 0, bk_instret = 0\<rparr>),
     dbg_break_log_count = 0,
     dbg_console_log = (\<lambda>_. \<lparr>cl_instret = 0, cl_console_pos = 0\<rparr>), dbg_console_log_count = 0,
     dbg_trap_log = (\<lambda>_. \<lparr>tl_cause = 0, tl_tval = 0, tl_pc = 0, tl_instret = 0, tl_priv = 0, tl_a7 = 0,
       tl_a0 = 0, tl_a1 = 0, tl_a2 = 0, tl_ret_a0 = 0, tl_ret_pc = 0\<rparr>),
     dbg_trap_log_count = 0, dbg_trap_log_last_slot = 0,
     dbg_inst_log = (\<lambda>_. \<lparr>il_pc = 0, il_insn = 0, il_instret = 0\<rparr>), dbg_inst_log_idx = 0\<rparr>"

definition zero_prof :: rv64_prof where
  "zero_prof = \<lparr>prof_exec_cycles = 0, prof_wfi_cycles = 0, prof_irq_checks = 0, prof_irq_taken = 0,
     prof_mmu_walks = 0, prof_mmu_walk_steps = 0, prof_tlb_hits = 0, prof_tlb_misses = 0,
     prof_insn_alu = 0, prof_insn_load = 0, prof_insn_store = 0, prof_insn_branch = 0,
     prof_insn_jump = 0, prof_insn_csr = 0, prof_insn_fpu = 0, prof_insn_atomic = 0,
     prof_insn_system = 0, prof_insn_other = 0, prof_blk_reads = 0, prof_blk_writes = 0,
     prof_blk_bytes_read = 0, prof_blk_bytes_written = 0,
     prof_perf_samples = (\<lambda>_. \<lparr>ps_pc = 0, ps_ra = 0, ps_fp = 0\<rparr>), prof_perf_sample_idx = 0,
     prof_perf_sample_tick = 0\<rparr>"

text \<open>The logs of calls to the outside, RAM and the clock are not part of the structure.\<close>

definition zero_cpu :: "'c vm \<Rightarrow> 'c vm" where
  "zero_cpu m = \<lparr>cpu_x = (\<lambda>_. 0), cpu_pc = 0, cpu_f = (\<lambda>_. 0), cpu_fcsr = 0, cpu_priv = 0,
     cpu_mstatus = 0, cpu_misa = 0, cpu_medeleg = 0, cpu_mideleg = 0, cpu_mie = 0, cpu_mtvec = 0,
     cpu_mcounteren = 0, cpu_mscratch = 0, cpu_mepc = 0, cpu_mcause = 0, cpu_mtval = 0, cpu_mip = 0,
     cpu_satp = 0, cpu_sscratch = 0, cpu_sepc = 0, cpu_scause = 0, cpu_stval = 0, cpu_stvec = 0,
     cpu_scounteren = 0, cpu_stimecmp = 0, cpu_menvcfg = 0, cpu_cycle = 0, cpu_instret = 0,
     cpu_pmpcfg = (\<lambda>_. 0), cpu_pmpaddr = (\<lambda>_. 0),
     cpu_reservation = \<lparr>rsv_valid = False, rsv_addr = 0\<rparr>, cpu_tlb = (\<lambda>_. zero_tlb_entry),
     cpu_uart = uart_reset\<lparr>u_lsr := 0, u_tx_log := u_tx_log (cpu_uart m)\<rparr>,
     cpu_clint = \<lparr>c_mtimecmp = 0, c_mtime = 0\<rparr>, cpu_plic = plic_zero,
     cpu_virtio_blk = zero_dev (dev_dirty_log (cpu_virtio_blk m)),
     cpu_virtio_net = zero_dev (dev_dirty_log (cpu_virtio_net m)),
     cpu_virtio_devs = (\<lambda>_. None), cpu_id = 0, cpu_ram_size = 0, cpu_jit = None,
     cpu_pending_irq_check = False, cpu_halted = False, cpu_error = False,
     cpu_run_exit_reason = RUN_EXIT_NONE, cpu_dbg = zero_dbg, cpu_prof = zero_prof,
     vm_ram = vm_ram m, vm_clock = vm_clock m, vm_clock_reads = vm_clock_reads m,
     vm_boot_time_ns = vm_boot_time_ns m\<rparr>"

definition zero_jit_block :: "'c jit_block" where
  "zero_jit_block = \<lparr>jb_guest_pc = 0, jb_host_code = None, jb_insn_count = 0, jb_valid = False,
     jb_has_store = False, jb_pending = False\<rparr>"

definition zero_jit :: "'c jit_state" where
  "zero_jit = \<lparr>jit_cache = (\<lambda>_. zero_jit_block), jit_enabled = False, jit_stat_jit_insns = 0,
     jit_rt_max_block_insns = 0, jit_disabled_ops = (\<lambda>_. 0)\<rparr>"

subsection \<open>Reset\<close>

text \<open>\<open>jit_init\<close> of \<open>rv64_sljit.c\<close> always succeeds.\<close>

definition jit_init :: "'c jit_state \<Rightarrow> 'c jit_state" where
  "jit_init jit = jit\<lparr>jit_enabled := True\<rparr>"

definition misa_init :: u64 where
  "misa_init = shl 2 62 OR 1 OR shl 1 2 OR shl 1 3 OR shl 1 5 OR shl 1 8 OR shl 1 12 OR shl 1 18 OR
     shl 1 20"

text \<open>\<open>jit_alloc\<close> says whether the allocation of the compiler state succeeds (and it is never
  attempted in a build without the compiler).\<close>

definition rv64_init :: "bool \<Rightarrow> 'c vm \<Rightarrow> u64 \<Rightarrow> 'c vm" where
  "rv64_init jit_alloc m ram_size =
     (let z = zero_cpu m
      in z\<lparr>cpu_ram_size := ram_size, cpu_priv := PRIV_M, cpu_pc := RAM_BASE,
          cpu_misa := misa_init, cpu_mstatus := shl 2 32 OR shl 2 34 OR shl 1 13,
          cpu_uart := (cpu_uart z)\<lparr>u_lsr := 0x60\<rparr>,
          cpu_clint := (cpu_clint z)\<lparr>c_mtimecmp := - 1\<rparr>, cpu_stimecmp := - 1,
          cpu_jit := (if jit_alloc then Some (jit_init zero_jit) else None)\<rparr>)"

subsection \<open>Concrete machines\<close>

text \<open>A machine with one gibibyte-aligned block of RAM and a stopped clock, reset without the
  compiler; the concrete instances of the theorems start from it.\<close>

definition bare_vm :: "mem \<Rightarrow> u64 \<Rightarrow> 'c vm" where
  "bare_vm ram ram_size = rv64_init False \<lparr>cpu_x = (\<lambda>_. 0), cpu_pc = 0, cpu_f = (\<lambda>_. 0), cpu_fcsr = 0,
     cpu_priv = 0, cpu_mstatus = 0, cpu_misa = 0, cpu_medeleg = 0, cpu_mideleg = 0, cpu_mie = 0,
     cpu_mtvec = 0, cpu_mcounteren = 0, cpu_mscratch = 0, cpu_mepc = 0, cpu_mcause = 0, cpu_mtval = 0,
     cpu_mip = 0, cpu_satp = 0, cpu_sscratch = 0, cpu_sepc = 0, cpu_scause = 0, cpu_stval = 0,
     cpu_stvec = 0, cpu_scounteren = 0, cpu_stimecmp = 0, cpu_menvcfg = 0, cpu_cycle = 0,
     cpu_instret = 0, cpu_pmpcfg = (\<lambda>_. 0), cpu_pmpaddr = (\<lambda>_. 0),
     cpu_reservation = \<lparr>rsv_valid = False, rsv_addr = 0\<rparr>, cpu_tlb = (\<lambda>_. zero_tlb_entry),
     cpu_uart = uart_reset, cpu_clint = \<lparr>c_mtimecmp = 0, c_mtime = 0\<rparr>, cpu_plic = plic_zero,
     cpu_virtio_blk = zero_dev [], cpu_virtio_net = zero_dev [], cpu_virtio_devs = (\<lambda>_. None),
     cpu_id = 0, cpu_ram_size = 0, cpu_jit = None, cpu_pending_irq_check = False,
     cpu_halted = False, cpu_error = False, cpu_run_exit_reason = RUN_EXIT_NONE,
     cpu_dbg = zero_dbg, cpu_prof = zero_prof, vm_ram = Some ram, vm_clock = (\<lambda>_. 0),
     vm_clock_reads = 0, vm_boot_time_ns = 0\<rparr> ram_size"

lemmas bare_vm_simps = bare_vm_def rv64_init_def zero_cpu_def Let_def

end
