(* ===== verification/RV_Mmu.thy ===== *)
theory RV_Mmu
  imports RV_Bus RV_Init
begin

text \<open>
  \<open>rv64_mmu.c\<close>: the TLB flush and \<open>rv64_translate\<close>, the Sv39 page-table walk behind a
  direct-mapped TLB.

  A translation returns \<open>Inr pa\<close> or \<open>Inl code\<close>, the exception code the C function
  returns. The lemmas cover the bit layout of the physical address on every page size, the
  TLB as a cache of walks, the bounds of the host pointers that the TLB hands to the fast
  paths, and what a translation leaves alone.
\<close>

subsection \<open>Flush\<close>

text \<open>The cache of compiled blocks (\<open>rv64_sljit.c\<close>): \<open>jit_destroy\<close> frees the code of every block,
  \<open>jit_flush\<close> also zeroes the cache.\<close>

definition jit_destroy :: "'c jit_state \<Rightarrow> 'c jit_state" where
  "jit_destroy jit = jit\<lparr>jit_cache := (\<lambda>i. (jit_cache jit i)\<lparr>jb_host_code := None\<rparr>)\<rparr>"

definition jit_flush :: "'c jit_state \<Rightarrow> 'c jit_state" where
  "jit_flush jit = (jit_destroy jit)\<lparr>jit_cache := (\<lambda>_. zero_jit_block)\<rparr>"

definition jit_invalidate :: "'c jit_state \<Rightarrow> 'c jit_state" where
  "jit_invalidate jit = jit_flush jit"

definition rv64_tlb_flush :: "'c vm \<Rightarrow> 'c vm" where
  "rv64_tlb_flush m =
     m\<lparr>cpu_tlb := (\<lambda>_. zero_tlb_entry), cpu_jit := map_option jit_flush (cpu_jit m)\<rparr>"

subsection \<open>TLB lookup\<close>

definition tlb_index :: "u64 \<Rightarrow> u64" where
  "tlb_index vaddr = shr vaddr PAGE_SHIFT AND TLB_INDEX_MASK"

definition tlb_slot :: "'c vm \<Rightarrow> u64 \<Rightarrow> tlb_entry" where
  "tlb_slot m vaddr = cpu_tlb m (tlb_index vaddr)"

definition te_bit :: "tlb_entry \<Rightarrow> u64 \<Rightarrow> bool" where
  "te_bit te b \<longleftrightarrow> ucast (te_perm te) AND b \<noteq> 0"

text \<open>The privilege rule, on the page's user bit.\<close>

definition priv_ok :: "u8 \<Rightarrow> u64 \<Rightarrow> bool \<Rightarrow> bool" where
  "priv_ok priv mstatus user \<longleftrightarrow>
     \<not> (priv = PRIV_U \<and> \<not> user) \<and> \<not> (priv = PRIV_S \<and> user \<and> mstatus AND MSTATUS_SUM = 0)"

definition tlb_access_ok :: "u64 \<Rightarrow> access \<Rightarrow> tlb_entry \<Rightarrow> bool" where
  "tlb_access_ok mstatus acc te =
     (case acc of
        ACCESS_READ \<Rightarrow> te_bit te PTE_R \<or> (mstatus AND MSTATUS_MXR \<noteq> 0 \<and> te_bit te PTE_X)
      | ACCESS_WRITE \<Rightarrow> te_bit te PTE_W \<and> te_dirty te
      | ACCESS_EXEC \<Rightarrow> te_bit te PTE_X)"

definition tlb_hit :: "'c vm \<Rightarrow> u64 \<Rightarrow> access \<Rightarrow> bool" where
  "tlb_hit m vaddr acc =
     (let te = tlb_slot m vaddr
      in te_valid te \<and> te_vpn te = shr vaddr PAGE_SHIFT \<and> tlb_access_ok (cpu_mstatus m) acc te \<and>
         priv_ok (cpu_priv m) (cpu_mstatus m) (te_bit te PTE_U))"

definition tlb_pa :: "tlb_entry \<Rightarrow> u64 \<Rightarrow> u64" where
  "tlb_pa te vaddr =
     (let page_offset = (if te_level te = 2 then vaddr AND 0x3FFFFFFF
                         else if te_level te = 1 then vaddr AND 0x1FFFFF
                         else vaddr AND PAGE_MASK)
      in shl (te_ppn te) PAGE_SHIFT OR page_offset)"

subsection \<open>The page-table walk\<close>

definition fault_code :: "access \<Rightarrow> u64" where
  "fault_code acc =
     (case acc of ACCESS_EXEC \<Rightarrow> EXC_INSN_PAGE_FAULT | ACCESS_READ \<Rightarrow> EXC_LOAD_PAGE_FAULT
      | ACCESS_WRITE \<Rightarrow> EXC_STORE_PAGE_FAULT)"

definition vpn_part :: "u64 \<Rightarrow> nat \<Rightarrow> u64" where
  "vpn_part vaddr level =
     (if level = 2 then shr vaddr 30 AND 0x1FF
      else if level = 1 then shr vaddr 21 AND 0x1FF
      else shr vaddr 12 AND 0x1FF)"

text \<open>A direct read when the whole entry is in RAM, the bus otherwise.\<close>

definition pte_read :: "'c vm \<Rightarrow> u64 \<Rightarrow> ((unit + u64) \<times> 'c vm) undef" where
  "pte_read m pte_addr =
     (if pte_addr \<ge> RAM_BASE \<and> pte_addr + 8 \<le> RAM_BASE + cpu_ram_size m then
        (case vm_ram m of
           None \<Rightarrow> Some (Inl (), m)
         | Some ram \<Rightarrow>
             if in_block (cpu_ram_size m) (pte_addr - RAM_BASE) 8
             then Some (Inr (load_le ram (pte_addr - RAM_BASE) 8), m) else None)
      else bus_load m pte_addr 8)"

definition pte_rwx :: "u64 \<Rightarrow> u64" where
  "pte_rwx pte = pte AND (PTE_R OR PTE_W OR PTE_X)"

text \<open>Not valid, or the reserved encodings with write but not read permission.\<close>

definition pte_bad :: "u64 \<Rightarrow> bool" where
  "pte_bad pte \<longleftrightarrow> pte AND PTE_V = 0 \<or> pte_rwx pte = PTE_W \<or> pte_rwx pte = (PTE_W OR PTE_X)"

definition leaf_access_ok :: "u64 \<Rightarrow> access \<Rightarrow> u64 \<Rightarrow> bool" where
  "leaf_access_ok mstatus acc pte =
     (case acc of
        ACCESS_READ \<Rightarrow> pte AND PTE_R \<noteq> 0 \<or> (mstatus AND MSTATUS_MXR \<noteq> 0 \<and> pte AND PTE_X \<noteq> 0)
      | ACCESS_WRITE \<Rightarrow> pte AND PTE_W \<noteq> 0
      | ACCESS_EXEC \<Rightarrow> pte AND PTE_X \<noteq> 0)"

definition leaf_aligned :: "nat \<Rightarrow> u64 \<Rightarrow> bool" where
  "leaf_aligned level pte =
     (if level = 2 then \<not> (shr pte 19 AND 0x1FF \<noteq> 0 \<or> shr pte 10 AND 0x1FF \<noteq> 0)
      else if level = 1 then shr pte 10 AND 0x1FF = 0
      else True)"

definition leaf_ok :: "u8 \<Rightarrow> u64 \<Rightarrow> access \<Rightarrow> nat \<Rightarrow> u64 \<Rightarrow> bool" where
  "leaf_ok priv mstatus acc level pte \<longleftrightarrow>
     priv_ok priv mstatus (pte AND PTE_U \<noteq> 0) \<and> leaf_access_ok mstatus acc pte \<and>
     leaf_aligned level pte"

definition leaf_new_pte :: "access \<Rightarrow> u64 \<Rightarrow> u64" where
  "leaf_new_pte acc pte = (pte OR PTE_A) OR (if acc = ACCESS_WRITE then PTE_D else 0)"

definition leaf_pa :: "nat \<Rightarrow> u64 \<Rightarrow> u64 \<Rightarrow> u64" where
  "leaf_pa level pte vaddr =
     (let ppn = shr pte 10; page_offset = vaddr AND PAGE_MASK
      in if level = 2
         then shl ppn PAGE_SHIFT OR shl (vpn_part vaddr 1) 21 OR shl (vpn_part vaddr 0) 12 OR page_offset
         else if level = 1
         then shl (shr ppn 9) 21 OR shl (vpn_part vaddr 0) 12 OR page_offset
         else shl ppn PAGE_SHIFT OR page_offset)"

definition host_page :: "'c vm \<Rightarrow> u64 \<Rightarrow> u64 option" where
  "host_page m page_pa =
     (if vm_ram m \<noteq> None \<and> page_pa \<ge> RAM_BASE \<and> page_pa + PAGE_SIZE \<le> RAM_BASE + cpu_ram_size m
      then Some (page_pa - RAM_BASE) else None)"

definition leaf_entry :: "'c vm \<Rightarrow> u64 \<Rightarrow> access \<Rightarrow> nat \<Rightarrow> u64 \<Rightarrow> tlb_entry" where
  "leaf_entry m vaddr acc level pte =
     (let ppn = shr (leaf_pa level pte vaddr) PAGE_SHIFT
      in \<lparr>te_vpn = shr vaddr PAGE_SHIFT, te_ppn = ppn,
          te_host_base = host_page m (shl ppn PAGE_SHIFT),
          te_perm = ucast (pte AND (PTE_R OR PTE_W OR PTE_X OR PTE_U)),
          te_level = of_nat level, te_dirty = (leaf_new_pte acc pte AND PTE_D \<noteq> 0),
          te_valid = True\<rparr>)"

text \<open>A leaf entry: checks, accessed and dirty bits, TLB fill.\<close>

definition walk_leaf ::
  "u64 \<Rightarrow> access \<Rightarrow> nat \<Rightarrow> u64 \<Rightarrow> u64 \<Rightarrow> 'c vm \<Rightarrow> ((u64 + u64) \<times> 'c vm) undef" where
  "walk_leaf vaddr acc level pte_addr pte m =
     (if \<not> leaf_ok (cpu_priv m) (cpu_mstatus m) acc level pte then Some (Inl (fault_code acc), m)
      else do {
        m1 \<leftarrow> (if leaf_new_pte acc pte \<noteq> pte
              then map_option snd (bus_store m pte_addr 8 (leaf_new_pte acc pte)) else Some m);
        Some (Inr (leaf_pa level pte vaddr),
              m1\<lparr>cpu_tlb := (cpu_tlb m1)(tlb_index vaddr := leaf_entry m1 vaddr acc level pte)\<rparr>)
      })"

text \<open>The loop over the levels: the last argument counts the levels that are left, so the level
  of the iteration is its predecessor.\<close>

fun sv39_walk ::
  "u64 \<Rightarrow> access \<Rightarrow> 'c vm \<Rightarrow> u64 \<Rightarrow> nat \<Rightarrow> ((u64 + u64) \<times> 'c vm) undef" where
  "sv39_walk vaddr acc m pt_addr 0 = Some (Inl (fault_code acc), m)"
| "sv39_walk vaddr acc m pt_addr (Suc level) = do {
     let pte_addr = pt_addr + vpn_part vaddr level * 8;
     (r, m1) \<leftarrow> pte_read (cpu_prof_update (prof_mmu_walk_steps_update (\<lambda>n. n + 1)) m) pte_addr;
     (case r of
        Inl _ \<Rightarrow> Some (Inl (fault_code acc), m1)
      | Inr pte \<Rightarrow>
          if pte_bad pte then Some (Inl (fault_code acc), m1)
          else if pte_rwx pte \<noteq> 0 then walk_leaf vaddr acc level pte_addr pte m1
          else sv39_walk vaddr acc m1 (shl (shr pte 10 AND 0xFFFFFFFFFFF) PAGE_SHIFT) level)
   }"

definition satp_root :: "u64 \<Rightarrow> u64" where
  "satp_root satp = shl (satp AND 0xFFFFFFFFFFF) PAGE_SHIFT"

definition rv64_translate :: "'c vm \<Rightarrow> u64 \<Rightarrow> access \<Rightarrow> ((u64 + u64) \<times> 'c vm) undef" where
  "rv64_translate m vaddr acc =
     (if cpu_priv m = PRIV_M then Some (Inr vaddr, m)
      else if shr (cpu_satp m) SATP_MODE_SHIFT = SATP_MODE_BARE then Some (Inr vaddr, m)
      else if tlb_hit m vaddr acc
      then Some (Inr (tlb_pa (tlb_slot m vaddr) vaddr),
                 cpu_prof_update (prof_tlb_hits_update (\<lambda>n. n + 1)) m)
      else sv39_walk vaddr acc
             (cpu_prof_update (\<lambda>p. p\<lparr>prof_tlb_misses := prof_tlb_misses p + 1,
                prof_mmu_walks := prof_mmu_walks p + 1\<rparr>) m)
             (satp_root (cpu_satp m)) 3)"

subsection \<open>Bit layout\<close>

lemma and_masks:
  "(w :: u64) AND 0x1FF = take_bit 9 w" "w AND 0xFFF = take_bit 12 w"
  "w AND 0x1FFFFF = take_bit 21 w" "w AND 0x3FFFFFFF = take_bit 30 w"
  "w AND 0xFFFFFFFFFFF = take_bit 44 w"
  by (simp_all add: take_bit_eq_mask mask_eq_exp_minus_1)

lemma and_single_bits:
  "(w :: u64) AND 1 = 0 \<longleftrightarrow> \<not> bit w 0" "w AND 2 = 0 \<longleftrightarrow> \<not> bit w 1" "w AND 4 = 0 \<longleftrightarrow> \<not> bit w 2"
  "w AND 8 = 0 \<longleftrightarrow> \<not> bit w 3" "w AND 16 = 0 \<longleftrightarrow> \<not> bit w 4" "w AND 64 = 0 \<longleftrightarrow> \<not> bit w 6"
  "w AND 128 = 0 \<longleftrightarrow> \<not> bit w 7"
  using and_exp_eq_0_iff_not_bit [of w 0] and_exp_eq_0_iff_not_bit [of w 1]
    and_exp_eq_0_iff_not_bit [of w 2] and_exp_eq_0_iff_not_bit [of w 3]
    and_exp_eq_0_iff_not_bit [of w 4] and_exp_eq_0_iff_not_bit [of w 6]
    and_exp_eq_0_iff_not_bit [of w 7] by simp_all

lemma vpn_part_bits:
  "level \<le> 2 \<Longrightarrow> vpn_part vaddr level = take_bit 9 (shr vaddr (12 + 9 * level))"
  by (auto simp: vpn_part_def and_masks le_Suc_eq numeral_2_eq_2)

text \<open>The physical address as the architecture defines it: the page-number bits of the entry
  above the page, the offset bits of the virtual address below.\<close>

definition sv39_pa :: "nat \<Rightarrow> u64 \<Rightarrow> u64 \<Rightarrow> u64" where
  "sv39_pa level pte vaddr =
     shl (shr pte (10 + 9 * level)) (12 + 9 * level) OR take_bit (12 + 9 * level) vaddr"

lemma shr_zero_bits: "take_bit k (shr (w :: u64) n) = 0 \<longleftrightarrow> (\<forall>i. n \<le> i \<and> i < n + k \<longrightarrow> \<not> bit w i)"
proof -
  have j64: "bit w (n + j) \<Longrightarrow> j < 64" for j using bit_imp_le_length [of w "n + j"] by simp
  have "take_bit k (shr w n) = 0 \<longleftrightarrow> (\<forall>j. \<not> (j < k \<and> bit w (n + j)))"
    using j64 by (auto simp: bit_eq_iff [of "take_bit k (shr w n)"] bit_simps)
  also have "\<dots> \<longleftrightarrow> (\<forall>i. n \<le> i \<and> i < n + k \<longrightarrow> \<not> bit w i)"
    by (metis add_less_cancel_left le_add1 le_iff_add)
  finally show ?thesis .
qed

lemma leaf_aligned_bits:
  "level \<le> 2 \<Longrightarrow> leaf_aligned level pte \<longleftrightarrow> (\<forall>i. 10 \<le> i \<and> i < 10 + 9 * level \<longrightarrow> \<not> bit pte i)"
proof -
  assume "level \<le> 2"
  then consider "level = 0" | "level = 1" | "level = 2" by linarith
  then show ?thesis
  proof cases
    case 3
    have "\<not> bit pte i" if "\<forall>i. 19 \<le> i \<and> i < 28 \<longrightarrow> \<not> bit pte i"
      "\<forall>i. 10 \<le> i \<and> i < 19 \<longrightarrow> \<not> bit pte i" "10 \<le> i" "i < 28" for i
      using that by (cases "i < 19") auto
    then show ?thesis using 3 by (auto simp: leaf_aligned_def and_masks shr_zero_bits)
  qed (auto simp: leaf_aligned_def and_masks shr_zero_bits)
qed

text \<open>The code's three address formulas are that one.\<close>

lemma leaf_pa_eq:
  assumes "level \<le> 2" "leaf_aligned level pte"
  shows "leaf_pa level pte vaddr = sv39_pa level pte vaddr"
proof -
  have low: "\<not> bit pte i" if "10 \<le> i" "i < 10 + 9 * level" for i
    using assms that by (simp add: leaf_aligned_bits)
  from assms(1) consider "level = 0" | "level = 1" | "level = 2" by linarith
  then show ?thesis
  proof cases
    case 1
    then show ?thesis by (simp add: leaf_pa_def sv39_pa_def and_masks)
  next
    case 2
    then show ?thesis
      by (intro bit_word_eqI) (auto simp: leaf_pa_def sv39_pa_def and_masks vpn_part_bits bit_simps Let_def)
  next
    case 3
    with low have "\<not> bit pte (n - 2)" if "12 \<le> n" "n < 30" for n
      using that by simp
    note gap = this
    show ?thesis
    proof (rule bit_word_eqI)
      fix n assume "n < LENGTH(64)"
      consider "n < 12" | "12 \<le> n" "n < 21" | "21 \<le> n" "n < 30" | "30 \<le> n" by linarith
      then show "bit (leaf_pa level pte vaddr) n = bit (sv39_pa level pte vaddr) n"
        by cases (use 3 gap [of n] in
          \<open>auto simp: leaf_pa_def sv39_pa_def and_masks vpn_part_bits bit_simps Let_def\<close>)
    qed
  qed
qed

subsection \<open>The TLB as a cache of walks\<close>

lemma same_page_bits:
  assumes "shr (v' :: u64) 12 = shr v 12"
  shows "12 \<le> n \<Longrightarrow> bit v' n = bit v n"
proof -
  assume "12 \<le> n"
  then have "bit v' n = bit (shr v' 12) (n - 12)" "bit v n = bit (shr v 12) (n - 12)"
    by (simp_all add: bit_simps)
  with assms show ?thesis by simp
qed

lemma tlb_index_same_page: "shr v' 12 = shr v 12 \<Longrightarrow> tlb_index v' = tlb_index v"
  by (simp add: tlb_index_def)

text \<open>A hit on an entry that a walk filled gives, for every address of the page, the address
  that a walk would compute, on every page size.\<close>

lemma tlb_pa_leaf_entry:
  assumes "level \<le> 2" "leaf_aligned level pte" "shr v' 12 = shr v 12"
  shows "tlb_pa (leaf_entry m v acc level pte) v' = leaf_pa level pte v'"
proof -
  note bits = same_page_bits [OF assms(3)]
  have "bit (tlb_pa (leaf_entry m v acc level pte) v') n = bit (sv39_pa level pte v') n" if "n < 64" for n
    using that assms(1) bits [of n]
    by (cases "n < 12"; cases "n < 12 + 9 * level")
      (auto simp: tlb_pa_def leaf_entry_def leaf_pa_eq [OF assms(1,2)] sv39_pa_def Let_def
        and_masks bit_simps le_Suc_eq numeral_2_eq_2)
  then show ?thesis
    unfolding leaf_pa_eq [OF assms(1,2)] by (intro bit_word_eqI) simp
qed

lemma te_bit_leaf_entry:
  "te_bit (leaf_entry m v acc level pte) PTE_R = (pte AND PTE_R \<noteq> 0)"
  "te_bit (leaf_entry m v acc level pte) PTE_W = (pte AND PTE_W \<noteq> 0)"
  "te_bit (leaf_entry m v acc level pte) PTE_X = (pte AND PTE_X \<noteq> 0)"
  "te_bit (leaf_entry m v acc level pte) PTE_U = (pte AND PTE_U \<noteq> 0)"
  by (simp_all add: te_bit_def leaf_entry_def Let_def and_single_bits bit_simps)

lemma leaf_entry_dirty: "te_dirty (leaf_entry m v ACCESS_WRITE level pte)"
  by (simp add: leaf_entry_def Let_def leaf_new_pte_def and_single_bits bit_simps)

lemma leaf_entry_fields [simp]:
  "te_valid (leaf_entry m v acc level pte)" "te_vpn (leaf_entry m v acc level pte) = shr v 12"
  by (simp_all add: leaf_entry_def Let_def)

lemma leaf_entry_access_ok:
  "leaf_access_ok mstatus acc pte \<Longrightarrow> tlb_access_ok mstatus acc (leaf_entry m v acc level pte)"
  by (cases acc) (auto simp: leaf_access_ok_def tlb_access_ok_def te_bit_leaf_entry leaf_entry_dirty)

text \<open>What a translation leaves alone: everything but RAM, the devices, the TLB and the counters.\<close>

definition mmu_same :: "'c vm \<Rightarrow> 'c vm \<Rightarrow> bool" where
  "mmu_same m m' \<longleftrightarrow> (\<exists>b t p. bus_same m b \<and> m' = b\<lparr>cpu_tlb := t, cpu_prof := p\<rparr>)"

lemma bus_same_prof_tlb:
  assumes "bus_same m b"
  shows "bus_same (m\<lparr>cpu_tlb := t, cpu_prof := p\<rparr>) (b\<lparr>cpu_tlb := t, cpu_prof := p\<rparr>)"
  using assms
proof (rule bus_sameE)
  fix u c q bl n ram
  assume "(ram = None) = (vm_ram m = None)"
    and "b = m\<lparr>cpu_uart := u, cpu_clint := c, cpu_plic := q, cpu_virtio_blk := bl,
        cpu_virtio_net := n, vm_ram := ram\<rparr>"
  then show ?thesis
    by (intro bus_sameI [where u = u and c = c and p = q and b = bl and n = n and ram = ram]) simp_all
qed

lemma mmu_same_bus: "bus_same m m' \<Longrightarrow> mmu_same m m'"
  unfolding mmu_same_def
  by (rule exI [of _ m'], rule exI [of _ "cpu_tlb m'"], rule exI [of _ "cpu_prof m'"]) simp

lemma mmu_same_refl [simp]: "mmu_same m m"
  by (simp add: mmu_same_bus)

lemma mmu_same_tlb [simp]: "mmu_same m (m\<lparr>cpu_tlb := t\<rparr>)"
  unfolding mmu_same_def
  by (rule exI [of _ m], rule exI [of _ t], rule exI [of _ "cpu_prof m"]) simp

lemma mmu_same_prof [simp]: "mmu_same m (cpu_prof_update f m)"
  unfolding mmu_same_def
  by (rule exI [of _ m], rule exI [of _ "cpu_tlb m"], rule exI [of _ "f (cpu_prof m)"]) simp

lemma mmu_same_trans [trans]:
  assumes "mmu_same m m'" "mmu_same m' m''"
  shows "mmu_same m m''"
proof -
  from assms(1) obtain b t p where b: "bus_same m b" "m' = b\<lparr>cpu_tlb := t, cpu_prof := p\<rparr>"
    unfolding mmu_same_def by blast
  from assms(2) obtain b' t' p' where b': "bus_same m' b'" "m'' = b'\<lparr>cpu_tlb := t', cpu_prof := p'\<rparr>"
    unfolding mmu_same_def by blast
  have "bus_same b (b'\<lparr>cpu_tlb := cpu_tlb b, cpu_prof := cpu_prof b\<rparr>)"
    using bus_same_prof_tlb [OF b'(1), where t = "cpu_tlb b" and p = "cpu_prof b"] b(2) by simp
  with b(1) have "bus_same m (b'\<lparr>cpu_tlb := cpu_tlb b, cpu_prof := cpu_prof b\<rparr>)"
    by (rule bus_same_trans)
  moreover have "m'' = (b'\<lparr>cpu_tlb := cpu_tlb b, cpu_prof := cpu_prof b\<rparr>)
      \<lparr>cpu_tlb := t', cpu_prof := p'\<rparr>" using b'(2) by simp
  ultimately show ?thesis unfolding mmu_same_def by blast
qed

lemma mmu_same_fields:
  assumes "mmu_same m m'"
  shows "cpu_x m' = cpu_x m" "cpu_pc m' = cpu_pc m" "cpu_f m' = cpu_f m" "cpu_priv m' = cpu_priv m"
    "cpu_mstatus m' = cpu_mstatus m" "cpu_satp m' = cpu_satp m" "cpu_ram_size m' = cpu_ram_size m"
    "cpu_instret m' = cpu_instret m" "cpu_cycle m' = cpu_cycle m" "ram_ok m' = ram_ok m"
    "(vm_ram m' = None) = (vm_ram m = None)" "cpu_dbg m' = cpu_dbg m"
    "cpu_reservation m' = cpu_reservation m" "cpu_halted m' = cpu_halted m"
    "cpu_error m' = cpu_error m" "cpu_mip m' = cpu_mip m" "cpu_mie m' = cpu_mie m"
    "cpu_run_exit_reason m' = cpu_run_exit_reason m"
  using assms by (auto simp: mmu_same_def ram_ok_def elim!: bus_sameE)

lemma pte_read_same: "pte_read m a = Some (r, m') \<Longrightarrow> bus_same m m'"
  by (auto simp: pte_read_def split: if_splits option.splits dest: bus_load_same)

lemma walk_leaf_same:
  assumes "walk_leaf v acc level a pte m = Some (r, m')"
  shows "mmu_same m m'"
proof -
  have "mmu_same m (m1\<lparr>cpu_tlb := t\<rparr>)" if "bus_store m a 8 x = Some (y, m1)" for m1 x y t
    by (rule mmu_same_trans [OF mmu_same_bus [OF bus_store_same [OF that]]]) simp
  with assms show ?thesis
    by (auto simp: walk_leaf_def bind_eq_Some_conv split: if_splits)
qed

lemma sv39_walk_same: "sv39_walk v acc m pt n = Some (r, m') \<Longrightarrow> mmu_same m m'"
proof (induction v acc m pt n rule: sv39_walk.induct)
  case (1 v acc m pt)
  then show ?case by simp
next
  case (2 v acc m pt level)
  let ?a = "pt + vpn_part v level * 8"
    and ?m = "cpu_prof_update (prof_mmu_walk_steps_update (\<lambda>n. n + 1)) m"
  obtain rp m1 where rd: "pte_read ?m ?a = Some (rp, m1)"
    and rest: "(case rp of Inl _ \<Rightarrow> Some (Inl (fault_code acc), m1)
      | Inr pte \<Rightarrow> if pte_bad pte then Some (Inl (fault_code acc), m1)
          else if pte_rwx pte \<noteq> 0 then walk_leaf v acc level ?a pte m1
          else sv39_walk v acc m1 (shl (shr pte 10 AND 0xFFFFFFFFFFF) PAGE_SHIFT) level) = Some (r, m')"
    using "2.prems" by (auto simp: Let_def bind_eq_Some_conv)
  have "mmu_same m m1"
    by (rule mmu_same_trans [OF mmu_same_prof mmu_same_bus [OF pte_read_same [OF rd]]])
  moreover have "mmu_same m1 m'"
    using rest "2.IH" [OF refl rd refl]
    by (auto split: sum.splits if_splits dest: walk_leaf_same)
  ultimately show ?case by (rule mmu_same_trans)
qed

lemma rv64_translate_same: "rv64_translate m v acc = Some (r, m') \<Longrightarrow> mmu_same m m'"
  by (auto simp: rv64_translate_def split: if_splits
      dest!: sv39_walk_same intro: mmu_same_trans [OF mmu_same_prof])

text \<open>Where a successful walk ends: a leaf that passed the checks, now in the TLB.\<close>

lemma walk_leaf_Inr:
  fixes m :: "'c vm"
  assumes "walk_leaf v acc level a pte m = Some (Inr pa, m')"
  shows "leaf_ok (cpu_priv m) (cpu_mstatus m) acc level pte" "pa = leaf_pa level pte v"
    "\<exists>m1 :: 'c vm. tlb_slot m' v = leaf_entry m1 v acc level pte"
  using assms by (auto simp: walk_leaf_def bind_eq_Some_conv tlb_slot_def split: if_splits)

lemma sv39_walk_Inr:
  fixes m :: "'c vm"
  shows "sv39_walk v acc m pt n = Some (Inr pa, m') \<Longrightarrow> n \<le> 3 \<Longrightarrow>
   \<exists>level pte (m1 :: 'c vm). level \<le> 2 \<and> leaf_ok (cpu_priv m) (cpu_mstatus m) acc level pte \<and>
     pa = leaf_pa level pte v \<and> tlb_slot m' v = leaf_entry m1 v acc level pte"
proof (induction v acc m pt n rule: sv39_walk.induct)
  case (1 v acc m pt)
  then show ?case by simp
next
  case (2 v acc m pt level)
  let ?a = "pt + vpn_part v level * 8"
    and ?m = "cpu_prof_update (prof_mmu_walk_steps_update (\<lambda>n. n + 1)) m"
  obtain rp m1 where rd: "pte_read ?m ?a = Some (rp, m1)"
    and rest: "(case rp of Inl _ \<Rightarrow> Some (Inl (fault_code acc), m1)
      | Inr pte \<Rightarrow> if pte_bad pte then Some (Inl (fault_code acc), m1)
          else if pte_rwx pte \<noteq> 0 then walk_leaf v acc level ?a pte m1
          else sv39_walk v acc m1 (shl (shr pte 10 AND 0xFFFFFFFFFFF) PAGE_SHIFT) level) = Some (Inr pa, m')"
    using "2.prems"(1) by (auto simp: Let_def bind_eq_Some_conv)
  have "mmu_same m m1"
    by (rule mmu_same_trans [OF mmu_same_prof mmu_same_bus [OF pte_read_same [OF rd]]])
  note same = mmu_same_fields [OF this]
  from rest obtain pte where pte: "rp = Inr pte" "\<not> pte_bad pte"
    by (auto split: sum.splits if_splits)
  show ?case
  proof (cases "pte_rwx pte = 0")
    case True
    then show ?thesis
      using "2.IH" [OF refl rd refl pte] rest pte "2.prems"(2) same by simp
  next
    case False
    with rest pte have "walk_leaf v acc level ?a pte m1 = Some (Inr pa, m')" by simp
    from walk_leaf_Inr [OF this] "2.prems"(2) same show ?thesis
      by (intro exI [of _ level] exI [of _ pte]) auto
  qed
qed

text \<open>Replacing the offset in the page.\<close>

definition in_page :: "u64 \<Rightarrow> u64 \<Rightarrow> u64" where
  "in_page pa v = shl (shr pa 12) 12 OR (v AND PAGE_MASK)"

lemma bit_in_page: "n < 64 \<Longrightarrow> bit (in_page pa v) n = (if n < 12 then bit v n else bit pa n)"
  by (auto simp: in_page_def and_masks bit_simps)

lemma in_page_unique:
  assumes "\<And>n. n < 64 \<Longrightarrow> bit w n = (if n < 12 then bit v n else bit pa n)"
  shows "w = in_page pa v"
  using assms by (intro bit_word_eqI) (simp add: bit_in_page)

lemma tlb_pa_in_page:
  assumes "shr v' 12 = shr v 12"
  shows "tlb_pa te v' = in_page (tlb_pa te v) v'"
proof (rule in_page_unique)
  fix n :: nat
  assume "n < 64"
  then show "bit (tlb_pa te v') n = (if n < 12 then bit v' n else bit (tlb_pa te v) n)"
    using same_page_bits [OF assms, of n]
    by (cases "n < 12") (auto simp: tlb_pa_def and_masks bit_simps Let_def)
qed

lemma tlb_hit_same_page:
  assumes "shr v' 12 = shr v 12"
  shows "tlb_hit m v' acc = tlb_hit m v acc"
  unfolding tlb_hit_def tlb_slot_def tlb_index_same_page [OF assms] assms ..

lemma translate_hit:
  "cpu_priv m \<noteq> PRIV_M \<Longrightarrow> shr (cpu_satp m) 60 \<noteq> 0 \<Longrightarrow> tlb_hit m v acc \<Longrightarrow>
   rv64_translate m v acc = Some (Inr (tlb_pa (tlb_slot m v) v),
     cpu_prof_update (prof_tlb_hits_update (\<lambda>n. n + 1)) m)"
  by (simp add: rv64_translate_def)

lemma translate_fills:
  fixes m :: "'c vm"
  assumes "cpu_priv m \<noteq> PRIV_M" "shr (cpu_satp m) 60 \<noteq> 0"
    and "rv64_translate m v acc = Some (Inr pa, m')"
  shows "tlb_hit m' v acc \<and> pa = tlb_pa (tlb_slot m' v) v"
proof (cases "tlb_hit m v acc")
  case True
  then show ?thesis
    using assms by (auto simp: translate_hit tlb_hit_def tlb_slot_def)
next
  case False
  let ?m = "cpu_prof_update (\<lambda>p. p\<lparr>prof_tlb_misses := prof_tlb_misses p + 1,
                prof_mmu_walks := prof_mmu_walks p + 1\<rparr>) m"
  have walk: "sv39_walk v acc ?m (satp_root (cpu_satp m)) 3 = Some (Inr pa, m')"
    using assms False by (simp add: rv64_translate_def)
  from sv39_walk_Inr [OF this] obtain level pte and m1 :: "'c vm" where l: "level \<le> 2"
      "leaf_ok (cpu_priv m) (cpu_mstatus m) acc level pte" "pa = leaf_pa level pte v"
      "tlb_slot m' v = leaf_entry m1 v acc level pte" by auto
  note same = mmu_same_fields [OF rv64_translate_same [OF assms(3)]]
  have "tlb_hit m' v acc"
    using l by (simp add: tlb_hit_def leaf_ok_def leaf_entry_access_ok te_bit_leaf_entry same)
  moreover have "pa = tlb_pa (tlb_slot m' v) v"
    using l by (simp add: tlb_pa_leaf_entry leaf_ok_def)
  ultimately show ?thesis by blast
qed

text \<open>Translations are stable and cached: once an address has been translated for an
  access, every address of the same 4 KiB page translates for that access, without a further
  walk and without touching memory, to the same frame with its own offset. This covers Bare
  mode, machine mode, and 4 KiB, 2 MiB and 1 GiB pages.\<close>

theorem translate_again:
  assumes "rv64_translate m v acc = Some (Inr pa, m')" "shr v' 12 = shr v 12"
  shows "\<exists>n. rv64_translate m' v' acc =
    Some (Inr (in_page pa v'), cpu_prof_update (prof_tlb_hits_update (\<lambda>k. k + n)) m')"
proof (cases "cpu_priv m = PRIV_M \<or> shr (cpu_satp m) 60 = 0")
  case True
  have "v' = in_page v v'"
    by (rule in_page_unique) (simp add: same_page_bits [OF assms(2)])
  then show ?thesis
    using assms True by (intro exI [of _ 0]) (auto simp: rv64_translate_def split: if_splits)
next
  case False
  then have hit: "tlb_hit m' v acc" "pa = tlb_pa (tlb_slot m' v) v"
    using translate_fills [OF _ _ assms(1)] by auto
  note same = mmu_same_fields [OF rv64_translate_same [OF assms(1)]]
  have "tlb_hit m' v' acc"
    using hit tlb_hit_same_page [OF assms(2)] by blast
  moreover have "tlb_slot m' v' = tlb_slot m' v"
    by (simp add: tlb_slot_def tlb_index_same_page [OF assms(2)])
  ultimately show ?thesis
    using False hit(2) by (intro exI [of _ 1])
      (simp add: translate_hit same tlb_pa_in_page [OF assms(2), of "tlb_slot m' v"])
qed

subsection \<open>Host pointers\<close>

text \<open>
  What holds of every valid TLB entry. A writable page is readable. A hit combines the frame of the entry with the
  offset in the page, and a host pointer is the frame's offset in RAM. It is inside the RAM
  block, with one exception: for the last frame of the 64-bit address space the test
  \<open>page_pa + PAGE_SIZE <= RAM_BASE + ram_size\<close> wraps around and accepts.
\<close>

definition tlb_entry_ok :: "u64 \<Rightarrow> tlb_entry \<Rightarrow> bool" where
  "tlb_entry_ok rs te \<longleftrightarrow> te_valid te \<longrightarrow>
     (te_bit te PTE_W \<longrightarrow> te_bit te PTE_R) \<and>
     (\<forall>v. shr v 12 = te_vpn te \<longrightarrow> tlb_pa te v = in_page (shl (te_ppn te) 12) v) \<and>
     (\<forall>off. te_host_base te = Some off \<longrightarrow>
        off = shl (te_ppn te) 12 - RAM_BASE \<and> RAM_BASE \<le> shl (te_ppn te) 12 \<and>
        (in_block rs off 4096 \<or> shl (te_ppn te) 12 = - 0x1000))"

definition tlb_inv :: "'c vm \<Rightarrow> bool" where
  "tlb_inv m \<longleftrightarrow> ram_ok m \<and> (\<forall>i. tlb_entry_ok (cpu_ram_size m) (cpu_tlb m i))"

lemma page_multiple: "4096 dvd unat (shl (w :: u64) 12)"
proof -
  have "unat (shl w 12) = (unat w * 4096) mod 2 ^ 64"
    by (simp add: push_bit_eq_mult unat_word_ariths)
  moreover have "(4096 :: nat) dvd 2 ^ 64" by (simp add: dvd_def)
  ultimately show ?thesis by (metis dvd_mod dvd_triv_right)
qed

lemma last_frame:
  fixes p :: u64
  assumes "4096 dvd unat p" "2 ^ 64 \<le> unat p + 4096"
  shows "p = - 0x1000"
proof -
  obtain k where k: "unat p = 4096 * k" using assms(1) by blast
  have "unat p < 2 ^ LENGTH(64)" by (rule unsigned_less)
  with k assms(2) have "k = 4503599627370495" by simp
  with k have "unat p = unat (- 0x1000 :: u64)" by simp
  then show ?thesis by (rule unsigned_word_eqI)
qed

lemma host_page_ok:
  assumes "ram_ok m" "host_page m p = Some off" "4096 dvd unat p"
  shows "off = p - RAM_BASE \<and> RAM_BASE \<le> p \<and> (in_block (cpu_ram_size m) off 4096 \<or> p = - 0x1000)"
proof -
  have le: "RAM_BASE \<le> p" "p + PAGE_SIZE \<le> RAM_BASE + cpu_ram_size m" and off: "off = p - RAM_BASE"
    using assms(2) by (auto simp: host_page_def split: if_splits)
  have "in_block (cpu_ram_size m) off 4096" if "unat p + 4096 < 2 ^ 64"
  proof -
    have "unat (p + PAGE_SIZE) = unat p + 4096" using that by (simp add: unat_word_ariths)
    moreover have "unat (RAM_BASE + cpu_ram_size m) = 0x80000000 + unat (cpu_ram_size m)"
      using assms(1) by (simp add: unat_word_ariths ram_ok_def)
    moreover have "unat off = unat p - 0x80000000" using le off by (simp add: unat_ram_offset)
    ultimately show ?thesis using le by (simp add: in_block_def word_le_nat_alt)
  qed
  moreover have "p = - 0x1000" if "\<not> unat p + 4096 < 2 ^ 64"
    using that assms(3) by (intro last_frame) simp_all
  ultimately show ?thesis using le off by blast
qed

lemma sv39_pa_in_page: "shr v' 12 = shr v 12 \<Longrightarrow> sv39_pa level pte v' = in_page (sv39_pa level pte v) v'"
proof (rule in_page_unique)
  fix n :: nat
  assume "shr v' 12 = shr v 12" "n < 64"
  then show "bit (sv39_pa level pte v') n = (if n < 12 then bit v' n else bit (sv39_pa level pte v) n)"
    using same_page_bits [of v' v n] by (auto simp: sv39_pa_def bit_simps)
qed

lemma in_page_frame: "in_page (shl (shr pa 12) 12) v = in_page pa v"
  by (rule bit_word_eqI) (simp add: bit_in_page bit_simps)

lemma pte_bad_write:
  assumes "\<not> pte_bad pte" "pte AND PTE_W \<noteq> 0"
  shows "pte AND PTE_R \<noteq> 0"
proof
  assume "pte AND PTE_R = 0"
  with assms(2) have b: "bit pte 2" "\<not> bit pte 1" by (simp_all add: and_single_bits)
  have sel: "w AND 2 ^ n = (if bit w n then 2 ^ n else 0)" for w :: u64 and n
    by (rule bit_word_eqI) (auto simp: bit_simps)
  have "pte AND 14 = (pte AND 2 ^ 1) OR (pte AND 2 ^ 2) OR (pte AND 2 ^ 3)"
    by (simp flip: bit.conj_disj_distrib)
  also have "\<dots> = (if bit pte 3 then 12 else 4)"
    unfolding sel using b by simp
  finally have "pte AND 14 = (if bit pte 3 then 12 else 4)" .
  with assms(1) show False by (auto simp: pte_bad_def pte_rwx_def split: if_splits)
qed

lemma leaf_entry_ok:
  assumes "ram_ok m" "level \<le> 2" "leaf_aligned level pte" "\<not> pte_bad pte"
  shows "tlb_entry_ok (cpu_ram_size m) (leaf_entry m v acc level pte)"
proof -
  let ?ppn = "shr (leaf_pa level pte v) 12"
  have "tlb_pa (leaf_entry m v acc level pte) v' = in_page (shl ?ppn 12) v'" if "shr v' 12 = shr v 12" for v'
    unfolding tlb_pa_leaf_entry [OF assms(2,3) that] in_page_frame leaf_pa_eq [OF assms(2,3)]
    by (rule sv39_pa_in_page [OF that])
  moreover have "te_ppn (leaf_entry m v acc level pte) = ?ppn"
    "te_host_base (leaf_entry m v acc level pte) = host_page m (shl ?ppn 12)"
    by (simp_all add: leaf_entry_def Let_def)
  ultimately show ?thesis
    using host_page_ok [OF assms(1) _ page_multiple] pte_bad_write [OF assms(4)]
    by (simp add: tlb_entry_ok_def te_bit_leaf_entry)
qed

lemma zero_entry_ok [simp]: "tlb_entry_ok rs zero_tlb_entry"
  by (simp add: tlb_entry_ok_def zero_tlb_entry_def)

lemma walk_leaf_inv:
  assumes "tlb_inv m" "level \<le> 2" "\<not> pte_bad pte" "walk_leaf v acc level a pte m = Some (r, m')"
  shows "tlb_inv m'"
proof (cases "leaf_ok (cpu_priv m) (cpu_mstatus m) acc level pte")
  case True
  then obtain m1 where same: "bus_same m m1"
    and m': "m' = m1\<lparr>cpu_tlb := (cpu_tlb m1)(tlb_index v := leaf_entry m1 v acc level pte)\<rparr>"
    using assms(4) by (cases "leaf_new_pte acc pte = pte")
      (auto simp: walk_leaf_def bind_eq_Some_conv dest: bus_store_same intro: that [of m])
  have eqs: "cpu_ram_size m1 = cpu_ram_size m" "cpu_tlb m1 = cpu_tlb m" "ram_ok m1"
    using same assms(1) by (auto elim!: bus_sameE simp: tlb_inv_def ram_ok_def)
  have "tlb_entry_ok (cpu_ram_size m) (leaf_entry m1 v acc level pte)"
    using leaf_entry_ok [OF eqs(3) assms(2)] assms(3) True eqs(1) by (simp add: leaf_ok_def)
  then show ?thesis
    using assms(1) eqs by (simp add: m' tlb_inv_def ram_ok_def)
next
  case False
  then show ?thesis using assms by (simp add: walk_leaf_def)
qed

lemma bus_same_tlb_inv: "bus_same m m' \<Longrightarrow> tlb_inv m \<Longrightarrow> tlb_inv m'"
  by (auto elim!: bus_sameE simp: tlb_inv_def ram_ok_def)

lemma prof_tlb_inv [simp]: "tlb_inv (cpu_prof_update f m) = tlb_inv m"
  by (simp add: tlb_inv_def ram_ok_def)

lemma sv39_walk_inv:
  "tlb_inv m \<Longrightarrow> n \<le> 3 \<Longrightarrow> sv39_walk v acc m pt n = Some (r, m') \<Longrightarrow> tlb_inv m'"
proof (induction v acc m pt n rule: sv39_walk.induct)
  case (2 v acc m pt level)
  let ?a = "pt + vpn_part v level * 8"
    and ?m = "cpu_prof_update (prof_mmu_walk_steps_update (\<lambda>n. n + 1)) m"
  obtain rp m1 where rd: "pte_read ?m ?a = Some (rp, m1)"
    and rest: "(case rp of Inl _ \<Rightarrow> Some (Inl (fault_code acc), m1)
      | Inr pte \<Rightarrow> if pte_bad pte then Some (Inl (fault_code acc), m1)
          else if pte_rwx pte \<noteq> 0 then walk_leaf v acc level ?a pte m1
          else sv39_walk v acc m1 (shl (shr pte 10 AND 0xFFFFFFFFFFF) PAGE_SHIFT) level) = Some (r, m')"
    using "2.prems" by (auto simp: Let_def bind_eq_Some_conv)
  have "tlb_inv m1"
    using bus_same_tlb_inv [OF pte_read_same [OF rd]] "2.prems"(1) by simp
  with rest show ?case
    using "2.IH" [OF refl rd refl] "2.prems"(2) walk_leaf_inv [of m1 level _ v acc ?a r m']
    by (auto split: sum.splits if_splits)
qed auto

lemma rv64_translate_inv: "tlb_inv m \<Longrightarrow> rv64_translate m v acc = Some (r, m') \<Longrightarrow> tlb_inv m'"
  by (auto simp: rv64_translate_def split: if_splits dest: sv39_walk_inv [rotated 2])

lemma rv64_tlb_flush_inv: "ram_ok m \<Longrightarrow> tlb_inv (rv64_tlb_flush m)"
  by (simp add: tlb_inv_def ram_ok_def rv64_tlb_flush_def tlb_entry_ok_def zero_tlb_entry_def)

subsection \<open>Agreement with the architecture\<close>

text \<open>
  The architecture's page-table path, stated without a state: \<open>rd\<close> gives the entry
  at an address. \<open>sv39_path rd v pt n level a pte\<close> says that, starting from the table at
  \<open>pt\<close> with \<open>n\<close> levels to go, the path of \<open>v\<close> ends at the leaf \<open>pte\<close>, stored at
  \<open>a\<close>, which maps a page of the given level.
\<close>

inductive sv39_path :: "(u64 \<Rightarrow> u64) \<Rightarrow> u64 \<Rightarrow> u64 \<Rightarrow> nat \<Rightarrow> nat \<Rightarrow> u64 \<Rightarrow> u64 \<Rightarrow> bool"
  for rd :: "u64 \<Rightarrow> u64" and v :: u64 where
  path_leaf: "a = pt + vpn_part v level * 8 \<Longrightarrow> pte = rd a \<Longrightarrow> \<not> pte_bad pte \<Longrightarrow> pte_rwx pte \<noteq> 0 \<Longrightarrow>
     sv39_path rd v pt (Suc level) level a pte"
| path_next: "ptr = rd (pt + vpn_part v level * 8) \<Longrightarrow> \<not> pte_bad ptr \<Longrightarrow> pte_rwx ptr = 0 \<Longrightarrow>
     sv39_path rd v (shl (shr ptr 10 AND 0xFFFFFFFFFFF) PAGE_SHIFT) level l a pte \<Longrightarrow>
     sv39_path rd v pt (Suc level) l a pte"

inductive_cases sv39_path_0 [elim!]: "sv39_path rd v pt 0 l a pte"
inductive_cases sv39_path_SucE: "sv39_path rd v pt (Suc level) l a pte"

lemma sv39_path_level: "sv39_path rd v pt n l a pte \<Longrightarrow> l < n"
  by (induction rule: sv39_path.induct) auto

text \<open>Entries in RAM, and paths whose entries all are.\<close>

definition pte_in_ram :: "'c vm \<Rightarrow> u64 \<Rightarrow> bool" where
  "pte_in_ram m a \<longleftrightarrow> RAM_BASE \<le> a \<and> in_block (cpu_ram_size m) (a - RAM_BASE) 8"

definition ram_pte :: "'c vm \<Rightarrow> u64 \<Rightarrow> u64" where
  "ram_pte m a = load_le (the (vm_ram m)) (a - RAM_BASE) 8"

fun tables_in_ram :: "'c vm \<Rightarrow> u64 \<Rightarrow> u64 \<Rightarrow> nat \<Rightarrow> bool" where
  "tables_in_ram m v pt 0 = True"
| "tables_in_ram m v pt (Suc level) =
     (let a = pt + vpn_part v level * 8; pte = ram_pte m a
      in pte_in_ram m a \<and>
         (\<not> pte_bad pte \<and> pte_rwx pte = 0 \<longrightarrow>
            tables_in_ram m v (shl (shr pte 10 AND 0xFFFFFFFFFFF) PAGE_SHIFT) level))"

lemma pte_in_ram_test:
  assumes "ram_ok m" "pte_in_ram m a"
  shows "RAM_BASE \<le> a" "a + 8 \<le> RAM_BASE + cpu_ram_size m" "ram_hit (cpu_ram_size m) a"
proof -
  have rs: "unat (RAM_BASE + cpu_ram_size m) = 0x80000000 + unat (cpu_ram_size m)"
    and small: "unat (cpu_ram_size m) \<le> 2 ^ 64 - 2 ^ 31 - 4096"
    using assms(1) by (simp_all add: unat_word_ariths ram_ok_def)
  show base: "RAM_BASE \<le> a" using assms(2) by (simp add: pte_in_ram_def)
  have a: "unat a - 0x80000000 + 8 \<le> unat (cpu_ram_size m)" "0x80000000 \<le> unat a"
    using assms(2) unat_ram_offset [OF base] base
    by (auto simp: pte_in_ram_def in_block_def word_le_nat_alt)
  have "unat (a + 8) = unat a + 8"
    using a small by (simp add: unat_word_ariths)
  then show "a + 8 \<le> RAM_BASE + cpu_ram_size m"
    using a rs by (simp add: word_le_nat_alt)
  show "ram_hit (cpu_ram_size m) a"
    using a small by (simp add: ram_hit_iff)
qed

lemma pte_read_ram:
  assumes "ram_ok m" "pte_in_ram m a"
  shows "pte_read m a = Some (Inr (ram_pte m a), m)"
  using pte_in_ram_test [OF assms] assms
  by (auto simp: pte_read_def ram_pte_def ram_ok_def pte_in_ram_def)

lemma tables_in_ram_prof [simp]:
  "pte_in_ram (cpu_prof_update f m) a = pte_in_ram m a"
  "ram_pte (cpu_prof_update f m) a = ram_pte m a"
  "ram_ok (cpu_prof_update f m) = ram_ok m"
  by (simp_all add: pte_in_ram_def ram_pte_def ram_ok_def)

lemma tables_in_ram_prof' [simp]: "tables_in_ram (cpu_prof_update f m) v pt n = tables_in_ram m v pt n"
  by (induction n arbitrary: pt) (auto simp: Let_def)

text \<open>The walk follows the path: it succeeds exactly on a permitted leaf and otherwise returns
  the fault of the access.\<close>

lemma walk_leaf_ram:
  assumes "ram_ok m" "pte_in_ram m a"
  shows "\<exists>m'. walk_leaf v acc level a pte m =
    Some (if leaf_ok (cpu_priv m) (cpu_mstatus m) acc level pte
          then Inr (leaf_pa level pte v) else Inl (fault_code acc), m')"
  using pte_in_ram_test [OF assms] assms
  by (auto simp: walk_leaf_def bus_store_ram ram_store_def bus_size_def pte_in_ram_def ram_ok_def)

lemma sv39_walk_path:
  assumes "sv39_path (ram_pte m) v pt n level a pte" "ram_ok m" "tables_in_ram m v pt n"
  shows "\<exists>m'. sv39_walk v acc (cpu_prof_update f m) pt n =
    Some (if leaf_ok (cpu_priv m) (cpu_mstatus m) acc level pte
          then Inr (leaf_pa level pte v) else Inl (fault_code acc), m')"
  using assms
proof (induction arbitrary: f rule: sv39_path.induct)
  case (path_leaf a pt level pte)
  then show ?case
    using walk_leaf_ram [of "cpu_prof_update (prof_mmu_walk_steps_update (\<lambda>n. n + 1) \<circ> f) m"
        a v acc level pte]
    by (auto simp: Let_def pte_read_ram)
next
  case (path_next ptr pt level l a pte)
  then show ?case
    using path_next.IH [of "prof_mmu_walk_steps_update (\<lambda>n. n + 1) \<circ> f"]
    by (auto simp: Let_def pte_read_ram)
qed

lemma sv39_walk_no_path:
  assumes "\<nexists>level a pte. sv39_path (ram_pte m) v pt n level a pte" "ram_ok m" "tables_in_ram m v pt n"
  shows "\<exists>m'. sv39_walk v acc (cpu_prof_update f m) pt n = Some (Inl (fault_code acc), m')"
  using assms
proof (induction n arbitrary: pt f)
  case 0
  then show ?case by simp
next
  case (Suc level)
  let ?pte = "ram_pte m (pt + vpn_part v level * 8)"
  have "pte_bad ?pte \<or> pte_rwx ?pte = 0"
    using Suc.prems(1) path_leaf [OF refl refl, of "ram_pte m" pt v level] by blast
  moreover have "\<nexists>l a pte. sv39_path (ram_pte m) v (shl (shr ?pte 10 AND 0xFFFFFFFFFFF) PAGE_SHIFT) level l a pte"
    if "\<not> pte_bad ?pte" "pte_rwx ?pte = 0"
    using Suc.prems(1) path_next [where rd = "ram_pte m" and pt = pt and v = v, OF refl that] by blast
  ultimately show ?case
    using Suc.prems Suc.IH [of _ "prof_mmu_walk_steps_update (\<lambda>n. n + 1) \<circ> f"]
    by (auto simp: Let_def pte_read_ram comp_def)
qed

text \<open>C5. On a TLB miss \<open>rv64_translate\<close> is Sv39: if the page-table path of the address ends at
  a leaf that permits the access, the physical address is the leaf's page number above
  the offset of the page size; in every other case the result is the page fault of the access.
  The tables are assumed to lie in RAM.\<close>

theorem translate_sv39:
  assumes "cpu_priv m \<noteq> PRIV_M" "shr (cpu_satp m) SATP_MODE_SHIFT \<noteq> SATP_MODE_BARE" "\<not> tlb_hit m v acc"
    and "ram_ok m" "tables_in_ram m v (satp_root (cpu_satp m)) 3"
  shows "\<exists>r m'. rv64_translate m v acc = Some (r, m') \<and>
    (\<forall>level a pte. sv39_path (ram_pte m) v (satp_root (cpu_satp m)) 3 level a pte \<longrightarrow>
       r = (if leaf_ok (cpu_priv m) (cpu_mstatus m) acc level pte
            then Inr (sv39_pa level pte v) else Inl (fault_code acc))) \<and>
    ((\<nexists>level a pte. sv39_path (ram_pte m) v (satp_root (cpu_satp m)) 3 level a pte) \<longrightarrow>
       r = Inl (fault_code acc))"
proof -
  let ?f = "\<lambda>p. p\<lparr>prof_tlb_misses := prof_tlb_misses p + 1, prof_mmu_walks := prof_mmu_walks p + 1\<rparr>"
    and ?path = "sv39_path (ram_pte m) v (satp_root (cpu_satp m)) 3"
  have tr: "rv64_translate m v acc = sv39_walk v acc (cpu_prof_update ?f m) (satp_root (cpu_satp m)) 3"
    using assms(1-3) by (simp add: rv64_translate_def)
  show ?thesis
  proof (cases "\<exists>level a pte. ?path level a pte")
    case False
    then show ?thesis using sv39_walk_no_path [OF _ assms(4,5), of acc ?f] tr by auto
  next
    case True
    then obtain level a pte where p: "?path level a pte" by blast
    have lvl: "leaf_ok (cpu_priv m) (cpu_mstatus m) acc l e \<Longrightarrow> ?path l b e \<Longrightarrow>
        leaf_pa l e v = sv39_pa l e v" for l b e
      by (drule sv39_path_level) (simp add: leaf_pa_eq leaf_ok_def)
    obtain r m' where r: "rv64_translate m v acc = Some (r, m')"
      using sv39_walk_path [OF p assms(4,5), of acc ?f] tr by auto
    have "r = (if leaf_ok (cpu_priv m) (cpu_mstatus m) acc l e
            then Inr (sv39_pa l e v) else Inl (fault_code acc))" if "?path l b e" for l b e
      using sv39_walk_path [OF that assms(4,5), of acc ?f] tr r lvl [OF _ that] by auto
    with r True show ?thesis by blast
  qed
qed

subsection \<open>A concrete address space\<close>

text \<open>Three tables in the first pages of RAM, linked by their first entries, and a leaf
  \<open>pte\<close> for the first page of the virtual address space.\<close>

definition pt_ram :: "u64 \<Rightarrow> mem" where
  "pt_ram pte = store_le (store_le (store_le (\<lambda>_. 0) 0 8 0x20000401) 0x1000 8 0x20000801) 0x2000 8 pte"

definition pt_vm :: "u64 \<Rightarrow> unit vm" where
  "pt_vm pte = (bare_vm (pt_ram pte) 0x10000)\<lparr>cpu_priv := PRIV_S, cpu_satp := 0x8000000000080000\<rparr>"

lemma pt_ram_loads:
  "load_le (pt_ram pte) 0 8 = 0x20000401" "load_le (pt_ram pte) 0x1000 8 = 0x20000801"
  "load_le (pt_ram pte) 0x2000 8 = pte"
  by (simp_all add: pt_ram_def load_store_le load_store_le_disjoint take_bit_word_eq_self
      take_bit_numeral_numeral)

lemma pt_vm_simps [simp]:
  "cpu_priv (pt_vm pte) = 1" "cpu_satp (pt_vm pte) = 0x8000000000080000"
  "cpu_mstatus (pt_vm pte) = 0xA00002000" "vm_ram (pt_vm pte) = Some (pt_ram pte)"
  "cpu_ram_size (pt_vm pte) = 0x10000" "cpu_tlb (pt_vm pte) = (\<lambda>_. zero_tlb_entry)"
  by (simp_all add: pt_vm_def bare_vm_simps)

lemma pt_vm_ok: "ram_ok (pt_vm pte)"
  by (simp add: ram_ok_def dvd_def)

lemma pt_vm_pte:
  "ram_pte (pt_vm pte) 0x80000000 = 0x20000401" "ram_pte (pt_vm pte) 0x80001000 = 0x20000801"
  "ram_pte (pt_vm pte) 0x80002000 = pte"
  by (simp_all add: ram_pte_def pt_ram_loads)

lemma pt_vm_miss [simp]: "\<not> tlb_hit (pt_vm pte) v acc"
  by (simp add: tlb_hit_def tlb_slot_def zero_tlb_entry_def)

lemma pt_vm_path:
  assumes "\<not> pte_bad pte" "pte_rwx pte \<noteq> 0"
  shows "sv39_path (ram_pte (pt_vm pte)) 0 0x80000000 3 0 0x80002000 pte"
proof -
  let ?path = "sv39_path (ram_pte (pt_vm pte)) 0"
  have "?path 0x80002000 (Suc 0) 0 0x80002000 pte"
    using assms by (intro path_leaf) (simp_all add: vpn_part_def pt_vm_pte)
  then have "?path 0x80001000 (Suc (Suc 0)) 0 0x80002000 pte"
    by - (rule path_next [where ptr = "0x20000801"],
      simp_all add: vpn_part_def pt_vm_pte pte_bad_def pte_rwx_def)
  then have "?path 0x80000000 (Suc (Suc (Suc 0))) 0 0x80002000 pte"
    by - (rule path_next [where ptr = "0x20000401"],
      simp_all add: vpn_part_def pt_vm_pte pte_bad_def pte_rwx_def)
  then show ?thesis by (simp add: numeral_3_eq_3)
qed

lemma pt_vm_tables: "tables_in_ram (pt_vm pte) 0 0x80000000 3"
  by (simp add: numeral_3_eq_3 Let_def vpn_part_def pt_vm_pte pte_in_ram_def in_block_def
      pte_bad_def pte_rwx_def)

lemma pt_vm_translate:
  "\<exists>m'. rv64_translate (pt_vm 0x200010CF) 0 ACCESS_READ = Some (Inr 0x80004000, m')"
proof -
  have leaf: "\<not> pte_bad 0x200010CF" "pte_rwx 0x200010CF \<noteq> 0"
    by (simp_all add: pte_bad_def pte_rwx_def)
  have "satp_root (cpu_satp (pt_vm 0x200010CF)) = 0x80000000" by (simp add: satp_root_def)
  then show ?thesis
    using sv39_walk_path [OF pt_vm_path [OF leaf] pt_vm_ok pt_vm_tables, of ACCESS_READ
        "\<lambda>p. p\<lparr>prof_tlb_misses := prof_tlb_misses p + 1, prof_mmu_walks := prof_mmu_walks p + 1\<rparr>"]
    by (simp add: rv64_translate_def leaf_ok_def priv_ok_def leaf_access_ok_def leaf_aligned_def leaf_pa_def)
qed

theorem translate_again_witness:
  "\<exists>m' m''. rv64_translate (pt_vm 0x200010CF) 0 ACCESS_READ = Some (Inr 0x80004000, m') \<and>
     rv64_translate m' 8 ACCESS_READ = Some (Inr 0x80004008, m'')"
proof -
  obtain m' where m': "rv64_translate (pt_vm 0x200010CF) 0 ACCESS_READ = Some (Inr 0x80004000, m')"
    using pt_vm_translate by blast
  from translate_again [OF this, of 8] show ?thesis
    by (auto simp: m' in_page_def)
qed

theorem translate_sv39_witness:
  "\<exists>m'. rv64_translate (pt_vm 0x200010CF) 0 ACCESS_READ = Some (Inr 0x80004000, m')"
proof -
  have leaf: "\<not> pte_bad 0x200010CF" "pte_rwx 0x200010CF \<noteq> 0"
    by (simp_all add: pte_bad_def pte_rwx_def)
  have root: "satp_root (cpu_satp (pt_vm 0x200010CF)) = 0x80000000" by (simp add: satp_root_def)
  obtain r m' where r: "rv64_translate (pt_vm 0x200010CF) 0 ACCESS_READ = Some (r, m')"
    and spec: "\<forall>level a pte. sv39_path (ram_pte (pt_vm 0x200010CF)) 0 0x80000000 3 level a pte \<longrightarrow>
       r = (if leaf_ok 1 0xA00002000 ACCESS_READ level pte
            then Inr (sv39_pa level pte 0) else Inl (fault_code ACCESS_READ))"
    using translate_sv39 [of "pt_vm 0x200010CF" 0 ACCESS_READ] pt_vm_ok pt_vm_tables root by auto
  from spec [rule_format, OF pt_vm_path [OF leaf]] r show ?thesis
    by (simp add: leaf_ok_def priv_ok_def leaf_access_ok_def leaf_aligned_def sv39_pa_def)
qed

text \<open>The exception in \<open>tlb_entry_ok\<close> is real: a supervisor that maps the last frame of the
  physical address space gets a TLB entry whose host pointer lies outside guest RAM.\<close>

theorem tlb_host_pointer_escapes:
  "\<exists>m' off. rv64_translate (pt_vm 0x3FFFFFFFFFFFFCCF) 0 ACCESS_WRITE = Some (Inr (- 0x1000), m') \<and>
     te_host_base (tlb_slot m' 0) = Some off \<and> \<not> in_block (cpu_ram_size m') off 1"
  by (simp add: rv64_translate_def satp_root_def numeral_3_eq_3 Let_def pte_read_ram pt_vm_ok
      vpn_part_def pte_in_ram_def in_block_def pt_vm_pte pte_bad_def pte_rwx_def walk_leaf_def
      leaf_ok_def priv_ok_def leaf_access_ok_def leaf_aligned_def leaf_new_pte_def leaf_pa_def
      leaf_entry_def host_page_def tlb_slot_def)

subsection \<open>Direct-mapped caches\<close>

text \<open>
  What the machine promises of a direct-mapped cache, the TLB here and the compiled-block
  cache of the compiler: a fill can be looked up, it may evict other keys but never gives them
  another entry, and a flush forgets everything. The client lemma says that no stale entry
  survives a flush.
\<close>

locale tag_cache =
  fixes lookup :: "'s \<Rightarrow> 'k \<Rightarrow> 'e option"
    and fill :: "'s \<Rightarrow> 'e \<Rightarrow> 's"
    and flush :: "'s \<Rightarrow> 's"
    and tag :: "'e \<Rightarrow> 'k"
    and entry_ok :: "'e \<Rightarrow> bool"
  assumes lookup_fill: "entry_ok e \<Longrightarrow> lookup (fill s e) (tag e) = Some e"
    and lookup_fill_other: "k \<noteq> tag e \<Longrightarrow> lookup (fill s e) k = Some e' \<Longrightarrow> lookup s k = Some e'"
    and lookup_flush: "lookup (flush s) k = None"
begin

fun newest :: "'e list \<Rightarrow> 'k \<Rightarrow> 'e option" where
  "newest [] k = None"
| "newest (e # es) k = (case newest es k of None \<Rightarrow> (if tag e = k then Some e else None) | r \<Rightarrow> r)"

lemma lookup_fills:
  assumes "list_all entry_ok es" "lookup (foldl fill s es) k = Some e"
  shows "newest es k = Some e \<or> (newest es k = None \<and> lookup s k = Some e)"
  using assms
proof (induction es arbitrary: s)
  case Nil
  then show ?case by simp
next
  case (Cons a es)
  then have "newest es k = Some e \<or> newest es k = None \<and> lookup (fill s a) k = Some e" by simp
  then show ?case
    using Cons.prems(1) lookup_fill [of a s] lookup_fill_other [of k a s e]
    by (cases "tag a = k") auto
qed

lemma no_stale_entry:
  "list_all entry_ok es \<Longrightarrow> lookup (foldl fill (flush s) es) k = Some e \<Longrightarrow> newest es k = Some e"
  using lookup_fills [of es "flush s" k e] by (simp add: lookup_flush)

end

definition tlb_lookup :: "'c vm \<Rightarrow> u64 \<Rightarrow> tlb_entry option" where
  "tlb_lookup m vpn =
     (let te = cpu_tlb m (vpn AND TLB_INDEX_MASK)
      in if te_valid te \<and> te_vpn te = vpn then Some te else None)"

definition tlb_fill :: "'c vm \<Rightarrow> tlb_entry \<Rightarrow> 'c vm" where
  "tlb_fill m te = m\<lparr>cpu_tlb := (cpu_tlb m)(te_vpn te AND TLB_INDEX_MASK := te)\<rparr>"

lemma tlb_hit_lookup:
  "tlb_hit m v acc \<longleftrightarrow> (\<exists>te. tlb_lookup m (shr v 12) = Some te \<and>
     tlb_access_ok (cpu_mstatus m) acc te \<and> priv_ok (cpu_priv m) (cpu_mstatus m) (te_bit te PTE_U))"
  by (auto simp: tlb_hit_def tlb_lookup_def tlb_slot_def tlb_index_def Let_def)

lemma walk_leaf_fill:
  "leaf_ok (cpu_priv m) (cpu_mstatus m) acc level pte \<Longrightarrow> leaf_new_pte acc pte = pte \<Longrightarrow>
   walk_leaf v acc level a pte m = Some (Inr (leaf_pa level pte v), tlb_fill m (leaf_entry m v acc level pte))"
  by (simp add: walk_leaf_def tlb_fill_def tlb_index_def)

interpretation tlb: tag_cache tlb_lookup tlb_fill rv64_tlb_flush te_vpn te_valid
  by unfold_locales
    (auto simp: tlb_lookup_def tlb_fill_def rv64_tlb_flush_def zero_tlb_entry_def Let_def split: if_splits)



end
