(* ===== verification/RV_Mem.thy ===== *)
theory RV_Mem
  imports RV_Mmu
begin

text \<open>
  Memory access of the processor (\<open>rv64_cpu.c\<close>): \<open>rv64_cpu_load\<close> and \<open>cpu_store\<close> with
  their TLB fast path, the byte-by-byte path for accesses that cross a page, the watchpoint log,
  and the two entry points of the compiler.

  The fast paths are compared with the reference path that always translates and goes
  through the bus.
\<close>

subsection \<open>Loads\<close>

definition access_fault :: "access \<Rightarrow> u64" where
  "access_fault acc = (if acc = ACCESS_EXEC then EXC_INSN_ACCESS else EXC_LOAD_ACCESS)"

definition crosses_page :: "u64 \<Rightarrow> nat \<Rightarrow> bool" where
  "crosses_page vaddr sz \<longleftrightarrow> (vaddr AND PAGE_MASK) + of_nat sz > PAGE_SIZE"

text \<open>One byte after the other: \<open>i\<close> is the loop counter, the first argument the iterations left.\<close>

fun cpu_load_bytes ::
  "nat \<Rightarrow> nat \<Rightarrow> 'c vm \<Rightarrow> u64 \<Rightarrow> access \<Rightarrow> u64 \<Rightarrow> ((u64 + u64) \<times> 'c vm) undef" where
  "cpu_load_bytes 0 i m vaddr acc result = Some (Inr result, m)"
| "cpu_load_bytes (Suc n) i m vaddr acc result = do {
     (r, m1) \<leftarrow> rv64_translate m (vaddr + of_nat i) acc;
     (case r of
        Inl exc \<Rightarrow> Some (Inl exc, m1)
      | Inr pa \<Rightarrow> do {
          (b, m2) \<leftarrow> bus_load m1 pa 1;
          (case b of
             Inl _ \<Rightarrow> Some (Inl (access_fault acc), m2)
           | Inr byte_val \<Rightarrow>
               cpu_load_bytes n (Suc i) m2 vaddr acc (result OR shl (byte_val AND 0xFF) (i * 8)))
        })
   }"

text \<open>From the label \<open>slow_path\<close>.\<close>

definition cpu_load_slow :: "'c vm \<Rightarrow> u64 \<Rightarrow> nat \<Rightarrow> access \<Rightarrow> ((u64 + u64) \<times> 'c vm) undef" where
  "cpu_load_slow m vaddr sz acc =
     (if crosses_page vaddr sz then cpu_load_bytes sz 0 m vaddr acc 0
      else do {
        (r, m1) \<leftarrow> rv64_translate m vaddr acc;
        (case r of
           Inl exc \<Rightarrow> Some (Inl exc, m1)
         | Inr pa \<Rightarrow> do {
             (b, m2) \<leftarrow> bus_load m1 pa sz;
             (case b of Inl _ \<Rightarrow> Some (Inl (access_fault acc), m2) | Inr val \<Rightarrow> Some (Inr val, m2))
           })
      })"

text \<open>The condition of the fast path: a tag match on a RAM page with permission.\<close>

definition fast_load_ok :: "'c vm \<Rightarrow> u64 \<Rightarrow> access \<Rightarrow> bool" where
  "fast_load_ok m vaddr acc =
     (let te = tlb_slot m vaddr
      in te_valid te \<and> te_vpn te = shr vaddr PAGE_SHIFT \<and> te_host_base te \<noteq> None \<and>
         (if acc = ACCESS_EXEC then te_bit te PTE_X
          else te_bit te PTE_R \<or> (cpu_mstatus m AND MSTATUS_MXR \<noteq> 0 \<and> te_bit te PTE_X)) \<and>
         priv_ok (cpu_priv m) (cpu_mstatus m) (te_bit te PTE_U))"

definition rv64_cpu_load :: "'c vm \<Rightarrow> u64 \<Rightarrow> nat \<Rightarrow> access \<Rightarrow> ((u64 + u64) \<times> 'c vm) undef" where
  "rv64_cpu_load m vaddr sz acc =
     (if fast_load_ok m vaddr acc \<and> \<not> crosses_page vaddr sz then
        (let m1 = cpu_prof_update (prof_tlb_hits_update (\<lambda>n. n + 1)) m;
             p = the (te_host_base (tlb_slot m vaddr)) + (vaddr AND PAGE_MASK)
         in if bus_size sz then
              (case vm_ram m1 of
                 None \<Rightarrow> None
               | Some ram \<Rightarrow> if in_block (cpu_ram_size m1) p sz then Some (Inr (load_le ram p sz), m1)
                             else None)
            else cpu_load_slow m1 vaddr sz acc)
      else cpu_load_slow m vaddr sz acc)"

subsection \<open>Stores\<close>

text \<open>The watchpoint: a store that meets the watched range is logged.\<close>

definition watch_hit :: "rv64_dbg \<Rightarrow> u64 \<Rightarrow> nat \<Rightarrow> bool" where
  "watch_hit d vaddr sz \<longleftrightarrow> dbg_watch_active d \<and>
     vaddr < dbg_watch_addr d + ucast (dbg_watch_size d) \<and> vaddr + of_nat sz > dbg_watch_addr d"

definition store_watch :: "'c vm \<Rightarrow> u64 \<Rightarrow> nat \<Rightarrow> u64 \<Rightarrow> 'c vm undef" where
  "store_watch m vaddr sz val =
     (let d = cpu_dbg m
      in if watch_hit d vaddr sz then do {
           slot \<leftarrow> ring_slot (dbg_store_log_count d) DBG_STORE_LOG_SIZE;
           count \<leftarrow> int_inc (dbg_store_log_count d);
           Some (m\<lparr>cpu_dbg := d\<lparr>dbg_store_log := (dbg_store_log d)(slot :=
                     \<lparr>st_pc = cpu_pc m, st_addr = vaddr, st_value = val, st_size = of_nat sz,
                      st_instret = cpu_instret m\<rparr>),
                   dbg_store_log_count := count\<rparr>\<rparr>)
         } else Some m)"

fun cpu_store_bytes ::
  "nat \<Rightarrow> nat \<Rightarrow> 'c vm \<Rightarrow> u64 \<Rightarrow> u64 \<Rightarrow> ((u64 + unit) \<times> 'c vm) undef" where
  "cpu_store_bytes 0 i m vaddr val = Some (Inr (), m)"
| "cpu_store_bytes (Suc n) i m vaddr val = do {
     (r, m1) \<leftarrow> rv64_translate m (vaddr + of_nat i) ACCESS_WRITE;
     (case r of
        Inl exc \<Rightarrow> Some (Inl exc, m1)
      | Inr pa \<Rightarrow> do {
          (b, m2) \<leftarrow> bus_store m1 pa 1 (shr val (i * 8) AND 0xFF);
          (case b of Inl _ \<Rightarrow> Some (Inl EXC_STORE_ACCESS, m2)
           | Inr _ \<Rightarrow> cpu_store_bytes n (Suc i) m2 vaddr val)
        })
   }"

text \<open>From the label \<open>store_slow\<close>.\<close>

definition cpu_store_slow :: "'c vm \<Rightarrow> u64 \<Rightarrow> nat \<Rightarrow> u64 \<Rightarrow> ((u64 + unit) \<times> 'c vm) undef" where
  "cpu_store_slow m vaddr sz val =
     (if crosses_page vaddr sz then cpu_store_bytes sz 0 m vaddr val
      else do {
        (r, m1) \<leftarrow> rv64_translate m vaddr ACCESS_WRITE;
        (case r of
           Inl exc \<Rightarrow> Some (Inl exc, m1)
         | Inr pa \<Rightarrow> do {
             (b, m2) \<leftarrow> bus_store m1 pa sz val;
             (case b of Inl _ \<Rightarrow> Some (Inl EXC_STORE_ACCESS, m2) | Inr _ \<Rightarrow> Some (Inr (), m2))
           })
      })"

definition fast_store_ok :: "'c vm \<Rightarrow> u64 \<Rightarrow> bool" where
  "fast_store_ok m vaddr =
     (let te = tlb_slot m vaddr
      in te_valid te \<and> te_vpn te = shr vaddr PAGE_SHIFT \<and> te_host_base te \<noteq> None \<and>
         te_bit te PTE_W \<and> te_dirty te \<and> priv_ok (cpu_priv m) (cpu_mstatus m) (te_bit te PTE_U))"

definition cpu_store_fast :: "'c vm \<Rightarrow> u64 \<Rightarrow> nat \<Rightarrow> u64 \<Rightarrow> ((u64 + unit) \<times> 'c vm) undef" where
  "cpu_store_fast m vaddr sz val =
     (let m1 = cpu_prof_update (prof_tlb_hits_update (\<lambda>n. n + 1)) m;
          p = the (te_host_base (tlb_slot m vaddr)) + (vaddr AND PAGE_MASK)
      in if bus_size sz then
           (case vm_ram m1 of
              None \<Rightarrow> None
            | Some ram \<Rightarrow> if in_block (cpu_ram_size m1) p sz
                          then Some (Inr (), m1\<lparr>vm_ram := Some (store_le ram p sz val)\<rparr>) else None)
         else cpu_store_slow m1 vaddr sz val)"

definition cpu_store :: "'c vm \<Rightarrow> u64 \<Rightarrow> nat \<Rightarrow> u64 \<Rightarrow> ((u64 + unit) \<times> 'c vm) undef" where
  "cpu_store m vaddr sz val = do {
     m0 \<leftarrow> store_watch m vaddr sz val;
     if fast_store_ok m0 vaddr \<and> \<not> crosses_page vaddr sz then cpu_store_fast m0 vaddr sz val
     else cpu_store_slow m0 vaddr sz val
   }"

subsection \<open>Entry points of compiled code\<close>

definition rv64_jit_load :: "'c vm \<Rightarrow> u64 \<Rightarrow> nat \<Rightarrow> ((u64 + u64) \<times> 'c vm) undef" where
  "rv64_jit_load m vaddr sz = rv64_cpu_load m vaddr sz ACCESS_READ"

definition rv64_jit_store :: "'c vm \<Rightarrow> u64 \<Rightarrow> nat \<Rightarrow> u64 \<Rightarrow> ((u64 + unit) \<times> 'c vm) undef" where
  "rv64_jit_store m vaddr sz val = cpu_store m vaddr sz val"

subsection \<open>The fast path agrees with the reference path\<close>

definition paging_on :: "'c vm \<Rightarrow> bool" where
  "paging_on m \<longleftrightarrow> cpu_priv m \<noteq> PRIV_M \<and> shr (cpu_satp m) SATP_MODE_SHIFT \<noteq> SATP_MODE_BARE"

lemma unat_page_offset: "unat (v AND 0xFFF :: u64) = unat v mod 4096"
  unfolding and_masks by (simp only: unsigned_take_bit_eq) (simp add: take_bit_eq_mod)

lemma crosses_page_iff:
  "sz \<le> 8 \<Longrightarrow> crosses_page v sz \<longleftrightarrow> 4096 < unat v mod 4096 + sz"
proof -
  assume sz: "sz \<le> 8"
  have "unat (v AND 0xFFF) < 4096" by (simp add: unat_page_offset)
  with sz have "unat ((v AND 0xFFF) + of_nat sz) = unat v mod 4096 + sz"
    by (simp add: unat_word_ariths unat_of_nat unat_page_offset)
  then show ?thesis by (simp add: crosses_page_def word_less_nat_alt)
qed

lemma in_page_add: "in_page (shl ppn 12) v = shl ppn 12 + (v AND 0xFFF)"
proof -
  have "shl ppn 12 AND (v AND 0xFFF) = 0"
    by (rule bit_word_eqI) (auto simp: and_masks bit_simps)
  then have "shl ppn 12 + (v AND 0xFFF) = shl ppn 12 OR (v AND 0xFFF)"
    by (rule disjunctive_add_eq_or)
  moreover have "shl (shr (shl ppn 12) 12) 12 = shl ppn 12"
    by (rule bit_word_eqI) (auto simp: bit_simps)
  ultimately show ?thesis by (simp add: in_page_def)
qed

text \<open>What a tag match on a RAM page gives, for every frame but the last one.\<close>

definition frame_ok :: "'c vm \<Rightarrow> u64 \<Rightarrow> bool" where
  "frame_ok m v \<longleftrightarrow> shl (te_ppn (tlb_slot m v)) 12 \<noteq> - 0x1000"

lemma host_page_access:
  assumes "tlb_inv m" "frame_ok m v" "te_valid (tlb_slot m v)" "te_vpn (tlb_slot m v) = shr v 12"
    and "te_host_base (tlb_slot m v) = Some base" "sz \<le> 8" "\<not> crosses_page v sz"
  shows "base + (v AND 0xFFF) = tlb_pa (tlb_slot m v) v - RAM_BASE"
    and "ram_hit (cpu_ram_size m) (tlb_pa (tlb_slot m v) v)"
    and "in_block (cpu_ram_size m) (base + (v AND 0xFFF)) sz"
proof -
  let ?te = "tlb_slot m v" and ?rs = "cpu_ram_size m"
  have ok: "ram_ok m" "tlb_entry_ok ?rs ?te" using assms(1) by (simp_all add: tlb_inv_def tlb_slot_def)
  have base: "base = shl (te_ppn ?te) 12 - RAM_BASE" and blk: "in_block ?rs base 4096"
    using ok(2) assms(2-5) by (auto simp: tlb_entry_ok_def frame_ok_def)
  have pa: "tlb_pa ?te v = shl (te_ppn ?te) 12 + (v AND 0xFFF)"
    using ok(2) assms(3,4) by (simp add: tlb_entry_ok_def in_page_add)
  show eq: "base + (v AND 0xFFF) = tlb_pa ?te v - RAM_BASE"
    by (simp add: pa base)
  have off: "unat (v AND 0xFFF) < 4096" by (simp add: unat_page_offset)
  have rs: "unat ?rs \<le> 2 ^ 64 - 2 ^ 31 - 4096" using ok(1) by (simp add: ram_ok_def)
  have "unat base + unat (v AND 0xFFF) < 2 ^ 64" using off blk rs by (simp add: in_block_def)
  then have sum: "unat (base + (v AND 0xFFF)) = unat base + unat (v AND 0xFFF)"
    by (simp add: unat_word_ariths)
  show "in_block ?rs (base + (v AND 0xFFF)) sz"
    using sum blk assms(6,7) by (simp add: in_block_def crosses_page_iff unat_page_offset)
  have lt: "unat base + unat (v AND 0xFFF) < unat ?rs" using off blk by (simp add: in_block_def)
  have "unat (tlb_pa ?te v) = 0x80000000 + unat (base + (v AND 0xFFF))"
  proof -
    have "tlb_pa ?te v = RAM_BASE + (base + (v AND 0xFFF))" by (simp add: eq)
    then show ?thesis using sum lt rs by (simp add: unat_word_ariths)
  qed
  with sum lt rs show "ram_hit ?rs (tlb_pa ?te v)" by (simp add: ram_hit_iff)
qed

lemma tlb_inv_ram: "tlb_inv m \<Longrightarrow> \<exists>ram. vm_ram m = Some ram"
  by (auto simp: tlb_inv_def ram_ok_def)

lemma fast_load_hit: "fast_load_ok m v acc \<Longrightarrow> acc \<noteq> ACCESS_WRITE \<Longrightarrow> tlb_hit m v acc"
  by (cases acc) (auto simp: fast_load_ok_def tlb_hit_def tlb_access_ok_def Let_def)

lemma fast_store_hit: "fast_store_ok m v \<Longrightarrow> tlb_hit m v ACCESS_WRITE"
  by (auto simp: fast_store_ok_def tlb_hit_def tlb_access_ok_def Let_def)

lemma bus_size_le: "bus_size sz \<Longrightarrow> sz \<le> 8"
  by (auto simp: bus_size_def)


text \<open>The same for stores, after the watchpoint.\<close>

lemma store_watch_fields:
  assumes "store_watch m v sz val = Some m'"
  shows "\<exists>d. m' = m\<lparr>cpu_dbg := d\<rparr>"
  using assms
  by (auto simp: store_watch_def Let_def bind_eq_Some_conv split: if_splits
      intro: exI [of _ "cpu_dbg m'"])

lemma cpu_store_reference:
  assumes "paging_on m" "tlb_inv m" "frame_ok m v" "bus_size sz"
  shows "cpu_store m v sz val = do { m0 \<leftarrow> store_watch m v sz val; cpu_store_slow m0 v sz val }"
proof (cases "store_watch m v sz val")
  case None
  then show ?thesis by (simp add: cpu_store_def)
next
  case (Some m0)
  then obtain d where m0: "m0 = m\<lparr>cpu_dbg := d\<rparr>" using store_watch_fields by blast
  have "cpu_store_fast m0 v sz val = cpu_store_slow m0 v sz val"
    if fast: "fast_store_ok m0 v" "\<not> crosses_page v sz"
  proof -
    from fast obtain base where te: "te_valid (tlb_slot m0 v)" "te_vpn (tlb_slot m0 v) = shr v 12"
        "te_host_base (tlb_slot m0 v) = Some base"
      by (auto simp: fast_store_ok_def Let_def)
    have inv: "tlb_inv m0" "frame_ok m0 v" "paging_on m0"
      using assms m0 by (simp_all add: tlb_inv_def ram_ok_def frame_ok_def tlb_slot_def paging_on_def)
    note page = host_page_access [OF inv(1,2) te bus_size_le [OF assms(4)] fast(2)]
    obtain ram where ram: "vm_ram m0 = Some ram" using tlb_inv_ram [OF inv(1)] by blast
    have "rv64_translate m0 v ACCESS_WRITE = Some (Inr (tlb_pa (tlb_slot m0 v) v),
        cpu_prof_update (prof_tlb_hits_update (\<lambda>n. n + 1)) m0)"
      using inv(3) fast by (intro translate_hit fast_store_hit) (auto simp: paging_on_def)
    then show ?thesis
      using fast page te ram assms(4)
      by (simp add: cpu_store_fast_def cpu_store_slow_def Let_def bus_store_ram ram_store_def)
  qed
  then show ?thesis using Some by (simp add: cpu_store_def)
qed


subsection \<open>Frames and invariants\<close>

lemma cpu_load_bytes_same:
  "cpu_load_bytes n i m v acc res = Some (r, m') \<Longrightarrow> mmu_same m m' \<and> (tlb_inv m \<longrightarrow> tlb_inv m')"
proof (induction n i m v acc res rule: cpu_load_bytes.induct)
  case (1 i m v acc res)
  then show ?case by simp
next
  case (2 n i m v acc res)
  from "2.prems" obtain rt m1 where tr: "rv64_translate m (v + of_nat i) acc = Some (rt, m1)"
    by (auto simp: bind_eq_Some_conv)
  note step1 = rv64_translate_same [OF tr] rv64_translate_inv [OF _ tr]
  show ?case
  proof (cases rt)
    case (Inl e)
    with "2.prems" tr step1 show ?thesis by simp
  next
    case (Inr pa)
    with "2.prems" tr obtain b m2 where bl: "bus_load m1 pa 1 = Some (b, m2)"
      by (auto simp: bind_eq_Some_conv)
    note step2 = bus_load_same [OF bl]
    have "mmu_same m m2" "tlb_inv m \<longrightarrow> tlb_inv m2"
      using step1 mmu_same_bus [OF step2] bus_same_tlb_inv [OF step2] by (auto intro: mmu_same_trans)
    then show ?thesis
      using "2.prems" "2.IH" [OF tr refl Inr bl refl] tr Inr bl
      by (cases b) (auto intro: mmu_same_trans)
  qed
qed

lemma cpu_load_slow_same:
  assumes "cpu_load_slow m v sz acc = Some (r, m')"
  shows "mmu_same m m'" "tlb_inv m \<Longrightarrow> tlb_inv m'"
proof -
  have step: "mmu_same m m2 \<and> (tlb_inv m \<longrightarrow> tlb_inv m2)"
    if "rv64_translate m v acc = Some (x, m1)" "bus_load m1 pa sz = Some (b, m2)" for x m1 pa b m2
    using rv64_translate_same [OF that(1)] rv64_translate_inv [OF _ that(1)]
      mmu_same_bus [OF bus_load_same [OF that(2)]] bus_same_tlb_inv [OF bus_load_same [OF that(2)]]
    by (auto intro: mmu_same_trans)
  have "mmu_same m m' \<and> (tlb_inv m \<longrightarrow> tlb_inv m')"
    using assms step
    by (auto simp: cpu_load_slow_def bind_sum_Some split: if_splits
        dest!: cpu_load_bytes_same dest: rv64_translate_same rv64_translate_inv)
  then show "mmu_same m m'" "tlb_inv m \<Longrightarrow> tlb_inv m'" by auto
qed

lemma rv64_cpu_load_same:
  assumes "rv64_cpu_load m v sz acc = Some (r, m')"
  shows "mmu_same m m'" "tlb_inv m \<Longrightarrow> tlb_inv m'"
  using assms cpu_load_slow_same [of m v sz acc r m']
    cpu_load_slow_same [of "cpu_prof_update (prof_tlb_hits_update (\<lambda>n. n + 1)) m" v sz acc r m']
  by (auto simp: rv64_cpu_load_def Let_def split: if_splits option.splits
      intro: mmu_same_trans [OF mmu_same_prof])

text \<open>A store also writes the debug log.\<close>

definition mem_same :: "'c vm \<Rightarrow> 'c vm \<Rightarrow> bool" where
  "mem_same m m' \<longleftrightarrow> (\<exists>d. mmu_same (m\<lparr>cpu_dbg := d\<rparr>) m')"

lemma mem_same_fields:
  assumes "mem_same m m'"
  shows "cpu_x m' = cpu_x m" "cpu_pc m' = cpu_pc m" "cpu_f m' = cpu_f m" "cpu_priv m' = cpu_priv m"
    "cpu_mstatus m' = cpu_mstatus m" "cpu_satp m' = cpu_satp m" "cpu_ram_size m' = cpu_ram_size m"
    "cpu_instret m' = cpu_instret m" "cpu_cycle m' = cpu_cycle m" "ram_ok m' = ram_ok m"
    "cpu_reservation m' = cpu_reservation m" "cpu_halted m' = cpu_halted m"
    "cpu_error m' = cpu_error m" "cpu_mip m' = cpu_mip m" "cpu_mie m' = cpu_mie m"
    "cpu_run_exit_reason m' = cpu_run_exit_reason m"
  using assms mmu_same_fields [of "m\<lparr>cpu_dbg := d\<rparr>" m' for d]
  by (auto simp: mem_same_def ram_ok_def)

lemma cpu_store_bytes_same:
  "cpu_store_bytes n i m v val = Some (r, m') \<Longrightarrow> mmu_same m m' \<and> (tlb_inv m \<longrightarrow> tlb_inv m')"
proof (induction n i m v val rule: cpu_store_bytes.induct)
  case (1 i m v val)
  then show ?case by simp
next
  case (2 n i m v val)
  from "2.prems" obtain rt m1 where tr: "rv64_translate m (v + of_nat i) ACCESS_WRITE = Some (rt, m1)"
    by (auto simp: bind_eq_Some_conv)
  note step1 = rv64_translate_same [OF tr] rv64_translate_inv [OF _ tr]
  show ?case
  proof (cases rt)
    case (Inl e)
    with "2.prems" tr step1 show ?thesis by simp
  next
    case (Inr pa)
    with "2.prems" tr obtain b m2 where bs: "bus_store m1 pa 1 (shr val (i * 8) AND 0xFF) = Some (b, m2)"
      by (auto simp: bind_eq_Some_conv)
    note step2 = bus_store_same [OF bs]
    have "mmu_same m m2" "tlb_inv m \<longrightarrow> tlb_inv m2"
      using step1 mmu_same_bus [OF step2] bus_same_tlb_inv [OF step2] by (auto intro: mmu_same_trans)
    then show ?thesis
      using "2.prems" "2.IH" [OF tr refl Inr bs refl] tr Inr bs
      by (cases b) (auto intro: mmu_same_trans)
  qed
qed

lemma cpu_store_slow_same:
  assumes "cpu_store_slow m v sz val = Some (r, m')"
  shows "mmu_same m m' \<and> (tlb_inv m \<longrightarrow> tlb_inv m')"
proof -
  have step: "mmu_same m m2 \<and> (tlb_inv m \<longrightarrow> tlb_inv m2)"
    if "rv64_translate m v ACCESS_WRITE = Some (x, m1)" "bus_store m1 pa sz val = Some (b, m2)" for x m1 pa b m2
    using rv64_translate_same [OF that(1)] rv64_translate_inv [OF _ that(1)]
      mmu_same_bus [OF bus_store_same [OF that(2)]] bus_same_tlb_inv [OF bus_store_same [OF that(2)]]
    by (auto intro: mmu_same_trans)
  show ?thesis
    using assms step
    by (auto simp: cpu_store_slow_def bind_sum_Some split: if_splits
        dest!: cpu_store_bytes_same dest: rv64_translate_same rv64_translate_inv)
qed

lemma cpu_store_fast_same:
  assumes "cpu_store_fast m v sz val = Some (r, m')"
  shows "mmu_same m m' \<and> (tlb_inv m \<longrightarrow> tlb_inv m')"
proof -
  let ?m = "cpu_prof_update (prof_tlb_hits_update (\<lambda>n. n + 1)) m"
  consider ram where "vm_ram m \<noteq> None" "m' = ?m\<lparr>vm_ram := Some ram\<rparr>"
    | "cpu_store_slow ?m v sz val = Some (r, m')"
    using assms by (auto simp: cpu_store_fast_def Let_def split: if_splits option.splits)
  then show ?thesis
  proof cases
    case 1
    then have "mmu_same ?m m'" by (auto intro!: mmu_same_bus bus_same_ram)
    moreover have "tlb_inv m \<longrightarrow> tlb_inv m'" using 1 by (auto simp: tlb_inv_def ram_ok_def)
    ultimately show ?thesis using mmu_same_trans [OF mmu_same_prof] by blast
  next
    case 2
    from cpu_store_slow_same [OF 2] show ?thesis using mmu_same_trans [OF mmu_same_prof] by auto
  qed
qed

lemma cpu_store_same:
  assumes "cpu_store m v sz val = Some (r, m')"
  shows "mem_same m m'" "tlb_inv m \<Longrightarrow> tlb_inv m'"
proof -
  obtain m0 where m0: "store_watch m v sz val = Some m0"
    and st: "cpu_store_fast m0 v sz val = Some (r, m') \<or> cpu_store_slow m0 v sz val = Some (r, m')"
    using assms by (auto simp: cpu_store_def bind_eq_Some_conv split: if_splits)
  then obtain d where d: "m0 = m\<lparr>cpu_dbg := d\<rparr>" using store_watch_fields by blast
  have "mmu_same m0 m'" "tlb_inv m0 \<longrightarrow> tlb_inv m'"
    using st cpu_store_slow_same cpu_store_fast_same by blast+
  then show "mem_same m m'" "tlb_inv m \<Longrightarrow> tlb_inv m'"
    by (auto simp: d mem_same_def tlb_inv_def ram_ok_def)
qed

subsection \<open>What a store leaves for a load\<close>

text \<open>A store inside a page ends in a bus store to the address that the TLB holds for it.\<close>

lemma cpu_store_slow_ends:
  assumes "paging_on m" "tlb_inv m" "\<not> crosses_page v sz" "cpu_store_slow m v sz val = Some (Inr (), m')"
  shows "\<exists>m1. paging_on m1 \<and> tlb_inv m1 \<and> tlb_hit m1 v ACCESS_WRITE \<and>
    bus_store m1 (tlb_pa (tlb_slot m1 v) v) sz val = Some (Inr (), m')"
proof -
  obtain pa m1 where tr: "rv64_translate m v ACCESS_WRITE = Some (Inr pa, m1)"
    and st: "bus_store m1 pa sz val = Some (Inr (), m')"
    using assms(3,4) by (auto simp: cpu_store_slow_def bind_sum_Some)
  note same = mmu_same_fields [OF rv64_translate_same [OF tr]]
  have "tlb_hit m1 v ACCESS_WRITE \<and> pa = tlb_pa (tlb_slot m1 v) v"
    using assms(1) tr by (intro translate_fills) (auto simp: paging_on_def)
  moreover have "paging_on m1" using assms(1) by (simp add: paging_on_def same)
  ultimately show ?thesis
    using rv64_translate_inv [OF assms(2) tr] st by blast
qed

lemma bus_same_tlb:
  assumes "bus_same m m'"
  shows "tlb_slot m' v = tlb_slot m v" "cpu_mstatus m' = cpu_mstatus m" "cpu_priv m' = cpu_priv m"
    "cpu_ram_size m' = cpu_ram_size m" "cpu_satp m' = cpu_satp m"
  using assms by (auto elim!: bus_sameE simp: tlb_slot_def)


subsection \<open>Concrete accesses\<close>

text \<open>The address space of \<open>pt_vm\<close> with its page in the TLB.\<close>

definition hot_vm :: "u64 \<Rightarrow> unit vm" where
  "hot_vm pte = tlb_fill (pt_vm pte) (leaf_entry (pt_vm pte) 0 ACCESS_WRITE 0 pte)"

lemma hot_vm_slot: "tlb_slot (hot_vm pte) 8 = leaf_entry (pt_vm pte) 0 ACCESS_WRITE 0 pte"
  "tlb_slot (hot_vm pte) 0 = leaf_entry (pt_vm pte) 0 ACCESS_WRITE 0 pte"
  by (simp_all add: hot_vm_def tlb_fill_def tlb_slot_def tlb_index_def)

lemma hot_vm_simps [simp]:
  "cpu_priv (hot_vm pte) = 1" "cpu_satp (hot_vm pte) = 0x8000000000080000"
  "cpu_mstatus (hot_vm pte) = 0xA00002000" "vm_ram (hot_vm pte) = Some (pt_ram pte)"
  "cpu_ram_size (hot_vm pte) = 0x10000" "cpu_dbg (hot_vm pte) = zero_dbg"
  "cpu_prof (hot_vm pte) = zero_prof"
  by (simp_all add: hot_vm_def tlb_fill_def) (simp_all add: pt_vm_def bare_vm_simps)

lemma tlb_slot_frame [simp]:
  "tlb_slot (m\<lparr>vm_ram := r\<rparr>) v = tlb_slot m v" "tlb_slot (cpu_prof_update f m) v = tlb_slot m v"
  "tlb_slot (m\<lparr>cpu_priv := p\<rparr>) v = tlb_slot m v"
  by (simp_all add: tlb_slot_def)

lemma hot_vm_inv: "\<not> pte_bad pte \<Longrightarrow> tlb_inv (hot_vm pte)"
  using leaf_entry_ok [OF pt_vm_ok, of 0 pte pte 0 ACCESS_WRITE]
  by (auto simp: tlb_inv_def ram_ok_def dvd_def hot_vm_def tlb_fill_def leaf_aligned_def)

lemmas hot_vm_eval = paging_on_def frame_ok_def bus_size_def hot_vm_slot leaf_entry_def leaf_pa_def
  host_page_def fast_load_ok_def fast_store_ok_def te_bit_def priv_ok_def Let_def



lemma hot_vm_store:
  "\<exists>m'. cpu_store (hot_vm 0x200010CF) 8 4 0x12345678 = Some (Inr (), m') \<and>
     tlb_slot m' 8 = tlb_slot (hot_vm 0x200010CF) 8"
  by (simp add: cpu_store_def store_watch_def watch_hit_def zero_dbg_def cpu_store_fast_def
      crosses_page_def hot_vm_eval leaf_new_pte_def in_block_def)


text \<open>The fast path does not look at machine mode, although \<open>rv64_translate\<close> treats every
  machine-mode address as physical: with a supervisor translation in the TLB, a machine-mode
  load of physical address 0 returns the contents of the mapped frame instead.\<close>

theorem machine_mode_load_uses_tlb:
  "\<exists>m' m''. rv64_cpu_load ((hot_vm 0x200000CF)\<lparr>cpu_priv := PRIV_M\<rparr>) 0 8 ACCESS_READ = Some (Inr 0x20000401, m') \<and>
     cpu_load_slow ((hot_vm 0x200000CF)\<lparr>cpu_priv := PRIV_M\<rparr>) 0 8 ACCESS_READ = Some (Inr 0, m'')"
proof -
  let ?m = "(hot_vm 0x200000CF)\<lparr>cpu_priv := PRIV_M\<rparr>"
  have "cpu_virtio_devs ?m = (\<lambda>_. None)"
    by (simp add: hot_vm_def tlb_fill_def pt_vm_def bare_vm_simps)
  then have "cpu_load_slow ?m 0 8 ACCESS_READ = Some (Inr 0, ?m)"
    by (simp add: cpu_load_slow_def rv64_translate_def crosses_page_def bus_load_def ram_hit_def
        mmio_hit_def virtio_slot_none)
  moreover have "\<exists>m'. rv64_cpu_load ?m 0 8 ACCESS_READ = Some (Inr 0x20000401, m')"
    by (simp add: rv64_cpu_load_def crosses_page_def hot_vm_eval in_block_def pt_ram_loads)
  ultimately show ?thesis by blast
qed

subsection \<open>Which exceptions an access can raise\<close>

definition faults_in :: "u64 set \<Rightarrow> ((u64 + 'a) \<times> 's) undef \<Rightarrow> bool" where
  "faults_in S r \<longleftrightarrow> (\<forall>exc s. r = Some (Inl exc, s) \<longrightarrow> exc \<in> S)"

lemma faults_inD: "faults_in S r \<Longrightarrow> r = Some (Inl exc, s) \<Longrightarrow> exc \<in> S"
  by (simp add: faults_in_def)

lemma faults_in_mono: "faults_in S r \<Longrightarrow> S \<subseteq> T \<Longrightarrow> faults_in T r"
  by (auto simp: faults_in_def)

lemma faults_in_rules:
  "faults_in S None" "faults_in S (Some (Inr v, s))" "exc \<in> S \<Longrightarrow> faults_in S (Some (Inl exc, s))"
  "(P \<Longrightarrow> faults_in S a) \<Longrightarrow> (\<not> P \<Longrightarrow> faults_in S b) \<Longrightarrow> faults_in S (if P then a else b)"
  "faults_in S x \<Longrightarrow> (\<And>v s. faults_in S (g v s)) \<Longrightarrow>
     faults_in S (x \<bind> (\<lambda>(r, s). case r of Inl exc \<Rightarrow> Some (Inl exc, s) | Inr v \<Rightarrow> g v s))"
  "(\<And>e s. faults_in S (f e s)) \<Longrightarrow> (\<And>v s. faults_in S (g v s)) \<Longrightarrow>
     faults_in S (y \<bind> (\<lambda>(r, s). case r of Inl e \<Rightarrow> f e s | Inr v \<Rightarrow> g v s))"
  "(\<And>v. faults_in S (k v)) \<Longrightarrow> faults_in S (z \<bind> k)"
  "faults_in S a \<Longrightarrow> (\<And>v. faults_in S (k v)) \<Longrightarrow> faults_in S (case z of None \<Rightarrow> a | Some v \<Rightarrow> k v)"
  by (auto simp: faults_in_def bind_eq_Some_conv split: sum.splits option.splits) (metis old.sum.exhaust)+

lemma walk_leaf_faults: "faults_in {fault_code acc} (walk_leaf v acc level a pte m)"
  unfolding walk_leaf_def Let_def by (auto intro!: faults_in_rules)

lemma sv39_walk_faults: "faults_in {fault_code acc} (sv39_walk v acc m pt n)"
proof (induction n arbitrary: m pt)
  case (Suc n)
  show ?case
    unfolding sv39_walk.simps Let_def by (intro faults_in_rules walk_leaf_faults Suc.IH insertI1)
qed (simp add: faults_in_rules)

lemma translate_faults: "fault_code acc \<in> S \<Longrightarrow> faults_in S (rv64_translate m v acc)"
  unfolding rv64_translate_def Let_def
  by (intro faults_in_rules(1-4) faults_in_mono [OF sv39_walk_faults]) simp_all

lemma cpu_load_bytes_faults: "faults_in {fault_code acc, access_fault acc} (cpu_load_bytes n i m v acc res)"
proof (induction n arbitrary: i m res)
  case (Suc n)
  show ?case
    unfolding cpu_load_bytes.simps by (intro faults_in_rules(1-3,5,6) translate_faults Suc.IH; simp)
qed (simp add: faults_in_rules)

lemma cpu_load_faults: "faults_in {fault_code acc, access_fault acc} (rv64_cpu_load m v sz acc)"
proof -
  have slow: "faults_in {fault_code acc, access_fault acc} (cpu_load_slow m v sz acc)" for m
    unfolding cpu_load_slow_def
    by (intro faults_in_rules(1-6) translate_faults cpu_load_bytes_faults; simp)
  show ?thesis unfolding rv64_cpu_load_def Let_def
    by (intro faults_in_rules(1-4,8) slow)
qed

lemma cpu_store_bytes_faults: "faults_in {EXC_STORE_PAGE_FAULT, EXC_STORE_ACCESS} (cpu_store_bytes n i m v val)"
proof (induction n arbitrary: i m)
  case (Suc n)
  show ?case
    unfolding cpu_store_bytes.simps
    by (intro faults_in_rules(1-3,5,6) translate_faults Suc.IH; simp add: fault_code_def)
qed (simp add: faults_in_rules)

lemma cpu_store_faults: "faults_in {EXC_STORE_PAGE_FAULT, EXC_STORE_ACCESS} (cpu_store m v sz val)"
proof -
  have slow: "faults_in {EXC_STORE_PAGE_FAULT, EXC_STORE_ACCESS} (cpu_store_slow m v sz val)" for m
    unfolding cpu_store_slow_def
    by (intro faults_in_rules(1-6) translate_faults cpu_store_bytes_faults; simp add: fault_code_def)
  show ?thesis unfolding cpu_store_def cpu_store_fast_def Let_def
    by (intro faults_in_rules(1-4,7,8) slow)
qed

text \<open>C28. Which exceptions a memory access raises: a failing fetch or load raises the page fault or the
  access fault of its kind, and a failing store the store page fault or the store access fault, whatever
  the page tables, the devices and the size of the access. Machine state apart, no other error leaves the
  memory system.\<close>

theorem access_exceptions:
  "(rv64_cpu_load m v sz ACCESS_EXEC = Some (Inl exc, m') \<longrightarrow> exc \<in> {EXC_INSN_PAGE_FAULT, EXC_INSN_ACCESS}) \<and>
   (rv64_cpu_load m v sz ACCESS_READ = Some (Inl exc, m') \<longrightarrow> exc \<in> {EXC_LOAD_PAGE_FAULT, EXC_LOAD_ACCESS}) \<and>
   (cpu_store m v sz val = Some (Inl exc, m') \<longrightarrow> exc \<in> {EXC_STORE_PAGE_FAULT, EXC_STORE_ACCESS})"
  using faults_inD [OF cpu_load_faults, of m v sz ACCESS_EXEC exc m'] faults_inD [OF cpu_load_faults, of m v sz ACCESS_READ exc m']
    faults_inD [OF cpu_store_faults, of m v sz val exc m']
  by (auto simp: fault_code_def access_fault_def)

text \<open>A fetch from a page that is readable and writable but not executable.\<close>

lemma pt_vm_fetch_fault: "\<exists>exc m'. rv64_cpu_load (pt_vm 0x200010C7) 0 4 ACCESS_EXEC = Some (Inl exc, m')"
proof -
  have leaf: "\<not> pte_bad 0x200010C7" "pte_rwx 0x200010C7 \<noteq> 0" by (simp_all add: pte_bad_def pte_rwx_def)
  have "satp_root (cpu_satp (pt_vm 0x200010C7)) = 0x80000000" by (simp add: satp_root_def)
  then have "\<exists>m'. rv64_translate (pt_vm 0x200010C7) 0 ACCESS_EXEC = Some (Inl (fault_code ACCESS_EXEC), m')"
    using sv39_walk_path [OF pt_vm_path [OF leaf] pt_vm_ok pt_vm_tables, of ACCESS_EXEC
        "\<lambda>p. p\<lparr>prof_tlb_misses := prof_tlb_misses p + 1, prof_mmu_walks := prof_mmu_walks p + 1\<rparr>"] pt_vm_miss
    by (simp add: rv64_translate_def leaf_ok_def priv_ok_def leaf_access_ok_def leaf_aligned_def leaf_pa_def)
  then show ?thesis
    by (auto simp: rv64_cpu_load_def fast_load_ok_def tlb_slot_def zero_tlb_entry_def cpu_load_slow_def crosses_page_def Let_def)
qed

theorem access_exceptions_witness:
  "\<exists>exc m'. rv64_cpu_load (pt_vm 0x200010C7) 0 4 ACCESS_EXEC = Some (Inl exc, m') \<and>
     exc \<in> {EXC_INSN_PAGE_FAULT, EXC_INSN_ACCESS}"
  using pt_vm_fetch_fault access_exceptions [of "pt_vm 0x200010C7" 0 4] by blast

end
