(* ===== verification/RV_Csr.thy ===== *)
theory RV_Csr
  imports RV_Mmu
begin

text \<open>
  \<open>csr_read\<close> and \<open>csr_write\<close> of \<open>rv64_cpu.c\<close>. \<open>Inl ()\<close> is the return value -1, which
  the caller turns into an illegal-instruction trap on a read and ignores on a write.
\<close>

definition is_pmpaddr :: "u32 \<Rightarrow> bool" where
  "is_pmpaddr csr \<longleftrightarrow> CSR_PMPADDR0 \<le> csr \<and> csr \<le> CSR_PMPADDR0 + 15"

definition seed_value :: "u64 \<Rightarrow> u64" where
  "seed_value instret =
     (let ent = instret * 6364136223846793005 + 1442695040888963407
      in shl 3 30 OR (ent AND 0xFFFF))"

definition csr_read :: "'c vm \<Rightarrow> u32 \<Rightarrow> unit + u64" where
  "csr_read m csr =
     (if csr = CSR_MSTATUS then Inr (cpu_mstatus m)
      else if csr = CSR_MISA then Inr (cpu_misa m)
      else if csr = CSR_MEDELEG then Inr (cpu_medeleg m)
      else if csr = CSR_MIDELEG then Inr (cpu_mideleg m)
      else if csr = CSR_MIE then Inr (cpu_mie m)
      else if csr = CSR_MTVEC then Inr (cpu_mtvec m)
      else if csr = CSR_MCOUNTEREN then Inr (cpu_mcounteren m)
      else if csr = CSR_MSCRATCH then Inr (cpu_mscratch m)
      else if csr = CSR_MEPC then Inr (cpu_mepc m)
      else if csr = CSR_MCAUSE then Inr (cpu_mcause m)
      else if csr = CSR_MTVAL then Inr (cpu_mtval m)
      else if csr = CSR_MIP then Inr (cpu_mip m)
      else if csr = CSR_MHARTID then Inr 0
      else if csr = CSR_MVENDORID then Inr 0
      else if csr = CSR_MARCHID then Inr 0
      else if csr = CSR_MIMPID then Inr 0
      else if csr = 0x30A then Inr (cpu_menvcfg m)
      else if csr = 0x015 then Inr (seed_value (cpu_instret m))
      else if csr = CSR_PMPCFG0 then Inr (cpu_pmpcfg m 0)
      else if csr = CSR_PMPCFG0 + 2 then Inr (cpu_pmpcfg m 1)
      else if is_pmpaddr csr then Inr (cpu_pmpaddr m (csr - CSR_PMPADDR0))
      else if csr = CSR_SSTATUS then Inr (cpu_mstatus m AND SSTATUS_MASK)
      else if csr = CSR_SIE then Inr (cpu_mie m AND cpu_mideleg m)
      else if csr = CSR_STVEC then Inr (cpu_stvec m)
      else if csr = CSR_SCOUNTEREN then Inr (cpu_scounteren m)
      else if csr = CSR_SSCRATCH then Inr (cpu_sscratch m)
      else if csr = CSR_SEPC then Inr (cpu_sepc m)
      else if csr = CSR_SCAUSE then Inr (cpu_scause m)
      else if csr = CSR_STVAL then Inr (cpu_stval m)
      else if csr = CSR_SIP then Inr (cpu_mip m AND cpu_mideleg m)
      else if csr = CSR_SATP then Inr (cpu_satp m)
      else if csr = 0x14D then Inr (cpu_stimecmp m)
      else if csr = 0x001 then Inr (ucast (cpu_fcsr m AND 0x1F))
      else if csr = 0x002 then Inr (ucast (shr (cpu_fcsr m) 5 AND 0x7))
      else if csr = 0x003 then Inr (ucast (cpu_fcsr m AND 0xFF))
      else if csr = CSR_CYCLE \<or> csr = CSR_INSTRET then Inr (cpu_instret m)
      else if csr = CSR_TIME then Inr (c_mtime (cpu_clint m))
      else Inl ())"

definition satp_mode_ok :: "u64 \<Rightarrow> bool" where
  "satp_mode_ok val \<longleftrightarrow>
     shr val SATP_MODE_SHIFT = SATP_MODE_BARE \<or> shr val SATP_MODE_SHIFT = SATP_MODE_SV39"

definition set_fflags :: "u32 \<Rightarrow> u64 \<Rightarrow> u32" where
  "set_fflags fcsr val = (fcsr AND NOT 0x1F) OR ucast (val AND 0x1F)"

definition set_frm :: "u32 \<Rightarrow> u64 \<Rightarrow> u32" where
  "set_frm fcsr val = (fcsr AND NOT 0xE0) OR ucast (shl (val AND 0x7) 5)"

definition csr_write :: "'c vm \<Rightarrow> u32 \<Rightarrow> u64 \<Rightarrow> unit + 'c vm" where
  "csr_write m csr val =
     (if csr = CSR_MSTATUS then Inr (m\<lparr>cpu_mstatus := val\<rparr>)
      else if csr = CSR_MISA then Inr m
      else if csr = CSR_MEDELEG then Inr (m\<lparr>cpu_medeleg := val\<rparr>)
      else if csr = CSR_MIDELEG then Inr (m\<lparr>cpu_mideleg := val\<rparr>)
      else if csr = CSR_MIE then Inr (m\<lparr>cpu_mie := val\<rparr>)
      else if csr = CSR_MTVEC then Inr (m\<lparr>cpu_mtvec := val\<rparr>)
      else if csr = CSR_MCOUNTEREN then Inr (m\<lparr>cpu_mcounteren := val\<rparr>)
      else if csr = CSR_MSCRATCH then Inr (m\<lparr>cpu_mscratch := val\<rparr>)
      else if csr = CSR_MEPC then Inr (m\<lparr>cpu_mepc := val\<rparr>)
      else if csr = CSR_MCAUSE then Inr (m\<lparr>cpu_mcause := val\<rparr>)
      else if csr = CSR_MTVAL then Inr (m\<lparr>cpu_mtval := val\<rparr>)
      else if csr = CSR_MIP then Inr (m\<lparr>cpu_mip := val\<rparr>)
      else if csr = CSR_PMPCFG0 then Inr (m\<lparr>cpu_pmpcfg := (cpu_pmpcfg m)(0 := val)\<rparr>)
      else if csr = CSR_PMPCFG0 + 2 then Inr (m\<lparr>cpu_pmpcfg := (cpu_pmpcfg m)(1 := val)\<rparr>)
      else if is_pmpaddr csr then Inr (m\<lparr>cpu_pmpaddr := (cpu_pmpaddr m)(csr - CSR_PMPADDR0 := val)\<rparr>)
      else if csr = CSR_SSTATUS then
        Inr (m\<lparr>cpu_mstatus := (cpu_mstatus m AND NOT SSTATUS_MASK) OR (val AND SSTATUS_MASK)\<rparr>)
      else if csr = CSR_SIE then
        Inr (m\<lparr>cpu_mie := (cpu_mie m AND NOT (cpu_mideleg m)) OR (val AND cpu_mideleg m)\<rparr>)
      else if csr = CSR_STVEC then Inr (m\<lparr>cpu_stvec := val\<rparr>)
      else if csr = CSR_SCOUNTEREN then Inr (m\<lparr>cpu_scounteren := val\<rparr>)
      else if csr = CSR_SSCRATCH then Inr (m\<lparr>cpu_sscratch := val\<rparr>)
      else if csr = CSR_SEPC then Inr (m\<lparr>cpu_sepc := val\<rparr>)
      else if csr = CSR_SCAUSE then Inr (m\<lparr>cpu_scause := val\<rparr>)
      else if csr = CSR_STVAL then Inr (m\<lparr>cpu_stval := val\<rparr>)
      else if csr = CSR_SIP then
        Inr (m\<lparr>cpu_mip := (cpu_mip m AND NOT (cpu_mideleg m)) OR (val AND cpu_mideleg m)\<rparr>)
      else if csr = 0x14D then Inr (m\<lparr>cpu_stimecmp := val, cpu_mip := cpu_mip m AND NOT MIP_STIP\<rparr>)
      else if csr = 0x30A then Inr (m\<lparr>cpu_menvcfg := val\<rparr>)
      else if csr = 0x31A then Inr m
      else if csr = CSR_SATP then
        Inr (rv64_tlb_flush (m\<lparr>cpu_satp := (if satp_mode_ok val then val else 0)\<rparr>))
      else if csr = 0x001 then
        Inr (m\<lparr>cpu_fcsr := set_fflags (cpu_fcsr m) val\<rparr>)
      else if csr = 0x002 then
        Inr (m\<lparr>cpu_fcsr := set_frm (cpu_fcsr m) val\<rparr>)
      else if csr = 0x003 then Inr (m\<lparr>cpu_fcsr := ucast (val AND 0xFF)\<rparr>)
      else Inl ())"

subsection \<open>Reading back what was written\<close>

text \<open>What a register keeps of a written value.\<close>

definition csr_legal :: "'c vm \<Rightarrow> u32 \<Rightarrow> u64 \<Rightarrow> u64" where
  "csr_legal m csr val =
     (if csr = CSR_MISA then cpu_misa m
      else if csr = CSR_SSTATUS then val AND SSTATUS_MASK
      else if csr = CSR_SIE \<or> csr = CSR_SIP then val AND cpu_mideleg m
      else if csr = CSR_SATP then (if satp_mode_ok val then val else 0)
      else if csr = 0x001 then val AND 0x1F
      else if csr = 0x002 then val AND 0x7
      else if csr = 0x003 then val AND 0xFF
      else val)"

lemma tlb_flush_fields [simp]:
  "cpu_satp (rv64_tlb_flush m) = cpu_satp m"
  "cpu_priv (rv64_tlb_flush m) = cpu_priv m"
  "cpu_mstatus (rv64_tlb_flush m) = cpu_mstatus m"
  "cpu_x (rv64_tlb_flush m) = cpu_x m" "cpu_pc (rv64_tlb_flush m) = cpu_pc m"
  "cpu_instret (rv64_tlb_flush m) = cpu_instret m" "cpu_cycle (rv64_tlb_flush m) = cpu_cycle m"
  "cpu_dbg (rv64_tlb_flush m) = cpu_dbg m"
  by (simp_all add: rv64_tlb_flush_def)

lemma and_replace: "((a :: u64) AND NOT k OR b AND k) AND k = b AND k"
  by (rule bit_word_eqI) (auto simp: bit_simps)

lemma fcsr_low_masks:
  "(w :: u64) AND 0x1F = take_bit 5 w" "w AND 0x7 = take_bit 3 w" "w AND 0xFF = take_bit 8 w"
  "(f :: u32) AND 0x1F = take_bit 5 f" "f AND 0x7 = take_bit 3 f" "f AND 0xFF = take_bit 8 f"
  by (simp_all add: take_bit_eq_mask mask_eq_exp_minus_1)

lemma fcsr_fields:
  "ucast (set_fflags f w AND 0x1F) = w AND 0x1F"
  "ucast (shr (set_frm f w) 5 AND 0x7) = w AND 0x7"
  "ucast ((ucast (w AND 0xFF) :: u32) AND 0xFF) = w AND 0xFF"
proof -
  have e0: "(0xE0 :: u32) = shl (mask 3) 5" "(0x1F :: u32) = mask 5" by (simp_all add: mask_eq_exp_minus_1)
  have b: "bit (0xE0 :: u32) n \<longleftrightarrow> 5 \<le> n \<and> n < 8" for n
    unfolding e0 by (auto simp: bit_simps simp del: mask_numeral push_bit_numeral)
  show "ucast (set_fflags f w AND 0x1F) = w AND 0x1F"
    unfolding fcsr_low_masks set_fflags_def by (rule bit_word_eqI) (auto simp: bit_simps e0(2))
  show "ucast (shr (set_frm f w) 5 AND 0x7) = w AND 0x7"
    unfolding fcsr_low_masks set_frm_def by (rule bit_word_eqI) (auto simp: bit_simps b)
  show "ucast ((ucast (w AND 0xFF) :: u32) AND 0xFF) = w AND 0xFF"
    unfolding fcsr_low_masks by (rule bit_word_eqI) (auto simp: bit_simps)
qed

lemma not_pmpaddr_1: "\<not> (0x3B0 :: u32) \<le> 1"
  by (simp add: word_le_nat_alt)

text \<open>C35. Every control register reads back what its definition keeps of the last write: the
  whole value, the delegated or permitted bits of it, or, for \<open>satp\<close> with an unsupported
  mode, Bare. (0x31A, the upper half that exists only on 32-bit machines, can be written
  but not read.)\<close>

theorem csr_read_after_write:
  assumes "csr_write m csr val = Inr m'" "csr \<noteq> 0x31A"
  shows "csr_read m' csr = Inr (csr_legal m csr val)"
  using assms not_pmpaddr_1 unfolding csr_write_def
  by (auto simp: csr_read_def csr_legal_def is_pmpaddr_def and_replace fcsr_fields split: if_splits)

theorem csr_read_after_write_witness:
  "\<exists>m'. csr_write (pt_vm 0) CSR_SATP 0x9000000000080000 = Inr m' \<and> csr_read m' CSR_SATP = Inr 0"
proof -
  let ?m = "rv64_tlb_flush ((pt_vm 0)\<lparr>cpu_satp := 0\<rparr>)"
  have w: "csr_write (pt_vm 0) CSR_SATP 0x9000000000080000 = Inr ?m"
    by (simp add: csr_write_def is_pmpaddr_def satp_mode_ok_def)
  from csr_read_after_write [OF w] have "csr_read ?m CSR_SATP = Inr 0"
    by (simp add: csr_legal_def satp_mode_ok_def)
  with w show ?thesis by blast
qed

subsection \<open>What a write leaves alone\<close>

lemma csr_write_frame:
  assumes "csr_write m csr val = Inr m'"
  shows "cpu_x m' = cpu_x m \<and> cpu_pc m' = cpu_pc m \<and> cpu_f m' = cpu_f m \<and> cpu_priv m' = cpu_priv m \<and>
    cpu_instret m' = cpu_instret m \<and> cpu_cycle m' = cpu_cycle m \<and> vm_ram m' = vm_ram m \<and>
    cpu_ram_size m' = cpu_ram_size m \<and> cpu_dbg m' = cpu_dbg m \<and> cpu_prof m' = cpu_prof m \<and>
    cpu_halted m' = cpu_halted m \<and> cpu_error m' = cpu_error m \<and>
    cpu_run_exit_reason m' = cpu_run_exit_reason m"
  using assms unfolding csr_write_def
  by (auto simp: rv64_tlb_flush_def split: if_split_asm)

lemma csr_write_tlb:
  assumes "csr_write m csr val = Inr m'"
  shows "cpu_tlb m' = cpu_tlb m \<or> cpu_tlb m' = (\<lambda>_. zero_tlb_entry)"
  using assms unfolding csr_write_def
  by (auto simp: rv64_tlb_flush_def split: if_split_asm)

lemma csr_write_inv:
  assumes "csr_write m csr val = Inr m'" "tlb_inv m"
  shows "tlb_inv m'"
proof -
  have "ram_ok m' = ram_ok m" "cpu_ram_size m' = cpu_ram_size m"
    using csr_write_frame [OF assms(1)] by (simp_all add: ram_ok_def)
  then show ?thesis
    using csr_write_tlb [OF assms(1)] assms(2)
    by (auto simp: tlb_inv_def)
qed

lemma pmpaddr_machine: "is_pmpaddr csr \<Longrightarrow> shr csr 8 AND 3 \<noteq> 1"
proof -
  assume "is_pmpaddr csr"
  then have "unat csr div 256 = 3"
    by (auto simp: is_pmpaddr_def word_le_nat_alt)
  then have "unat (shr csr 8) = unat (3 :: u32)" by (simp add: drop_bit_eq_div unat_div_distrib)
  then have "shr csr 8 = 3" by (rule unsigned_word_eqI)
  then show ?thesis by simp
qed

definition supervisor_csrs :: "u32 set" where
  "supervisor_csrs = {CSR_SSTATUS, CSR_SIE, CSR_STVEC, CSR_SCOUNTEREN, CSR_SSCRATCH, CSR_SEPC,
     CSR_SCAUSE, CSR_STVAL, CSR_SIP, 0x14D, CSR_SATP}"

lemma supervisor_write:
  "csr_write m csr val = Inr m' \<Longrightarrow> shr csr 8 AND 3 = 1 \<Longrightarrow> csr \<in> supervisor_csrs"
  using pmpaddr_machine [of csr] unfolding csr_write_def supervisor_csrs_def
  by (simp split: if_split_asm)

text \<open>C36. Supervisor registers cannot reach machine state: a write to any register whose number
  is in the supervisor range keeps the machine-only bits of \<open>mstatus\<close>, the interrupt enables
  that are not delegated, the delegation registers and every machine trap register.\<close>

theorem csr_supervisor_isolation:
  assumes "csr_write m csr val = Inr m'" "shr csr 8 AND 3 = 1"
  shows "cpu_mstatus m' AND NOT SSTATUS_MASK = cpu_mstatus m AND NOT SSTATUS_MASK \<and>
    cpu_mie m' AND NOT (cpu_mideleg m) = cpu_mie m AND NOT (cpu_mideleg m) \<and>
    cpu_mip m' AND NOT (cpu_mideleg m OR MIP_STIP) = cpu_mip m AND NOT (cpu_mideleg m OR MIP_STIP) \<and>
    (cpu_medeleg m', cpu_mideleg m', cpu_mtvec m', cpu_mepc m', cpu_mcause m', cpu_mtval m', cpu_mscratch m')
      = (cpu_medeleg m, cpu_mideleg m, cpu_mtvec m, cpu_mepc m, cpu_mcause m, cpu_mtval m, cpu_mscratch m)"
proof -
  have keep: "((a :: u64) AND NOT k OR b AND k) AND NOT k = a AND NOT k"
    "(a AND NOT k OR b AND k) AND NOT (k OR q) = a AND NOT (k OR q)"
    "(a AND NOT q) AND NOT (k OR q) = a AND NOT (k OR q)" for a b k q
    by (rule bit_word_eqI; auto simp: bit_simps)+
  have stip: "(a AND - 33) AND NOT (k OR 32) = a AND NOT (k OR 32)" for a k :: u64
    using keep(3) [of a 32 k] by (simp del: bit.de_Morgan_disj)
  note wr = assms(1) [symmetric, unfolded csr_write_def]
  from supervisor_write [OF assms] show ?thesis
    unfolding supervisor_csrs_def insert_iff empty_iff
    using wr by (elim disjE) (simp_all add: is_pmpaddr_def keep stip rv64_tlb_flush_def del: bit.de_Morgan_disj)
qed

theorem csr_supervisor_isolation_witness:
  "\<exists>m'. csr_write (pt_vm 0) CSR_SSTATUS (- 1) = Inr m' \<and>
     cpu_mstatus m' AND NOT SSTATUS_MASK = cpu_mstatus (pt_vm 0) AND NOT SSTATUS_MASK \<and> cpu_mepc m' = 0"
proof -
  obtain m' where w: "csr_write (pt_vm 0) CSR_SSTATUS (- 1) = Inr m'"
    by (simp add: csr_write_def is_pmpaddr_def)
  moreover have "cpu_mepc (pt_vm 0) = 0" by (simp add: pt_vm_def bare_vm_simps)
  ultimately show ?thesis
    using csr_supervisor_isolation [OF w] by auto
qed

text \<open>C34. A write of \<open>satp\<close> forgets every cached translation and every compiled block, and an
  unsupported mode turns paging off instead of being stored.\<close>

theorem satp_write_flushes:
  assumes "csr_write m CSR_SATP val = Inr m'"
  shows "(\<forall>vpn. tlb_lookup m' vpn = None) \<and>
    (\<forall>j i. cpu_jit m' = Some j \<longrightarrow> \<not> jb_valid (jit_cache j i)) \<and>
    (\<not> satp_mode_ok val \<longrightarrow> (\<forall>v acc. rv64_translate m' v acc = Some (Inr v, m')))"
proof -
  have m': "m' = rv64_tlb_flush (m\<lparr>cpu_satp := (if satp_mode_ok val then val else 0)\<rparr>)"
    using assms by (simp add: csr_write_def is_pmpaddr_def)
  show ?thesis
    by (auto simp: m' tlb.lookup_flush rv64_translate_def)
      (auto simp: rv64_tlb_flush_def jit_flush_def jit_destroy_def zero_jit_block_def)
qed

theorem satp_write_flushes_witness:
  "\<exists>m'. csr_write (pt_vm 0) CSR_SATP 0x9000000000080000 = Inr m' \<and> rv64_translate m' 42 ACCESS_READ = Some (Inr 42, m')"
proof -
  obtain m' where w: "csr_write (pt_vm 0) CSR_SATP 0x9000000000080000 = Inr m'"
    by (simp add: csr_write_def is_pmpaddr_def)
  with satp_write_flushes [OF w] show ?thesis by (auto simp: satp_mode_ok_def)
qed

end
