(* ===== verification/RV_Trap.thy ===== *)
theory RV_Trap
  imports RV_Csr RV_Mem
begin

text \<open>
  Traps and interrupts of \<open>rv64_cpu.c\<close>: \<open>trap\<close>, \<open>rv64_trap\<close>, the status handling of
  \<open>MRET\<close> and \<open>SRET\<close>, and \<open>check_interrupts\<close>.

  Entry to and return from a handler are stated as one contract (\<open>trap_stack\<close>) with a machine
  and a supervisor instance.
\<close>

subsection \<open>Trap entry\<close>

definition is_interrupt :: "u64 \<Rightarrow> bool" where
  "is_interrupt cause \<longleftrightarrow> shr cause 63 AND 1 \<noteq> 0"

definition trap_code :: "u64 \<Rightarrow> u64" where
  "trap_code cause = cause AND 0x7FFFFFFFFFFFFFFF"

text \<open>The trap log.\<close>

definition trap_record :: "'c vm \<Rightarrow> u64 \<Rightarrow> u64 \<Rightarrow> 'c vm undef" where
  "trap_record m cause tval =
     (if \<not> is_interrupt cause \<and> cause \<noteq> EXC_ECALL_S then do {
        let d = cpu_dbg m;
        slot \<leftarrow> ring_slot (dbg_trap_log_count d) DBG_TRAP_LOG_SIZE;
        count \<leftarrow> int_inc (dbg_trap_log_count d);
        Some (m\<lparr>cpu_dbg := d\<lparr>dbg_trap_log := (dbg_trap_log d)(slot :=
                  \<lparr>tl_cause = cause, tl_tval = tval, tl_pc = cpu_pc m, tl_instret = cpu_instret m,
                   tl_priv = cpu_priv m, tl_a7 = cpu_x m 17, tl_a0 = cpu_x m 10, tl_a1 = cpu_x m 11,
                   tl_a2 = cpu_x m 12, tl_ret_a0 = 0, tl_ret_pc = 0\<rparr>),
                dbg_trap_log_last_slot := slot, dbg_trap_log_count := count\<rparr>\<rparr>)
      } else Some m)"

text \<open>\<open>(deleg >> code) & 1\<close>: a shift by 64 or more is undefined.\<close>

definition deleg_bit :: "u64 \<Rightarrow> u64 \<Rightarrow> bool undef" where
  "deleg_bit deleg code = (if code < 64 then Some (shr deleg (unat code) AND 1 \<noteq> 0) else None)"

definition trap_to_s :: "'c vm \<Rightarrow> u64 \<Rightarrow> bool undef" where
  "trap_to_s m cause =
     (if cpu_priv m = PRIV_M then Some False
      else if is_interrupt cause then deleg_bit (cpu_mideleg m) (trap_code cause)
      else deleg_bit (cpu_medeleg m) (trap_code cause))"

definition s_enter_status :: "u64 \<Rightarrow> u8 \<Rightarrow> u64" where
  "s_enter_status mstatus priv =
     (let sie = shr mstatus 1 AND 1;
          st1 = (mstatus AND NOT MSTATUS_SPIE) OR shl sie 5;
          st2 = st1 AND NOT MSTATUS_SIE
      in (st2 AND NOT MSTATUS_SPP) OR shl (ucast priv) 8)"

definition m_enter_status :: "u64 \<Rightarrow> u8 \<Rightarrow> u64" where
  "m_enter_status mstatus priv =
     (let mie = shr mstatus 3 AND 1;
          st1 = (mstatus AND NOT MSTATUS_MPIE) OR shl mie 7;
          st2 = st1 AND NOT MSTATUS_MIE
      in (st2 AND NOT MSTATUS_MPP) OR shl (ucast priv) 11)"

definition trap_vector :: "u64 \<Rightarrow> u64 \<Rightarrow> u64" where
  "trap_vector tvec cause =
     (let base = tvec AND NOT 3; mode = tvec AND 3
      in if mode = 1 \<and> is_interrupt cause then base + trap_code cause * 4 else base)"

definition trap :: "'c vm \<Rightarrow> u64 \<Rightarrow> u64 \<Rightarrow> 'c vm undef" where
  "trap m0 cause tval = do {
     m \<leftarrow> trap_record m0 cause tval;
     to_s \<leftarrow> trap_to_s m cause;
     Some (if to_s
           then m\<lparr>cpu_sepc := cpu_pc m, cpu_scause := cause, cpu_stval := tval,
                  cpu_mstatus := s_enter_status (cpu_mstatus m) (cpu_priv m),
                  cpu_priv := PRIV_S, cpu_pc := trap_vector (cpu_stvec m) cause\<rparr>
           else m\<lparr>cpu_mepc := cpu_pc m, cpu_mcause := cause, cpu_mtval := tval,
                  cpu_mstatus := m_enter_status (cpu_mstatus m) (cpu_priv m),
                  cpu_priv := PRIV_M, cpu_pc := trap_vector (cpu_mtvec m) cause\<rparr>)
   }"

definition rv64_trap :: "'c vm \<Rightarrow> u64 \<Rightarrow> u64 \<Rightarrow> 'c vm undef" where
  "rv64_trap m cause tval = trap m cause tval"

subsection \<open>Trap return\<close>

text \<open>The status part of \<open>MRET\<close> and \<open>SRET\<close>: the new
  status and the privilege to return to.\<close>

definition m_leave_status :: "u64 \<Rightarrow> u64 \<times> u8" where
  "m_leave_status mstatus =
     (let mpie = shr mstatus 7 AND 1; mpp = shr mstatus 11 AND 3;
          st1 = (mstatus AND NOT MSTATUS_MIE) OR shl mpie 3;
          st2 = st1 OR MSTATUS_MPIE
      in (st2 AND NOT MSTATUS_MPP, ucast mpp))"

definition s_leave_status :: "u64 \<Rightarrow> u64 \<times> u8" where
  "s_leave_status mstatus =
     (let spie = shr mstatus 5 AND 1; spp = shr mstatus 8 AND 1;
          st1 = (mstatus AND NOT MSTATUS_SIE) OR shl spie 1;
          st2 = st1 OR MSTATUS_SPIE
      in (st2 AND NOT MSTATUS_SPP, ucast spp))"

definition mret :: "'c vm \<Rightarrow> u64 \<times> 'c vm" where
  "mret m = (let (st, p) = m_leave_status (cpu_mstatus m)
             in (cpu_mepc m, m\<lparr>cpu_mstatus := st, cpu_priv := p\<rparr>))"

text \<open>\<open>SRET\<close> also completes the last entry of the trap log when it returns to user mode.\<close>

definition sret :: "'c vm \<Rightarrow> u64 \<times> 'c vm" where
  "sret m =
     (let (st, p) = s_leave_status (cpu_mstatus m);
          d = cpu_dbg m; s = dbg_trap_log_last_slot d;
          d' = (if p = PRIV_U \<and> dbg_trap_log_count d > 0
                then d\<lparr>dbg_trap_log := (dbg_trap_log d)(s :=
                       (dbg_trap_log d s)\<lparr>tl_ret_a0 := cpu_x m 10, tl_ret_pc := cpu_sepc m\<rparr>)\<rparr>
                else d)
      in (cpu_sepc m, m\<lparr>cpu_mstatus := st, cpu_priv := p, cpu_dbg := d'\<rparr>))"

subsection \<open>Interrupts\<close>

text \<open>The timer and external pending bits follow the devices.\<close>

definition plic_pending :: "rv64_plic \<Rightarrow> bool" where
  "plic_pending p \<longleftrightarrow> p_pending p 0 AND p_enable p 1 0 \<noteq> 0 \<or> p_pending p 1 AND p_enable p 1 1 \<noteq> 0"

definition mip_update :: "'c vm \<Rightarrow> u64" where
  "mip_update m =
     (let c = cpu_clint m;
          mip1 = (if c_mtime c \<ge> c_mtimecmp c then cpu_mip m OR MIP_MTIP else cpu_mip m AND NOT MIP_MTIP);
          mip2 = (if c_mtime c \<ge> cpu_stimecmp m then mip1 OR MIP_STIP else mip1)
      in if plic_pending (cpu_plic m) then mip2 OR MIP_SEIP else mip2 AND NOT MIP_SEIP)"

definition irqs :: "(u64 \<times> u64 \<times> bool) list" where
  "irqs = [(MIP_MEIP, IRQ_M_EXT, True), (MIP_MSIP, IRQ_M_SOFT, True), (MIP_MTIP, IRQ_M_TIMER, True),
           (MIP_SEIP, IRQ_S_EXT, False), (MIP_SSIP, IRQ_S_SOFT, False), (MIP_STIP, IRQ_S_TIMER, False)]"

text \<open>Whether an interrupt that is pending and enabled is taken now.\<close>

definition irq_take :: "'c vm \<Rightarrow> u64 \<Rightarrow> bool \<Rightarrow> bool" where
  "irq_take m msk to_m \<longleftrightarrow>
     (to_m \<and> cpu_mideleg m AND msk = 0 \<and>
        (cpu_priv m < PRIV_M \<or> (cpu_priv m = PRIV_M \<and> shr (cpu_mstatus m) 3 AND 1 \<noteq> 0))) \<or>
     (cpu_mideleg m AND msk \<noteq> 0 \<and>
        (cpu_priv m < PRIV_S \<or> (cpu_priv m = PRIV_S \<and> shr (cpu_mstatus m) 1 AND 1 \<noteq> 0)))"

fun irq_select :: "'c vm \<Rightarrow> u64 \<Rightarrow> (u64 \<times> u64 \<times> bool) list \<Rightarrow> u64 option" where
  "irq_select m pending [] = None"
| "irq_select m pending ((msk, cause, to_m) # rest) =
     (if pending AND msk \<noteq> 0 \<and> irq_take m msk to_m then Some cause else irq_select m pending rest)"

definition net_event_loop :: "'c vm \<Rightarrow> 'c vm undef" where
  "net_event_loop m =
     (if cpu_cycle m mod 100000 = 0 then do {
        (dev, ram) \<leftarrow> virtio_net_poll (cpu_virtio_net m) (vm_ram m);
        Some (m\<lparr>cpu_virtio_net := dev, vm_ram := ram\<rparr>)
      } else Some m)"

text \<open>The flag is the return value: whether an interrupt was taken.\<close>

definition check_interrupts :: "'c vm \<Rightarrow> (bool \<times> 'c vm) undef" where
  "check_interrupts m = do {
     let m1 = cpu_prof_update (prof_irq_checks_update (\<lambda>n. n + 1)) m;
     let m2 = m1\<lparr>cpu_mip := mip_update m1\<rparr>;
     m3 \<leftarrow> net_event_loop m2;
     let pending = cpu_mip m3 AND cpu_mie m3;
     if pending = 0 then Some (False, m3)
     else (case irq_select m3 pending irqs of
             None \<Rightarrow> Some (False, m3)
           | Some cause \<Rightarrow> do {
               m4 \<leftarrow> trap m3 cause 0;
               Some (True, cpu_prof_update (prof_irq_taken_update (\<lambda>n. n + 1)) (m4\<lparr>cpu_halted := False\<rparr>))
             })
   }"

subsection \<open>The stacked status\<close>

text \<open>
  The contract of handler entry and return, on the status register: \<open>ie\<close> is the interrupt
  enable, \<open>pie\<close> where entry saves it, \<open>own\<close> the other bits the pair uses, \<open>legal\<close> the
  privileges that the saved field can hold.
\<close>

locale trap_stack =
  fixes enter :: "u64 \<Rightarrow> u8 \<Rightarrow> u64"
    and leave :: "u64 \<Rightarrow> u64 \<times> u8"
    and ie pie :: nat
    and own :: "nat set"
    and legal :: "u8 \<Rightarrow> bool"
  assumes enter_disables: "legal p \<Longrightarrow> \<not> bit (enter st p) ie"
    and enter_saves: "legal p \<Longrightarrow> bit (enter st p) pie = bit st ie"
    and enter_keeps: "legal p \<Longrightarrow> i \<noteq> ie \<Longrightarrow> i \<noteq> pie \<Longrightarrow> i \<notin> own \<Longrightarrow> bit (enter st p) i = bit st i"
    and leave_restores: "bit (fst (leave st)) ie = bit st pie"
    and leave_keeps: "i \<noteq> ie \<Longrightarrow> i \<noteq> pie \<Longrightarrow> i \<notin> own \<Longrightarrow> bit (fst (leave st)) i = bit st i"
    and leave_privilege: "legal p \<Longrightarrow> snd (leave (enter st p)) = p"
    and distinct: "ie \<noteq> pie" "ie \<notin> own" "pie \<notin> own"
begin

lemma round_trip:
  assumes "legal p"
  shows "snd (leave (enter st p)) = p"
    and "i \<noteq> pie \<Longrightarrow> i \<notin> own \<Longrightarrow> bit (fst (leave (enter st p))) i = bit st i"
proof -
  show "snd (leave (enter st p)) = p" by (rule leave_privilege [OF assms])
  show "bit (fst (leave (enter st p))) i = bit st i" if "i \<noteq> pie" "i \<notin> own"
    by (cases "i = ie") (simp_all add: that leave_restores enter_saves leave_keeps enter_keeps assms)
qed

end

lemma less_4_bits: "(p :: u8) < 4 \<Longrightarrow> bit p n \<Longrightarrow> n < 2"
proof -
  assume "p < 4" "bit p n"
  then have "take_bit 2 p = p" by (simp add: take_bit_eq_mod mod_word_less)
  then show "n < 2" using \<open>bit p n\<close> by (metis bit_take_bit_iff)
qed

lemma less_2_bits: "(p :: u8) < 2 \<Longrightarrow> bit p n \<Longrightarrow> n = 0"
proof -
  assume "p < 2" "bit p n"
  then have "take_bit 1 p = p" by (simp add: take_bit_eq_mod mod_word_less)
  then show "n = 0" using \<open>bit p n\<close> by (metis bit_take_bit_iff less_one)
qed

text \<open>Bits of the field operations, kept away from the evaluation of the constants.\<close>

lemma bit_clear: "bit ((w :: u64) AND NOT (shl 1 k)) n \<longleftrightarrow> bit w n \<and> n \<noteq> k"
  by (auto simp: bit_simps dest: bit_imp_le_length)

lemma bit_clear_mpp: "bit ((w :: u64) AND NOT (shl 3 11)) n \<longleftrightarrow> bit w n \<and> n \<noteq> 11 \<and> n \<noteq> 12"
proof -
  have "(shl 3 11 :: u64) = shl (mask 2) 11" by (simp add: mask_eq_exp_minus_1)
  moreover have "bit (w AND NOT (shl (mask 2) 11)) n \<longleftrightarrow> bit w n \<and> \<not> (11 \<le> n \<and> n < 13)"
    by (simp only: bit_and_iff bit_not_iff bit_push_bit_iff bit_mask_iff)
      (auto dest: bit_imp_le_length)
  ultimately show ?thesis by auto
qed

lemma bit_set: "bit (shl (1 :: u64) k) n \<longleftrightarrow> n = k \<and> n < 64"
  by (auto simp: bit_simps)

lemma bit_shr_and_1: "bit (shr (w :: u64) j AND 1) i \<longleftrightarrow> i = 0 \<and> bit w j"
  by (simp only: bit_and_iff bit_1_iff bit_drop_bit_eq) auto

lemma bit_put: "k < 64 \<Longrightarrow> bit (shl (shr (w :: u64) j AND 1) k) n \<longleftrightarrow> n = k \<and> bit w j"
  by (simp only: bit_push_bit_iff bit_shr_and_1) auto

lemma bit_put_priv: "bit (shl (ucast (p :: u8) :: u64) k) n \<longleftrightarrow> k \<le> n \<and> n < 64 \<and> bit p (n - k)"
  by (auto simp: bit_simps)

lemma bit_m_enter:
  assumes "p < 4"
  shows "bit (m_enter_status st p) n \<longleftrightarrow>
    (if n = 3 then False else if n = 7 then bit st 3
     else if n = 11 then bit p 0 else if n = 12 then bit p 1 else bit st n)"
  using less_4_bits [OF assms, of "n - 11"]
  by (simp only: m_enter_status_def Let_def bit_or_iff bit_clear bit_clear_mpp bit_put bit_put_priv)
    auto

lemma bit_s_enter:
  assumes "p < 2"
  shows "bit (s_enter_status st p) n \<longleftrightarrow>
    (if n = 1 then False else if n = 5 then bit st 1 else if n = 8 then bit p 0 else bit st n)"
  using less_2_bits [OF assms, of "n - 8"]
  by (simp only: s_enter_status_def Let_def bit_or_iff bit_clear bit_put bit_put_priv)
    auto

lemma bit_m_leave:
  "bit (fst (m_leave_status st)) n \<longleftrightarrow>
    (if n = 3 then bit st 7 else if n = 7 then True else if n = 11 \<or> n = 12 then False else bit st n)"
  by (simp only: m_leave_status_def Let_def fst_conv bit_or_iff bit_clear bit_clear_mpp bit_put bit_set) auto

lemma bit_s_leave:
  "bit (fst (s_leave_status st)) n \<longleftrightarrow>
    (if n = 1 then bit st 5 else if n = 5 then True else if n = 8 then False else bit st n)"
  by (simp only: s_leave_status_def Let_def fst_conv bit_or_iff bit_clear bit_put bit_set) auto

lemma m_leave_priv: "p < 4 \<Longrightarrow> snd (m_leave_status (m_enter_status st p)) = p"
proof (rule bit_word_eqI)
  fix n assume p: "p < 4"
  have "(w :: u64) AND 3 = take_bit 2 w" for w by (simp add: take_bit_eq_mask mask_eq_exp_minus_1)
  then show "bit (snd (m_leave_status (m_enter_status st p))) n = bit p n"
    using p less_4_bits [OF p, of n]
    by (auto simp: m_leave_status_def Let_def bit_simps bit_m_enter less_2_cases_iff)
qed

lemma s_leave_priv: "p < 2 \<Longrightarrow> snd (s_leave_status (s_enter_status st p)) = p"
proof (rule bit_word_eqI)
  fix n assume p: "p < 2"
  show "bit (snd (s_leave_status (s_enter_status st p))) n = bit p n"
    using p less_2_bits [OF p, of n]
    by (simp only: s_leave_status_def Let_def snd_conv bit_unsigned_iff bit_shr_and_1 bit_s_enter) auto
qed

interpretation m_stack: trap_stack m_enter_status m_leave_status 3 7 "{11, 12}" "\<lambda>p. p < 4"
  by unfold_locales (simp_all add: bit_m_enter bit_m_leave m_leave_priv)

interpretation s_stack: trap_stack s_enter_status s_leave_status 1 5 "{8}" "\<lambda>p. p < 2"
  by unfold_locales (simp_all add: bit_s_enter bit_s_leave s_leave_priv)

subsection \<open>Entry and return\<close>

lemma trap_record_frame:
  "trap_record m cause tval = Some m' \<Longrightarrow> \<exists>d. m' = m\<lparr>cpu_dbg := d\<rparr>"
  by (auto simp: trap_record_def Let_def bind_eq_Some_conv split: if_splits
      intro: exI [of _ "cpu_dbg m'"])

lemma trap_cases:
  assumes "trap m cause tval = Some m'"
  obtains d where "trap_to_s m cause = Some True"
      "m' = m\<lparr>cpu_dbg := d, cpu_sepc := cpu_pc m, cpu_scause := cause, cpu_stval := tval,
         cpu_mstatus := s_enter_status (cpu_mstatus m) (cpu_priv m),
         cpu_priv := PRIV_S, cpu_pc := trap_vector (cpu_stvec m) cause\<rparr>"
  | d where "trap_to_s m cause = Some False"
      "m' = m\<lparr>cpu_dbg := d, cpu_mepc := cpu_pc m, cpu_mcause := cause, cpu_mtval := tval,
         cpu_mstatus := m_enter_status (cpu_mstatus m) (cpu_priv m),
         cpu_priv := PRIV_M, cpu_pc := trap_vector (cpu_mtvec m) cause\<rparr>"
proof -
  obtain m1 s where m1: "trap_record m cause tval = Some m1" and s: "trap_to_s m1 cause = Some s"
    and m': "m' = (if s
           then m1\<lparr>cpu_sepc := cpu_pc m1, cpu_scause := cause, cpu_stval := tval,
                  cpu_mstatus := s_enter_status (cpu_mstatus m1) (cpu_priv m1),
                  cpu_priv := PRIV_S, cpu_pc := trap_vector (cpu_stvec m1) cause\<rparr>
           else m1\<lparr>cpu_mepc := cpu_pc m1, cpu_mcause := cause, cpu_mtval := tval,
                  cpu_mstatus := m_enter_status (cpu_mstatus m1) (cpu_priv m1),
                  cpu_priv := PRIV_M, cpu_pc := trap_vector (cpu_mtvec m1) cause\<rparr>)"
    using assms by (auto simp: trap_def bind_eq_Some_conv)
  from trap_record_frame [OF m1] obtain d where d: "m1 = m\<lparr>cpu_dbg := d\<rparr>" by blast
  have "trap_to_s m1 cause = trap_to_s m cause" by (simp add: d trap_to_s_def)
  with s have "trap_to_s m cause = Some s" by simp
  show thesis
  proof (cases s)
    case True
    show thesis
      by (rule that(1) [of d]) (use \<open>trap_to_s m cause = Some s\<close> True in \<open>simp_all add: m' d\<close>)
  next
    case False
    show thesis
      by (rule that(2) [of d]) (use \<open>trap_to_s m cause = Some s\<close> False in \<open>simp_all add: m' d\<close>)
  qed
qed

text \<open>C23. A machine-mode handler returns where it came from: after a trap to machine mode, \<open>MRET\<close>
  resumes the interrupted instruction at the interrupted privilege, with every status bit but
  the stack fields (\<open>MPIE\<close>, \<open>MPP\<close>) as before the trap, and the handler itself runs with
  machine interrupts off.\<close>

theorem trap_mret:
  assumes "trap m cause tval = Some m'" "trap_to_s m cause = Some False" "cpu_priv m < 4"
  shows "fst (mret m') = cpu_pc m \<and> cpu_priv (snd (mret m')) = cpu_priv m \<and>
    cpu_priv m' = PRIV_M \<and> \<not> bit (cpu_mstatus m') 3 \<and> cpu_mcause m' = cause \<and> cpu_mtval m' = tval \<and>
    (\<forall>i. i \<notin> {7, 11, 12} \<longrightarrow> bit (cpu_mstatus (snd (mret m'))) i = bit (cpu_mstatus m) i)"
  using assms(1)
proof (cases rule: trap_cases)
  case (2 d)
  then show ?thesis
    using m_stack.round_trip [OF assms(3)] m_stack.enter_disables [OF assms(3)]
    by (auto simp: mret_def split_def)
qed (use assms(2) in simp)

text \<open>The same for a delegated trap and \<open>SRET\<close>.\<close>

theorem trap_sret:
  assumes "trap m cause tval = Some m'" "trap_to_s m cause = Some True" "cpu_priv m < 2"
  shows "fst (sret m') = cpu_pc m \<and> cpu_priv (snd (sret m')) = cpu_priv m \<and>
    cpu_priv m' = PRIV_S \<and> \<not> bit (cpu_mstatus m') 1 \<and> cpu_scause m' = cause \<and> cpu_stval m' = tval \<and>
    (\<forall>i. i \<notin> {5, 8} \<longrightarrow> bit (cpu_mstatus (snd (sret m'))) i = bit (cpu_mstatus m) i)"
  using assms(1)
proof (cases rule: trap_cases)
  case (1 d)
  then show ?thesis
    using s_stack.round_trip [OF assms(3)] s_stack.enter_disables [OF assms(3)]
    by (auto simp: sret_def split_def Let_def)
qed (use assms(2) in simp)

text \<open>A page fault in supervisor mode, not delegated and delegated.\<close>

definition faulting_vm :: "u64 \<Rightarrow> unit vm" where
  "faulting_vm deleg = (pt_vm 0)\<lparr>cpu_pc := 0x1000, cpu_mtvec := 0x80000100, cpu_stvec := 0x2000,
     cpu_medeleg := deleg\<rparr>"

lemma faulting_vm_simps [simp]:
  "cpu_priv (faulting_vm d) = 1" "cpu_medeleg (faulting_vm d) = d" "cpu_pc (faulting_vm d) = 0x1000"
  "cpu_dbg (faulting_vm d) = zero_dbg"
  by (simp_all add: faulting_vm_def) (simp add: pt_vm_def bare_vm_simps)

lemma faulting_vm_to_s: "trap_to_s (faulting_vm d) 13 = Some (bit d 13)"
  by (simp add: trap_to_s_def is_interrupt_def trap_code_def deleg_bit_def and_one_eq odd_iff_mod_2_eq_one
      bit_iff_odd_drop_bit)

lemma faulting_vm_trap: "\<exists>m'. trap (faulting_vm d) 13 0x1000 = Some m'"
proof -
  have "\<exists>m1. trap_record (faulting_vm d) 13 0x1000 = Some m1"
    by (simp add: trap_record_def zero_dbg_def is_interrupt_def)
  then obtain m1 where m1: "trap_record (faulting_vm d) 13 0x1000 = Some m1" by blast
  from trap_record_frame [OF this] obtain e where "m1 = (faulting_vm d)\<lparr>cpu_dbg := e\<rparr>" by blast
  then have "trap_to_s m1 13 = trap_to_s (faulting_vm d) 13" by (simp add: trap_to_s_def)
  with m1 show ?thesis by (simp add: trap_def faulting_vm_to_s)
qed

theorem trap_mret_witness:
  "\<exists>m'. trap (faulting_vm 0) 13 0x1000 = Some m' \<and> fst (mret m') = 0x1000 \<and> cpu_priv (snd (mret m')) = PRIV_S"
proof -
  obtain m' where t: "trap (faulting_vm 0) 13 0x1000 = Some m'" using faulting_vm_trap by blast
  with trap_mret [OF t] show ?thesis by (simp add: faulting_vm_to_s)
qed

theorem trap_sret_witness:
  "\<exists>m'. trap (faulting_vm (shl 1 13)) 13 0x1000 = Some m' \<and> fst (sret m') = 0x1000 \<and>
     cpu_priv (snd (sret m')) = PRIV_S"
proof -
  obtain m' where t: "trap (faulting_vm (shl 1 13)) 13 0x1000 = Some m'" using faulting_vm_trap by blast
  with trap_sret [OF t] show ?thesis by (simp add: faulting_vm_to_s bit_set del: push_bit_of_1)
qed

subsection \<open>Which interrupt is taken\<close>

lemma net_event_loop_frame:
  "net_event_loop m = Some m' \<Longrightarrow> \<exists>dev ram. m' = m\<lparr>cpu_virtio_net := dev, vm_ram := ram\<rparr>"
  by (auto simp: net_event_loop_def bind_eq_Some_conv split: if_splits)
    (rule exI [of _ "cpu_virtio_net m'"], rule exI [of _ "vm_ram m'"], simp)

text \<open>The sources that are pending, enabled and takeable at the current privilege.\<close>

definition irq_due :: "'c vm \<Rightarrow> u64 \<times> u64 \<times> bool \<Rightarrow> bool" where
  "irq_due m i = (case i of (msk, cause, to_m) \<Rightarrow>
     (mip_update m AND cpu_mie m) AND msk \<noteq> 0 \<and> irq_take m msk to_m)"

lemma irq_select_find:
  "irq_select m pending xs =
     map_option (\<lambda>(_, c, _). c) (List.find (\<lambda>(k, c, t). pending AND k \<noteq> 0 \<and> irq_take m k t) xs)"
  by (induction m pending xs rule: irq_select.induct) auto

lemma find_irq_due:
  assumes "cpu_mideleg m' = cpu_mideleg m" "cpu_priv m' = cpu_priv m" "cpu_mstatus m' = cpu_mstatus m"
  shows "List.find (\<lambda>(k, c, t). (mip_update m AND cpu_mie m) AND k \<noteq> 0 \<and> irq_take m' k t) xs
    = List.find (irq_due m) xs"
  by (rule find_cong) (auto simp: irq_due_def irq_take_def assms)

lemma mip_update_prof: "mip_update (cpu_prof_update f m) = mip_update m"
  by (simp add: mip_update_def Let_def)

lemma check_interrupts_cases:
  assumes "check_interrupts m = Some (b, m')"
  shows "(\<exists>m3. b = False \<and> List.find (irq_due m) irqs = None \<and> m' = m3 \<and>
           net_event_loop ((cpu_prof_update (prof_irq_checks_update (\<lambda>n. n + 1)) m)\<lparr>cpu_mip := mip_update m\<rparr>) = Some m3)
       \<or> (\<exists>m3 m4 msk cause to_m. b = True \<and> List.find (irq_due m) irqs = Some (msk, cause, to_m) \<and>
           net_event_loop ((cpu_prof_update (prof_irq_checks_update (\<lambda>n. n + 1)) m)\<lparr>cpu_mip := mip_update m\<rparr>) = Some m3 \<and>
           trap m3 cause 0 = Some m4 \<and>
           m' = cpu_prof_update (prof_irq_taken_update (\<lambda>n. n + 1)) (m4\<lparr>cpu_halted := False\<rparr>))"
proof -
  let ?m1 = "cpu_prof_update (prof_irq_checks_update (\<lambda>n. n + 1)) m"
  obtain m3 where m3: "net_event_loop (?m1\<lparr>cpu_mip := mip_update m\<rparr>) = Some m3"
    and rest: "(if cpu_mip m3 AND cpu_mie m3 = 0 then Some (False, m3)
      else (case irq_select m3 (cpu_mip m3 AND cpu_mie m3) irqs of
             None \<Rightarrow> Some (False, m3)
           | Some cause \<Rightarrow> trap m3 cause 0 \<bind> (\<lambda>m4.
               Some (True, cpu_prof_update (prof_irq_taken_update (\<lambda>n. n + 1)) (m4\<lparr>cpu_halted := False\<rparr>)))))
      = Some (b, m')"
    using assms by (auto simp: check_interrupts_def Let_def mip_update_prof bind_eq_Some_conv)
  have fields: "cpu_mip m3 = mip_update m" "cpu_mie m3 = cpu_mie m" "cpu_mideleg m3 = cpu_mideleg m"
      "cpu_priv m3 = cpu_priv m" "cpu_mstatus m3 = cpu_mstatus m"
    using net_event_loop_frame [OF m3] by auto
  have sel: "irq_select m3 (cpu_mip m3 AND cpu_mie m3) irqs
      = map_option (\<lambda>(_, c, _). c) (List.find (irq_due m) irqs)"
    unfolding irq_select_find fields(1,2) find_irq_due [OF fields(3-5)] ..
  show ?thesis
  proof (cases "List.find (irq_due m) irqs")
    case None
    with rest sel m3 show ?thesis by (auto split: if_splits)
  next
    case (Some i)
    obtain msk cause to_m where i: "i = (msk, cause, to_m)" by (cases i)
    have "irq_due m i" using Some by (auto simp: find_Some_iff)
    then have "cpu_mip m3 AND cpu_mie m3 \<noteq> 0" by (auto simp: irq_due_def i fields)
    with rest sel m3 Some i show ?thesis by (auto simp: bind_eq_Some_conv)
  qed
qed

text \<open>The same by interrupt number, as the privileged architecture describes it: pending, enabled, and allowed in the
  mode it is delegated to. A supervisor interrupt that is not delegated is never taken.\<close>

definition irq_open :: "'c vm \<Rightarrow> nat \<Rightarrow> bool" where
  "irq_open m k \<longleftrightarrow> bit (mip_update m) k \<and> bit (cpu_mie m) k \<and>
     (if bit (cpu_mideleg m) k then cpu_priv m < PRIV_S \<or> cpu_priv m = PRIV_S \<and> bit (cpu_mstatus m) 1
      else k \<in> {3, 7, 11} \<and> (cpu_priv m < PRIV_M \<or> cpu_priv m = PRIV_M \<and> bit (cpu_mstatus m) 3))"

text \<open>Machine external, software, timer; supervisor external, software, timer.\<close>

definition irq_order :: "nat list" where
  "irq_order = [11, 3, 7, 9, 1, 5]"

definition irq_entry :: "nat \<Rightarrow> u64 \<times> u64 \<times> bool" where
  "irq_entry k = (shl 1 k, of_nat k OR shl 1 63, k \<in> {3, 7, 11})"

lemma irqs_by_number: "irqs = map irq_entry irq_order"
  by (simp add: irqs_def irq_order_def irq_entry_def)

lemma and_one_bit: "(w :: u64) AND shl 1 k = 0 \<longleftrightarrow> \<not> bit w k" "shr (w :: u64) k AND 1 = 0 \<longleftrightarrow> \<not> bit w k"
proof -
  show "w AND shl 1 k = 0 \<longleftrightarrow> \<not> bit w k"
    by (simp add: push_bit_of_1 and_exp_eq_0_iff_not_bit)
  show "shr w k AND 1 = 0 \<longleftrightarrow> \<not> bit w k"
    by (simp add: and_one_eq bit_iff_odd_drop_bit even_iff_mod_2_eq_zero)
qed

lemma irq_due_entry: "irq_due m (irq_entry k) = irq_open m k"
  unfolding irq_due_def irq_entry_def irq_open_def irq_take_def case_prod_conv and_one_bit bit_and_iff
  by (cases "bit (cpu_mideleg m) k") (simp_all del: push_bit_of_1)

lemma find_irqs: "List.find (irq_due m) irqs = map_option irq_entry (List.find (irq_open m) irq_order)"
  unfolding irqs_by_number irq_order_def by (simp add: irq_due_entry)

lemma irq_trap_to_s:
  assumes "irq_open m k" "k \<in> {1, 3, 5, 7, 9, 11}"
  shows "trap_to_s m (of_nat k OR shl 1 63) = Some (bit (cpu_mideleg m) k)"
proof -
  have "deleg_bit (cpu_mideleg m) (trap_code (of_nat k OR shl 1 63)) = Some (bit (cpu_mideleg m) k)" "is_interrupt (of_nat k OR shl 1 63)"
    using assms(2) by (auto simp: deleg_bit_def and_one_bit trap_code_def is_interrupt_def)
  moreover have "cpu_priv m = PRIV_M \<Longrightarrow> \<not> bit (cpu_mideleg m) k"
    using assms(1) by (auto simp: irq_open_def)
  ultimately show ?thesis by (simp add: trap_to_s_def)
qed


text \<open>With machine interrupts off, nothing interrupts machine mode; in supervisor mode with
  supervisor interrupts off, only interrupts that are not delegated do.\<close>

theorem interrupts_masked:
  assumes "check_interrupts m = Some (b, m')"
    and "cpu_priv m = PRIV_M \<and> \<not> bit (cpu_mstatus m) 3 \<or>
         cpu_priv m = PRIV_S \<and> \<not> bit (cpu_mstatus m) 1 \<and> cpu_mie m AND NOT (cpu_mideleg m) = 0"
  shows "\<not> b"
proof
  assume b
  with check_interrupts_cases [OF assms(1)] obtain msk cause to_m
    where "List.find (irq_due m) irqs = Some (msk, cause, to_m)" by blast
  then have "irq_due m (msk, cause, to_m)" by (auto simp: find_Some_iff)
  then have due: "mip_update m AND cpu_mie m AND msk \<noteq> 0" "irq_take m msk to_m"
    by (auto simp: irq_due_def and.assoc)
  have bits: "shr (cpu_mstatus m) k AND 1 \<noteq> 0 \<longleftrightarrow> bit (cpu_mstatus m) k" for k
    by (simp add: and_one_bit)
  from assms(2) show False
  proof
    assume "cpu_priv m = PRIV_M \<and> \<not> bit (cpu_mstatus m) 3"
    with due(2) show False by (simp add: irq_take_def bits)
  next
    assume s: "cpu_priv m = PRIV_S \<and> \<not> bit (cpu_mstatus m) 1 \<and> cpu_mie m AND NOT (cpu_mideleg m) = 0"
    then have "cpu_mideleg m AND msk = 0" using due(2) by (auto simp: irq_take_def bits)
    moreover have "cpu_mie m AND msk = (cpu_mie m AND NOT (cpu_mideleg m)) AND msk OR cpu_mie m AND (cpu_mideleg m AND msk)"
      by (rule bit_word_eqI) (auto simp: bit_simps)
    ultimately have "cpu_mie m AND msk = 0" using s by simp
    with due(1) show False by (simp add: and.assoc)
  qed
qed

text \<open>A machine whose timer has expired.\<close>

definition timer_vm :: "u8 \<Rightarrow> unit vm" where
  "timer_vm p = (pt_vm 0)\<lparr>cpu_priv := p, cpu_clint := \<lparr>c_mtimecmp = 5, c_mtime = 10\<rparr>, cpu_mie := MIP_MTIP,
     cpu_cycle := 1, cpu_halted := True\<rparr>"

lemma timer_vm_simps [simp]:
  "cpu_priv (timer_vm p) = p" "cpu_mie (timer_vm p) = MIP_MTIP" "cpu_mideleg (timer_vm p) = 0"
  "cpu_mstatus (timer_vm p) = 0xA00002000" "cpu_cycle (timer_vm p) = 1"
  by (simp_all add: timer_vm_def) (simp add: pt_vm_def bare_vm_simps)

lemma timer_vm_mip [simp]: "mip_update (timer_vm p) = MIP_MTIP"
proof -
  have "cpu_mip (timer_vm p) = 0" "cpu_stimecmp (timer_vm p) = - 1" "cpu_plic (timer_vm p) = plic_zero"
    "cpu_clint (timer_vm p) = \<lparr>c_mtimecmp = 5, c_mtime = 10\<rparr>"
    by (simp_all add: timer_vm_def) (simp_all add: pt_vm_def bare_vm_simps)
  moreover have "\<not> (- 1 :: u64) \<le> 10" by (simp add: word_le_nat_alt unsigned_minus_1_eq_mask mask_eq_exp_minus_1)
  ultimately show ?thesis
    by (simp add: mip_update_def Let_def plic_pending_def plic_zero_def)
qed

lemma timer_vm_check: "\<exists>b m'. check_interrupts (timer_vm p) = Some (b, m')"
proof -
  let ?m = "(cpu_prof_update (prof_irq_checks_update (\<lambda>n. n + 1)) (timer_vm p))\<lparr>cpu_mip := MIP_MTIP\<rparr>"
  have "trap_to_s ?m IRQ_M_TIMER = Some False"
    by (simp add: trap_to_s_def deleg_bit_def trap_code_def is_interrupt_def)
  then have tr: "\<exists>m4. trap ?m IRQ_M_TIMER 0 = Some m4"
    by (simp add: trap_def trap_record_def is_interrupt_def)
  have sel: "irq_select ?m pending irqs = None \<or> irq_select ?m pending irqs = Some IRQ_M_TIMER" if "pending = MIP_MTIP" for pending
    by (simp add: that irqs_def)
  show ?thesis
    using tr sel [OF refl]
    by (auto simp: check_interrupts_def Let_def mip_update_prof net_event_loop_def)
qed

lemma timer_vm_open: "List.find (irq_open (timer_vm PRIV_S)) irq_order = Some 7"
  by (simp add: irq_open_def irq_order_def bit_numeral_rec bit_iff_odd_drop_bit)


theorem interrupts_masked_witness:
  "\<exists>m'. check_interrupts (timer_vm PRIV_M) = Some (False, m')"
proof -
  obtain b m' where c: "check_interrupts (timer_vm PRIV_M) = Some (b, m')" using timer_vm_check by blast
  have "\<not> b" by (rule interrupts_masked [OF c]) (simp add: bit_iff_odd_drop_bit)
  with c show ?thesis by simp
qed

subsection \<open>The TLB invariant\<close>

lemma tlb_inv_updates [simp]:
  "tlb_inv (cpu_x_update g m) = tlb_inv m" "tlb_inv (cpu_f_update h m) = tlb_inv m"
  "tlb_inv (cpu_pc_update p m) = tlb_inv m" "tlb_inv (cpu_mstatus_update p m) = tlb_inv m"
  "tlb_inv (cpu_priv_update q m) = tlb_inv m" "tlb_inv (cpu_dbg_update d m) = tlb_inv m"
  "tlb_inv (cpu_sepc_update p m) = tlb_inv m" "tlb_inv (cpu_scause_update p m) = tlb_inv m"
  "tlb_inv (cpu_stval_update p m) = tlb_inv m" "tlb_inv (cpu_mepc_update p m) = tlb_inv m"
  "tlb_inv (cpu_mcause_update p m) = tlb_inv m" "tlb_inv (cpu_mtval_update p m) = tlb_inv m"
  "tlb_inv (cpu_mip_update p m) = tlb_inv m" "tlb_inv (cpu_halted_update b m) = tlb_inv m"
  "tlb_inv (cpu_instret_update p m) = tlb_inv m" "tlb_inv (cpu_cycle_update p m) = tlb_inv m"
  "tlb_inv (cpu_reservation_update r m) = tlb_inv m" "tlb_inv (cpu_jit_update j m) = tlb_inv m"
  "tlb_inv (cpu_pending_irq_check_update b m) = tlb_inv m" "tlb_inv (cpu_clint_update c m) = tlb_inv m"
  "tlb_inv (cpu_run_exit_reason_update e m) = tlb_inv m" "tlb_inv (vm_clock_reads_update n m) = tlb_inv m"
  "tlb_inv (cpu_prof_update pr m) = tlb_inv m"
  by (simp_all add: tlb_inv_def ram_ok_def)

lemma trap_inv:
  assumes "trap m cause tval = Some m'" "tlb_inv m"
  shows "tlb_inv m'"
  using assms(1) by (cases rule: trap_cases) (use assms(2) in simp_all)

end
