(* ===== verification/RV_Decompress.thy ===== *)
theory RV_Decompress
  imports RV_State
begin

text \<open>
  The expansion of 16-bit instructions to their 32-bit equivalents. The source has it three
  times: inline in \<open>rv64_step\<close> (\<open>rv64_cpu.c\<close>), as \<open>sljit_uncompress\<close> in
  \<open>rv64_sljit.c\<close> and as \<open>decompress\<close> in \<open>rv64_jit.c\<close>. All three are modelled and compared.

  The interpreter jumps to \<open>illegal_compressed\<close> where it has no expansion (\<open>None\<close>); the other
  two return 0.
\<close>

subsection \<open>Fields of a 16-bit instruction\<close>

definition fld :: "u32 \<Rightarrow> nat \<Rightarrow> u32 \<Rightarrow> u32" where
  "fld c n m = shr c n AND m"

text \<open>\<open>(imm << k) >> k\<close> on an \<open>int32_t\<close>.\<close>

definition sx32 :: "nat \<Rightarrow> u32 \<Rightarrow> u32" where
  "sx32 k w = sar (shl w k) k"

definition c_reg :: "u32 \<Rightarrow> nat \<Rightarrow> u32" where
  "c_reg c n = fld c n 7 + 8"

definition c_nzuimm :: "u32 \<Rightarrow> u32" where
  "c_nzuimm c = shl (fld c 5 1) 3 OR shl (fld c 6 1) 2 OR shl (fld c 7 0xF) 6 OR shl (fld c 11 3) 4"

definition c_off_d :: "u32 \<Rightarrow> u32" where
  "c_off_d c = shl (fld c 5 3) 6 OR shl (fld c 10 7) 3"

definition c_off_w :: "u32 \<Rightarrow> u32" where
  "c_off_w c = shl (fld c 5 1) 6 OR shl (fld c 6 1) 2 OR shl (fld c 10 7) 3"

definition c_imm6 :: "u32 \<Rightarrow> u32" where
  "c_imm6 c = shl (fld c 12 1) 5 OR fld c 2 0x1F"

definition c_imm16sp :: "u32 \<Rightarrow> u32" where
  "c_imm16sp c = shl (fld c 12 1) 9 OR shl (fld c 3 3) 7 OR shl (fld c 5 1) 6 OR shl (fld c 2 1) 5 OR
     shl (fld c 6 1) 4"

definition c_lui_imm :: "u32 \<Rightarrow> u32" where
  "c_lui_imm c = shl (fld c 12 1) 17 OR shl (fld c 2 0x1F) 12"

definition c_j_imm :: "u32 \<Rightarrow> u32" where
  "c_j_imm c = shl (fld c 12 1) 11 OR shl (fld c 11 1) 4 OR shl (fld c 9 3) 8 OR shl (fld c 8 1) 10 OR
     shl (fld c 7 1) 6 OR shl (fld c 6 1) 7 OR shl (fld c 3 7) 1 OR shl (fld c 2 1) 5"

definition c_b_off :: "u32 \<Rightarrow> u32" where
  "c_b_off c = shl (fld c 12 1) 8 OR shl (fld c 10 3) 3 OR shl (fld c 5 3) 6 OR shl (fld c 3 3) 1 OR
     shl (fld c 2 1) 5"

definition c_off_lwsp :: "u32 \<Rightarrow> u32" where
  "c_off_lwsp c = shl (fld c 12 1) 5 OR shl (fld c 4 7) 2 OR shl (fld c 2 3) 6"

definition c_off_ldsp :: "u32 \<Rightarrow> u32" where
  "c_off_ldsp c = shl (fld c 12 1) 5 OR shl (fld c 5 3) 3 OR shl (fld c 2 7) 6"

definition c_off_swsp :: "u32 \<Rightarrow> u32" where
  "c_off_swsp c = shl (fld c 9 0xF) 2 OR shl (fld c 7 3) 6"

definition c_off_sdsp :: "u32 \<Rightarrow> u32" where
  "c_off_sdsp c = shl (fld c 10 7) 3 OR shl (fld c 7 7) 6"

subsection \<open>32-bit encodings\<close>

definition enc_i :: "u32 \<Rightarrow> u32 \<Rightarrow> u32 \<Rightarrow> u32 \<Rightarrow> u32 \<Rightarrow> u32" where
  "enc_i imm rs1 f3 rd op = shl imm 20 OR shl rs1 15 OR shl f3 12 OR shl rd 7 OR op"

definition enc_s :: "u32 \<Rightarrow> u32 \<Rightarrow> u32 \<Rightarrow> u32 \<Rightarrow> u32 \<Rightarrow> u32" where
  "enc_s off rs2 rs1 f3 op =
     shl (fld off 5 0x7F) 25 OR shl rs2 20 OR shl rs1 15 OR shl f3 12 OR shl (off AND 0x1F) 7 OR op"

definition enc_r :: "u32 \<Rightarrow> u32 \<Rightarrow> u32 \<Rightarrow> u32 \<Rightarrow> u32 \<Rightarrow> u32 \<Rightarrow> u32" where
  "enc_r f7 rs2 rs1 f3 rd op = shl f7 25 OR shl rs2 20 OR shl rs1 15 OR shl f3 12 OR shl rd 7 OR op"

definition enc_j :: "u32 \<Rightarrow> u32" where
  "enc_j imm = (shl (sar imm 20 AND 1) 31 OR shl (sar imm 1 AND 0x3FF) 21 OR shl (sar imm 11 AND 1) 20 OR
     shl (sar imm 12 AND 0xFF) 12) OR 0x6F"

definition enc_b :: "u32 \<Rightarrow> u32 \<Rightarrow> u32 \<Rightarrow> u32" where
  "enc_b off rs1 f3 = (shl (sar off 12 AND 1) 31 OR shl (sar off 5 AND 0x3F) 25 OR shl (sar off 1 AND 0xF) 8 OR
     shl (sar off 11 AND 1) 7) OR shl rs1 15 OR shl f3 12 OR 0x63"

subsection \<open>The interpreter's expansion\<close>

definition rvc_q0 :: "u32 \<Rightarrow> u32 option" where
  "rvc_q0 c = (let f3 = fld c 13 7 in
     if f3 = 0 then Some (enc_i (c_nzuimm c) 2 0 (c_reg c 2) 0x13)
     else if f3 = 1 then Some (enc_i (c_off_d c) (c_reg c 7) 3 (c_reg c 2) 0x07)
     else if f3 = 2 then Some (enc_i (c_off_w c) (c_reg c 7) 2 (c_reg c 2) 0x03)
     else if f3 = 3 then Some (enc_i (c_off_d c) (c_reg c 7) 3 (c_reg c 2) 0x03)
     else if f3 = 6 then Some (enc_s (c_off_w c) (c_reg c 2) (c_reg c 7) 2 0x23)
     else if f3 = 5 then Some (enc_s (c_off_d c) (c_reg c 2) (c_reg c 7) 3 0x27)
     else if f3 = 7 then Some (enc_s (c_off_d c) (c_reg c 2) (c_reg c 7) 3 0x23)
     else None)"

text \<open>\<open>C.SUB\<close>, \<open>C.XOR\<close>, \<open>C.OR\<close>, \<open>C.AND\<close>, \<open>C.SUBW\<close>, \<open>C.ADDW\<close>.\<close>

definition rvc_arith :: "u32 \<Rightarrow> u32 option" where
  "rvc_arith c = (let rd = c_reg c 7; rs2 = c_reg c 2; f2 = fld c 5 3 in
     if fld c 12 1 = 0 then
       (if f2 = 0 then Some (enc_r 0x20 rs2 rd 0 rd 0x33)
        else if f2 = 1 then Some (enc_r 0 rs2 rd 4 rd 0x33)
        else if f2 = 2 then Some (enc_r 0 rs2 rd 6 rd 0x33)
        else Some (enc_r 0 rs2 rd 7 rd 0x33))
     else
       (if f2 = 0 then Some (enc_r 0x20 rs2 rd 0 rd 0x3B)
        else if f2 = 1 then Some (enc_r 0 rs2 rd 0 rd 0x3B)
        else None))"

definition rvc_q1 :: "u32 \<Rightarrow> u32 option" where
  "rvc_q1 c = (let f3 = fld c 13 7; rd = fld c 7 0x1F in
     if f3 = 0 then Some (enc_i (sx32 26 (c_imm6 c) AND 0xFFF) rd 0 rd 0x13)
     else if f3 = 1 then Some (enc_i (sx32 26 (c_imm6 c) AND 0xFFF) rd 0 rd 0x1B)
     else if f3 = 2 then Some (enc_i (sx32 26 (c_imm6 c) AND 0xFFF) 0 0 rd 0x13)
     else if f3 = 3 then
       (if rd = 2 then Some (enc_i (sx32 22 (c_imm16sp c) AND 0xFFF) 2 0 2 0x13)
        else Some ((sx32 14 (c_lui_imm c) AND 0xFFFFF000) OR shl rd 7 OR 0x37))
     else if f3 = 4 then
       (let f2 = fld c 10 3; r = c_reg c 7 in
        if f2 = 0 then Some (enc_i (c_imm6 c) r 5 r 0x13)
        else if f2 = 1 then Some (enc_i (shl 0x20 5 OR c_imm6 c) r 5 r 0x13)
        else if f2 = 2 then Some (enc_i (sx32 26 (c_imm6 c) AND 0xFFF) r 7 r 0x13)
        else rvc_arith c)
     else if f3 = 5 then Some (enc_j (sx32 20 (c_j_imm c)))
     else if f3 = 6 then Some (enc_b (sx32 23 (c_b_off c)) (c_reg c 7) 0)
     else Some (enc_b (sx32 23 (c_b_off c)) (c_reg c 7) 1))"

text \<open>\<open>C.JR\<close>, \<open>C.MV\<close>, \<open>C.EBREAK\<close>, \<open>C.JALR\<close>, \<open>C.ADD\<close>.\<close>

definition rvc_jump_move :: "u32 \<Rightarrow> u32" where
  "rvc_jump_move c = (let rd = fld c 7 0x1F; rs2 = fld c 2 0x1F in
     if fld c 12 1 = 0 then
       (if rs2 = 0 then enc_i 0 rd 0 0 0x67 else enc_r 0 rs2 0 0 rd 0x33)
     else
       (if rs2 = 0 \<and> rd = 0 then 0x00100073
        else if rs2 = 0 then enc_i 0 rd 0 1 0x67
        else enc_r 0 rs2 rd 0 rd 0x33))"

definition rvc_q2 :: "u32 \<Rightarrow> u32 option" where
  "rvc_q2 c = (let f3 = fld c 13 7; rd = fld c 7 0x1F; rs2 = fld c 2 0x1F in
     if f3 = 0 then Some (enc_i (c_imm6 c) rd 1 rd 0x13)
     else if f3 = 2 then Some (enc_i (c_off_lwsp c) 2 2 rd 0x03)
     else if f3 = 1 then Some (enc_i (c_off_ldsp c) 2 3 rd 0x07)
     else if f3 = 3 then Some (enc_i (c_off_ldsp c) 2 3 rd 0x03)
     else if f3 = 4 then Some (rvc_jump_move c)
     else if f3 = 6 then Some (enc_s (c_off_swsp c) rs2 2 2 0x23)
     else if f3 = 5 then Some (enc_s (c_off_sdsp c) rs2 2 3 0x27)
     else Some (enc_s (c_off_sdsp c) rs2 2 3 0x23))"

definition rvc_expand :: "u16 \<Rightarrow> u32 option" where
  "rvc_expand ci = (let c = ucast ci :: u32; quad = c AND 3 in
     if quad = 0 then rvc_q0 c
     else if quad = 1 then rvc_q1 c
     else if quad = 2 then rvc_q2 c
     else None)"

subsection \<open>The expansion of the compiler\<close>

text \<open>\<open>if (off & 0x100) off -= 0x200\<close>.\<close>

definition sljit_b_off :: "u32 \<Rightarrow> u32" where
  "sljit_b_off c = (let off = c_b_off c in if off AND 0x100 \<noteq> 0 then off - 0x200 else off)"

definition sljit_q0 :: "u32 \<Rightarrow> u32 option" where
  "sljit_q0 c = (let f3 = fld c 13 7 in
     if f3 = 0 then Some (enc_i (c_nzuimm c) 2 0 (c_reg c 2) 0x13)
     else if f3 = 1 then Some (enc_i (c_off_d c) (c_reg c 7) 3 (c_reg c 2) 0x07)
     else if f3 = 2 then Some (enc_i (c_off_w c) (c_reg c 7) 2 (c_reg c 2) 0x03)
     else if f3 = 3 then Some (enc_i (c_off_d c) (c_reg c 7) 3 (c_reg c 2) 0x03)
     else if f3 = 6 then Some (enc_s (c_off_w c) (c_reg c 2) (c_reg c 7) 2 0x23)
     else if f3 = 5 then Some (enc_s (c_off_d c) (c_reg c 2) (c_reg c 7) 3 0x27)
     else if f3 = 7 then Some (enc_s (c_off_d c) (c_reg c 2) (c_reg c 7) 3 0x23)
     else None)"

definition sljit_arith :: "u32 \<Rightarrow> u32 option" where
  "sljit_arith c = (let rd = c_reg c 7; rs2 = c_reg c 2; f2 = fld c 5 3 in
     if fld c 12 1 = 0 then
       (if f2 = 0 then Some (enc_r 0x20 rs2 rd 0 rd 0x33)
        else if f2 = 1 then Some (enc_r 0 rs2 rd 4 rd 0x33)
        else if f2 = 2 then Some (enc_r 0 rs2 rd 6 rd 0x33)
        else Some (enc_r 0 rs2 rd 7 rd 0x33))
     else
       (if f2 = 0 then Some (enc_r 0x20 rs2 rd 0 rd 0x3B)
        else if f2 = 1 then Some (enc_r 0 rs2 rd 0 rd 0x3B)
        else None))"

definition sljit_q1 :: "u32 \<Rightarrow> u32 option" where
  "sljit_q1 c = (let f3 = fld c 13 7; rd = fld c 7 0x1F in
     if f3 = 0 then Some (enc_i (sx32 26 (c_imm6 c) AND 0xFFF) rd 0 rd 0x13)
     else if f3 = 1 then Some (enc_i (sx32 26 (c_imm6 c) AND 0xFFF) rd 0 rd 0x1B)
     else if f3 = 2 then Some (enc_i (sx32 26 (c_imm6 c) AND 0xFFF) 0 0 rd 0x13)
     else if f3 = 3 then
       (if rd = 2 then Some (enc_i (sx32 22 (c_imm16sp c) AND 0xFFF) 2 0 2 0x13)
        else Some ((sx32 14 (c_lui_imm c) AND 0xFFFFF000) OR shl rd 7 OR 0x37))
     else if f3 = 4 then
       (let f2 = fld c 10 3; r = c_reg c 7 in
        if f2 = 0 then Some (enc_i (c_imm6 c) r 5 r 0x13)
        else if f2 = 1 then Some (enc_i (shl 0x20 5 OR c_imm6 c) r 5 r 0x13)
        else if f2 = 2 then Some (enc_i (sx32 26 (c_imm6 c) AND 0xFFF) r 7 r 0x13)
        else sljit_arith c)
     else if f3 = 5 then Some (enc_j (sx32 20 (c_j_imm c)))
     else if f3 = 6 then Some (enc_b (sljit_b_off c) (c_reg c 7) 0)
     else Some (enc_b (sljit_b_off c) (c_reg c 7) 1))"

definition sljit_jump_move :: "u32 \<Rightarrow> u32" where
  "sljit_jump_move c = (let rd = fld c 7 0x1F; rs2 = fld c 2 0x1F in
     if fld c 12 1 = 0 then
       (if rs2 = 0 then enc_i 0 rd 0 0 0x67 else enc_r 0 rs2 0 0 rd 0x33)
     else
       (if rs2 = 0 \<and> rd = 0 then 0x00100073
        else if rs2 = 0 then enc_i 0 rd 0 1 0x67
        else enc_r 0 rs2 rd 0 rd 0x33))"

definition sljit_q2 :: "u32 \<Rightarrow> u32 option" where
  "sljit_q2 c = (let f3 = fld c 13 7; rd = fld c 7 0x1F; rs2 = fld c 2 0x1F in
     if f3 = 0 then Some (enc_i (c_imm6 c) rd 1 rd 0x13)
     else if f3 = 2 then Some (enc_i (c_off_lwsp c) 2 2 rd 0x03)
     else if f3 = 1 then Some (enc_i (c_off_ldsp c) 2 3 rd 0x07)
     else if f3 = 3 then Some (enc_i (c_off_ldsp c) 2 3 rd 0x03)
     else if f3 = 4 then Some (sljit_jump_move c)
     else if f3 = 6 then Some (enc_s (c_off_swsp c) rs2 2 2 0x23)
     else if f3 = 5 then Some (enc_s (c_off_sdsp c) rs2 2 3 0x27)
     else Some (enc_s (c_off_sdsp c) rs2 2 3 0x23))"

definition sljit_uncompress :: "u16 \<Rightarrow> u32" where
  "sljit_uncompress ci = (let c = ucast ci :: u32; quad = c AND 3 in
     case (if quad = 0 then sljit_q0 c
           else if quad = 1 then sljit_q1 c
           else if quad = 2 then sljit_q2 c
           else None) of
       None \<Rightarrow> 0 | Some exp \<Rightarrow> exp)"

subsection \<open>The expansion of the older compiler\<close>

definition decompress_q0 :: "u32 \<Rightarrow> u32" where
  "decompress_q0 c = (let f3 = fld c 13 7 in
     if f3 = 0 then (if c_nzuimm c = 0 then 0 else enc_i (c_nzuimm c) 2 0 (c_reg c 2) 0x13)
     else if f3 = 2 then enc_i (c_off_w c) (c_reg c 7) 2 (c_reg c 2) 0x03
     else if f3 = 3 then enc_i (c_off_d c) (c_reg c 7) 3 (c_reg c 2) 0x03
     else if f3 = 6 then enc_s (c_off_w c) (c_reg c 2) (c_reg c 7) 2 0x23
     else if f3 = 7 then enc_s (c_off_d c) (c_reg c 2) (c_reg c 7) 3 0x23
     else 0)"

definition decompress_arith :: "u32 \<Rightarrow> u32" where
  "decompress_arith c = (let rd = c_reg c 7; rs2 = c_reg c 2; f2 = fld c 5 3 in
     if fld c 12 1 = 0 then
       (if f2 = 0 then (enc_r 0x20 rs2 rd 0 rd 0x33)
        else if f2 = 1 then (enc_r 0 rs2 rd 4 rd 0x33)
        else if f2 = 2 then (enc_r 0 rs2 rd 6 rd 0x33)
        else (enc_r 0 rs2 rd 7 rd 0x33))
     else
       (if f2 = 0 then (enc_r 0x20 rs2 rd 0 rd 0x3B)
        else if f2 = 1 then (enc_r 0 rs2 rd 0 rd 0x3B)
        else 0))"

definition decompress_q1 :: "u32 \<Rightarrow> u32" where
  "decompress_q1 c = (let f3 = fld c 13 7; rd = fld c 7 0x1F in
     if f3 = 0 then (enc_i (sx32 26 (c_imm6 c) AND 0xFFF) rd 0 rd 0x13)
     else if f3 = 1 then (enc_i (sx32 26 (c_imm6 c) AND 0xFFF) rd 0 rd 0x1B)
     else if f3 = 2 then (enc_i (sx32 26 (c_imm6 c) AND 0xFFF) 0 0 rd 0x13)
     else if f3 = 3 then
       (if rd = 2 then (enc_i (sx32 22 (c_imm16sp c) AND 0xFFF) 2 0 2 0x13)
        else ((sx32 14 (c_lui_imm c) AND 0xFFFFF000) OR shl rd 7 OR 0x37))
     else if f3 = 4 then
       (let f2 = fld c 10 3; r = c_reg c 7 in
        if f2 = 0 then (enc_i (c_imm6 c) r 5 r 0x13)
        else if f2 = 1 then (enc_i (shl 0x20 5 OR c_imm6 c) r 5 r 0x13)
        else if f2 = 2 then (enc_i (sx32 26 (c_imm6 c) AND 0xFFF) r 7 r 0x13)
        else decompress_arith c)
     else if f3 = 5 then (enc_j (sx32 20 (c_j_imm c)))
     else if f3 = 6 then (enc_b (sx32 23 (c_b_off c)) (c_reg c 7) 0)
     else (enc_b (sx32 23 (c_b_off c)) (c_reg c 7) 1))"

definition decompress_jump_move :: "u32 \<Rightarrow> u32" where
  "decompress_jump_move c = (let rd = fld c 7 0x1F; rs2 = fld c 2 0x1F in
     if fld c 12 1 = 0 then
       (if rs2 = 0 then enc_i 0 rd 0 0 0x67 else enc_r 0 rs2 0 0 rd 0x33)
     else
       (if rs2 = 0 \<and> rd = 0 then 0x00100073
        else if rs2 = 0 then enc_i 0 rd 0 1 0x67
        else enc_r 0 rs2 rd 0 rd 0x33))"

definition decompress_q2 :: "u32 \<Rightarrow> u32" where
  "decompress_q2 c = (let f3 = fld c 13 7; rd = fld c 7 0x1F; rs2 = fld c 2 0x1F in
     if f3 = 0 then enc_i (c_imm6 c) rd 1 rd 0x13
     else if f3 = 2 then enc_i (c_off_lwsp c) 2 2 rd 0x03
     else if f3 = 3 then enc_i (c_off_ldsp c) 2 3 rd 0x03
     else if f3 = 4 then decompress_jump_move c
     else if f3 = 6 then enc_s (c_off_swsp c) rs2 2 2 0x23
     else if f3 = 7 then enc_s (c_off_sdsp c) rs2 2 3 0x23
     else 0)"

definition decompress :: "u16 \<Rightarrow> u32" where
  "decompress ci = (let c = ucast ci :: u32; quad = c AND 3 in
     if quad = 0 then decompress_q0 c
     else if quad = 1 then decompress_q1 c
     else if quad = 2 then decompress_q2 c
     else 0)"

subsection \<open>Agreement\<close>

lemma fld_take_bit:
  "fld c n 1 = take_bit 1 (shr c n)" "fld c n 3 = take_bit 2 (shr c n)" "fld c n 7 = take_bit 3 (shr c n)"
  "fld c n 0xF = take_bit 4 (shr c n)" "fld c n 0x1F = take_bit 5 (shr c n)"
  by (simp_all add: fld_def take_bit_eq_mask mask_eq_exp_minus_1)

lemma c_b_off_bound: "bit (c_b_off c) n \<Longrightarrow> n < 9"
  unfolding c_b_off_def fld_take_bit
  by (simp only: bit_or_iff bit_push_bit_iff bit_take_bit_iff bit_drop_bit_eq) auto

text \<open>Sign extension from bit 8 by shifting and by subtracting.\<close>

lemma bit_sx32:
  assumes "n < 32" "0 < k" "k < 32"
  shows "bit (sx32 k w) n \<longleftrightarrow> bit w (if 32 - k \<le> n then 31 - k else n)"
proof -
  have len: "LENGTH(32) = 32" by simp
  show ?thesis
    unfolding sx32_def bit_signed_drop_bit_iff bit_push_bit_iff len
    using assms bit_imp_le_length [of w] by (cases "32 - k \<le> n") auto
qed

lemma sljit_b_off_eq: "sljit_b_off c = sx32 23 (c_b_off c)"
proof -
  let ?off = "c_b_off c"
  have hi: "- 0x200 = NOT (mask 9 :: u32)" by (simp add: mask_eq_exp_minus_1)
  have b8: "?off AND 0x100 \<noteq> 0 \<longleftrightarrow> bit ?off 8"
    using and_exp_eq_0_iff_not_bit [of ?off 8] by simp
  have "?off AND (- 0x200) = 0"
    unfolding hi using c_b_off_bound [of c] by (intro bit_word_eqI) (auto simp: bit_simps)
  then have "?off + (- 0x200) = ?off OR (- 0x200)" by (rule disjunctive_add_eq_or)
  then have sub: "?off - 0x200 = ?off OR NOT (mask 9)" by (simp only: hi diff_conv_add_uminus)
  have "bit (sljit_b_off c) n = bit (sx32 23 ?off) n" if n: "n < 32" for n
  proof -
    have "bit (sx32 23 ?off) n = bit ?off (if n < 9 then n else 8)"
      using bit_sx32 [of n 23 ?off] n by (cases "n < 9") simp_all
    moreover have "bit (sljit_b_off c) n = bit ?off (if n < 9 then n else 8)"
      unfolding sljit_b_off_def Let_def sub b8 using n c_b_off_bound [of c n]
      by (cases "n < 9"; cases "bit ?off 8") (auto simp only: bit_or_iff bit_not_iff_eq bit_mask_iff if_True if_False, auto)
    ultimately show ?thesis by simp
  qed
  then show ?thesis by (intro bit_word_eqI) simp
qed

text \<open>Every expansion of the older compiler is the interpreter's; what it refuses is what the
  interpreter refuses, the four floating point forms of each quadrant and \<open>C.ADDI4SPN\<close> with
  immediate zero.\<close>

definition rvc_fp_form :: "u16 \<Rightarrow> bool" where
  "rvc_fp_form ci = (let c = ucast ci :: u32 in c AND 3 \<noteq> 1 \<and> c AND 3 \<noteq> 3 \<and> fld c 13 7 \<in> {1, 5})"

definition rvc_null_addi4spn :: "u16 \<Rightarrow> bool" where
  "rvc_null_addi4spn ci = (let c = ucast ci :: u32 in c AND 3 = 0 \<and> fld c 13 7 = 0 \<and> c_nzuimm c = 0)"

lemma and_7_cases: "(w :: u32) AND 7 \<in> {0, 1, 2, 3, 4, 5, 6, 7}"
proof -
  have "w AND 7 \<le> 7" by (rule word_and_le1)
  then have "unat (w AND 7) \<le> 7" by (simp add: word_le_nat_alt)
  then have "unat (w AND 7) \<in> {0, 1, 2, 3, 4, 5, 6, 7}" by auto
  then have "of_nat (unat (w AND 7)) \<in> (of_nat :: nat \<Rightarrow> u32) ` {0, 1, 2, 3, 4, 5, 6, 7}" by (rule imageI)
  then show ?thesis by simp
qed

lemma fld_f3_cases:
  "fld c 13 7 = 0 \<or> fld c 13 7 = 1 \<or> fld c 13 7 = 2 \<or> fld c 13 7 = 3 \<or>
   fld c 13 7 = 4 \<or> fld c 13 7 = 5 \<or> fld c 13 7 = 6 \<or> fld c 13 7 = 7"
  using and_7_cases [of "shr c 13"] by (simp add: fld_def)

subsection \<open>Shape of the expansions\<close>

text \<open>The two low bits of a word that is not a 16-bit instruction.\<close>

abbreviation full_width :: "u32 \<Rightarrow> bool" where
  "full_width w \<equiv> w AND 3 = 3"

lemma full_width_bits: "full_width w \<longleftrightarrow> bit w 0 \<and> bit w 1"
proof
  assume "full_width w"
  then have "bit (w AND 3) 0 = bit (3 :: u32) 0" "bit (w AND 3) 1 = bit (3 :: u32) 1" by simp_all
  then show "bit w 0 \<and> bit w 1" by (simp add: bit_and_iff)
next
  assume b: "bit w 0 \<and> bit w 1"
  have m: "(3 :: u32) = mask 2" by (simp add: mask_eq_exp_minus_1)
  show "full_width w"
    unfolding m using b by (intro bit_word_eqI) (auto simp: bit_and_iff bit_mask_iff less_2_cases_iff)
qed

lemma full_width_or: "full_width op \<Longrightarrow> full_width (w OR op)"
  by (simp add: full_width_bits bit_or_iff)

lemma full_width_enc [intro]:
  "full_width op \<Longrightarrow> full_width (enc_i imm rs1 f3 rd op)"
  "full_width op \<Longrightarrow> full_width (enc_s off rs2 rs1 f3 op)"
  "full_width op \<Longrightarrow> full_width (enc_r f7 rs2 rs1 f3 rd op)"
  "full_width (enc_j imm)" "full_width (enc_b off rs1 f3)"
  unfolding enc_i_def enc_s_def enc_r_def enc_j_def enc_b_def
  by (intro full_width_or; simp)+

lemma full_width_q0: "rvc_q0 c = Some w \<Longrightarrow> full_width w"
  by (auto simp: rvc_q0_def Let_def split: if_splits)

lemma full_width_q1: "rvc_q1 c = Some w \<Longrightarrow> full_width w"
  by (auto simp: rvc_q1_def rvc_arith_def Let_def intro!: full_width_or split: if_splits)

lemma full_width_q2: "rvc_q2 c = Some w \<Longrightarrow> full_width w"
  by (auto simp: rvc_q2_def rvc_jump_move_def Let_def split: if_splits)

lemmas full_width_quadrants = full_width_q0 full_width_q1 full_width_q2

lemma rvc_expand_full_width: "rvc_expand ci = Some w \<Longrightarrow> full_width w"
  by (auto simp: rvc_expand_def Let_def dest: full_width_quadrants split: if_splits)

lemma decompress_q0_eq:
  "decompress_q0 c = (if fld c 13 7 \<in> {1, 5} \<or> (fld c 13 7 = 0 \<and> c_nzuimm c = 0) then 0
     else case rvc_q0 c of None \<Rightarrow> 0 | Some w \<Rightarrow> w)"
  by (simp add: decompress_q0_def rvc_q0_def Let_def)

lemma decompress_q2_eq:
  "decompress_q2 c = (if fld c 13 7 \<in> {1, 5} then 0 else case rvc_q2 c of None \<Rightarrow> 0 | Some w \<Rightarrow> w)"
  using fld_f3_cases [of c] by (auto simp: decompress_q2_def rvc_q2_def decompress_jump_move_def rvc_jump_move_def Let_def)

lemma decompress_q1_eq: "decompress_q1 c = (case rvc_q1 c of None \<Rightarrow> 0 | Some w \<Rightarrow> w)"
  by (simp add: decompress_q1_def rvc_q1_def decompress_arith_def rvc_arith_def Let_def)

lemma sljit_quadrants: "sljit_q0 c = rvc_q0 c" "sljit_q1 c = rvc_q1 c" "sljit_q2 c = rvc_q2 c"
  unfolding sljit_q0_def rvc_q0_def sljit_q1_def rvc_q1_def sljit_arith_def rvc_arith_def sljit_b_off_eq
    sljit_q2_def rvc_q2_def sljit_jump_move_def rvc_jump_move_def by (rule refl)+

lemma sljit_uncompress_eq: "sljit_uncompress ci = (case rvc_expand ci of None \<Rightarrow> 0 | Some w \<Rightarrow> w)"
  by (simp add: sljit_uncompress_def rvc_expand_def sljit_quadrants Let_def)

text \<open>C25. The compiler's expansion is the interpreter's, with 0 for what the interpreter rejects as
  illegal; the compiler computes branch offsets by subtraction, the interpreter by shifting.\<close>

theorem sljit_uncompress_agrees:
  "sljit_uncompress ci = (case rvc_expand ci of None \<Rightarrow> 0 | Some w \<Rightarrow> w)"
  by (rule sljit_uncompress_eq)

text \<open>The older compiler's expansion: 0 for the compressed floating point loads and stores, for
  \<open>C.ADDI4SPN\<close> with immediate zero and for what the interpreter rejects, and the interpreter's
  expansion, which is a full-width encoding and hence not 0, for everything else.\<close>

theorem decompress_agrees:
  "decompress ci = (if rvc_fp_form ci \<or> rvc_null_addi4spn ci then 0
     else case rvc_expand ci of None \<Rightarrow> 0 | Some w \<Rightarrow> w) \<and>
   (decompress ci = 0 \<longleftrightarrow> rvc_fp_form ci \<or> rvc_null_addi4spn ci \<or> rvc_expand ci = None)"
proof -
  have eq: "decompress ci = (if rvc_fp_form ci \<or> rvc_null_addi4spn ci then 0
     else case rvc_expand ci of None \<Rightarrow> 0 | Some w \<Rightarrow> w)"
    by (simp add: decompress_def rvc_fp_form_def rvc_null_addi4spn_def rvc_expand_def
        decompress_q0_eq decompress_q1_eq decompress_q2_eq Let_def)
  moreover have "rvc_expand ci \<noteq> Some 0" using rvc_expand_full_width [of ci 0] by auto
  ultimately show ?thesis by (auto split: option.splits)
qed

end
