(* ===== verification/RV_Decode.thy ===== *)
theory RV_Decode
  imports RV_Decompress
begin

text \<open>
  The decoder of \<open>rv64_step\<close> (\<open>rv64_cpu.c\<close>): the fields of a 32-bit instruction and
  its immediates, with the round trips through the encodings the decompressors emit.
\<close>

subsection \<open>Fields and immediates\<close>

definition op_of :: "u32 \<Rightarrow> u32" where
  "op_of insn = insn AND 0x7F"

definition rd_of :: "u32 \<Rightarrow> u32" where
  "rd_of insn = shr insn 7 AND 0x1F"

definition f3_of :: "u32 \<Rightarrow> u32" where
  "f3_of insn = shr insn 12 AND 7"

definition rs1_of :: "u32 \<Rightarrow> u32" where
  "rs1_of insn = shr insn 15 AND 0x1F"

definition rs2_of :: "u32 \<Rightarrow> u32" where
  "rs2_of insn = shr insn 20 AND 0x1F"

definition f7_of :: "u32 \<Rightarrow> u32" where
  "f7_of insn = shr insn 25 AND 0x7F"

definition sign_extend :: "u64 \<Rightarrow> nat \<Rightarrow> u64" where
  "sign_extend val b = (let m = shl 1 (b - 1) in (val XOR m) - m)"

definition imm_i :: "u32 \<Rightarrow> u64" where
  "imm_i insn = sign_extend (ucast (shr insn 20)) 12"

definition imm_s :: "u32 \<Rightarrow> u64" where
  "imm_s insn = sign_extend (ucast (shl (shr insn 25) 5 OR (shr insn 7 AND 0x1F))) 12"

definition imm_b :: "u32 \<Rightarrow> u64" where
  "imm_b insn = sign_extend (ucast (shl (shr insn 31 AND 1) 12 OR shl (shr insn 7 AND 1) 11 OR
     shl (shr insn 25 AND 0x3F) 5 OR shl (shr insn 8 AND 0xF) 1)) 13"

definition imm_u :: "u32 \<Rightarrow> u64" where
  "imm_u insn = sign_extend (ucast insn AND 0xFFFFF000) 32"

definition imm_j :: "u32 \<Rightarrow> u64" where
  "imm_j insn = sign_extend (ucast (shl (shr insn 31 AND 1) 20 OR shl (shr insn 12 AND 0xFF) 12 OR
     shl (shr insn 20 AND 1) 11 OR shl (shr insn 21 AND 0x3FF) 1)) 21"

subsection \<open>Sign extension\<close>

text \<open>\<open>(val ^ m) - m\<close> repeats the bit below \<open>b\<close> upwards.\<close>

lemma sign_extend_bit:
  assumes "take_bit b v = v" "0 < b" "b < 64" "n < 64"
  shows "bit (sign_extend v b) n \<longleftrightarrow> bit v (if n < b then n else b - 1)"
proof -
  have hi: "n < b" if "bit v n" for n
    using that assms(1) by (metis bit_take_bit_iff)
  let ?m = "shl 1 (b - 1) :: u64"
  have bm: "bit ?m n \<longleftrightarrow> n = b - 1" if "n < 64" for n
    using that assms by (auto simp: bit_simps)
  have neg: "- ?m = NOT (mask (b - 1))"
    by (simp add: mask_eq_exp_minus_1 not_eq_complement push_bit_eq_mult)
  show ?thesis
  proof (cases "bit v (b - 1)")
    case True
    have d: "(v XOR ?m) AND NOT (mask (b - 1)) = 0"
      by (rule bit_word_eqI) (use True bm hi in \<open>fastforce simp: bit_simps\<close>)
    have "sign_extend v b = (v XOR ?m) OR NOT (mask (b - 1))"
      unfolding sign_extend_def Let_def diff_conv_add_uminus neg by (rule disjunctive_add_eq_or) (rule d)
    with True bm [OF assms(4)] hi [of n] assms show ?thesis
      by (auto simp: bit_or_iff bit_xor_iff bit_not_iff bit_mask_iff)
  next
    case False
    have d: "v AND ?m = 0"
      by (rule bit_word_eqI) (use False bm in \<open>auto simp: bit_and_iff\<close>)
    have "v XOR ?m = v OR ?m"
      by (rule bit_word_eqI) (use False bm in \<open>auto simp: bit_or_iff bit_xor_iff\<close>)
    also have "\<dots> = v + ?m" using disjunctive_add_eq_or [OF d] by simp
    finally have "sign_extend v b = v" by (simp add: sign_extend_def Let_def)
    with False hi [of n] show ?thesis by auto
  qed
qed

lemma sign_extend_eqI:
  assumes "take_bit b v = v" "0 < b" "b < 64"
    and "\<And>n. n < 64 \<Longrightarrow> bit w n = bit v (if n < b then n else b - 1)"
  shows "sign_extend v b = w"
  by (rule bit_word_eqI) (use assms sign_extend_bit [OF assms(1-3)] in simp)

subsection \<open>Decoding what the decompressors encode\<close>

abbreviation reg :: "u32 \<Rightarrow> bool" where
  "reg r \<equiv> take_bit 5 r = r"

abbreviation fun3 :: "u32 \<Rightarrow> bool" where
  "fun3 f \<equiv> take_bit 3 f = f"

abbreviation opc :: "u32 \<Rightarrow> bool" where
  "opc f \<equiv> take_bit 7 f = f"

lemma take_bit_bound: "take_bit k (w :: 'a::len word) = w \<Longrightarrow> bit w n \<Longrightarrow> n < k"
  by (metis bit_take_bit_iff)

lemma field_masks:
  "w AND 1 = take_bit 1 (w :: u32)" "w AND 7 = take_bit 3 w" "w AND 0xF = take_bit 4 w"
  "w AND 0x1F = take_bit 5 w" "w AND 0x3F = take_bit 6 w" "w AND 0x7F = take_bit 7 w"
  "w AND 0xFF = take_bit 8 w" "w AND 0x3FF = take_bit 10 w" "w AND 0xFFF = take_bit 12 w"
  by (simp_all add: take_bit_eq_mask mask_eq_exp_minus_1)

lemmas field_bits = bit_or_iff bit_and_iff bit_push_bit_iff bit_drop_bit_eq bit_take_bit_iff comp_def

lemmas field_defs = op_of_def rd_of_def f3_of_def rs1_of_def rs2_of_def f7_of_def field_masks

lemma bit_above: "take_bit k (w :: 'a::len word) = w \<Longrightarrow> k \<le> n \<Longrightarrow> \<not> bit w n"
  by (metis bit_take_bit_iff not_le)

lemma Suc_offsets: "8 \<le> n \<Longrightarrow> Suc (n - 8) = n - 7" "21 \<le> n \<Longrightarrow> Suc (n - 21) = n - 20"
  by simp_all

lemma bit_enc_i:
  assumes "reg rs1" "fun3 f3" "reg rd" "opc op" "n < 32"
  shows "bit (enc_i imm rs1 f3 rd op) n \<longleftrightarrow>
    (if n < 7 then bit op n else if n < 12 then bit rd (n - 7) else if n < 15 then bit f3 (n - 12)
     else if n < 20 then bit rs1 (n - 15) else bit imm (n - 20))"
proof -
  note up = bit_above [OF assms(1)] bit_above [OF assms(2)] bit_above [OF assms(3)] bit_above [OF assms(4)]
  consider "n < 7" | "7 \<le> n \<and> n < 12" | "12 \<le> n \<and> n < 15" | "15 \<le> n \<and> n < 20" | "20 \<le> n" by linarith
  then show ?thesis
    unfolding enc_i_def field_bits by cases (use up assms(5) in auto)
qed

lemma bit_enc_s:
  assumes "reg rs2" "reg rs1" "fun3 f3" "opc op" "n < 32"
  shows "bit (enc_s off rs2 rs1 f3 op) n \<longleftrightarrow>
    (if n < 7 then bit op n else if n < 12 then bit off (n - 7) else if n < 15 then bit f3 (n - 12)
     else if n < 20 then bit rs1 (n - 15) else if n < 25 then bit rs2 (n - 20) else bit off (n - 20))"
proof -
  note up = bit_above [OF assms(1)] bit_above [OF assms(2)] bit_above [OF assms(3)] bit_above [OF assms(4)]
  consider "n < 7" | "7 \<le> n \<and> n < 12" | "12 \<le> n \<and> n < 15" | "15 \<le> n \<and> n < 20" | "20 \<le> n \<and> n < 25" | "25 \<le> n"
    by linarith
  then show ?thesis
    unfolding enc_s_def fld_def field_masks field_bits by cases (use up assms(5) in auto)
qed

lemma bit_enc_b:
  assumes "reg rs1" "fun3 f3" "n < 32"
  shows "bit (enc_b off rs1 f3) n \<longleftrightarrow>
    (if n < 7 then bit (0x63 :: u32) n else if n = 7 then bit off 11 else if n < 12 then bit off (n - 7)
     else if n < 15 then bit f3 (n - 12) else if n < 20 then bit rs1 (n - 15) else if n < 25 then False
     else if n < 31 then bit off (n - 20) else bit off 12)"
proof -
  have o: "take_bit 7 (0x63 :: u32) = 0x63" by simp
  note up = bit_above [OF assms(1)] bit_above [OF assms(2)] bit_above [OF o]
  consider "n < 7" | "n = 7" | "8 \<le> n \<and> n < 12" | "12 \<le> n \<and> n < 15" | "15 \<le> n \<and> n < 20" | "20 \<le> n \<and> n < 25"
    | "25 \<le> n \<and> n < 31" | "n = 31" using assms(3) by linarith
  then show ?thesis
    unfolding enc_b_def fld_def field_masks field_bits bit_signed_drop_bit_iff
    by cases (use up assms(3) in \<open>auto simp: Suc_offsets simp del: bit_numeral_iff\<close>)
qed

lemma bit_enc_j:
  assumes "n < 32"
  shows "bit (enc_j imm) n \<longleftrightarrow>
    (if n < 7 then bit (0x6F :: u32) n else if n < 12 then False else if n < 20 then bit imm n
     else if n = 20 then bit imm 11 else if n < 31 then bit imm (n - 20) else bit imm 20)"
proof -
  have o: "take_bit 7 (0x6F :: u32) = 0x6F" by simp
  note up = bit_above [OF o]
  consider "n < 7" | "7 \<le> n \<and> n < 12" | "12 \<le> n \<and> n < 20" | "n = 20" | "21 \<le> n \<and> n < 31" | "n = 31"
    using assms by linarith
  then show ?thesis
    unfolding enc_j_def field_masks field_bits bit_signed_drop_bit_iff
    by cases (use up assms in \<open>auto simp: Suc_offsets simp del: bit_numeral_iff\<close>)
qed

lemmas bit_encs = bit_enc_i bit_enc_s bit_enc_b bit_enc_j

lemma field_eqI:
  assumes "take_bit k v = v" "\<And>n. n < k \<Longrightarrow> bit w (s + n) = bit v n"
  shows "take_bit k (shr w s) = (v :: u32)"
proof (rule bit_word_eqI)
  fix n show "bit (take_bit k (shr w s)) n = bit v n"
    using assms(2) [of n] bit_above [OF assms(1), of n] by (cases "n < k") (simp_all add: field_bits)
qed

lemma low_field_eqI:
  assumes "take_bit k v = v" "\<And>n. n < k \<Longrightarrow> bit w n = bit v n"
  shows "take_bit k w = (v :: u32)"
  using field_eqI [of k v w 0] assms by simp

text \<open>Register numbers the decompressors use are in range.\<close>

lemma take_bit_unat: "unat (w :: u32) < 2 ^ k \<Longrightarrow> take_bit k w = w"
  by (metis take_bit_nat_eq_self unsigned_take_bit_eq word_eq_iff_unsigned)

lemma reg_fields [simp]: "reg (fld c n 0x1F)" "reg (c_reg c n)" "reg 2" "reg 0" "reg 1"
proof -
  show "reg (fld c n 0x1F)" by (simp add: fld_take_bit)
  have "unat (fld c n 7) < 2 ^ 3"
    unfolding fld_take_bit by (simp only: unsigned_take_bit_eq take_bit_nat_less_exp)
  then have "unat (c_reg c n) < 2 ^ 5" by (simp add: c_reg_def unat_word_ariths)
  then show "reg (c_reg c n)" by (rule take_bit_unat)
qed simp_all

lemma decode_enc_i:
  assumes "reg rs1" "fun3 f3" "reg rd" "opc op"
  shows "op_of (enc_i imm rs1 f3 rd op) = op" "rd_of (enc_i imm rs1 f3 rd op) = rd"
    "f3_of (enc_i imm rs1 f3 rd op) = f3" "rs1_of (enc_i imm rs1 f3 rd op) = rs1"
  unfolding field_defs
  by (rule low_field_eqI field_eqI, fact, simp add: bit_enc_i [OF assms])+

lemma decode_enc_s:
  assumes "reg rs2" "reg rs1" "fun3 f3" "opc op"
  shows "op_of (enc_s off rs2 rs1 f3 op) = op" "f3_of (enc_s off rs2 rs1 f3 op) = f3"
    "rs1_of (enc_s off rs2 rs1 f3 op) = rs1" "rs2_of (enc_s off rs2 rs1 f3 op) = rs2"
  unfolding field_defs
  by (rule low_field_eqI field_eqI, fact, simp add: bit_enc_s [OF assms])+

lemma decode_enc_b:
  assumes "reg rs1" "fun3 f3"
  shows "op_of (enc_b off rs1 f3) = 0x63" "f3_of (enc_b off rs1 f3) = f3"
    "rs1_of (enc_b off rs1 f3) = rs1" "rs2_of (enc_b off rs1 f3) = 0"
  unfolding field_defs
  by (rule low_field_eqI field_eqI, use assms in simp, simp add: bit_enc_b [OF assms] del: bit_numeral_iff)+

lemma decode_enc_j: "op_of (enc_j imm) = 0x6F" "rd_of (enc_j imm) = 0"
  unfolding field_defs
  by (rule low_field_eqI field_eqI, simp, simp add: bit_enc_j del: bit_numeral_iff)+

lemma imm_i_enc_i:
  assumes "reg rs1" "fun3 f3" "reg rd" "opc op" "take_bit 12 imm = imm"
  shows "imm_i (enc_i imm rs1 f3 rd op) = sign_extend (ucast imm) 12"
proof -
  have "take_bit 12 (shr (enc_i imm rs1 f3 rd op) 20) = imm"
    by (rule field_eqI, fact, simp add: bit_enc_i [OF assms(1-4)])
  moreover have "take_bit 12 (shr w 20) = shr w 20" for w :: u32
    by (rule bit_word_eqI) (auto simp: field_bits dest: bit_imp_le_length)
  ultimately show ?thesis by (simp add: imm_i_def)
qed

lemma imm_s_enc_s:
  assumes "reg rs2" "reg rs1" "fun3 f3" "opc op" "take_bit 12 off = off"
  shows "imm_s (enc_s off rs2 rs1 f3 op) = sign_extend (ucast off) 12"
proof -
  have "bit (shl (shr (enc_s off rs2 rs1 f3 op) 25) 5 OR (shr (enc_s off rs2 rs1 f3 op) 7 AND 0x1F)) n = bit off n"
    for n
  proof -
    consider "n < 5" | "5 \<le> n \<and> n < 12" | "12 \<le> n" by linarith
    then show ?thesis
      unfolding field_masks field_bits
      by cases (use bit_above [OF assms(5), of n] in
          \<open>auto simp: bit_enc_s [OF assms(1-4)] dest: bit_imp_le_length\<close>)
  qed
  then have "shl (shr (enc_s off rs2 rs1 f3 op) 25) 5 OR (shr (enc_s off rs2 rs1 f3 op) 7 AND 0x1F) = off"
    by (intro bit_word_eqI)
  then show ?thesis by (simp add: imm_s_def)
qed

text \<open>The branch and jump encodings scatter the offset; the decoder reassembles it. Only even
  offsets are encodable.\<close>

lemma imm_b_enc_b:
  assumes "reg rs1" "fun3 f3" "\<not> bit off 0"
  shows "imm_b (enc_b off rs1 f3) = sign_extend (ucast (take_bit 13 off)) 13"
proof -
  let ?w = "enc_b off rs1 f3"
  have "bit (shl (shr ?w 31 AND 1) 12 OR shl (shr ?w 7 AND 1) 11 OR
     shl (shr ?w 25 AND 0x3F) 5 OR shl (shr ?w 8 AND 0xF) 1) n = bit (take_bit 13 off) n" for n
  proof -
    consider "n = 0" | "1 \<le> n \<and> n < 5" | "5 \<le> n \<and> n < 11" | "n = 11" | "n = 12" | "13 \<le> n" by linarith
    then show ?thesis
      unfolding field_masks field_bits
      by cases (use assms(3) in \<open>auto simp: bit_enc_b [OF assms(1,2)]\<close>)
  qed
  then show ?thesis unfolding imm_b_def by (metis bit_word_eqI)
qed

lemma imm_j_enc_j:
  assumes "\<not> bit imm 0"
  shows "imm_j (enc_j imm) = sign_extend (ucast (take_bit 21 imm)) 21"
proof -
  let ?w = "enc_j imm"
  have "bit (shl (shr ?w 31 AND 1) 20 OR shl (shr ?w 12 AND 0xFF) 12 OR
     shl (shr ?w 20 AND 1) 11 OR shl (shr ?w 21 AND 0x3FF) 1) n = bit (take_bit 21 imm) n" for n
  proof -
    consider "n = 0" | "1 \<le> n \<and> n < 11" | "n = 11" | "12 \<le> n \<and> n < 20" | "n = 20" | "21 \<le> n" by linarith
    then show ?thesis
      unfolding field_masks field_bits
      by cases (use assms in \<open>auto simp: bit_enc_j\<close>)
  qed
  then show ?thesis unfolding imm_j_def by (metis bit_word_eqI)
qed

text \<open>Extending an offset of \<open>32 - k\<close> bits to 32 and then from \<open>b\<close> bits to 64 is extending it
  to 64 at once.\<close>

lemma sign_extend_sx32:
  assumes "take_bit (32 - k) w = w" "0 < k" "k < 32" "32 - k < b" "b \<le> 32"
  shows "sign_extend (ucast (take_bit b (sx32 k w))) b = sign_extend (ucast w) (32 - k)"
proof (rule sign_extend_eqI)
  have tw: "take_bit (32 - k) (ucast w :: u64) = ucast w"
    by (metis assms(1) unsigned_take_bit_eq)
  show "take_bit b (ucast (take_bit b (sx32 k w)) :: u64) = ucast (take_bit b (sx32 k w))"
    by (simp flip: unsigned_take_bit_eq)
  show "0 < b" "b < 64" using assms by auto
  fix n :: nat assume n: "n < 64"
  have bu: "bit (ucast x :: u64) j \<longleftrightarrow> bit x j" if "j < 64" for x :: u32 and j
    using that by (auto simp: bit_simps dest: bit_imp_le_length)
  show "bit (sign_extend (ucast w) (32 - k)) n =
      bit (ucast (take_bit b (sx32 k w)) :: u64) (if n < b then n else b - 1)"
    using sign_extend_bit [OF tw _ _ n] assms n
    by (cases "n < b") (auto simp: bu bit_take_bit_iff bit_sx32)
qed

lemma bit_fld_bound:
  "bit (fld c n 1) i \<Longrightarrow> i = 0" "bit (fld c n 3) i \<Longrightarrow> i < 2" "bit (fld c n 7) i \<Longrightarrow> i < 3"
  "bit (fld c n 0xF) i \<Longrightarrow> i < 4" "bit (fld c n 0x1F) i \<Longrightarrow> i < 5"
  by (simp_all add: fld_take_bit bit_take_bit_iff)

lemma c_j_imm_range: "take_bit 12 (c_j_imm c) = c_j_imm c" "\<not> bit (c_j_imm c) 0"
proof -
  have "n < 12" if "bit (c_j_imm c) n" for n
    using that unfolding c_j_imm_def fld_take_bit
    by (simp only: bit_or_iff bit_push_bit_iff bit_take_bit_iff bit_drop_bit_eq) auto
  then show "take_bit 12 (c_j_imm c) = c_j_imm c"
    by (intro bit_word_eqI) (auto simp: bit_take_bit_iff)
  show "\<not> bit (c_j_imm c) 0"
    unfolding c_j_imm_def field_bits by simp
qed

lemma c_b_off_range: "take_bit 9 (c_b_off c) = c_b_off c" "\<not> bit (c_b_off c) 0"
proof -
  show "take_bit 9 (c_b_off c) = c_b_off c"
    by (rule bit_word_eqI) (use c_b_off_bound [of c] in \<open>auto simp: bit_take_bit_iff\<close>)
  show "\<not> bit (c_b_off c) 0"
    unfolding c_b_off_def field_bits by simp
qed

lemma sx32_even: "\<not> bit w 0 \<Longrightarrow> 0 < k \<Longrightarrow> k < 31 \<Longrightarrow> \<not> bit (sx32 k w) 0"
  by (simp add: bit_sx32)

text \<open>Compressed control transfers keep their target through expansion and decoding: \<open>C.J\<close>
  becomes a \<open>JAL x0\<close> whose decoded offset is the sign-extended 12-bit offset of the 16-bit
  encoding; \<open>C.BEQZ\<close> and \<open>C.BNEZ\<close> become branches comparing their register with \<open>x0\<close> whose decoded
  offset is the sign-extended 9-bit one.\<close>

theorem rvc_control_flow:
  assumes "(ucast ci :: u32) AND 3 = 1"
  shows "(fld (ucast ci) 13 7 = 5 \<longrightarrow> (\<exists>w. rvc_expand ci = Some w \<and> op_of w = 0x6F \<and> rd_of w = 0 \<and>
      imm_j w = sign_extend (ucast (c_j_imm (ucast ci))) 12)) \<and>
    (fld (ucast ci) 13 7 \<in> {6, 7} \<longrightarrow> (\<exists>w. rvc_expand ci = Some w \<and> op_of w = 0x63 \<and>
      f3_of w = fld (ucast ci) 13 7 - 6 \<and> rs1_of w = c_reg (ucast ci) 7 \<and> rs2_of w = 0 \<and>
      imm_b w = sign_extend (ucast (c_b_off (ucast ci))) 9))"
proof -
  define c :: u32 where "c = ucast ci"
  let ?j = "sx32 20 (c_j_imm c)" and ?b = "sx32 23 (c_b_off c)"
  have "imm_j (enc_j ?j) = sign_extend (ucast (take_bit 21 ?j)) 21"
    by (rule imm_j_enc_j [OF sx32_even]) (simp_all add: c_j_imm_range)
  also have "\<dots> = sign_extend (ucast (c_j_imm c)) 12"
    using sign_extend_sx32 [of 20 "c_j_imm c" 21] by (simp add: c_j_imm_range)
  finally have j: "\<exists>w. rvc_expand ci = Some w \<and> op_of w = 0x6F \<and> rd_of w = 0 \<and>
      imm_j w = sign_extend (ucast (c_j_imm c)) 12" if "fld c 13 7 = 5"
    using that assms [folded c_def] by (simp add: rvc_expand_def rvc_q1_def Let_def decode_enc_j flip: c_def)
  have imm: "imm_b (enc_b ?b (c_reg c 7) f3) = sign_extend (ucast (c_b_off c)) 9" if "fun3 f3" for f3
  proof -
    have "imm_b (enc_b ?b (c_reg c 7) f3) = sign_extend (ucast (take_bit 13 ?b)) 13"
      by (rule imm_b_enc_b [OF _ that sx32_even]) (simp_all add: c_b_off_range)
    also have "\<dots> = sign_extend (ucast (c_b_off c)) 9"
      using sign_extend_sx32 [of 23 "c_b_off c" 13] by (simp add: c_b_off_range)
    finally show ?thesis .
  qed
  moreover have "\<exists>w. rvc_expand ci = Some w \<and> op_of w = 0x63 \<and> f3_of w = fld c 13 7 - 6 \<and>
      rs1_of w = c_reg c 7 \<and> rs2_of w = 0 \<and> imm_b w = sign_extend (ucast (c_b_off c)) 9"
    if "fld c 13 7 \<in> {6, 7}"
    using that assms [folded c_def] imm [of 0] imm [of 1]
    by (auto simp: rvc_expand_def rvc_q1_def Let_def decode_enc_b simp flip: c_def)
  ultimately show ?thesis using j by (simp flip: c_def)
qed

theorem rvc_control_flow_witness:
  "(\<exists>w. rvc_expand 0xBFFD = Some w \<and> op_of w = 0x6F \<and> rd_of w = 0 \<and> imm_j w = - 2) \<and>
   (\<exists>w. rvc_expand 0xFC7D = Some w \<and> op_of w = 0x63 \<and> f3_of w = 1 \<and> rs1_of w = 8 \<and> rs2_of w = 0 \<and> imm_b w = - 2)"
  using rvc_control_flow [of "0xBFFD"] rvc_control_flow [of "0xFC7D"]
  by (simp add: fld_def c_j_imm_def c_b_off_def c_reg_def sign_extend_def)

end
