(* ===== verification/RV_Alu.thy ===== *)
theory RV_Alu
  imports RV_Prelude "HOL-Library.Signed_Division"
begin

text \<open>
  The integer operations of \<open>rv64_step\<close> (\<open>rv64_cpu.c\<close>): branch conditions, 64-bit and 32-bit
  arithmetic, multiplication and division, and the operation of an atomic instruction, as
  functions of the operands. C leaves the quotient and the remainder of the least integer by
  -1 undefined; that case is \<open>None\<close>.
\<close>

subsection \<open>Branches\<close>

definition branch_taken :: "u32 \<Rightarrow> u64 \<Rightarrow> u64 \<Rightarrow> bool option" where
  "branch_taken f3 a b =
     (if f3 = 0 then Some (a = b)
      else if f3 = 1 then Some (a \<noteq> b)
      else if f3 = 4 then Some (sint a < sint b)
      else if f3 = 5 then Some (sint a \<ge> sint b)
      else if f3 = 6 then Some (a < b)
      else if f3 = 7 then Some (a \<ge> b)
      else None)"

subsection \<open>64-bit arithmetic\<close>

definition alu_imm :: "u32 \<Rightarrow> u32 \<Rightarrow> nat \<Rightarrow> u64 \<Rightarrow> u64 \<Rightarrow> u64" where
  "alu_imm f3 f7 shamt src imm =
     (if f3 = 0 then src + imm
      else if f3 = 1 then shl src shamt
      else if f3 = 2 then (if sint src < sint imm then 1 else 0)
      else if f3 = 3 then (if src < imm then 1 else 0)
      else if f3 = 4 then src XOR imm
      else if f3 = 5 then (if shr f7 1 \<noteq> 0 then sar src shamt else shr src shamt)
      else if f3 = 6 then src OR imm
      else if f3 = 7 then src AND imm
      else 0)"

definition c_sdiv :: "'a::len word \<Rightarrow> 'a word \<Rightarrow> 'a word undef" where
  "c_sdiv a b =
     (if sint b = 0 \<or> sint a = - (2 ^ (LENGTH('a) - 1)) \<and> sint b = - 1 then None
      else Some (word_of_int (sint a sdiv sint b)))"

definition c_smod :: "'a::len word \<Rightarrow> 'a word \<Rightarrow> 'a word undef" where
  "c_smod a b =
     (if sint b = 0 \<or> sint a = - (2 ^ (LENGTH('a) - 1)) \<and> sint b = - 1 then None
      else Some (word_of_int (sint a smod sint b)))"

definition mul_div :: "u32 \<Rightarrow> u64 \<Rightarrow> u64 \<Rightarrow> u64 undef" where
  "mul_div f3 a b =
     (if f3 = 0 then Some (a * b)
      else if f3 = 1 then Some (ucast (sar ((scast a :: u128) * scast b) 64))
      else if f3 = 2 then Some (ucast (shr ((scast a :: u128) * ucast b) 64))
      else if f3 = 3 then Some (ucast (shr ((ucast a :: u128) * ucast b) 64))
      else if f3 = 4 then (if b \<noteq> 0 then c_sdiv a b else Some (NOT 0))
      else if f3 = 5 then Some (if b \<noteq> 0 then a div b else NOT 0)
      else if f3 = 6 then (if b \<noteq> 0 then c_smod a b else Some a)
      else if f3 = 7 then Some (if b \<noteq> 0 then a mod b else a)
      else Some 0)"

definition alu_reg :: "u32 \<Rightarrow> u32 \<Rightarrow> u64 \<Rightarrow> u64 \<Rightarrow> u64 undef" where
  "alu_reg f7 f3 a b =
     (if f7 = 1 then mul_div f3 a b
      else Some
       (if f3 = 0 then (if f7 = 0x20 then a - b else a + b)
        else if f3 = 1 then shl a (unat (b AND 0x3F))
        else if f3 = 2 then (if sint a < sint b then 1 else 0)
        else if f3 = 3 then (if a < b then 1 else 0)
        else if f3 = 4 then a XOR b
        else if f3 = 5 then (if f7 = 0x20 then sar a (unat (b AND 0x3F)) else shr a (unat (b AND 0x3F)))
        else if f3 = 6 then a OR b
        else if f3 = 7 then a AND b
        else 0))"

subsection \<open>32-bit arithmetic\<close>

text \<open>\<open>Inl ()\<close> is the illegal-instruction trap.\<close>

definition alu_imm_w :: "u32 \<Rightarrow> u32 \<Rightarrow> nat \<Rightarrow> u32 \<Rightarrow> u64 \<Rightarrow> unit + u32" where
  "alu_imm_w f3 f7 shamt src imm =
     (if f3 = 0 then Inr (src + ucast imm)
      else if f3 = 1 then Inr (shl src shamt)
      else if f3 = 5 then Inr (if f7 = 0x20 then sar src shamt else shr src shamt)
      else Inl ())"

definition mul_div_w :: "u32 \<Rightarrow> u32 \<Rightarrow> u32 \<Rightarrow> (unit + u32) undef" where
  "mul_div_w f3 a b =
     (if f3 = 0 then Some (Inr (a * b))
      else if f3 = 4 then (if b \<noteq> 0 then map_option Inr (c_sdiv a b) else Some (Inr (- 1)))
      else if f3 = 5 then Some (Inr (if b \<noteq> 0 then a div b else - 1))
      else if f3 = 6 then (if b \<noteq> 0 then map_option Inr (c_smod a b) else Some (Inr a))
      else if f3 = 7 then Some (Inr (if b \<noteq> 0 then a mod b else a))
      else Some (Inl ()))"

definition alu_reg_w :: "u32 \<Rightarrow> u32 \<Rightarrow> u32 \<Rightarrow> u32 \<Rightarrow> (unit + u32) undef" where
  "alu_reg_w f7 f3 a b =
     (if f7 = 1 then mul_div_w f3 a b
      else Some
       (if f3 = 0 then Inr (if f7 = 0x20 then a - b else a + b)
        else if f3 = 1 then Inr (shl a (unat (b AND 0x1F)))
        else if f3 = 5 then Inr (if f7 = 0x20 then sar a (unat (b AND 0x1F)) else shr a (unat (b AND 0x1F)))
        else Inl ()))"

subsection \<open>Atomic operations\<close>

definition amo_result :: "u32 \<Rightarrow> u64 \<Rightarrow> u64 \<Rightarrow> u64 option" where
  "amo_result f5 loaded src =
     (if f5 = 0x01 then Some src
      else if f5 = 0x00 then Some (loaded + src)
      else if f5 = 0x04 then Some (loaded XOR src)
      else if f5 = 0x0C then Some (loaded AND src)
      else if f5 = 0x08 then Some (loaded OR src)
      else if f5 = 0x10 then Some (if sint loaded < sint src then loaded else src)
      else if f5 = 0x14 then Some (if sint loaded > sint src then loaded else src)
      else if f5 = 0x18 then Some (if loaded < src then loaded else src)
      else if f5 = 0x1C then Some (if loaded > src then loaded else src)
      else None)"

subsection \<open>Multiplication\<close>

lemma high_half:
  "(word_of_int (k div 2 ^ 64) :: u64) = ucast (shr (word_of_int k :: u128) 64)"
  "(word_of_int (k div 2 ^ 64) :: u64) = ucast (sar (word_of_int k :: u128) 64)"
  unfolding drop_bit_eq_div [symmetric]
  by (rule bit_word_eqI; auto simp: bit_simps bit_word_of_int_iff bit_signed_drop_bit_iff)+

lemma cast_products:
  "(scast a :: u128) * scast b = word_of_int (sint (a :: u64) * sint (b :: u64))"
  "(scast a :: u128) * ucast b = word_of_int (sint a * uint b)"
  "(ucast a :: u128) * ucast b = word_of_int (uint a * uint b)"
  by simp_all

text \<open>Recombining the halves of a product that fits in 128 bits.\<close>

lemma sint_in_range:
  "- (2 ^ 63) \<le> k \<Longrightarrow> k < 2 ^ 63 \<Longrightarrow> sint (word_of_int k :: u64) = k"
  "- (2 ^ 31) \<le> k \<Longrightarrow> k < 2 ^ 31 \<Longrightarrow> sint (word_of_int k :: u32) = k"
  by (simp_all add: sint_sbintrunc' signed_take_bit_int_eq_self)

lemma signed_halves:
  assumes "- (2 ^ 127) \<le> k" "k < 2 ^ 127"
  shows "sint (word_of_int (k div 2 ^ 64) :: u64) * 2 ^ 64 + uint (word_of_int k :: u64) = k"
proof -
  have "- (2 ^ 63) \<le> k div 2 ^ 64" "k div 2 ^ 64 < 2 ^ 63"
    using assms by simp_all
  then have "sint (word_of_int (k div 2 ^ 64) :: u64) = k div 2 ^ 64" by (rule sint_in_range)
  moreover have "uint (word_of_int k :: u64) = k mod 2 ^ 64" by (simp add: uint_word_of_int)
  ultimately show ?thesis by simp
qed

lemma unsigned_halves:
  assumes "0 \<le> k" "k < 2 ^ 128"
  shows "uint (word_of_int (k div 2 ^ 64) :: u64) * 2 ^ 64 + uint (word_of_int k :: u64) = k"
proof -
  have "0 \<le> k div 2 ^ 64" "k div 2 ^ 64 < 2 ^ 64" using assms by simp_all
  then show ?thesis by (simp add: uint_word_of_int)
qed

lemma product_bounds:
  "- (2 ^ 127) \<le> sint (a :: u64) * sint (b :: u64)" "sint a * sint b < 2 ^ 127"
  "- (2 ^ 127) \<le> sint a * uint b" "sint a * uint b < 2 ^ 127"
  "uint a * uint b < 2 ^ 128"
proof -
  have a: "- (2 ^ 63) \<le> sint a" "sint a < 2 ^ 63" and b: "- (2 ^ 63) \<le> sint b" "sint b < 2 ^ 63"
    using sint_greater_eq [of a] sint_less [of a] sint_greater_eq [of b] sint_less [of b] by simp_all
  have ua: "0 \<le> uint a" "uint a < 2 ^ 64" and ub: "0 \<le> uint b" "uint b < 2 ^ 64"
    using uint_bounded [of a] uint_bounded [of b] by simp_all
  have "\<bar>sint a * sint b\<bar> \<le> 2 ^ 63 * 2 ^ 63"
    unfolding abs_mult by (rule mult_mono) (use a b in auto)
  then show "- (2 ^ 127) \<le> sint a * sint b" "sint a * sint b < 2 ^ 127" by simp_all
  have "\<bar>sint a * uint b\<bar> \<le> 2 ^ 63 * (2 ^ 64 - 1)"
    unfolding abs_mult by (rule mult_mono) (use a ub in auto)
  then show "- (2 ^ 127) \<le> sint a * uint b" "sint a * uint b < 2 ^ 127" by simp_all
  have "uint a * uint b \<le> (2 ^ 64 - 1) * (2 ^ 64 - 1)"
    by (rule mult_mono) (use ua ub in auto)
  then show "uint a * uint b < 2 ^ 128" by simp
qed

text \<open>Multiplication is exact: the high half that \<open>MULH\<close>, \<open>MULHSU\<close> or \<open>MULHU\<close> computes and the
  low half that \<open>MUL\<close> computes together are the full 128-bit product of the operands read as
  signed, as signed and unsigned, and as unsigned numbers.\<close>

theorem mul_exact:
  "\<exists>lo hs hsu hu. mul_div 0 a b = Some lo \<and> mul_div 1 a b = Some hs \<and> mul_div 2 a b = Some hsu \<and>
     mul_div 3 a b = Some hu \<and>
     sint hs * 2 ^ 64 + uint lo = sint a * sint b \<and>
     sint hsu * 2 ^ 64 + uint lo = sint a * uint b \<and>
     uint hu * 2 ^ 64 + uint lo = uint a * uint b"
proof -
  have lo: "a * b = word_of_int (sint a * sint b)" "a * b = word_of_int (sint a * uint b)"
    "a * b = word_of_int (uint a * uint b)" by simp_all
  have "sint (ucast (sar ((scast a :: u128) * scast b) 64) :: u64) * 2 ^ 64 + uint (a * b) = sint a * sint b"
    unfolding cast_products high_half(2) [symmetric] lo(1) by (rule signed_halves [OF product_bounds(1,2)])
  moreover have "sint (ucast (shr ((scast a :: u128) * ucast b) 64) :: u64) * 2 ^ 64 + uint (a * b) = sint a * uint b"
    unfolding cast_products high_half(1) [symmetric] lo(2) by (rule signed_halves [OF product_bounds(3,4)])
  moreover have "uint (ucast (shr ((ucast a :: u128) * ucast b) 64) :: u64) * 2 ^ 64 + uint (a * b) = uint a * uint b"
    unfolding cast_products high_half(1) [symmetric] lo(3) by (rule unsigned_halves [OF _ product_bounds(5)]) simp
  ultimately show ?thesis unfolding mul_div_def by simp
qed

subsection \<open>Division\<close>

lemma sdiv_fits:
  assumes "\<not> (sint a = - (2 ^ (LENGTH('a) - 1)) \<and> sint b = - 1)" "sint b \<noteq> 0"
  shows "- (2 ^ (LENGTH('a) - 1)) \<le> sint a sdiv sint (b :: 'a::len word)"
    "sint (a :: 'a word) sdiv sint b < 2 ^ (LENGTH('a) - 1)"
proof -
  have a: "- (2 ^ (LENGTH('a) - 1)) \<le> sint a" "sint a < 2 ^ (LENGTH('a) - 1)"
    by (rule sint_ge, rule sint_lt)
  have r: "- \<bar>sint a\<bar> \<le> sint a sdiv sint b" "sint a sdiv sint b \<le> \<bar>sint a\<bar>"
    using sdiv_int_range [of "sint a" "sint b"] by auto
  show "- (2 ^ (LENGTH('a) - 1)) \<le> sint a sdiv sint b" using a r by linarith
  show "sint a sdiv sint b < 2 ^ (LENGTH('a) - 1)"
  proof (rule ccontr)
    assume "\<not> ?thesis"
    with a r have m: "sint a = - (2 ^ (LENGTH('a) - 1))" "sint a sdiv sint b = - sint a" by linarith+
    have "sint a \<noteq> 0" using m(1) by simp
    with m(2) have "sint b = - 1" by simp
    with m(1) assms(1) show False by simp
  qed
qed

lemma sint_sdiv:
  assumes "c_sdiv a b = Some q"
  shows "sint q = sint a sdiv sint b"
  using assms sdiv_fits [of a b]
  by (auto simp: c_sdiv_def sint_sbintrunc' signed_take_bit_int_eq_self split: if_splits)

lemma sint_smod:
  assumes "c_smod a b = Some r"
  shows "sint r = sint a smod sint b"
proof -
  have b: "sint b \<noteq> 0" using assms by (auto simp: c_smod_def split: if_splits)
  have "- \<bar>sint b\<bar> + 1 \<le> sint a smod sint b" "sint a smod sint b \<le> \<bar>sint b\<bar> - 1"
    using smod_int_range [OF b, of "sint a"] by simp_all
  with sint_ge [of b] sint_lt [of b]
  have "- (2 ^ (LENGTH('a) - 1)) \<le> sint a smod sint b" "sint a smod sint b < 2 ^ (LENGTH('a) - 1)"
    by linarith+
  with assms show ?thesis
    by (auto simp: c_smod_def sint_sbintrunc' signed_take_bit_int_eq_self split: if_splits)
qed

lemma smod_sign: "(0 :: int) \<le> a \<Longrightarrow> 0 \<le> a smod b" "a \<le> 0 \<Longrightarrow> a smod b \<le> 0" for a b :: int
  by (cases "b = 0"; cases "0 < b"; use smod_int_compares [of a b] in simp)+

text \<open>C39. Division: \<open>DIV\<close> and \<open>REM\<close> satisfy the division equation with the remainder smaller than the
  divisor and of the dividend's sign; \<open>DIVU\<close> and \<open>REMU\<close> likewise without signs; a zero divisor gives
  all ones and the dividend. The C code has no defined result for the least integer by -1, and
  that is the only such case.\<close>

theorem div_rem_correct:
  "(mul_div 4 a b = None \<longleftrightarrow> sint a = - (2 ^ 63) \<and> sint b = - 1) \<and>
   (mul_div 6 a b = None \<longleftrightarrow> sint a = - (2 ^ 63) \<and> sint b = - 1) \<and>
   (\<forall>q r. mul_div 4 a b = Some q \<and> mul_div 6 a b = Some r \<longrightarrow>
      (if b = 0 then q = - 1 \<and> r = a
       else sint a = sint b * sint q + sint r \<and> \<bar>sint r\<bar> < \<bar>sint b\<bar> \<and>
         (sint a \<ge> 0 \<longrightarrow> sint r \<ge> 0) \<and> (sint a \<le> 0 \<longrightarrow> sint r \<le> 0))) \<and>
   (\<exists>q r. mul_div 5 a b = Some q \<and> mul_div 7 a b = Some r \<and>
      (if b = 0 then q = - 1 \<and> r = a
       else uint a = uint b * uint q + uint r \<and> uint r < uint b))"
proof (cases "b = 0")
  case True
  then show ?thesis by (simp add: mul_div_def)
next
  case False
  then have sb: "sint b \<noteq> 0" and ub: "uint b \<noteq> 0" by (simp_all add: signed_eq_0_iff uint_0_iff)
  have "sint a = sint b * sint q + sint r \<and> \<bar>sint r\<bar> < \<bar>sint b\<bar> \<and>
      (sint a \<ge> 0 \<longrightarrow> sint r \<ge> 0) \<and> (sint a \<le> 0 \<longrightarrow> sint r \<le> 0)"
    if q: "c_sdiv a b = Some q" and r: "c_smod a b = Some r" for q r
    using smod_int_range [OF sb, of "sint a"] smod_sign [of "sint a" "sint b"]
    by (auto simp: sint_sdiv [OF q] sint_smod [OF r] mult_sdiv_smod_eq)
  moreover have "uint a = uint b * uint (a div b) + uint (a mod b) \<and> uint (a mod b) < uint b"
    using ub uint_ge_0 [of b] by (simp add: uint_div uint_mod le_less)
  ultimately show ?thesis
    using False sb by (simp add: mul_div_def) (simp add: c_sdiv_def c_smod_def)
qed

theorem div_rem_correct_witness:
  "mul_div 4 (- 7) 2 = Some (- 3) \<and> mul_div 6 (- 7) 2 = Some (- 1) \<and>
   sint (- 7 :: u64) = sint (2 :: u64) * sint (- 3 :: u64) + sint (- 1 :: u64)"
proof -
  have v: "mul_div 4 (- 7) 2 = Some (- 3)" "mul_div 6 (- 7) 2 = Some (- 1)"
    by (simp_all add: mul_div_def c_sdiv_def c_smod_def)
  with div_rem_correct [of "- 7" 2] show ?thesis by simp
qed

end
