(* ===== verification/RV_Fpu.thy ===== *)
theory RV_Fpu
  imports RV_Decode RV_Trap
begin

text \<open>
  The floating point unit, \<open>rv64_fpu.c\<close>. Registers hold raw 64-bit patterns; a single-precision
  value is boxed with ones above it.

  The code computes with the host's \<open>float\<close> and \<open>double\<close>. Their formats are IEEE 754 binary32 and
  binary64, so tests, comparisons, negation and conversions to integers are defined on the bit
  patterns below. The rounding operations, and the patterns they give for not-a-number, are the
  host's: \<open>host_fp\<close> is an arbitrary choice of them, an argument of every operation that computes.
\<close>

subsection \<open>IEEE 754 bit patterns\<close>

record host_fp =
  hf_add32 :: "u32 \<Rightarrow> u32 \<Rightarrow> u32"
  hf_sub32 :: "u32 \<Rightarrow> u32 \<Rightarrow> u32"
  hf_mul32 :: "u32 \<Rightarrow> u32 \<Rightarrow> u32"
  hf_div32 :: "u32 \<Rightarrow> u32 \<Rightarrow> u32"
  hf_sqrt32 :: "u32 \<Rightarrow> u32"
  hf_int32 :: "int \<Rightarrow> u32"
  hf_add64 :: "u64 \<Rightarrow> u64 \<Rightarrow> u64"
  hf_sub64 :: "u64 \<Rightarrow> u64 \<Rightarrow> u64"
  hf_mul64 :: "u64 \<Rightarrow> u64 \<Rightarrow> u64"
  hf_div64 :: "u64 \<Rightarrow> u64 \<Rightarrow> u64"
  hf_sqrt64 :: "u64 \<Rightarrow> u64"
  hf_int64 :: "int \<Rightarrow> u64"
  hf_narrow :: "u64 \<Rightarrow> u32"
  hf_widen :: "u32 \<Rightarrow> u64"

text \<open>A pattern with \<open>m\<close> mantissa bits and \<open>e\<close> exponent bits; \<open>f_bits\<close> is the pattern without its
  sign, which orders the non-negative values.\<close>

definition f_bits :: "nat \<Rightarrow> 'a::len word \<Rightarrow> nat" where
  "f_bits w x = unat x mod 2 ^ (w - 1)"

definition f_sign :: "nat \<Rightarrow> 'a::len word \<Rightarrow> bool" where
  "f_sign w x \<longleftrightarrow> bit x (w - 1)"

definition f_inf :: "nat \<Rightarrow> nat \<Rightarrow> nat" where
  "f_inf w m = (2 ^ (w - 1 - m) - 1) * 2 ^ m"

definition f_isnan :: "nat \<Rightarrow> nat \<Rightarrow> 'a::len word \<Rightarrow> bool" where
  "f_isnan w m x \<longleftrightarrow> f_inf w m < f_bits w x"

definition f_isinf :: "nat \<Rightarrow> nat \<Rightarrow> 'a::len word \<Rightarrow> bool" where
  "f_isinf w m x \<longleftrightarrow> f_bits w x = f_inf w m"

definition f_key :: "nat \<Rightarrow> 'a::len word \<Rightarrow> int" where
  "f_key w x = (if f_sign w x then - int (f_bits w x) else int (f_bits w x))"

definition f_lt :: "nat \<Rightarrow> nat \<Rightarrow> 'a::len word \<Rightarrow> 'a word \<Rightarrow> bool" where
  "f_lt w m a b \<longleftrightarrow> \<not> f_isnan w m a \<and> \<not> f_isnan w m b \<and> f_key w a < f_key w b"

definition f_le :: "nat \<Rightarrow> nat \<Rightarrow> 'a::len word \<Rightarrow> 'a word \<Rightarrow> bool" where
  "f_le w m a b \<longleftrightarrow> \<not> f_isnan w m a \<and> \<not> f_isnan w m b \<and> f_key w a \<le> f_key w b"

definition f_eq :: "nat \<Rightarrow> nat \<Rightarrow> 'a::len word \<Rightarrow> 'a word \<Rightarrow> bool" where
  "f_eq w m a b \<longleftrightarrow> \<not> f_isnan w m a \<and> \<not> f_isnan w m b \<and> f_key w a = f_key w b"

text \<open>Conversion to an integer type of the range \<open>lo\<close> to \<open>hi\<close>: truncation towards zero, undefined for
  what does not fit. The significand of a pattern counts units of \<open>2 ^ (exponent - bias - m)\<close>.\<close>

definition f_trunc :: "nat \<Rightarrow> nat \<Rightarrow> 'a::len word \<Rightarrow> int" where
  "f_trunc w m x =
     (let e = f_bits w x div 2 ^ m; frac = f_bits w x mod 2 ^ m;
          sig = (if e = 0 then frac else frac + 2 ^ m); ex = max 1 e;
          unit = 2 ^ (w - 2 - m) - 1 + m;
          mag = (if unit \<le> ex then sig * 2 ^ (ex - unit) else sig div 2 ^ (unit - ex))
      in if f_sign w x then - int mag else int mag)"

definition f_to_int :: "nat \<Rightarrow> nat \<Rightarrow> int \<Rightarrow> int \<Rightarrow> 'a::len word \<Rightarrow> u64 undef" where
  "f_to_int w m lo hi x =
     (if f_inf w m \<le> f_bits w x then None
      else if lo \<le> f_trunc w m x \<and> f_trunc w m x \<le> hi then Some (word_of_int (f_trunc w m x))
      else None)"

text \<open>\<open>FCVT.W\<close>, \<open>FCVT.WU\<close>, \<open>FCVT.L\<close> and \<open>FCVT.LU\<close>, selected by \<open>rs2\<close>: the casts to \<open>int32_t\<close>,
  \<open>uint32_t\<close>, \<open>int64_t\<close> and \<open>uint64_t\<close>.\<close>

definition fcvt_to_int :: "nat \<Rightarrow> nat \<Rightarrow> u32 \<Rightarrow> 'a::len word \<Rightarrow> u64 undef" where
  "fcvt_to_int w m rs2 x =
     (if rs2 = 0 then f_to_int w m (- (2 ^ 31)) (2 ^ 31 - 1) x
      else if rs2 = 1 then f_to_int w m 0 (2 ^ 32 - 1) x
      else if rs2 = 2 then f_to_int w m (- (2 ^ 63)) (2 ^ 63 - 1) x
      else f_to_int w m 0 (2 ^ 64 - 1) x)"

text \<open>The integer that \<open>FCVT.S.W\<close> and its variants convert.\<close>

definition fcvt_source :: "u32 \<Rightarrow> u64 \<Rightarrow> int" where
  "fcvt_source rs2 x =
     (if rs2 = 0 then sint (ucast x :: u32)
      else if rs2 = 1 then uint (ucast x :: u32)
      else if rs2 = 2 then sint x
      else uint x)"

text \<open>\<open>FCLASS\<close>, in the order of the code's tests.\<close>

definition fclass :: "nat \<Rightarrow> nat \<Rightarrow> 'a::len word \<Rightarrow> u64" where
  "fclass w m x =
     (if f_isinf w m x \<and> f_sign w x then shl 1 0
      else if f_lt w m x 0 \<and> \<not> f_isinf w m x \<and> \<not> f_isnan w m x then shl 1 1
      else if f_eq w m x 0 \<and> f_sign w x then shl 1 3
      else if f_eq w m x 0 \<and> \<not> f_sign w x then shl 1 4
      else if f_lt w m 0 x \<and> \<not> f_isinf w m x \<and> \<not> f_isnan w m x then shl 1 6
      else if f_isinf w m x \<and> \<not> f_sign w x then shl 1 7
      else shl 1 9)"

subsection \<open>Registers\<close>

abbreviation (input) FLOAT_NAN :: u32 where "FLOAT_NAN \<equiv> 0x7FC00000"

definition rd_d :: "'c vm \<Rightarrow> u32 \<Rightarrow> u64" where
  "rd_d m r = cpu_f m r"

definition wr_d :: "u32 \<Rightarrow> u64 \<Rightarrow> 'c vm \<Rightarrow> 'c vm" where
  "wr_d r d m = m\<lparr>cpu_f := (cpu_f m)(r := d)\<rparr>"

definition rd_f :: "'c vm \<Rightarrow> u32 \<Rightarrow> u32" where
  "rd_f m r = (let v = cpu_f m r in if shr v 32 \<noteq> 0xFFFFFFFF then FLOAT_NAN else ucast v)"

definition wr_f :: "u32 \<Rightarrow> u32 \<Rightarrow> 'c vm \<Rightarrow> 'c vm" where
  "wr_f r w m = m\<lparr>cpu_f := (cpu_f m)(r := 0xFFFFFFFF00000000 OR ucast w)\<rparr>"

definition mark_fs_dirty :: "'c vm \<Rightarrow> 'c vm" where
  "mark_fs_dirty m = m\<lparr>cpu_mstatus := cpu_mstatus m OR shl 3 13\<rparr>"

text \<open>\<open>cpu->x[rd] = v\<close>, without the reset of \<open>x[0]\<close> that the integer unit does.\<close>

definition set_x :: "u32 \<Rightarrow> u64 \<Rightarrow> 'c vm \<Rightarrow> 'c vm" where
  "set_x r v m = m\<lparr>cpu_x := (cpu_x m)(r := v)\<rparr>"

subsection \<open>Instructions\<close>

text \<open>The return values 0, -1 and 1.\<close>

datatype fp_rc = FP_OK | FP_UNIMPLEMENTED | FP_TRAPPED

definition fp_load :: "'c vm \<Rightarrow> u32 \<Rightarrow> (fp_rc \<times> 'c vm) undef" where
  "fp_load m insn =
     (let addr = cpu_x m (rs1_of insn) + scast (sar insn 20);
          go = (\<lambda>sz box. do {
            (r, m1) \<leftarrow> rv64_jit_load m addr sz;
            (case r of
               Inl exc \<Rightarrow> do { m2 \<leftarrow> rv64_trap m1 exc addr; Some (FP_TRAPPED, m2) }
             | Inr val \<Rightarrow> Some (FP_OK, m1\<lparr>cpu_f := (cpu_f m1)(rd_of insn := box val)\<rparr>))
          })
      in if f3_of insn = 2 then go 4 (\<lambda>val. 0xFFFFFFFF00000000 OR (val AND 0xFFFFFFFF))
         else if f3_of insn = 3 then go 8 (\<lambda>val. val)
         else Some (FP_UNIMPLEMENTED, m))"

definition fp_imm_s :: "u32 \<Rightarrow> u64" where
  "fp_imm_s insn = scast (sx32 20 (shl (shr insn 25) 5 OR (shr insn 7 AND 0x1F)))"

definition fp_store :: "'c vm \<Rightarrow> u32 \<Rightarrow> (fp_rc \<times> 'c vm) undef" where
  "fp_store m insn =
     (let addr = cpu_x m (rs1_of insn) + fp_imm_s insn;
          go = (\<lambda>sz val. do {
            (r, m1) \<leftarrow> rv64_jit_store m addr sz val;
            (case r of
               Inl exc \<Rightarrow> do { m2 \<leftarrow> rv64_trap m1 exc addr; Some (FP_TRAPPED, m2) }
             | Inr _ \<Rightarrow> Some (FP_OK, m1))
          })
      in if f3_of insn = 2 then go 4 (cpu_f m (rs2_of insn) AND 0xFFFFFFFF)
         else if f3_of insn = 3 then go 8 (cpu_f m (rs2_of insn))
         else Some (FP_UNIMPLEMENTED, m))"

text \<open>The four multiply-add opcodes as the C expressions compose them: a product, rounded, then a
  sum or difference.\<close>

definition fma_expr :: "u32 \<Rightarrow> ('w \<Rightarrow> 'w \<Rightarrow> 'w) \<Rightarrow> ('w \<Rightarrow> 'w \<Rightarrow> 'w) \<Rightarrow> ('w \<Rightarrow> 'w \<Rightarrow> 'w) \<Rightarrow> ('w \<Rightarrow> 'w) \<Rightarrow>
    'w \<Rightarrow> 'w \<Rightarrow> 'w \<Rightarrow> 'w" where
  "fma_expr opcode add sub mul neg a b c =
     (if opcode = 0x43 then add (mul a b) c
      else if opcode = 0x47 then sub (mul a b) c
      else if opcode = 0x4B then add (mul (neg a) b) c
      else sub (mul (neg a) b) c)"

definition fp_fma :: "host_fp \<Rightarrow> 'c vm \<Rightarrow> u32 \<Rightarrow> fp_rc \<times> 'c vm" where
  "fp_fma hf m insn =
     (let rs3 = shr insn 27 AND 0x1F; fmt = shr insn 25 AND 3 in
      if fmt = 0 then
        (FP_OK, wr_f (rd_of insn) (fma_expr (op_of insn) (hf_add32 hf) (hf_sub32 hf) (hf_mul32 hf)
            (\<lambda>a. a XOR 0x80000000) (rd_f m (rs1_of insn)) (rd_f m (rs2_of insn)) (rd_f m rs3)) m)
      else if fmt = 1 then
        (FP_OK, wr_d (rd_of insn) (fma_expr (op_of insn) (hf_add64 hf) (hf_sub64 hf) (hf_mul64 hf)
            (\<lambda>a. a XOR 0x8000000000000000) (rd_d m (rs1_of insn)) (rd_d m (rs2_of insn)) (rd_d m rs3)) m)
      else (FP_UNIMPLEMENTED, m))"

text \<open>\<open>FSGNJ\<close>, \<open>FSGNJN\<close>, \<open>FSGNJX\<close>; \<open>s\<close> is the sign bit.\<close>

definition fsgnj :: "u32 \<Rightarrow> 'a::len word \<Rightarrow> 'a word \<Rightarrow> 'a word \<Rightarrow> 'a word option" where
  "fsgnj f3 s a b =
     (if f3 = 0 then Some ((a AND NOT s) OR (b AND s))
      else if f3 = 1 then Some ((a AND NOT s) OR (NOT b AND s))
      else if f3 = 2 then Some ((a AND NOT s) OR ((a XOR b) AND s))
      else None)"

definition fminmax :: "nat \<Rightarrow> nat \<Rightarrow> u32 \<Rightarrow> 'a::len word \<Rightarrow> 'a word \<Rightarrow> 'a word" where
  "fminmax w m f3 a b =
     (if f3 = 0 then (if f_lt w m a b \<or> f_isnan w m b then a else b)
      else (if f_lt w m b a \<or> f_isnan w m b then a else b))"

definition fcmp :: "nat \<Rightarrow> nat \<Rightarrow> u32 \<Rightarrow> 'a::len word \<Rightarrow> 'a word \<Rightarrow> u64 option" where
  "fcmp w m f3 a b =
     (if f3 = 2 then Some (of_bool (f_eq w m a b))
      else if f3 = 1 then Some (of_bool (f_lt w m a b))
      else if f3 = 0 then Some (of_bool (f_le w m a b))
      else None)"

definition fp_arith32 :: "host_fp \<Rightarrow> 'c vm \<Rightarrow> u32 \<Rightarrow> (fp_rc \<times> 'c vm) undef" where
  "fp_arith32 hf m insn =
     (let f7 = shr insn 25; f3 = f3_of insn; rd = rd_of insn; rs1 = rs1_of insn; rs2 = rs2_of insn in
      if f7 = 0x00 then Some (FP_OK, wr_f rd (hf_add32 hf (rd_f m rs1) (rd_f m rs2)) m)
      else if f7 = 0x04 then Some (FP_OK, wr_f rd (hf_sub32 hf (rd_f m rs1) (rd_f m rs2)) m)
      else if f7 = 0x08 then Some (FP_OK, wr_f rd (hf_mul32 hf (rd_f m rs1) (rd_f m rs2)) m)
      else if f7 = 0x0C then Some (FP_OK, wr_f rd (hf_div32 hf (rd_f m rs1) (rd_f m rs2)) m)
      else if f7 = 0x2C then Some (FP_OK, wr_f rd (hf_sqrt32 hf (rd_f m rs1)) m)
      else if f7 = 0x10 then
        (case fsgnj f3 0x80000000 (rd_f m rs1) (rd_f m rs2) of
           None \<Rightarrow> Some (FP_UNIMPLEMENTED, m) | Some res \<Rightarrow> Some (FP_OK, wr_f rd res m))
      else if f7 = 0x14 then Some (FP_OK, wr_f rd (fminmax 32 23 f3 (rd_f m rs1) (rd_f m rs2)) m)
      else if f7 = 0x60 then do {
        v \<leftarrow> fcvt_to_int 32 23 rs2 (rd_f m rs1);
        Some (FP_OK, set_x rd v m)
      }
      else if f7 = 0x70 then
        (if f3 = 0 then Some (FP_OK, set_x rd (scast (ucast (cpu_f m rs1) :: u32)) m)
         else Some (FP_OK, set_x rd (fclass 32 23 (rd_f m rs1)) m))
      else if f7 = 0x50 then
        (case fcmp 32 23 f3 (rd_f m rs1) (rd_f m rs2) of
           None \<Rightarrow> Some (FP_UNIMPLEMENTED, m) | Some v \<Rightarrow> Some (FP_OK, set_x rd v m))
      else if f7 = 0x68 then Some (FP_OK, wr_f rd (hf_int32 hf (fcvt_source rs2 (cpu_x m rs1))) m)
      else if f7 = 0x78 then
        Some (FP_OK, m\<lparr>cpu_f := (cpu_f m)(rd := 0xFFFFFFFF00000000 OR ucast (ucast (cpu_x m rs1) :: u32))\<rparr>)
      else Some (FP_UNIMPLEMENTED, m))"

definition fp_arith64 :: "host_fp \<Rightarrow> 'c vm \<Rightarrow> u32 \<Rightarrow> (fp_rc \<times> 'c vm) undef" where
  "fp_arith64 hf m insn =
     (let f7 = shr insn 25; f3 = f3_of insn; rd = rd_of insn; rs1 = rs1_of insn; rs2 = rs2_of insn in
      if f7 = 0x01 then Some (FP_OK, wr_d rd (hf_add64 hf (rd_d m rs1) (rd_d m rs2)) m)
      else if f7 = 0x05 then Some (FP_OK, wr_d rd (hf_sub64 hf (rd_d m rs1) (rd_d m rs2)) m)
      else if f7 = 0x09 then Some (FP_OK, wr_d rd (hf_mul64 hf (rd_d m rs1) (rd_d m rs2)) m)
      else if f7 = 0x0D then Some (FP_OK, wr_d rd (hf_div64 hf (rd_d m rs1) (rd_d m rs2)) m)
      else if f7 = 0x2D then Some (FP_OK, wr_d rd (hf_sqrt64 hf (rd_d m rs1)) m)
      else if f7 = 0x11 then
        (case fsgnj f3 0x8000000000000000 (cpu_f m rs1) (cpu_f m rs2) of
           None \<Rightarrow> Some (FP_UNIMPLEMENTED, m) | Some res \<Rightarrow> Some (FP_OK, wr_d rd res m))
      else if f7 = 0x15 then Some (FP_OK, wr_d rd (fminmax 64 52 f3 (rd_d m rs1) (rd_d m rs2)) m)
      else if f7 = 0x20 then Some (FP_OK, wr_f rd (hf_narrow hf (rd_d m rs1)) m)
      else if f7 = 0x21 then Some (FP_OK, wr_d rd (hf_widen hf (rd_f m rs1)) m)
      else if f7 = 0x51 then
        (case fcmp 64 52 f3 (rd_d m rs1) (rd_d m rs2) of
           None \<Rightarrow> Some (FP_UNIMPLEMENTED, m) | Some v \<Rightarrow> Some (FP_OK, set_x rd v m))
      else if f7 = 0x61 then do {
        v \<leftarrow> fcvt_to_int 64 52 rs2 (rd_d m rs1);
        Some (FP_OK, set_x rd v m)
      }
      else if f7 = 0x69 then Some (FP_OK, wr_d rd (hf_int64 hf (fcvt_source rs2 (cpu_x m rs1))) m)
      else if f7 = 0x71 then
        (if f3 = 0 then Some (FP_OK, set_x rd (cpu_f m rs1) m)
         else Some (FP_OK, set_x rd (fclass 64 52 (rd_d m rs1)) m))
      else if f7 = 0x79 then Some (FP_OK, wr_d rd (cpu_x m rs1) m)
      else fp_arith32 hf m insn)"

definition rv64_fp_exec :: "host_fp \<Rightarrow> 'c vm \<Rightarrow> u32 \<Rightarrow> (fp_rc \<times> 'c vm) undef" where
  "rv64_fp_exec hf m0 insn =
     (let m = mark_fs_dirty m0; opcode = op_of insn in
      if opcode = 0x07 then fp_load m insn
      else if opcode = 0x27 then fp_store m insn
      else if opcode = 0x43 \<or> opcode = 0x47 \<or> opcode = 0x4B \<or> opcode = 0x4F then Some (fp_fma hf m insn)
      else if opcode = 0x53 then fp_arith64 hf m insn
      else Some (FP_UNIMPLEMENTED, m))"

subsection \<open>Boxing\<close>

lemma box_high: "shr (0xFFFFFFFF00000000 OR ucast (w :: u32) :: u64) 32 = 0xFFFFFFFF"
proof -
  have b: "(0xFFFFFFFF00000000 :: u64) = shl (mask 32) 32" "(0xFFFFFFFF :: u64) = mask 32"
    by (simp_all add: mask_eq_exp_minus_1 push_bit_eq_mult)
  show ?thesis unfolding b
    by (rule bit_word_eqI) (auto simp: bit_simps dest: bit_imp_le_length)
qed

lemma box_low: "ucast (0xFFFFFFFF00000000 OR ucast (w :: u32) :: u64) = w"
proof -
  have b: "(0xFFFFFFFF00000000 :: u64) = shl (mask 32) 32"
    by (simp add: mask_eq_exp_minus_1 push_bit_eq_mult)
  show ?thesis unfolding b
    by (rule bit_word_eqI) (auto simp: bit_simps)
qed

text \<open>C40. Boxing: a single-precision register write reads back as the value written and leaves every
  other register alone, and a register that is not boxed reads as not-a-number.\<close>

theorem float_boxing:
  "rd_f (wr_f r w m) r' = (if r' = r then w else rd_f m r') \<and>
   (shr (rd_d m r) 32 \<noteq> 0xFFFFFFFF \<longrightarrow> f_isnan 32 23 (rd_f m r))"
proof
  have "rd_f (wr_f r w m) r = w"
  proof -
    have v: "cpu_f (wr_f r w m) r = 0xFFFFFFFF00000000 OR ucast w" by (simp add: wr_f_def)
    show ?thesis unfolding rd_f_def v Let_def by (simp only: box_high box_low simp_thms if_False)
  qed
  then show "rd_f (wr_f r w m) r' = (if r' = r then w else rd_f m r')"
    by (simp add: rd_f_def wr_f_def)
  show "shr (rd_d m r) 32 \<noteq> 0xFFFFFFFF \<longrightarrow> f_isnan 32 23 (rd_f m r)"
    by (simp add: rd_f_def rd_d_def Let_def f_isnan_def f_bits_def f_inf_def)
qed

theorem float_boxing_witness:
  "f_isnan 32 23 (rd_f ((bare_vm (\<lambda>_. 0) 0x1000 :: unit vm)\<lparr>cpu_f := (\<lambda>_. 0x3FF0000000000000)\<rparr>) 1)"
  using float_boxing [of 0 0 "(bare_vm (\<lambda>_. 0) 0x1000 :: unit vm)\<lparr>cpu_f := (\<lambda>_. 0x3FF0000000000000)\<rparr>" 0]
    float_boxing [of 1 0 "(bare_vm (\<lambda>_. 0) 0x1000 :: unit vm)\<lparr>cpu_f := (\<lambda>_. 0x3FF0000000000000)\<rparr>" 1]
  by (simp add: rd_d_def)

subsection \<open>Comparison and classification\<close>

lemma f_le_iff: "\<not> f_isnan w m a \<Longrightarrow> \<not> f_isnan w m b \<Longrightarrow> f_le w m a b \<longleftrightarrow> \<not> f_lt w m b a"
  by (auto simp: f_lt_def f_le_def)

lemma f_le_refl: "\<not> f_isnan w m a \<Longrightarrow> f_le w m a a"
  by (simp add: f_le_def)

lemma f_lt_nan: "f_isnan w m a \<or> f_isnan w m b \<Longrightarrow> \<not> f_lt w m a b"
  by (auto simp: f_lt_def)

text \<open>\<open>FMIN\<close> and \<open>FMAX\<close> return one of their operands: of two numbers the one below (above) both,
  of a number and something that is not a number the number, whichever side it is on, and
  \<open>FLE\<close> judges the result accordingly.\<close>

theorem fminmax_spec:
  "fminmax w m f3 a b \<in> {a, b} \<and>
   (f_isnan w m (fminmax w m f3 a b) \<longleftrightarrow> f_isnan w m a \<and> f_isnan w m b) \<and>
   (\<not> f_isnan w m a \<and> \<not> f_isnan w m b \<longrightarrow> (let r = fminmax w m f3 a b in
      if f3 = 0 then fcmp w m 0 r a = Some 1 \<and> fcmp w m 0 r b = Some 1
      else fcmp w m 0 a r = Some 1 \<and> fcmp w m 0 b r = Some 1))"
  by (auto simp: fminmax_def fcmp_def f_le_def f_lt_def Let_def)

theorem fminmax_spec_witness:
  "fcmp 32 23 0 (fminmax 32 23 0 0xBF800000 (0x3F800000 :: u32)) 0x3F800000 = Some 1 \<and>
   \<not> f_isnan 32 23 (fminmax 32 23 0 0x7FC00000 (0x3F800000 :: u32))"
  using fminmax_spec [of 32 23 0 "0xBF800000 :: u32" "0x3F800000"]
    fminmax_spec [of 32 23 0 "0x7FC00000 :: u32" "0x3F800000"]
  by (simp add: f_isnan_def f_inf_def f_bits_def Let_def)

text \<open>\<open>FCLASS\<close> on single precision, by the pattern: the infinities, the zeros and not-a-number
  have their classes; every other negative value is reported as a negative normal number, every
  other positive one as a positive normal number, subnormals included.\<close>

theorem fclass_single:
  "fclass 32 23 (x :: u32) = (let n = f_bits 32 x in
     if n > 0x7F800000 then 0x200
     else if n = 0x7F800000 then (if bit x 31 then 1 else 0x80)
     else if n = 0 then (if bit x 31 then 8 else 0x10)
     else if bit x 31 then 2 else 0x40)"
  by (simp add: fclass_def f_isinf_def f_inf_def f_sign_def f_lt_def f_eq_def f_key_def f_isnan_def
      f_bits_def Let_def)

subsection \<open>The conversion of a register that does not exist\<close>

text \<open>The integer result of a floating point instruction goes to \<open>x[rd]\<close> without the reset of
  \<open>x[0]\<close> that every integer instruction does: \<open>FMV.X.D x0, f1\<close> leaves \<open>x0\<close> non-zero.\<close>

theorem fp_writes_x0:
  "\<exists>m'. rv64_fp_exec hf ((bare_vm (\<lambda>_. 0) 0x1000 :: unit vm)\<lparr>cpu_f := (\<lambda>_. 7)\<rparr>) 0xE2008053 = Some (FP_OK, m') \<and>
     op_of 0xE2008053 = 0x53 \<and> rd_of 0xE2008053 = 0 \<and> cpu_x m' 0 = 7"
  by (simp add: rv64_fp_exec_def fp_arith64_def op_of_def rd_of_def rs1_of_def f3_of_def set_x_def
      mark_fs_dirty_def Let_def)

end
