(* ===== verification/RV_Exec.thy ===== *)
theory RV_Exec
  imports RV_Fpu RV_Alu
begin

text \<open>
  \<open>rv64_step\<close> of \<open>rv64_cpu.c\<close> from the breakpoint check to the commit, one
  definition per arm of the opcode switch.

  An arm either breaks out of the switch with the next program counter, to be committed
  (\<open>Next\<close>), or has taken a trap and returned (\<open>Done\<close>).
\<close>

datatype flow = Next u64 | Done

subsection \<open>Before the switch\<close>

text \<open>\<open>WR(rd, val)\<close>.\<close>

definition WR :: "u32 \<Rightarrow> u64 \<Rightarrow> 'c vm \<Rightarrow> 'c vm" where
  "WR rd val m = m\<lparr>cpu_x := (cpu_x m)(rd := val, 0 := 0)\<rparr>"

definition break_check :: "'c vm \<Rightarrow> 'c vm undef" where
  "break_check m =
     (let d = cpu_dbg m
      in if dbg_break_active d \<and> cpu_pc m = dbg_break_pc d then do {
           slot \<leftarrow> ring_slot (dbg_break_log_count d) DBG_BREAK_LOG_SIZE;
           count \<leftarrow> int_inc (dbg_break_log_count d);
           Some (m\<lparr>cpu_dbg := d\<lparr>dbg_break_log := (dbg_break_log d)(slot :=
                     \<lparr>bk_pc = cpu_pc m, bk_x = cpu_x m, bk_f = cpu_f m, bk_sp = cpu_x m 2,
                      bk_instret = cpu_instret m\<rparr>),
                   dbg_break_log_count := count,
                   dbg_debug_halt := (dbg_break_halt d \<or> dbg_debug_halt d)\<rparr>\<rparr>)
         } else Some m)"

text \<open>The instruction word, or \<open>None\<close> where the fetch has trapped. A four-byte fetch that faults is
  tried again with two bytes.\<close>

definition fetch :: "'c vm \<Rightarrow> (u32 option \<times> 'c vm) undef" where
  "fetch m = do {
     (r, m1) \<leftarrow> rv64_cpu_load m (cpu_pc m) 4 ACCESS_EXEC;
     (case r of
        Inr insn_val \<Rightarrow> Some (Some (ucast insn_val), m1)
      | Inl exc \<Rightarrow> do {
          (r2, m2) \<leftarrow> rv64_cpu_load m1 (cpu_pc m1) 2 ACCESS_EXEC;
          (case r2 of
             Inl exc2 \<Rightarrow> do { m3 \<leftarrow> trap m2 exc2 (cpu_pc m2); Some (None, m3) }
           | Inr insn_val \<Rightarrow>
               if insn_val AND 3 = 3 then do { m3 \<leftarrow> trap m2 exc (cpu_pc m2); Some (None, m3) }
               else Some (Some (ucast insn_val), m2))
        })
   }"

definition inst_log :: "'c vm \<Rightarrow> u32 \<Rightarrow> 'c vm undef" where
  "inst_log m insn =
     (let d = cpu_dbg m in do {
        slot \<leftarrow> ring_slot (dbg_inst_log_idx d) DBG_INST_LOG_SIZE;
        idx \<leftarrow> int_inc (dbg_inst_log_idx d);
        Some (m\<lparr>cpu_dbg := d\<lparr>dbg_inst_log := (dbg_inst_log d)(slot :=
                  \<lparr>il_pc = cpu_pc m, il_insn = insn, il_instret = cpu_instret m\<rparr>),
                dbg_inst_log_idx := idx\<rparr>\<rparr>)
      })"

text \<open>The counter of the instruction's class, and \<open>exec_cycles\<close>.\<close>

definition prof_class :: "u32 \<Rightarrow> rv64_prof \<Rightarrow> rv64_prof" where
  "prof_class opcode =
     (if opcode \<in> {0x03, 0x07} then prof_insn_load_update (\<lambda>n. n + 1)
      else if opcode \<in> {0x23, 0x27} then prof_insn_store_update (\<lambda>n. n + 1)
      else if opcode = 0x63 then prof_insn_branch_update (\<lambda>n. n + 1)
      else if opcode \<in> {0x6F, 0x67} then prof_insn_jump_update (\<lambda>n. n + 1)
      else if opcode = 0x73 then prof_insn_csr_update (\<lambda>n. n + 1)
      else if opcode \<in> {0x43, 0x47, 0x4B, 0x4F, 0x53} then prof_insn_fpu_update (\<lambda>n. n + 1)
      else if opcode = 0x2F then prof_insn_atomic_update (\<lambda>n. n + 1)
      else if opcode \<in> {0x33, 0x3B, 0x13, 0x1B, 0x37, 0x17} then prof_insn_alu_update (\<lambda>n. n + 1)
      else prof_insn_other_update (\<lambda>n. n + 1))"

definition prof_step :: "u32 \<Rightarrow> 'c vm \<Rightarrow> 'c vm" where
  "prof_step opcode = cpu_prof_update (\<lambda>p. prof_exec_cycles_update (\<lambda>n. n + 1) (prof_class opcode p))"

subsection \<open>The arms of the switch\<close>

definition take_trap :: "'c vm \<Rightarrow> u64 \<Rightarrow> u64 \<Rightarrow> (flow \<times> 'c vm) undef" where
  "take_trap m exc tval = do { m1 \<leftarrow> trap m exc tval; Some (Done, m1) }"

definition illegal :: "'c vm \<Rightarrow> u32 \<Rightarrow> (flow \<times> 'c vm) undef" where
  "illegal m insn = take_trap m EXC_ILLEGAL_INSN (ucast insn)"

definition exec_branch :: "'c vm \<Rightarrow> u32 \<Rightarrow> u64 \<Rightarrow> (flow \<times> 'c vm) undef" where
  "exec_branch m insn next_pc =
     (case branch_taken (f3_of insn) (cpu_x m (rs1_of insn)) (cpu_x m (rs2_of insn)) of
        None \<Rightarrow> illegal m insn
      | Some taken \<Rightarrow> Some (Next (if taken then cpu_pc m + imm_b insn else next_pc), m))"

definition load_size :: "u32 \<Rightarrow> nat option" where
  "load_size f3 =
     (if f3 = 0 then Some 1 else if f3 = 1 then Some 2 else if f3 = 2 then Some 4 else if f3 = 3 then Some 8
      else if f3 = 4 then Some 1 else if f3 = 5 then Some 2 else if f3 = 6 then Some 4 else None)"

definition load_extend :: "u32 \<Rightarrow> u64 \<Rightarrow> u64" where
  "load_extend f3 val =
     (if f3 = 0 then scast (ucast val :: u8)
      else if f3 = 1 then scast (ucast val :: u16)
      else if f3 = 2 then scast (ucast val :: u32)
      else val)"

definition exec_load :: "'c vm \<Rightarrow> u32 \<Rightarrow> u64 \<Rightarrow> (flow \<times> 'c vm) undef" where
  "exec_load m insn next_pc =
     (let addr = cpu_x m (rs1_of insn) + imm_i insn in
      case load_size (f3_of insn) of
        None \<Rightarrow> illegal m insn
      | Some sz \<Rightarrow> do {
          (r, m1) \<leftarrow> rv64_cpu_load m addr sz ACCESS_READ;
          (case r of
             Inl exc \<Rightarrow> take_trap m1 exc addr
           | Inr val \<Rightarrow> Some (Next next_pc, WR (rd_of insn) (load_extend (f3_of insn) val) m1))
        })"

definition store_size :: "u32 \<Rightarrow> nat option" where
  "store_size f3 =
     (if f3 = 0 then Some 1 else if f3 = 1 then Some 2 else if f3 = 2 then Some 4 else if f3 = 3 then Some 8
      else None)"

definition exec_store :: "'c vm \<Rightarrow> u32 \<Rightarrow> u64 \<Rightarrow> (flow \<times> 'c vm) undef" where
  "exec_store m insn next_pc =
     (let addr = cpu_x m (rs1_of insn) + imm_s insn; val = cpu_x m (rs2_of insn) in
      case store_size (f3_of insn) of
        None \<Rightarrow> illegal m insn
      | Some sz \<Rightarrow> do {
          (r, m1) \<leftarrow> cpu_store m addr sz val;
          (case r of Inl exc \<Rightarrow> take_trap m1 exc addr | Inr _ \<Rightarrow> Some (Next next_pc, m1))
        })"

definition exec_op_imm :: "'c vm \<Rightarrow> u32 \<Rightarrow> u64 \<Rightarrow> (flow \<times> 'c vm) undef" where
  "exec_op_imm m insn next_pc =
     Some (Next next_pc, WR (rd_of insn) (alu_imm (f3_of insn) (f7_of insn) (unat (shr insn 20 AND 0x3F))
       (cpu_x m (rs1_of insn)) (imm_i insn)) m)"

definition exec_op :: "'c vm \<Rightarrow> u32 \<Rightarrow> u64 \<Rightarrow> (flow \<times> 'c vm) undef" where
  "exec_op m insn next_pc = do {
     result \<leftarrow> alu_reg (f7_of insn) (f3_of insn) (cpu_x m (rs1_of insn)) (cpu_x m (rs2_of insn));
     Some (Next next_pc, WR (rd_of insn) result m)
   }"

definition exec_op_imm_32 :: "'c vm \<Rightarrow> u32 \<Rightarrow> u64 \<Rightarrow> (flow \<times> 'c vm) undef" where
  "exec_op_imm_32 m insn next_pc =
     (case alu_imm_w (f3_of insn) (f7_of insn) (unat (shr insn 20 AND 0x1F))
             (ucast (cpu_x m (rs1_of insn))) (imm_i insn) of
        Inl _ \<Rightarrow> illegal m insn
      | Inr result32 \<Rightarrow> Some (Next next_pc, WR (rd_of insn) (scast result32) m))"

definition exec_op_32 :: "'c vm \<Rightarrow> u32 \<Rightarrow> u64 \<Rightarrow> (flow \<times> 'c vm) undef" where
  "exec_op_32 m insn next_pc = do {
     r \<leftarrow> alu_reg_w (f7_of insn) (f3_of insn) (ucast (cpu_x m (rs1_of insn))) (ucast (cpu_x m (rs2_of insn)));
     (case r of
        Inl _ \<Rightarrow> illegal m insn
      | Inr result32 \<Rightarrow> Some (Next next_pc, WR (rd_of insn) (scast result32) m))
   }"

text \<open>Load-reserved, store-conditional and the read-modify-write operations: each starts with a load.\<close>

definition amo_store :: "'c vm \<Rightarrow> u64 \<Rightarrow> nat \<Rightarrow> u64 \<Rightarrow> ('c vm \<Rightarrow> 'c vm) \<Rightarrow> u64 \<Rightarrow> (flow \<times> 'c vm) undef" where
  "amo_store m addr sz val fin next_pc = do {
     (r, m1) \<leftarrow> cpu_store m addr sz val;
     (case r of Inl exc \<Rightarrow> take_trap m1 exc addr | Inr _ \<Rightarrow> Some (Next next_pc, fin m1))
   }"

definition rsv_set :: "u64 \<Rightarrow> 'c vm \<Rightarrow> 'c vm" where
  "rsv_set addr m = m\<lparr>cpu_reservation := \<lparr>rsv_valid = True, rsv_addr = addr\<rparr>\<rparr>"

definition rsv_clear :: "'c vm \<Rightarrow> 'c vm" where
  "rsv_clear m = m\<lparr>cpu_reservation := (cpu_reservation m)\<lparr>rsv_valid := False\<rparr>\<rparr>"

definition exec_amo :: "'c vm \<Rightarrow> u32 \<Rightarrow> u64 \<Rightarrow> (flow \<times> 'c vm) undef" where
  "exec_amo m insn next_pc =
     (let addr = cpu_x m (rs1_of insn); is_64 = (f3_of insn = 3); sz = (if is_64 then 8 else 4);
          f5 = shr (f7_of insn) 2; rd = rd_of insn
      in do {
        (r, m1) \<leftarrow> rv64_cpu_load m addr sz ACCESS_READ;
        (case r of
           Inl exc \<Rightarrow> take_trap m1 exc addr
         | Inr val \<Rightarrow>
             (let loaded = (if is_64 then val else scast (ucast val :: u32)); src = cpu_x m1 (rs2_of insn) in
              if f5 = 0x02 then Some (Next next_pc, WR rd loaded (rsv_set addr m1))
              else if f5 = 0x03 then
                (if rsv_valid (cpu_reservation m1) \<and> rsv_addr (cpu_reservation m1) = addr
                 then amo_store m1 addr sz src (\<lambda>m2. rsv_clear (WR rd 0 m2)) next_pc
                 else Some (Next next_pc, rsv_clear (WR rd 1 m1)))
              else (case amo_result f5 loaded src of
                      None \<Rightarrow> illegal m1 insn
                    | Some result \<Rightarrow> amo_store m1 addr sz result (WR rd loaded) next_pc)))
      })"

definition exec_fence :: "'c vm \<Rightarrow> u32 \<Rightarrow> u64 \<Rightarrow> (flow \<times> 'c vm) undef" where
  "exec_fence m insn next_pc =
     Some (Next next_pc,
       if f3_of insn = 1 then m\<lparr>cpu_jit := map_option jit_flush (cpu_jit m)\<rparr> else m)"

text \<open>\<open>ECALL\<close> breaks out of the switch at a privilege that does not exist.\<close>

definition exec_ecall :: "'c vm \<Rightarrow> u64 \<Rightarrow> (flow \<times> 'c vm) undef" where
  "exec_ecall m next_pc =
     (if cpu_priv m = PRIV_U then take_trap m EXC_ECALL_U 0
      else if cpu_priv m = PRIV_S then take_trap m EXC_ECALL_S 0
      else if cpu_priv m = PRIV_M then take_trap m EXC_ECALL_M 0
      else Some (Next next_pc, m))"

definition exec_priv :: "'c vm \<Rightarrow> u32 \<Rightarrow> u64 \<Rightarrow> (flow \<times> 'c vm) undef" where
  "exec_priv m insn next_pc =
     (if insn = 0x00000073 then exec_ecall m next_pc
      else if insn = 0x00100073 then take_trap m EXC_BREAKPOINT (cpu_pc m)
      else if insn = 0x30200073 then
        (if cpu_priv m < PRIV_M then illegal m insn
         else Some (Next (fst (mret m)), snd (mret m)))
      else if insn = 0x10200073 then
        (if cpu_priv m < PRIV_S then illegal m insn
         else Some (Next (fst (sret m)), snd (sret m)))
      else if insn = 0x10500073 then Some (Next next_pc, m\<lparr>cpu_halted := True\<rparr>)
      else if f7_of insn = 0x09 then Some (Next next_pc, rv64_tlb_flush m)
      else illegal m insn)"

definition csr_new_val :: "u32 \<Rightarrow> u64 \<Rightarrow> u64 \<Rightarrow> u64" where
  "csr_new_val f3 old_val src =
     (if f3 AND 3 = 1 then src
      else if f3 AND 3 = 2 then old_val OR src
      else if f3 AND 3 = 3 then old_val AND NOT src
      else old_val)"

text \<open>A write that \<open>csr_write\<close> refuses is ignored.\<close>

definition csr_update :: "'c vm \<Rightarrow> u32 \<Rightarrow> u64 \<Rightarrow> 'c vm" where
  "csr_update m csr_addr new_val =
     (let prev_mstatus = cpu_mstatus m;
          m1 = (case csr_write m csr_addr new_val of Inl _ \<Rightarrow> m | Inr m' \<Rightarrow> m')
      in if (csr_addr = CSR_SSTATUS \<or> csr_addr = CSR_MSTATUS) \<and> prev_mstatus AND MSTATUS_SIE = 0 \<and>
            cpu_mstatus m1 AND MSTATUS_SIE \<noteq> 0
         then m1\<lparr>cpu_pending_irq_check := True\<rparr> else m1)"

definition exec_csr :: "'c vm \<Rightarrow> u32 \<Rightarrow> u64 \<Rightarrow> (flow \<times> 'c vm) undef" where
  "exec_csr m insn next_pc =
     (let csr_addr = shr insn 20 AND 0xFFF; f3 = f3_of insn in
      case csr_read m csr_addr of
        Inl _ \<Rightarrow> illegal m insn
      | Inr old_val \<Rightarrow>
          (let src = (if f3 AND 4 \<noteq> 0 then ucast (rs1_of insn) else cpu_x m (rs1_of insn));
               m1 = (if f3 AND 3 = 1 \<or> src \<noteq> 0 then csr_update m csr_addr (csr_new_val f3 old_val src) else m)
           in Some (Next next_pc, WR (rd_of insn) old_val m1)))"

definition exec_fp :: "host_fp \<Rightarrow> 'c vm \<Rightarrow> u32 \<Rightarrow> u64 \<Rightarrow> (flow \<times> 'c vm) undef" where
  "exec_fp hf m insn next_pc = do {
     (fp_rc, m1) \<leftarrow> rv64_fp_exec hf m insn;
     (case fp_rc of
        FP_UNIMPLEMENTED \<Rightarrow> illegal m1 insn
      | FP_TRAPPED \<Rightarrow> Some (Done, m1)
      | FP_OK \<Rightarrow> Some (Next next_pc, m1))
   }"

subsection \<open>The step\<close>

definition exec :: "host_fp \<Rightarrow> 'c vm \<Rightarrow> u32 \<Rightarrow> u64 \<Rightarrow> (flow \<times> 'c vm) undef" where
  "exec hf m insn next_pc =
     (let opcode = op_of insn; rd = rd_of insn in
      if opcode = 0x37 then Some (Next next_pc, WR rd (imm_u insn) m)
      else if opcode = 0x17 then Some (Next next_pc, WR rd (cpu_pc m + imm_u insn) m)
      else if opcode = 0x6F then Some (Next (cpu_pc m + imm_j insn), WR rd next_pc m)
      else if opcode = 0x67 then
        Some (Next ((cpu_x m (rs1_of insn) + imm_i insn) AND NOT 1), WR rd next_pc m)
      else if opcode = 0x63 then exec_branch m insn next_pc
      else if opcode = 0x03 then exec_load m insn next_pc
      else if opcode = 0x23 then exec_store m insn next_pc
      else if opcode = 0x13 then exec_op_imm m insn next_pc
      else if opcode = 0x33 then exec_op m insn next_pc
      else if opcode = 0x1B then exec_op_imm_32 m insn next_pc
      else if opcode = 0x3B then exec_op_32 m insn next_pc
      else if opcode = 0x2F then exec_amo m insn next_pc
      else if opcode = 0x0F then exec_fence m insn next_pc
      else if opcode = 0x73 then
        (if f3_of insn = 0 then exec_priv m insn next_pc else exec_csr m insn next_pc)
      else if opcode \<in> {0x07, 0x27, 0x43, 0x47, 0x4B, 0x4F, 0x53} then exec_fp hf m insn next_pc
      else illegal m insn)"

definition commit :: "flow \<Rightarrow> 'c vm \<Rightarrow> 'c vm" where
  "commit fl m =
     (case fl of
        Next next_pc \<Rightarrow> m\<lparr>cpu_pc := next_pc, cpu_instret := cpu_instret m + 1, cpu_cycle := cpu_cycle m + 1\<rparr>
      | Done \<Rightarrow> m)"

text \<open>From a fetched word to the end: expansion of 16-bit instructions, the switch, the commit.\<close>

definition exec_word :: "host_fp \<Rightarrow> 'c vm \<Rightarrow> u32 \<Rightarrow> 'c vm undef" where
  "exec_word hf m word =
     (if word AND 3 \<noteq> 3 then
        (case rvc_expand (ucast word) of
           None \<Rightarrow> trap m EXC_ILLEGAL_INSN (ucast (ucast word :: u16))
         | Some insn \<Rightarrow> do {
             (fl, m1) \<leftarrow> exec hf (prof_step (op_of insn) m) insn (cpu_pc m + 2);
             Some (commit fl m1)
           })
      else do {
        (fl, m1) \<leftarrow> exec hf (prof_step (op_of word) m) word (cpu_pc m + 4);
        Some (commit fl m1)
      })"

definition rv64_step :: "host_fp \<Rightarrow> 'c vm \<Rightarrow> 'c vm undef" where
  "rv64_step hf m =
     (if cpu_halted m then Some m
      else do {
        m1 \<leftarrow> break_check m;
        (w, m2) \<leftarrow> fetch m1;
        (case w of
           None \<Rightarrow> Some m2
         | Some word \<Rightarrow> do {
             m3 \<leftarrow> inst_log m2 word;
             exec_word hf m3 word
           })
      })"

subsection \<open>Invariants of the machine\<close>

text \<open>
  What a property of the machine has to respect to hold along every execution: one law per primitive
  state change of the interpreter. \<open>X\<close> says which integer registers the floating point unit may write,
  since it is the only part that bypasses \<open>WR\<close>.
\<close>

definition all_results :: "('c vm \<Rightarrow> bool) \<Rightarrow> ('a \<times> 'c vm) undef \<Rightarrow> bool" where
  "all_results I r \<longleftrightarrow> (\<forall>y m'. r = Some (y, m') \<longrightarrow> I m')"

text \<open>The 32-bit instruction that the next step executes, if it gets that far.\<close>

definition step_insn :: "'c vm \<Rightarrow> u32 option" where
  "step_insn m =
     (if cpu_halted m then None
      else (case break_check m of
              None \<Rightarrow> None
            | Some m1 \<Rightarrow> (case fetch m1 of
                Some (Some word, _) \<Rightarrow> if word AND 3 \<noteq> 3 then rvc_expand (ucast word) else Some word
              | _ \<Rightarrow> None)))"

locale exec_invariant =
  fixes I :: "'c vm \<Rightarrow> bool" and X :: "u32 \<Rightarrow> bool"
  assumes load: "I m \<Longrightarrow> rv64_cpu_load m v sz acc = Some (r, m') \<Longrightarrow> I m'"
    and store: "I m \<Longrightarrow> cpu_store m v sz val = Some (r', m') \<Longrightarrow> I m'"
    and trapped: "I m \<Longrightarrow> trap m cause tval = Some m' \<Longrightarrow> I m'"
    and csr: "I m \<Longrightarrow> csr_write m a val = Inr m' \<Longrightarrow> I m'"
    and wr: "I m \<Longrightarrow> I (WR rd val m)"
    and fp_set_x: "I m \<Longrightarrow> X rd \<Longrightarrow> I (set_x rd val m)"
    and fp_regs: "I m \<Longrightarrow> I (m\<lparr>cpu_f := fs\<rparr>)"
    and fp_dirty: "I m \<Longrightarrow> I (mark_fs_dirty m)"
    and m_return: "I m \<Longrightarrow> \<not> cpu_priv m < PRIV_M \<Longrightarrow> I (snd (mret m))"
    and s_return: "I m \<Longrightarrow> \<not> cpu_priv m < PRIV_S \<Longrightarrow> I (snd (sret m))"
    and flush: "I m \<Longrightarrow> I (rv64_tlb_flush m)"
    and jit: "I m \<Longrightarrow> I (m\<lparr>cpu_jit := map_option jit_flush (cpu_jit m)\<rparr>)"
    and halt: "I m \<Longrightarrow> I (m\<lparr>cpu_halted := h\<rparr>)"
    and pending: "I m \<Longrightarrow> I (m\<lparr>cpu_pending_irq_check := h\<rparr>)"
    and reservation: "I m \<Longrightarrow> I (m\<lparr>cpu_reservation := rsv\<rparr>)"
    and debug: "I m \<Longrightarrow> I (m\<lparr>cpu_dbg := d\<rparr>)"
    and prof: "I m \<Longrightarrow> I (cpu_prof_update g m)"
begin

lemma keeps_Some: "I m \<Longrightarrow> all_results I (Some (y, m))"
  by (simp add: all_results_def)

lemma keeps_if: "(P \<Longrightarrow> all_results I a) \<Longrightarrow> (\<not> P \<Longrightarrow> all_results I b) \<Longrightarrow> all_results I (if P then a else b)"
  by simp

lemma keeps_option: "all_results I a \<Longrightarrow> (\<And>v. all_results I (b v)) \<Longrightarrow> all_results I (case x of None \<Rightarrow> a | Some v \<Rightarrow> b v)"
  by (cases x) simp_all

lemma keeps_sum: "(\<And>v. all_results I (a v)) \<Longrightarrow> (\<And>v. all_results I (b v)) \<Longrightarrow> all_results I (case x of Inl v \<Rightarrow> a v | Inr v \<Rightarrow> b v)"
  by (cases x) simp_all

lemma keeps_bind: "all_results I x \<Longrightarrow> (\<And>y m. I m \<Longrightarrow> all_results I (f y m)) \<Longrightarrow> all_results I (x \<bind> (\<lambda>(y, m). f y m))"
  by (cases x) (auto simp: all_results_def)

lemma keeps_bind_value: "(\<And>v. all_results I (f v)) \<Longrightarrow> all_results I ((x :: 'b option) \<bind> f)"
  by (cases x) (auto simp: all_results_def)

lemma keeps_load: "I m \<Longrightarrow> all_results I (rv64_cpu_load m v sz acc)"
  unfolding all_results_def using load by blast

lemma keeps_store: "I m \<Longrightarrow> all_results I (cpu_store m v sz val)"
  unfolding all_results_def using store by blast

lemma keeps_trap: "I m \<Longrightarrow> all_results I (do { m1 \<leftarrow> trap m exc tval; Some (y, m1) })"
  unfolding all_results_def by (auto simp: bind_eq_Some_conv dest: trapped)

lemma keeps_take_trap: "I m \<Longrightarrow> all_results I (take_trap m exc tval)"
  unfolding take_trap_def by (rule keeps_trap)

lemma keeps_illegal: "I m \<Longrightarrow> all_results I (illegal m insn)"
  unfolding illegal_def by (rule keeps_take_trap)

lemmas keeps_rules = keeps_Some keeps_if keeps_option keeps_sum keeps_bind keeps_load keeps_store keeps_trap
  keeps_take_trap keeps_illegal wr

lemma keeps_fp_load: "I m \<Longrightarrow> all_results I (fp_load m insn)"
  unfolding fp_load_def Let_def rv64_jit_load_def rv64_trap_def
  by (intro keeps_rules fp_regs)

lemma keeps_fp_store: "I m \<Longrightarrow> all_results I (fp_store m insn)"
  unfolding fp_store_def Let_def rv64_jit_store_def rv64_trap_def
  by (intro keeps_rules)

lemma keeps_wr_f: "I m \<Longrightarrow> I (wr_f r w m)" "I m \<Longrightarrow> I (wr_d r v m)"
  unfolding wr_f_def wr_d_def by (erule fp_regs)+

lemma keeps_fp_fma: "I m \<Longrightarrow> all_results I (Some (fp_fma hf m insn))"
  unfolding fp_fma_def Let_def by (auto intro: keeps_Some keeps_wr_f)

lemma keeps_fp_arith32: "I m \<Longrightarrow> X (rd_of insn) \<Longrightarrow> all_results I (fp_arith32 hf m insn)"
  unfolding fp_arith32_def Let_def
  by (intro keeps_Some keeps_if keeps_option keeps_bind_value keeps_wr_f fp_set_x fp_regs)

lemma keeps_fp_arith64: "I m \<Longrightarrow> X (rd_of insn) \<Longrightarrow> all_results I (fp_arith64 hf m insn)"
  unfolding fp_arith64_def Let_def
  by (intro keeps_Some keeps_if keeps_option keeps_bind_value keeps_wr_f fp_set_x keeps_fp_arith32)

lemma keeps_fp_exec:
  assumes "I m" "op_of insn = 0x53 \<longrightarrow> X (rd_of insn)"
  shows "all_results I (rv64_fp_exec hf m insn)"
  unfolding rv64_fp_exec_def Let_def
  by (intro keeps_if keeps_fp_load keeps_fp_store keeps_fp_fma keeps_fp_arith64 keeps_Some fp_dirty)
    (use assms in auto)

lemma keeps_exec_fp:
  assumes "I m" "op_of insn = 0x53 \<longrightarrow> X (rd_of insn)"
  shows "all_results I (exec_fp hf m insn next_pc)"
  unfolding exec_fp_def
  by (rule keeps_bind [OF keeps_fp_exec [OF assms]]) (auto intro: keeps_Some keeps_illegal split: fp_rc.split)

lemma keeps_exec_load: "I m \<Longrightarrow> all_results I (exec_load m insn next_pc)"
  unfolding exec_load_def Let_def by (intro keeps_rules)

lemma keeps_exec_store: "I m \<Longrightarrow> all_results I (exec_store m insn next_pc)"
  unfolding exec_store_def Let_def by (intro keeps_rules)

lemma keeps_exec_branch: "I m \<Longrightarrow> all_results I (exec_branch m insn next_pc)"
  unfolding exec_branch_def by (intro keeps_rules)

lemma keeps_exec_alu:
  "I m \<Longrightarrow> all_results I (exec_op_imm m insn next_pc)" "I m \<Longrightarrow> all_results I (exec_op m insn next_pc)"
  "I m \<Longrightarrow> all_results I (exec_op_imm_32 m insn next_pc)" "I m \<Longrightarrow> all_results I (exec_op_32 m insn next_pc)"
  unfolding exec_op_imm_def exec_op_def exec_op_imm_32_def exec_op_32_def
  by (intro keeps_bind_value keeps_rules; assumption)+

lemma keeps_amo_store: "I m \<Longrightarrow> (\<And>m'. I m' \<Longrightarrow> I (fin m')) \<Longrightarrow> all_results I (amo_store m addr sz val fin next_pc)"
  unfolding amo_store_def by (intro keeps_rules)

lemma rsv_kept: "I m \<Longrightarrow> I (rsv_set addr m)" "I m \<Longrightarrow> I (rsv_clear m)"
  unfolding rsv_set_def rsv_clear_def by (erule reservation)+

lemma keeps_exec_amo: "I m \<Longrightarrow> all_results I (exec_amo m insn next_pc)"
  unfolding exec_amo_def Let_def by (intro keeps_rules keeps_amo_store rsv_kept)

lemma keeps_exec_fence: "I m \<Longrightarrow> all_results I (exec_fence m insn next_pc)"
  unfolding exec_fence_def by (auto intro: keeps_Some jit)

lemma keeps_exec_priv: "I m \<Longrightarrow> all_results I (exec_priv m insn next_pc)"
  unfolding exec_priv_def exec_ecall_def
  by (intro keeps_Some keeps_if keeps_take_trap keeps_illegal m_return s_return halt flush)

lemma csr_updated: "I m \<Longrightarrow> I (csr_update m a val)"
  unfolding csr_update_def Let_def by (auto intro: pending csr split: sum.split)

lemma keeps_exec_csr: "I m \<Longrightarrow> all_results I (exec_csr m insn next_pc)"
  unfolding exec_csr_def Let_def by (auto intro!: keeps_Some keeps_illegal wr csr_updated split: sum.split)

lemma keeps_exec:
  assumes "I m" "op_of insn = 0x53 \<longrightarrow> X (rd_of insn)"
  shows "all_results I (exec hf m insn next_pc)"
  unfolding exec_def Let_def using assms
  by (intro keeps_Some keeps_if wr keeps_exec_branch keeps_exec_load keeps_exec_store keeps_exec_alu
      keeps_exec_amo keeps_exec_fence keeps_exec_priv keeps_exec_csr keeps_exec_fp keeps_illegal)

lemma keeps_fetch: "I m \<Longrightarrow> all_results I (fetch m)"
  unfolding fetch_def by (intro keeps_rules)

lemma keeps_exec_prof:
  assumes "I m" "op_of insn = 0x53 \<longrightarrow> X (rd_of insn)" "exec hf (prof_step code m) insn next_pc = Some (fl, m')"
  shows "I m'"
proof -
  have "I (prof_step code m)" unfolding prof_step_def using assms(1) by (rule prof)
  then show ?thesis using keeps_exec [OF _ assms(2)] assms(3) unfolding all_results_def by blast
qed

lemma break_check_kept: "I m \<Longrightarrow> break_check m = Some m' \<Longrightarrow> I m'"
  by (auto simp: break_check_def Let_def bind_eq_Some_conv intro: debug split: if_splits)

lemma inst_log_kept: "I m \<Longrightarrow> inst_log m w = Some m' \<Longrightarrow> I m'"
  by (auto simp: inst_log_def Let_def bind_eq_Some_conv intro: debug)

text \<open>Up to the commit, every state a step goes through satisfies the invariant.\<close>

lemma exec_word_shape:
  assumes "I m" "exec_word hf m word = Some m'"
    and "\<And>insn. (if word AND 3 \<noteq> 3 then rvc_expand (ucast word) else Some word) = Some insn \<Longrightarrow>
      op_of insn = 0x53 \<longrightarrow> X (rd_of insn)"
  obtains fl m1 where "m' = commit fl m1" "I m1"
proof -
  consider "trap m EXC_ILLEGAL_INSN (ucast (ucast word :: u16)) = Some m'"
    | code insn next_pc fl m1 where "exec hf (prof_step code m) insn next_pc = Some (fl, m1)" "m' = commit fl m1"
        "(if word AND 3 \<noteq> 3 then rvc_expand (ucast word) else Some word) = Some insn"
    using assms(2) by (auto simp: exec_word_def bind_eq_Some_conv split: if_splits option.splits)
  then show thesis
  proof cases
    case 1
    with trapped [OF assms(1)] show thesis by (intro that [of Done m']) (simp_all add: commit_def)
  next
    case 2
    with keeps_exec_prof [OF assms(1) assms(3)] show thesis by (intro that)
  qed
qed

lemma step_shape:
  assumes "I m" "rv64_step hf m = Some m'"
    and "\<And>insn. step_insn m = Some insn \<Longrightarrow> op_of insn = 0x53 \<Longrightarrow> X (rd_of insn)"
  obtains fl m1 where "m' = commit fl m1" "I m1"
proof (cases "cpu_halted m")
  case True
  with assms show thesis by (intro that [of Done m]) (simp_all add: rv64_step_def commit_def)
next
  case False
  then obtain m1 w m2 where m1: "break_check m = Some m1" and m2: "fetch m1 = Some (w, m2)"
    and rest: "(case w of None \<Rightarrow> Some m2 | Some word \<Rightarrow> inst_log m2 word \<bind> (\<lambda>m3. exec_word hf m3 word)) = Some m'"
    using assms(2) by (auto simp: rv64_step_def bind_eq_Some_conv)
  have I2: "I m2"
    using keeps_fetch [OF break_check_kept [OF assms(1) m1]] m2 unfolding all_results_def by blast
  show thesis
  proof (cases w)
    case None
    with rest I2 show thesis by (intro that [of Done m2]) (simp_all add: commit_def)
  next
    case (Some word)
    with rest obtain m3 where m3: "inst_log m2 word = Some m3" and x: "exec_word hf m3 word = Some m'"
      by (auto simp: bind_eq_Some_conv)
    have "op_of insn = 0x53 \<longrightarrow> X (rd_of insn)"
      if "(if word AND 3 \<noteq> 3 then rvc_expand (ucast word) else Some word) = Some insn" for insn
      using assms(3) [of insn] that False m1 m2 Some by (auto simp: step_insn_def)
    from exec_word_shape [OF inst_log_kept [OF I2 m3] x this] that show thesis by blast
  qed
qed

end

text \<open>A property that the commit also respects holds after every step.\<close>

locale step_invariant = exec_invariant +
  assumes committed: "I m \<Longrightarrow> I (m\<lparr>cpu_pc := pc, cpu_instret := ir, cpu_cycle := cy\<rparr>)"
begin

lemma step_kept:
  assumes "I m" "rv64_step hf m = Some m'"
    and "\<And>insn. step_insn m = Some insn \<Longrightarrow> op_of insn = 0x53 \<Longrightarrow> X (rd_of insn)"
  shows "I m'"
proof -
  obtain fl m1 where "m' = commit fl m1" "I m1" using step_shape [OF assms] by blast
  then show ?thesis by (cases fl) (simp_all add: commit_def committed)
qed

end

text \<open>The TLB invariant together with the range of the privilege level.\<close>

definition vm_inv :: "'c vm \<Rightarrow> bool" where
  "vm_inv m \<longleftrightarrow> tlb_inv m \<and> cpu_priv m < 4"

lemma leave_priv_range: "snd (m_leave_status st) < 4" "snd (s_leave_status st) < 4"
proof -
  have a: "ucast (w AND 3 :: u64) < (4 :: u8)" "ucast (w AND 1 :: u64) < (4 :: u8)" for w
  proof -
    have "w AND 3 \<le> 3" "w AND 1 \<le> 1" by (rule word_and_le1)+
    then have "unat (w AND 3) \<le> 3" "unat (w AND 1) \<le> 1" by (simp_all add: word_le_nat_alt)
    then show "ucast (w AND 3 :: u64) < (4 :: u8)" "ucast (w AND 1 :: u64) < (4 :: u8)"
      by (simp_all add: word_less_nat_alt unsigned_ucast_eq take_bit_nat_eq_self)
  qed
  show "snd (m_leave_status st) < 4" "snd (s_leave_status st) < 4"
    by (simp_all only: m_leave_status_def s_leave_status_def Let_def snd_conv a)
qed

lemma return_frames:
  "tlb_inv (snd (mret m)) = tlb_inv m" "tlb_inv (snd (sret m)) = tlb_inv m"
  "cpu_priv (snd (mret m)) < 4" "cpu_priv (snd (sret m)) < 4"
  "cpu_x (snd (mret m)) = cpu_x m" "cpu_x (snd (sret m)) = cpu_x m"
  using leave_priv_range
  by (simp_all add: mret_def sret_def Let_def split_beta)

lemma trap_frames:
  assumes "trap m cause tval = Some m'"
  shows "cpu_priv m' < 4" "cpu_x m' = cpu_x m"
  using assms by (cases rule: trap_cases; simp)+

interpretation safe: step_invariant "vm_inv :: 'c vm \<Rightarrow> bool" "\<lambda>_. True"
proof
  fix m m' :: "'c vm" and v sz acc r r' val cause tval a
  assume inv: "vm_inv m"
  show "vm_inv m'" if "rv64_cpu_load m v sz acc = Some (r, m')"
    using rv64_cpu_load_same [OF that] inv by (auto simp: vm_inv_def mmu_same_fields)
  show "vm_inv m'" if "cpu_store m v sz val = Some (r', m')"
    using cpu_store_same [OF that] inv by (auto simp: vm_inv_def mem_same_fields)
  show "vm_inv m'" if "trap m cause tval = Some m'"
    using trap_inv [OF that] trap_frames [OF that] inv by (simp add: vm_inv_def)
  show "vm_inv m'" if "csr_write m a val = Inr m'"
    using csr_write_inv [OF that] csr_write_frame [OF that] inv by (simp add: vm_inv_def)
  show "vm_inv (rv64_tlb_flush m)"
    using inv rv64_tlb_flush_inv [of m] by (simp add: vm_inv_def tlb_inv_def rv64_tlb_flush_def)
qed (auto simp: vm_inv_def WR_def set_x_def mark_fs_dirty_def return_frames)

interpretation x0_zero: step_invariant "\<lambda>m :: 'c vm. cpu_x m 0 = 0" "\<lambda>r. r \<noteq> 0"
proof
  fix m m' :: "'c vm" and v sz acc r r' val cause tval a
  assume inv: "cpu_x m 0 = 0"
  show "cpu_x m' 0 = 0" if "rv64_cpu_load m v sz acc = Some (r, m')"
    using rv64_cpu_load_same [OF that] inv by (auto simp: mmu_same_fields)
  show "cpu_x m' 0 = 0" if "cpu_store m v sz val = Some (r', m')"
    using cpu_store_same [OF that] inv by (auto simp: mem_same_fields)
  show "cpu_x m' 0 = 0" if "trap m cause tval = Some m'"
    using trap_frames [OF that] inv by simp
  show "cpu_x m' 0 = 0" if "csr_write m a val = Inr m'"
    using csr_write_frame [OF that] inv by simp
qed (auto simp: WR_def set_x_def mark_fs_dirty_def return_frames rv64_tlb_flush_def)

text \<open>C1. Every step of the interpreter keeps the machine safe: the TLB invariant (each valid entry
  translates its page consistently and points inside guest RAM, the last frame apart) and a
  privilege level below 4 are preserved by any instruction, trap or fetch fault.\<close>

theorem step_preserves_vm_inv:
  assumes "vm_inv m" "rv64_step hf m = Some m'"
  shows "vm_inv m'"
  using safe.step_kept [OF assms] by simp

text \<open>C38. \<open>x0\<close> stays zero through every step whose instruction is not a floating point operation with
  destination register 0.\<close>

theorem step_preserves_x0:
  assumes "cpu_x m 0 = 0" "rv64_step hf m = Some m'"
    and "\<forall>insn. step_insn m = Some insn \<longrightarrow> op_of insn = 0x53 \<longrightarrow> rd_of insn \<noteq> 0"
  shows "cpu_x m' 0 = 0"
  using x0_zero.step_kept [OF assms(1,2)] assms(3) by blast

text \<open>The counters before the commit.\<close>

interpretation counters: exec_invariant "\<lambda>m :: 'c vm. cpu_instret m = k \<and> cpu_cycle m = c" "\<lambda>_. True"
proof
  fix m m' :: "'c vm" and v sz acc r r' val cause tval a
  assume inv: "cpu_instret m = k \<and> cpu_cycle m = c"
  show "cpu_instret m' = k \<and> cpu_cycle m' = c" if "rv64_cpu_load m v sz acc = Some (r, m')"
    using rv64_cpu_load_same [OF that] inv by (auto simp: mmu_same_fields)
  show "cpu_instret m' = k \<and> cpu_cycle m' = c" if "cpu_store m v sz val = Some (r', m')"
    using cpu_store_same [OF that] inv by (auto simp: mem_same_fields)
  show "cpu_instret m' = k \<and> cpu_cycle m' = c" if "trap m cause tval = Some m'"
    using that inv by (cases rule: trap_cases) simp_all
  show "cpu_instret m' = k \<and> cpu_cycle m' = c" if "csr_write m a val = Inr m'"
    using csr_write_frame [OF that] inv by simp
qed (auto simp: WR_def set_x_def mark_fs_dirty_def mret_def sret_def Let_def split_beta rv64_tlb_flush_def)

text \<open>The counters: a step either completes one instruction and advances both \<open>instret\<close> and
  \<open>cycle\<close> by one, or leaves both alone.\<close>

theorem step_counts:
  assumes "rv64_step hf m = Some m'"
  shows "(cpu_instret m', cpu_cycle m') \<in>
    {(cpu_instret m, cpu_cycle m), (cpu_instret m + 1, cpu_cycle m + 1)}"
proof -
  obtain fl m1 where "m' = commit fl m1" "cpu_instret m1 = cpu_instret m \<and> cpu_cycle m1 = cpu_cycle m"
    by (rule counters.step_shape [of m "cpu_instret m" "cpu_cycle m", OF _ assms]) blast+
  then show ?thesis by (cases fl) (simp_all add: commit_def)
qed

subsection \<open>A machine with one instruction\<close>

definition insn_vm :: "u32 \<Rightarrow> unit vm" where
  "insn_vm w = bare_vm (store_le (\<lambda>_. 0) 0 4 (ucast w)) 0x10000"

lemma insn_vm_simps [simp]:
  "cpu_pc (insn_vm w) = 0x80000000" "cpu_priv (insn_vm w) = PRIV_M" "cpu_halted (insn_vm w) = False"
  "cpu_x (insn_vm w) = (\<lambda>_. 0)" "cpu_instret (insn_vm w) = 0" "cpu_cycle (insn_vm w) = 0"
  "cpu_tlb (insn_vm w) = (\<lambda>_. zero_tlb_entry)" "cpu_ram_size (insn_vm w) = 0x10000"
  "vm_ram (insn_vm w) = Some (store_le (\<lambda>_. 0) 0 4 (ucast w))" "cpu_dbg (insn_vm w) = zero_dbg"
  by (simp_all add: insn_vm_def bare_vm_simps)

lemma insn_vm_inv: "vm_inv (insn_vm w)"
  by (simp add: vm_inv_def tlb_inv_def ram_ok_def tlb_entry_ok_def zero_tlb_entry_def dvd_def)

lemma ucast_take_32: "ucast (take_bit 32 (ucast (w :: u32) :: u64)) = w"
  by (rule bit_word_eqI) (auto simp: bit_simps)

lemma insn_vm_fetch: "fetch (insn_vm w) = Some (Some w, insn_vm w)"
  by (simp add: fetch_def rv64_cpu_load_def fast_load_ok_def tlb_slot_def zero_tlb_entry_def Let_def cpu_load_slow_def
    crosses_page_def rv64_translate_def bus_load_def ram_hit_def ram_load_def bus_size_def load_store_le in_block_def ucast_take_32)

lemma insn_vm_step:
  assumes "w AND 3 = 3"
  shows "\<exists>d. rv64_step hf (insn_vm w) = do {
      (fl, m1) \<leftarrow> exec hf (prof_step (op_of w) ((insn_vm w)\<lparr>cpu_dbg := d\<rparr>)) w 0x80000004;
      Some (commit fl m1) }"
  using assms
  by (simp add: rv64_step_def break_check_def zero_dbg_def insn_vm_fetch inst_log_def exec_word_def Let_def)
    blast

text \<open>\<open>ADDI x1, x0, 5\<close>.\<close>

lemma insn_vm_addi:
  "\<exists>m'. rv64_step hf (insn_vm 0x00500093) = Some m' \<and> cpu_x m' = (\<lambda>_. 0)(1 := 5) \<and> cpu_pc m' = 0x80000004 \<and>
     cpu_instret m' = 1"
  using insn_vm_step [of "0x00500093" hf]
  by (auto simp: exec_def op_of_def rd_of_def f3_of_def rs1_of_def exec_op_imm_def alu_imm_def imm_i_def
      sign_extend_def prof_step_def WR_def commit_def Let_def fun_eq_iff)

theorem step_preserves_vm_inv_witness:
  "\<exists>m'. rv64_step undefined (insn_vm 0x00500093) = Some m' \<and> cpu_x m' 1 = 5 \<and> vm_inv m'"
proof -
  obtain m' where m': "rv64_step undefined (insn_vm 0x00500093) = Some m'" "cpu_x m' = (\<lambda>_. 0)(1 := 5)"
    using insn_vm_addi by blast
  from step_preserves_vm_inv [OF insn_vm_inv m'(1)] m' show ?thesis by auto
qed

lemma insn_vm_insn: "w AND 3 = 3 \<Longrightarrow> step_insn (insn_vm w) = Some w"
  by (simp add: step_insn_def break_check_def zero_dbg_def insn_vm_fetch Let_def)

theorem step_preserves_x0_witness:
  "\<exists>m'. rv64_step undefined (insn_vm 0x00500093) = Some m' \<and> cpu_x m' 0 = 0"
proof -
  obtain m' where m': "rv64_step undefined (insn_vm 0x00500093) = Some m'" using insn_vm_addi by blast
  have "\<forall>insn. step_insn (insn_vm 0x00500093) = Some insn \<longrightarrow> op_of insn = 0x53 \<longrightarrow> rd_of insn \<noteq> 0"
    by (simp add: insn_vm_insn op_of_def)
  from step_preserves_x0 [OF _ m' this] m' show ?thesis by simp
qed

theorem step_counts_witness:
  "\<exists>m'. rv64_step undefined (insn_vm 0x00500093) = Some m' \<and> (cpu_instret m', cpu_cycle m') = (1, 1)"
proof -
  obtain m' where m': "rv64_step undefined (insn_vm 0x00500093) = Some m'" "cpu_instret m' = 1"
    using insn_vm_addi by blast
  from step_counts [OF m'(1)] m' show ?thesis by auto
qed

subsection \<open>Loads, reservations and atomic operations\<close>

lemma amo_load:
  assumes "exec_amo m insn next_pc = Some (Next pc', m')"
  obtains old m1 where
    "rv64_cpu_load m (cpu_x m (rs1_of insn)) (if f3_of insn = 3 then 8 else 4) ACCESS_READ = Some (Inr old, m1)"
    "mmu_same m m1"
proof -
  let ?ld = "rv64_cpu_load m (cpu_x m (rs1_of insn)) (if f3_of insn = 3 then 8 else 4) ACCESS_READ"
  obtain r m1 where ld: "?ld = Some (r, m1)"
    using assms by (cases ?ld) (auto simp: exec_amo_def Let_def)
  obtain old where "r = Inr old"
    using assms ld by (cases r) (auto simp: exec_amo_def take_trap_def Let_def bind_eq_Some_conv)
  with ld that rv64_cpu_load_same(1) [OF ld] show thesis by blast
qed

lemma lr_reserves:
  assumes "shr (f7_of insn) 2 = 2" "exec_amo m insn next_pc = Some (Next pc', m')"
  shows "cpu_reservation m' = \<lparr>rsv_valid = True, rsv_addr = cpu_x m (rs1_of insn)\<rparr>"
  using assms(2)
  by (cases rule: amo_load) (use assms in \<open>auto simp: exec_amo_def rsv_set_def WR_def Let_def\<close>)

lemma rsv_clear_WR [simp]:
  "cpu_reservation (rsv_clear (WR rd v m)) = (cpu_reservation m)\<lparr>rsv_valid := False\<rparr>"
  "r \<noteq> 0 \<Longrightarrow> cpu_x (rsv_clear (WR rd v m)) r = (if r = rd then v else cpu_x m r)"
  by (simp_all add: rsv_clear_def WR_def)

lemma sc_result:
  assumes "shr (f7_of insn) 2 = 3" "exec_amo m insn next_pc = Some (Next pc', m')" "rd_of insn \<noteq> 0"
  shows "\<not> rsv_valid (cpu_reservation m') \<and>
    cpu_x m' (rd_of insn) =
      (if rsv_valid (cpu_reservation m) \<and> rsv_addr (cpu_reservation m) = cpu_x m (rs1_of insn) then 0 else 1)"
  using assms(2)
proof (cases rule: amo_load)
  case (1 old m1)
  note same = mmu_same_fields [OF 1(2)]
  have fin: "\<exists>m2. m' = rsv_clear (WR (rd_of insn) 0 m2)"
    if "amo_store m1 addr sz v (\<lambda>m2. rsv_clear (WR (rd_of insn) 0 m2)) next_pc = Some (Next pc', m')" for addr sz v
    using that by (cases "cpu_store m1 addr sz v")
      (auto simp: amo_store_def take_trap_def bind_eq_Some_conv split: sum.split_asm)
  show ?thesis
    using assms 1(1)
    by (auto simp: exec_amo_def same Let_def dest!: fin split: if_split_asm)
qed

text \<open>C37. Load-reserved and store-conditional: a store-conditional that completes right after a
  load-reserved of the same address reports success, and every further store-conditional before the next
  load-reserved reports failure, whatever its address.\<close>

theorem lr_sc_pair:
  assumes "shr (f7_of lr) 2 = 2" "exec_amo m lr pc1 = Some (Next pc1', m1)"
    and "shr (f7_of sc) 2 = 3" "exec_amo (commit (Next pc1') m1) sc pc2 = Some (Next pc2', m2)" "rd_of sc \<noteq> 0"
    and "cpu_x m1 (rs1_of sc) = cpu_x m (rs1_of lr)"
    and "shr (f7_of sc') 2 = 3" "exec_amo (commit (Next pc2') m2) sc' pc3 = Some (Next pc3', m3)" "rd_of sc' \<noteq> 0"
  shows "cpu_x m2 (rd_of sc) = 0 \<and> cpu_x m3 (rd_of sc') = 1"
  using lr_reserves [OF assms(1,2)] sc_result [OF assms(3-5)] sc_result [OF assms(7-9)] assms(6)
  by (simp add: commit_def)

text \<open>\<open>LR.D x2, (x1)\<close>, \<open>SC.D x3, x0, (x1)\<close> and the same store-conditional again, in machine mode.\<close>

definition amo_vm :: "unit vm" where
  "amo_vm = (insn_vm 0)\<lparr>cpu_x := (\<lambda>_. 0)(1 := 0x80000100)\<rparr>"

lemma ram_access_m:
  fixes m :: "'c vm"
  assumes "cpu_priv m = PRIV_M" "cpu_tlb m = (\<lambda>_. zero_tlb_entry)" "cpu_ram_size m = 0x10000" "vm_ram m = Some ram"
    "cpu_dbg m = zero_dbg"
  shows "rv64_cpu_load m 0x80000100 8 ACCESS_READ = Some (Inr (load_le ram 0x100 8), m)"
    and "cpu_store m 0x80000100 8 v = Some (Inr (), m\<lparr>vm_ram := Some (store_le ram 0x100 8 v)\<rparr>)"
  using assms
  by (simp_all add: rv64_cpu_load_def fast_load_ok_def tlb_slot_def zero_tlb_entry_def Let_def cpu_load_slow_def
      crosses_page_def rv64_translate_def bus_load_def ram_hit_def ram_load_def bus_size_def in_block_def
      cpu_store_def store_watch_def watch_hit_def zero_dbg_def fast_store_ok_def cpu_store_slow_def bus_store_def
      ram_store_def)

lemmas amo_fields = f7_of_def f3_of_def rs1_of_def rs2_of_def rd_of_def

definition amo_ready :: "'c vm \<Rightarrow> bool" where
  "amo_ready m \<longleftrightarrow> cpu_priv m = PRIV_M \<and> cpu_tlb m = (\<lambda>_. zero_tlb_entry) \<and> cpu_ram_size m = 0x10000 \<and>
     vm_ram m \<noteq> None \<and> cpu_dbg m = zero_dbg \<and> cpu_x m 1 = 0x80000100"

lemma amo_ready_commit: "amo_ready m \<Longrightarrow> amo_ready (commit (Next pc) m)"
  by (simp add: amo_ready_def commit_def)

lemma lr_ready:
  assumes "amo_ready m"
  shows "\<exists>m'. exec_amo m 0x1000B12F pc = Some (Next pc, m') \<and> amo_ready m'"
  using assms ram_access_m(1) [of m]
  by (auto simp: amo_ready_def exec_amo_def amo_fields Let_def WR_def rsv_set_def)

lemma sc_ready:
  assumes "amo_ready m"
  shows "\<exists>m'. exec_amo m 0x1800B1AF pc = Some (Next pc, m') \<and> amo_ready m'"
  using assms ram_access_m [of m]
  by (auto simp: amo_ready_def exec_amo_def amo_store_def amo_fields Let_def WR_def rsv_clear_def)

theorem lr_sc_pair_witness:
  "\<exists>m1 m2 m3. exec_amo amo_vm 0x1000B12F 4 = Some (Next 4, m1) \<and>
     exec_amo (commit (Next 4) m1) 0x1800B1AF 8 = Some (Next 8, m2) \<and>
     exec_amo (commit (Next 8) m2) 0x1800B1AF 12 = Some (Next 12, m3) \<and> cpu_x m2 3 = 0 \<and> cpu_x m3 3 = 1"
proof -
  have "amo_ready amo_vm" by (simp add: amo_ready_def amo_vm_def)
  then obtain m1 where m1: "exec_amo amo_vm 0x1000B12F 4 = Some (Next 4, m1)" "amo_ready m1"
    using lr_ready by blast
  then obtain m2 where m2: "exec_amo (commit (Next 4) m1) 0x1800B1AF 8 = Some (Next 8, m2)" "amo_ready m2"
    using sc_ready amo_ready_commit by blast
  then obtain m3 where m3: "exec_amo (commit (Next 8) m2) 0x1800B1AF 12 = Some (Next 12, m3)"
    using sc_ready amo_ready_commit by blast
  have "cpu_x m2 3 = 0 \<and> cpu_x m3 3 = 1"
    using lr_sc_pair [OF _ m1(1) _ m2(1) _ _ _ m3] m1(2) by (simp add: amo_fields amo_vm_def amo_ready_def)
  with m1 m2 m3 show ?thesis by blast
qed

end
