(* ===== verification/RV_Lir.thy ===== *)
theory RV_Lir
  imports RV_Exec
begin

text \<open>
  The part of the code generator's intermediate language (\<open>sljit_src/sljitLir.h\<close>) that
  \<open>rv64_sljit.c\<close> emits, with the meaning that header documents for each operation, and the functions
  that compiled code calls.

  What the header leaves open is a parameter (\<open>lir_host\<close>): the upper half of the result of a 32-bit
  operation, the scratch registers after a call, the addresses of the machine and of the local
  variable, and how the calling convention widens an \<open>int\<close> result. What it calls undefined is
  \<open>None\<close>: a shift by a register whose content is not below the operand width.
\<close>

subsection \<open>The language\<close>

text \<open>\<open>SLJIT_RETURN_REG\<close> is \<open>R0\<close>; \<open>CPU_REG\<close> is \<open>S0\<close> and \<open>COUNT_REG\<close> is \<open>S1\<close>.\<close>

datatype lreg = R0 | R1 | R2 | R3 | S0 | S1

abbreviation CPU_REG :: lreg where "CPU_REG \<equiv> S0"
abbreviation COUNT_REG :: lreg where "COUNT_REG \<equiv> S1"

text \<open>A register, an immediate, \<open>x[r]\<close> or \<open>pc\<close> of the machine that \<open>CPU_REG\<close> points to, and the
  8 bytes of local storage at the stack pointer.\<close>

datatype lopnd = Reg lreg | Imm u64 | Mem_x u32 | Mem_pc | Mem_local

datatype lmov = SLJIT_MOV | SLJIT_MOV_U8 | SLJIT_MOV_S8 | SLJIT_MOV_U16 | SLJIT_MOV_S16 | SLJIT_MOV_U32 | SLJIT_MOV_S32

datatype lop2 = SLJIT_ADD | SLJIT_SUB | SLJIT_AND | SLJIT_OR | SLJIT_XOR | SLJIT_SHL | SLJIT_LSHR | SLJIT_ASHR
  | SLJIT_ADD32 | SLJIT_SUB32 | SLJIT_SHL32 | SLJIT_LSHR32 | SLJIT_ASHR32

datatype lcond = SLJIT_EQUAL | SLJIT_NOT_EQUAL | SLJIT_LESS | SLJIT_GREATER_EQUAL | SLJIT_SIG_LESS
  | SLJIT_SIG_GREATER_EQUAL

datatype lcall = Call_helper_sljit_load | Call_helper_sljit_store | Call_rv64_fp_exec

text \<open>\<open>Op2\<close> optionally sets the variable flag to a condition of its operands (\<open>SLJIT_SET_\<dots>\<close>), which
  \<open>Op_flags\<close> stores as 0 or 1.\<close>

datatype lir = Op1 lmov lopnd lopnd | Op2 lop2 "lcond option" lreg lopnd lopnd | Op_flags lreg lcond
  | Local_base lreg | Icall lcall | Cmp lcond lopnd lopnd nat | Jump nat | Label nat | Return lreg

record lir_host =
  lh_cpu :: u64
  lh_local :: u64
  lh_up :: "u32 \<Rightarrow> u32"
  lh_scratch :: "lreg \<Rightarrow> u64"
  lh_int :: "u32 \<Rightarrow> u64"

record lir_env =
  le_reg :: "lreg \<Rightarrow> u64"
  le_local :: u64
  le_flag :: "(lcond \<times> bool) option"

subsection \<open>Operations\<close>

definition cond_holds :: "lcond \<Rightarrow> u64 \<Rightarrow> u64 \<Rightarrow> bool" where
  "cond_holds c a b = (case c of
     SLJIT_EQUAL \<Rightarrow> a = b | SLJIT_NOT_EQUAL \<Rightarrow> a \<noteq> b
   | SLJIT_LESS \<Rightarrow> a < b | SLJIT_GREATER_EQUAL \<Rightarrow> a \<ge> b
   | SLJIT_SIG_LESS \<Rightarrow> sint a < sint b | SLJIT_SIG_GREATER_EQUAL \<Rightarrow> sint a \<ge> sint b)"

definition mov_value :: "lmov \<Rightarrow> u64 \<Rightarrow> u64" where
  "mov_value mv v = (case mv of
     SLJIT_MOV \<Rightarrow> v
   | SLJIT_MOV_U8 \<Rightarrow> ucast (ucast v :: u8) | SLJIT_MOV_S8 \<Rightarrow> scast (ucast v :: u8)
   | SLJIT_MOV_U16 \<Rightarrow> ucast (ucast v :: u16) | SLJIT_MOV_S16 \<Rightarrow> scast (ucast v :: u16)
   | SLJIT_MOV_U32 \<Rightarrow> ucast (ucast v :: u32) | SLJIT_MOV_S32 \<Rightarrow> scast (ucast v :: u32))"

text \<open>The count of a shift of \<open>w\<close> bits: an immediate is masked, a register has to be in range.\<close>

definition shift_count :: "bool \<Rightarrow> 'a::len word \<Rightarrow> nat undef" where
  "shift_count is_imm b =
     (if is_imm then Some (unat b mod LENGTH('a)) else if unat b < LENGTH('a) then Some (unat b) else None)"

text \<open>A 32-bit operation reads the lower halves and leaves the upper half of its result open. The header asks
  for \<open>SLJIT_MOV32\<close> before a register loaded by a 64-bit move is used so, which \<open>rv64_sljit.c\<close> omits; reading the
  lower half is what that move would leave.\<close>

definition wide :: "lir_host \<Rightarrow> u32 \<Rightarrow> u64" where
  "wide h w = shl (ucast (lh_up h w)) 32 OR ucast w"

definition op2_value :: "lir_host \<Rightarrow> lop2 \<Rightarrow> bool \<Rightarrow> u64 \<Rightarrow> u64 \<Rightarrow> u64 undef" where
  "op2_value h op is_imm a b =
     (let a32 = ucast a :: u32; b32 = ucast b :: u32 in
      case op of
        SLJIT_ADD \<Rightarrow> Some (a + b) | SLJIT_SUB \<Rightarrow> Some (a - b)
      | SLJIT_AND \<Rightarrow> Some (a AND b) | SLJIT_OR \<Rightarrow> Some (a OR b) | SLJIT_XOR \<Rightarrow> Some (a XOR b)
      | SLJIT_SHL \<Rightarrow> map_option (\<lambda>n. shl a n) (shift_count is_imm b)
      | SLJIT_LSHR \<Rightarrow> map_option (\<lambda>n. shr a n) (shift_count is_imm b)
      | SLJIT_ASHR \<Rightarrow> map_option (\<lambda>n. sar a n) (shift_count is_imm b)
      | SLJIT_ADD32 \<Rightarrow> Some (wide h (a32 + b32)) | SLJIT_SUB32 \<Rightarrow> Some (wide h (a32 - b32))
      | SLJIT_SHL32 \<Rightarrow> map_option (\<lambda>n. wide h (shl a32 n)) (shift_count is_imm b32)
      | SLJIT_LSHR32 \<Rightarrow> map_option (\<lambda>n. wide h (shr a32 n)) (shift_count is_imm b32)
      | SLJIT_ASHR32 \<Rightarrow> map_option (\<lambda>n. wide h (sar a32 n)) (shift_count is_imm b32))"

definition lopnd_get :: "lir_env \<Rightarrow> 'c vm \<Rightarrow> lopnd \<Rightarrow> u64" where
  "lopnd_get e m o1 = (case o1 of
     Reg r \<Rightarrow> le_reg e r | Imm i \<Rightarrow> i | Mem_x r \<Rightarrow> cpu_x m r | Mem_pc \<Rightarrow> cpu_pc m | Mem_local \<Rightarrow> le_local e)"

fun lopnd_set :: "lopnd \<Rightarrow> u64 \<Rightarrow> lir_env \<Rightarrow> 'c vm \<Rightarrow> (lir_env \<times> 'c vm) undef" where
  "lopnd_set (Reg r) v e m = Some (e\<lparr>le_reg := (le_reg e)(r := v)\<rparr>, m)"
| "lopnd_set (Mem_x r) v e m = Some (e, m\<lparr>cpu_x := (cpu_x m)(r := v)\<rparr>)"
| "lopnd_set Mem_pc v e m = Some (e, m\<lparr>cpu_pc := v\<rparr>)"
| "lopnd_set Mem_local v e m = Some (e\<lparr>le_local := v\<rparr>, m)"
| "lopnd_set (Imm _) v e m = None"

subsection \<open>Calls\<close>

text \<open>The result of a helper as the caller sees it: 0 or the exception, cut to an \<open>int\<close> and widened.\<close>

definition exc_word :: "u64 + 'a \<Rightarrow> u64" where
  "exc_word r = (case r of Inl exc \<Rightarrow> scast (ucast exc :: u32) | Inr _ \<Rightarrow> 0)"

definition helper_sljit_load :: "'c vm \<Rightarrow> u64 \<Rightarrow> u64 \<Rightarrow> ((u64 + u64) \<times> 'c vm) undef" where
  "helper_sljit_load m vaddr sz = rv64_jit_load m vaddr (unat sz)"

definition helper_sljit_store :: "'c vm \<Rightarrow> u64 \<Rightarrow> u64 \<Rightarrow> u64 \<Rightarrow> ((u64 + unit) \<times> 'c vm) undef" where
  "helper_sljit_store m vaddr sz val = rv64_jit_store m vaddr (unat sz) val"

definition fp_rc_int :: "fp_rc \<Rightarrow> u32" where
  "fp_rc_int rc = (case rc of FP_OK \<Rightarrow> 0 | FP_TRAPPED \<Rightarrow> 1 | FP_UNIMPLEMENTED \<Rightarrow> - 1)"

text \<open>After a call the scratch registers hold anything, \<open>R0\<close> the result.\<close>

definition after_call :: "lir_host \<Rightarrow> u64 \<Rightarrow> lir_env \<Rightarrow> lir_env" where
  "after_call h res e =
     e\<lparr>le_reg := (\<lambda>r. if r \<in> {S0, S1} then le_reg e r else if r = R0 then res else lh_scratch h r), le_flag := None\<rparr>"

text \<open>A call with any first argument but the machine, or with the result of a load going anywhere but
  to the local variable, is no call that the compiler emits.\<close>

definition lir_call :: "host_fp \<Rightarrow> lir_host \<Rightarrow> lcall \<Rightarrow> lir_env \<Rightarrow> 'c vm \<Rightarrow> (lir_env \<times> 'c vm) undef" where
  "lir_call hf h f e m =
     (let a = le_reg e in
      if a R0 \<noteq> lh_cpu h then None
      else case f of
        Call_helper_sljit_load \<Rightarrow>
          if a R3 \<noteq> lh_local h then None
          else do {
            (r, m1) \<leftarrow> helper_sljit_load m (a R1) (a R2);
            Some (after_call h (exc_word r) (case r of Inl _ \<Rightarrow> e | Inr val \<Rightarrow> e\<lparr>le_local := val\<rparr>), m1)
          }
      | Call_helper_sljit_store \<Rightarrow> do {
          (r, m1) \<leftarrow> helper_sljit_store m (a R1) (a R2) (a R3);
          Some (after_call h (exc_word r) e, m1)
        }
      | Call_rv64_fp_exec \<Rightarrow> do {
          (rc, m1) \<leftarrow> rv64_fp_exec hf m (ucast (a R1));
          Some (after_call h (lh_int h (fp_rc_int rc)) e, m1)
        })"

subsection \<open>Running code\<close>

text \<open>The operations that neither jump nor return.\<close>

definition is_imm :: "lopnd \<Rightarrow> bool" where
  "is_imm o1 = (case o1 of Imm _ \<Rightarrow> True | _ \<Rightarrow> False)"

fun lir_step :: "host_fp \<Rightarrow> lir_host \<Rightarrow> lir \<Rightarrow> lir_env \<Rightarrow> 'c vm \<Rightarrow> (lir_env \<times> 'c vm) undef" where
  "lir_step hf h (Op1 mv dst src) e m = lopnd_set dst (mov_value mv (lopnd_get e m src)) e m"
| "lir_step hf h (Op2 op fl dst src1 src2) e m =
     (let a = lopnd_get e m src1; b = lopnd_get e m src2 in do {
        v \<leftarrow> op2_value h op (is_imm src2) a b;
        Some (e\<lparr>le_reg := (le_reg e)(dst := v), le_flag := map_option (\<lambda>c. (c, cond_holds c a b)) fl\<rparr>, m)
      })"
| "lir_step hf h (Op_flags dst c) e m =
     (case le_flag e of
        Some (c', v) \<Rightarrow> if c' = c then Some (e\<lparr>le_reg := (le_reg e)(dst := of_bool v)\<rparr>, m) else None
      | None \<Rightarrow> None)"
| "lir_step hf h (Local_base dst) e m = Some (e\<lparr>le_reg := (le_reg e)(dst := lh_local h)\<rparr>, m)"
| "lir_step hf h (Icall f) e m = lir_call hf h f e m"
| "lir_step hf h (Label l) e m = Some (e, m)"
| "lir_step hf h (Cmp c a b l) e m = Some (e, m)"
| "lir_step hf h (Jump l) e m = Some (e, m)"
| "lir_step hf h (Return r) e m = Some (e, m)"

text \<open>The code from a label on; all jumps go forward.\<close>

definition goto :: "nat \<Rightarrow> lir list \<Rightarrow> lir list" where
  "goto l is = dropWhile (\<lambda>i. i \<noteq> Label l) is"

definition lir_next :: "lir \<Rightarrow> lir list \<Rightarrow> lir_env \<Rightarrow> 'c vm \<Rightarrow> lir list" where
  "lir_next i is e m = (case i of
     Jump l \<Rightarrow> goto l is
   | Cmp c a b l \<Rightarrow> if cond_holds c (lopnd_get e m a) (lopnd_get e m b) then goto l is else is
   | _ \<Rightarrow> is)"

lemma length_lir_next: "length (lir_next i is e m) \<le> length is"
  by (auto simp: lir_next_def goto_def length_dropWhile_le split: lir.split)

text \<open>\<open>None\<close> where control runs off the end, otherwise the value the code returns.\<close>

function lir_run :: "host_fp \<Rightarrow> lir_host \<Rightarrow> lir list \<Rightarrow> lir_env \<Rightarrow> 'c vm \<Rightarrow> (u64 \<times> 'c vm) undef" where
  "lir_run hf h [] e m = None"
| "lir_run hf h (i # is) e m =
     (case i of
        Return r \<Rightarrow> Some (le_reg e r, m)
      | _ \<Rightarrow> do {
          (e', m') \<leftarrow> lir_step hf h i e m;
          lir_run hf h (lir_next i is e m) e' m'
        })"
  by pat_completeness auto

termination lir_run
  by (relation "measure (\<lambda>(hf, h, is, e, m). length is)") (auto simp: length_lir_next less_Suc_eq_le)

text \<open>\<open>(block_fn_t)\<close>: a call of compiled code with the machine and a second argument.\<close>

definition block_call :: "host_fp \<Rightarrow> lir_host \<Rightarrow> lir list \<Rightarrow> 'c vm \<Rightarrow> u64 \<Rightarrow> (u64 \<times> 'c vm) undef" where
  "block_call hf h code m arg =
     lir_run hf h code
       \<lparr>le_reg = (lh_scratch h)(S0 := lh_cpu h, S1 := arg), le_local = lh_scratch h R0, le_flag = None\<rparr> m"

subsection \<open>Laws\<close>

text \<open>Execution, one operation at a time: the simplifier runs straight-line code with these.\<close>

lemma lir_run_simps [simp]:
  "lir_run hf h (Op1 mv dst src # is) e m = do { (e', m') \<leftarrow> lopnd_set dst (mov_value mv (lopnd_get e m src)) e m; lir_run hf h is e' m' }"
  "lir_run hf h (Op2 op fl r a b # is) e m = do { (e', m') \<leftarrow> lir_step hf h (Op2 op fl r a b) e m; lir_run hf h is e' m' }"
  "lir_run hf h (Op_flags r c # is) e m = do { (e', m') \<leftarrow> lir_step hf h (Op_flags r c) e m; lir_run hf h is e' m' }"
  "lir_run hf h (Local_base r # is) e m = lir_run hf h is (e\<lparr>le_reg := (le_reg e)(r := lh_local h)\<rparr>) m"
  "lir_run hf h (Icall f # is) e m = do { (e', m') \<leftarrow> lir_call hf h f e m; lir_run hf h is e' m' }"
  "lir_run hf h (Label l # is) e m = lir_run hf h is e m"
  "lir_run hf h (Jump l # is) e m = lir_run hf h (goto l is) e m"
  "lir_run hf h (Cmp c a b l # is) e m =
     lir_run hf h (if cond_holds c (lopnd_get e m a) (lopnd_get e m b) then goto l is else is) e m"
  "lir_run hf h (Return r # is) e m = Some (le_reg e r, m)"
  by (simp_all add: lir_next_def)

declare lir_run.simps(2) [simp del]

lemma goto_simps [simp]:
  "goto l (Label l # is) = Label l # is"
  "i \<noteq> Label l \<Longrightarrow> goto l (i # is) = goto l is"
  "Label l \<notin> set is \<Longrightarrow> goto l (is @ js) = goto l js"
  by (auto simp: goto_def dropWhile_append)

lemma mov_value_MOV [simp]: "mov_value SLJIT_MOV v = v"
  by (simp add: mov_value_def)

lemma lopnd_get_simps [simp]:
  "lopnd_get e m (Reg r) = le_reg e r" "lopnd_get e m (Imm i) = i" "lopnd_get e m (Mem_x r') = cpu_x m r'"
  "lopnd_get e m Mem_pc = cpu_pc m" "lopnd_get e m Mem_local = le_local e"
  by (simp_all add: lopnd_get_def)

lemma is_imm_simps [simp]: "is_imm (Imm i)" "\<not> is_imm (Reg r)"
  by (simp_all add: is_imm_def)

lemma ucast_wide [simp]: "ucast (wide h w) = w"
  by (rule bit_word_eqI) (simp add: wide_def bit_simps)

lemma op2_value_simps [simp]:
  "op2_value h SLJIT_ADD i a b = Some (a + b)" "op2_value h SLJIT_SUB i a b = Some (a - b)"
  "op2_value h SLJIT_AND i a b = Some (a AND b)" "op2_value h SLJIT_OR i a b = Some (a OR b)"
  "op2_value h SLJIT_XOR i a b = Some (a XOR b)"
  "op2_value h SLJIT_ADD32 i a b = Some (wide h (ucast a + ucast b))"
  "op2_value h SLJIT_SUB32 i a b = Some (wide h (ucast a - ucast b))"
  by (simp_all add: op2_value_def)

lemma shift_values:
  "shift_count i b = Some n \<Longrightarrow> op2_value h SLJIT_SHL i a b = Some (shl a n)"
  "shift_count i b = Some n \<Longrightarrow> op2_value h SLJIT_LSHR i a b = Some (shr a n)"
  "shift_count i b = Some n \<Longrightarrow> op2_value h SLJIT_ASHR i a b = Some (sar a n)"
  "shift_count i (ucast b :: u32) = Some n \<Longrightarrow> op2_value h SLJIT_SHL32 i a b = Some (wide h (shl (ucast a) n))"
  "shift_count i (ucast b :: u32) = Some n \<Longrightarrow> op2_value h SLJIT_LSHR32 i a b = Some (wide h (shr (ucast a) n))"
  "shift_count i (ucast b :: u32) = Some n \<Longrightarrow> op2_value h SLJIT_ASHR32 i a b = Some (wide h (sar (ucast a) n))"
  by (simp_all add: op2_value_def)

lemma after_call_simps [simp]:
  "le_reg (after_call h res e) R0 = res" "le_reg (after_call h res e) S0 = le_reg e S0"
  "le_reg (after_call h res e) S1 = le_reg e S1" "le_local (after_call h res e) = le_local e"
  by (simp_all add: after_call_def)

end
