(* ===== verification/RV_Sljit.thy ===== *)
theory RV_Sljit
  imports RV_Lir
begin

text \<open>
  The block compiler of \<open>rv64_sljit.c\<close>: it translates guest instructions from a program counter on
  into code of the intermediate language until one ends the block or is not supported, and keeps
  the result in a direct-mapped cache.

  A block counts in \<open>COUNT_REG\<close> the instructions it completes. A memory access or a floating point
  instruction that does not succeed jumps to the epilogue, which returns that count.
\<close>

subsection \<open>Emitting one instruction\<close>

text \<open>The labels of a block: its epilogue, and the two that a branch sets.\<close>

abbreviation (input) EPILOGUE :: nat where "EPILOGUE \<equiv> 0"
abbreviation (input) TAKEN :: nat where "TAKEN \<equiv> 1"
abbreviation (input) JMP_END :: nat where "JMP_END \<equiv> 2"

definition emit_load_guest :: "lreg \<Rightarrow> u32 \<Rightarrow> lir list" where
  "emit_load_guest dst grs = [Op1 SLJIT_MOV (Reg dst) (if grs = 0 then Imm 0 else Mem_x grs)]"

definition emit_store_guest :: "u32 \<Rightarrow> lreg \<Rightarrow> lir list" where
  "emit_store_guest grs src = (if grs \<noteq> 0 then [Op1 SLJIT_MOV (Mem_x grs) (Reg src)] else [])"

definition emit_memory_icall :: "bool \<Rightarrow> u64 \<Rightarrow> u32 \<Rightarrow> u64 \<Rightarrow> u32 \<Rightarrow> lir list" where
  "emit_memory_icall is_store sz rs1 imm rs2 =
     (if rs1 = 0 then [Op1 SLJIT_MOV (Reg R1) (Imm imm)]
      else [Op1 SLJIT_MOV (Reg R1) (Mem_x rs1), Op2 SLJIT_ADD None R1 (Reg R1) (Imm imm)]) @
     [Op1 SLJIT_MOV (Reg R0) (Reg CPU_REG), Op1 SLJIT_MOV (Reg R2) (Imm sz)] @
     (if is_store then
        [Op1 SLJIT_MOV (Reg R3) (if rs2 = 0 then Imm 0 else Mem_x rs2), Icall Call_helper_sljit_store]
      else [Local_base R3, Icall Call_helper_sljit_load]) @
     [Cmp SLJIT_NOT_EQUAL (Reg R0) (Imm 0) EPILOGUE] @
     (if is_store then [] else [Op1 SLJIT_MOV (Reg R0) Mem_local])"

text \<open>The immediates as the compiler computes them, on \<open>int32_t\<close>.\<close>

definition jit_f7 :: "u32 \<Rightarrow> u32" where
  "jit_f7 insn = shr insn 25"

definition jit_imm_i :: "u32 \<Rightarrow> u64" where
  "jit_imm_i insn = scast (sar insn 20)"

definition jit_shamt :: "u32 \<Rightarrow> u32 \<Rightarrow> u64" where
  "jit_shamt insn msk = scast (sar insn 20 AND msk)"

definition jit_imm_u :: "u32 \<Rightarrow> u64" where
  "jit_imm_u insn = scast (insn AND 0xFFFFF000)"

definition jit_off_j :: "u32 \<Rightarrow> u64" where
  "jit_off_j insn =
     (let off = shl (shr insn 31 AND 1) 20 OR shl (shr insn 21 AND 0x3FF) 1 OR shl (shr insn 20 AND 1) 11 OR
                shl (shr insn 12 AND 0xFF) 12
      in scast (if off AND 0x100000 \<noteq> 0 then off - 0x200000 else off))"

definition jit_off_b :: "u32 \<Rightarrow> u64" where
  "jit_off_b insn =
     (let off = shl (shr insn 31 AND 1) 12 OR shl (shr insn 7 AND 1) 11 OR shl (shr insn 25 AND 0x3F) 5 OR
                shl (shr insn 8 AND 0xF) 1
      in scast (if off AND 0x1000 \<noteq> 0 then off - 0x2000 else off))"

definition jit_imm_s :: "u32 \<Rightarrow> u64" where
  "jit_imm_s insn =
     (let imm = shl (shr insn 25) 5 OR (shr insn 7 AND 0x1F)
      in scast (if imm AND 0x800 \<noteq> 0 then imm - 0x1000 else imm))"

text \<open>\<open>1 << (funct3 & 3)\<close>.\<close>

definition jit_size :: "u32 \<Rightarrow> u64" where
  "jit_size f3 = shl 1 (unat (f3 AND 3))"

text \<open>What one pass through the body of the loop leaves: the code, \<open>supported\<close>, \<open>block_ended\<close> and
  \<open>num_epilogue_jumps\<close>.\<close>

record emitted =
  em_code :: "lir list"
  em_supported :: bool
  em_ended :: bool
  em_jumps :: nat

text \<open>A comparison that leaves 0 or 1 in \<open>R0\<close>.\<close>

definition emit_set_less :: "lcond \<Rightarrow> lopnd \<Rightarrow> lir list" where
  "emit_set_less c src2 = [Op2 SLJIT_SUB (Some c) R0 (Reg R0) src2, Op_flags R0 c]"

definition emit_op :: "u32 \<Rightarrow> nat \<Rightarrow> emitted" where
  "emit_op insn nj =
     (let f3 = f3_of insn; f7 = jit_f7 insn;
          code = (if f3 = 0 then [Op2 (if f7 = 0x20 then SLJIT_SUB else SLJIT_ADD) None R0 (Reg R0) (Reg R1)]
             else if f3 = 1 then [Op2 SLJIT_SHL None R0 (Reg R0) (Reg R1)]
             else if f3 = 2 then emit_set_less SLJIT_SIG_LESS (Reg R1)
             else if f3 = 3 then emit_set_less SLJIT_LESS (Reg R1)
             else if f3 = 4 then [Op2 SLJIT_XOR None R0 (Reg R0) (Reg R1)]
             else if f3 = 5 then [Op2 (if f7 = 0x20 then SLJIT_ASHR else SLJIT_LSHR) None R0 (Reg R0) (Reg R1)]
             else if f3 = 6 then [Op2 SLJIT_OR None R0 (Reg R0) (Reg R1)]
             else if f3 = 7 then [Op2 SLJIT_AND None R0 (Reg R0) (Reg R1)]
             else []);
          supported = (f3 \<le> 7)
      in \<lparr>em_code = emit_load_guest R0 (rs1_of insn) @ emit_load_guest R1 (rs2_of insn) @ code @
             (if supported then emit_store_guest (rd_of insn) R0 else []),
          em_supported = supported, em_ended = False, em_jumps = nj\<rparr>)"

definition emit_op_imm :: "u32 \<Rightarrow> nat \<Rightarrow> emitted" where
  "emit_op_imm insn nj =
     (let f3 = f3_of insn; imm = Imm (jit_imm_i insn);
          code = (if f3 = 0 then [Op2 SLJIT_ADD None R0 (Reg R0) imm]
             else if f3 = 2 then emit_set_less SLJIT_SIG_LESS imm
             else if f3 = 3 then emit_set_less SLJIT_LESS imm
             else if f3 = 4 then [Op2 SLJIT_XOR None R0 (Reg R0) imm]
             else if f3 = 6 then [Op2 SLJIT_OR None R0 (Reg R0) imm]
             else if f3 = 7 then [Op2 SLJIT_AND None R0 (Reg R0) imm]
             else if f3 = 1 then [Op2 SLJIT_SHL None R0 (Reg R0) (Imm (jit_shamt insn 0x3F))]
             else if f3 = 5 then
               [Op2 (if shr insn 26 = 0x10 then SLJIT_ASHR else SLJIT_LSHR) None R0 (Reg R0) (Imm (jit_shamt insn 0x3F))]
             else []);
          supported = (f3 \<le> 7)
      in \<lparr>em_code = emit_load_guest R0 (rs1_of insn) @ code @
             (if supported then emit_store_guest (rd_of insn) R0 else []),
          em_supported = supported, em_ended = False, em_jumps = nj\<rparr>)"

text \<open>The result of a 32-bit operation is sign-extended before it is stored.\<close>

definition emit_result_32 :: "u32 \<Rightarrow> lir list" where
  "emit_result_32 rd = Op1 SLJIT_MOV_S32 (Reg R0) (Reg R0) # emit_store_guest rd R0"

definition emit_op_32 :: "u32 \<Rightarrow> nat \<Rightarrow> emitted" where
  "emit_op_32 insn nj =
     (let f3 = f3_of insn; f7 = jit_f7 insn;
          code = (if f3 = 0 then [Op2 (if f7 = 0x20 then SLJIT_SUB32 else SLJIT_ADD32) None R0 (Reg R0) (Reg R1)]
             else if f3 = 1 then [Op2 SLJIT_SHL32 None R0 (Reg R0) (Reg R1)]
             else if f3 = 5 then [Op2 (if f7 = 0x20 then SLJIT_ASHR32 else SLJIT_LSHR32) None R0 (Reg R0) (Reg R1)]
             else []);
          supported = (f3 \<in> {0, 1, 5})
      in \<lparr>em_code = emit_load_guest R0 (rs1_of insn) @ emit_load_guest R1 (rs2_of insn) @ code @
             (if supported then emit_result_32 (rd_of insn) else []),
          em_supported = supported, em_ended = False, em_jumps = nj\<rparr>)"

definition emit_op_imm_32 :: "u32 \<Rightarrow> nat \<Rightarrow> emitted" where
  "emit_op_imm_32 insn nj =
     (let f3 = f3_of insn; f7 = jit_f7 insn;
          code = (if f3 = 0 then [Op2 SLJIT_ADD32 None R0 (Reg R0) (Imm (jit_imm_i insn))]
             else if f3 = 1 then [Op2 SLJIT_SHL32 None R0 (Reg R0) (Imm (jit_shamt insn 0x1F))]
             else if f3 = 5 then
               [Op2 (if f7 = 0x20 then SLJIT_ASHR32 else SLJIT_LSHR32) None R0 (Reg R0) (Imm (jit_shamt insn 0x1F))]
             else []);
          supported = (f3 \<in> {0, 1, 5})
      in \<lparr>em_code = emit_load_guest R0 (rs1_of insn) @ code @
             (if supported then emit_result_32 (rd_of insn) else []),
          em_supported = supported, em_ended = False, em_jumps = nj\<rparr>)"

text \<open>Constants: \<open>LUI\<close>, \<open>AUIPC\<close>.\<close>

definition emit_const :: "u32 \<Rightarrow> u64 \<Rightarrow> nat \<Rightarrow> emitted" where
  "emit_const insn val nj =
     \<lparr>em_code = Op1 SLJIT_MOV (Reg R0) (Imm val) # emit_store_guest (rd_of insn) R0,
      em_supported = True, em_ended = False, em_jumps = nj\<rparr>"

definition emit_jal :: "u64 \<Rightarrow> u64 \<Rightarrow> u32 \<Rightarrow> nat \<Rightarrow> emitted" where
  "emit_jal pc len insn nj =
     \<lparr>em_code = Op1 SLJIT_MOV (Reg R0) (Imm (pc + len)) # emit_store_guest (rd_of insn) R0 @
         [Op1 SLJIT_MOV Mem_pc (Imm (pc + jit_off_j insn))],
      em_supported = True, em_ended = True, em_jumps = nj\<rparr>"

definition emit_jalr :: "u64 \<Rightarrow> u64 \<Rightarrow> u32 \<Rightarrow> nat \<Rightarrow> emitted" where
  "emit_jalr pc len insn nj =
     \<lparr>em_code = emit_load_guest R1 (rs1_of insn) @
         [Op2 SLJIT_ADD None R1 (Reg R1) (Imm (jit_imm_i insn)), Op2 SLJIT_AND None R1 (Reg R1) (Imm (NOT 1)),
          Op1 SLJIT_MOV (Reg R0) (Imm (pc + len))] @ emit_store_guest (rd_of insn) R0 @
         [Op1 SLJIT_MOV Mem_pc (Reg R1)],
      em_supported = True, em_ended = True, em_jumps = nj\<rparr>"

definition branch_type :: "u32 \<Rightarrow> lcond option" where
  "branch_type f3 =
     (if f3 = 0 then Some SLJIT_EQUAL else if f3 = 1 then Some SLJIT_NOT_EQUAL
      else if f3 = 4 then Some SLJIT_SIG_LESS else if f3 = 5 then Some SLJIT_SIG_GREATER_EQUAL
      else if f3 = 6 then Some SLJIT_LESS else if f3 = 7 then Some SLJIT_GREATER_EQUAL
      else None)"

definition emit_branch :: "u64 \<Rightarrow> u64 \<Rightarrow> u32 \<Rightarrow> nat \<Rightarrow> emitted" where
  "emit_branch pc len insn nj =
     (let load = emit_load_guest R0 (rs1_of insn) @ emit_load_guest R1 (rs2_of insn) in
      case branch_type (f3_of insn) of
        Some type \<Rightarrow>
          \<lparr>em_code = load @ [Cmp type (Reg R0) (Reg R1) TAKEN, Op1 SLJIT_MOV Mem_pc (Imm (pc + len)), Jump JMP_END,
               Label TAKEN, Op1 SLJIT_MOV Mem_pc (Imm (pc + jit_off_b insn)), Label JMP_END],
           em_supported = True, em_ended = True, em_jumps = nj\<rparr>
      | None \<Rightarrow> \<lparr>em_code = load, em_supported = False, em_ended = False, em_jumps = nj\<rparr>)"

definition emit_extend :: "u32 \<Rightarrow> lir list" where
  "emit_extend f3 =
     (let mv = (\<lambda>op. [Op1 op (Reg R0) (Reg R0)]) in
      if f3 = 0 then mv SLJIT_MOV_S8 else if f3 = 1 then mv SLJIT_MOV_S16 else if f3 = 2 then mv SLJIT_MOV_S32
      else if f3 = 4 then mv SLJIT_MOV_U8 else if f3 = 5 then mv SLJIT_MOV_U16 else if f3 = 6 then mv SLJIT_MOV_U32
      else [])"

text \<open>After more than 60 jumps to the epilogue the block ends.\<close>

definition emit_load :: "u64 \<Rightarrow> u32 \<Rightarrow> nat \<Rightarrow> emitted" where
  "emit_load pc insn nj =
     \<lparr>em_code = Op1 SLJIT_MOV Mem_pc (Imm pc) #
         emit_memory_icall False (jit_size (f3_of insn)) (rs1_of insn) (jit_imm_i insn) 0 @
         emit_extend (f3_of insn) @ emit_store_guest (rd_of insn) R0,
      em_supported = True, em_ended = (nj + 1 > 60), em_jumps = nj + 1\<rparr>"

definition emit_store :: "u64 \<Rightarrow> u32 \<Rightarrow> nat \<Rightarrow> emitted" where
  "emit_store pc insn nj =
     \<lparr>em_code = Op1 SLJIT_MOV Mem_pc (Imm pc) #
         emit_memory_icall True (jit_size (f3_of insn)) (rs1_of insn) (jit_imm_s insn) (rs2_of insn),
      em_supported = True, em_ended = (nj + 1 > 60), em_jumps = nj + 1\<rparr>"

definition emit_fp :: "u64 \<Rightarrow> u32 \<Rightarrow> nat \<Rightarrow> emitted" where
  "emit_fp pc insn nj =
     \<lparr>em_code = [Op1 SLJIT_MOV Mem_pc (Imm pc), Op1 SLJIT_MOV (Reg R0) (Reg CPU_REG),
         Op1 SLJIT_MOV (Reg R1) (Imm (ucast insn)), Icall Call_rv64_fp_exec,
         Cmp SLJIT_NOT_EQUAL (Reg R0) (Imm 0) EPILOGUE],
      em_supported = True, em_ended = (nj + 1 > 60), em_jumps = nj + 1\<rparr>"

definition emit_nothing :: "nat \<Rightarrow> emitted" where
  "emit_nothing nj = \<lparr>em_code = [], em_supported = False, em_ended = False, em_jumps = nj\<rparr>"

definition emit_insn :: "u64 \<Rightarrow> u64 \<Rightarrow> u32 \<Rightarrow> nat \<Rightarrow> emitted" where
  "emit_insn pc len insn nj =
     (let op = op_of insn in
      if op = 0x33 then emit_op insn nj
      else if op = 0x13 then emit_op_imm insn nj
      else if op = 0x3B then emit_op_32 insn nj
      else if op = 0x1B then emit_op_imm_32 insn nj
      else if op = 0x37 then emit_const insn (jit_imm_u insn) nj
      else if op = 0x17 then emit_const insn (pc + jit_imm_u insn) nj
      else if op = 0x6F then emit_jal pc len insn nj
      else if op = 0x67 then emit_jalr pc len insn nj
      else if op = 0x63 then emit_branch pc len insn nj
      else if op = 0x03 then emit_load pc insn nj
      else if op = 0x23 then emit_store pc insn nj
      else if op \<in> {0x07, 0x27, 0x43, 0x47, 0x4B, 0x4F, 0x53} then emit_fp pc insn nj
      else emit_nothing nj)"

subsection \<open>Compiling a block\<close>

text \<open>The word at \<open>pc\<close> as the loop decodes it: the length and the instruction.\<close>

definition jit_decode :: "u64 \<Rightarrow> u64 \<times> u32" where
  "jit_decode val =
     (let word = ucast val :: u32 in
      if word AND 3 \<noteq> 3 then (2, sljit_uncompress (ucast (word AND 0xFFFF))) else (4, word))"

definition jit_op_disabled :: "'c jit_state \<Rightarrow> u32 \<Rightarrow> bool" where
  "jit_op_disabled jit op \<longleftrightarrow> jit_disabled_ops jit (unat op div 64) AND shl 1 (unat op mod 64) \<noteq> 0"

definition emit_word :: "'c jit_state \<Rightarrow> u64 \<Rightarrow> u64 \<Rightarrow> u32 \<Rightarrow> nat \<Rightarrow> emitted" where
  "emit_word jit pc len insn nj =
     (if len = 2 \<and> insn = 0 \<or> jit_op_disabled jit (op_of insn) then emit_nothing nj
      else emit_insn pc len insn nj)"

text \<open>How the loop is left: with code and the number of instructions in it, or because the first
  instruction is not supported.\<close>

datatype compiled = Code "lir list" nat | Unsupported

text \<open>The first argument is the number of instructions that may still be added.\<close>

fun compile_loop ::
  "'c jit_state \<Rightarrow> nat \<Rightarrow> 'c vm \<Rightarrow> u64 \<Rightarrow> nat \<Rightarrow> nat \<Rightarrow> lir list \<Rightarrow> (compiled \<times> 'c vm) undef" where
  "compile_loop jit 0 m pc insn_count nj code = Some (Code code insn_count, m)"
| "compile_loop jit (Suc k) m pc insn_count nj code = do {
     (r, m1) \<leftarrow> rv64_cpu_load m pc 4 ACCESS_EXEC;
     (case r of
        Inl _ \<Rightarrow> Some (Code code insn_count, m1)
      | Inr val \<Rightarrow>
          (let (len, insn) = jit_decode val; em = emit_word jit pc len insn nj;
               code1 = code @ em_code em; code2 = code1 @ [Op2 SLJIT_ADD None COUNT_REG (Reg COUNT_REG) (Imm 1)]
           in if \<not> em_supported em then
                (if insn_count = 0 then Some (Unsupported, m1) else Some (Code code1 insn_count, m1))
              else if em_ended em then Some (Code code2 (insn_count + 1), m1)
              else compile_loop jit k m1 (pc + len) (insn_count + 1) (em_jumps em)
                (code2 @ [Op1 SLJIT_MOV Mem_pc (Imm (pc + len))])))
   }"

abbreviation (input) JIT_MAX_BLOCK_INSNS :: nat where "JIT_MAX_BLOCK_INSNS \<equiv> 64"
abbreviation (input) JIT_CACHE_MASK :: u32 where "JIT_CACHE_MASK \<equiv> 0xFFFF"

definition jit_max_insns :: "'c jit_state \<Rightarrow> nat" where
  "jit_max_insns jit = (if jit_rt_max_block_insns jit > 0 then nat (jit_rt_max_block_insns jit) else JIT_MAX_BLOCK_INSNS)"

definition block_prologue :: "lir list" where
  "block_prologue = [Op1 SLJIT_MOV (Reg COUNT_REG) (Imm 0)]"

definition block_epilogue :: "lir list" where
  "block_epilogue = [Label EPILOGUE, Op1 SLJIT_MOV (Reg R0) (Reg COUNT_REG), Return R0]"

definition jit_cache_index :: "u64 \<Rightarrow> u32" where
  "jit_cache_index pc = ucast (pc div 2) AND JIT_CACHE_MASK"

definition set_jit_block :: "u32 \<Rightarrow> 'c jit_block \<Rightarrow> 'c vm \<Rightarrow> 'c vm" where
  "set_jit_block idx b m = cpu_jit_update (map_option (jit_cache_update (\<lambda>c. c(idx := b)))) m"

text \<open>Whether the code generator could allocate its compiler and the code.\<close>

record sljit_alloc =
  sa_compiler :: bool
  sa_code :: "lir list \<Rightarrow> bool"

definition jit_compile_block ::
  "sljit_alloc \<Rightarrow> lir list vm \<Rightarrow> lir list jit_state \<Rightarrow> u64 \<Rightarrow> (lir list jit_block option \<times> lir list vm) undef" where
  "jit_compile_block al m jit guest_pc =
     (if \<not> sa_compiler al then Some (None, m)
      else do {
        (r, m1) \<leftarrow> compile_loop jit (jit_max_insns jit) m guest_pc 0 0 block_prologue;
        (let idx = jit_cache_index guest_pc; b = jit_cache jit idx in
         case r of
           Unsupported \<Rightarrow>
             (let b' = b\<lparr>jb_guest_pc := guest_pc, jb_host_code := None, jb_insn_count := 0, jb_valid := True\<rparr>
              in Some (Some b', set_jit_block idx b' m1))
         | Code code insn_count \<Rightarrow>
             (let code' = code @ block_epilogue;
                  b' = b\<lparr>jb_guest_pc := guest_pc, jb_host_code := Some code', jb_insn_count := of_nat insn_count,
                         jb_valid := True, jb_has_store := False\<rparr>
              in if sa_code al code' then Some (Some b', set_jit_block idx b' m1) else Some (None, m1)))
      })"

text \<open>\<open>count\<close> is the block's result cut to an \<open>int\<close>.\<close>

definition jit_run_block :: "host_fp \<Rightarrow> lir_host \<Rightarrow> lir list jit_block \<Rightarrow> lir list vm \<Rightarrow> (u32 \<times> lir list vm) undef" where
  "jit_run_block hf h b m =
     (case jb_host_code b of
        None \<Rightarrow> Some (0, m)
      | Some code \<Rightarrow> do {
          (v, m1) \<leftarrow> block_call hf h code m (cpu_pc m);
          (let count = ucast v :: u32 in
           Some (count, m1\<lparr>cpu_instret := cpu_instret m1 + scast count,
             cpu_jit := map_option (jit_stat_jit_insns_update (\<lambda>n. n + scast count)) (cpu_jit m1)\<rparr>))
        })"

definition jit_exec :: "host_fp \<Rightarrow> lir_host \<Rightarrow> sljit_alloc \<Rightarrow> lir list vm \<Rightarrow> (u32 \<times> lir list vm) undef" where
  "jit_exec hf h al m =
     (case cpu_jit m of
        None \<Rightarrow> Some (0, m)
      | Some jit \<Rightarrow>
          if \<not> jit_enabled jit then Some (0, m)
          else (let b = jit_cache jit (jit_cache_index (cpu_pc m)) in
            if \<not> jb_valid b \<or> jb_guest_pc b \<noteq> cpu_pc m then do {
              (r, m1) \<leftarrow> jit_compile_block al m jit (cpu_pc m);
              (case r of None \<Rightarrow> Some (0, m1) | Some b' \<Rightarrow> jit_run_block hf h b' m1)
            } else jit_run_block hf h b m))"

definition jit_compile_offline :: "'c vm \<Rightarrow> 'c jit_state \<Rightarrow> u64 \<Rightarrow> u32" where
  "jit_compile_offline m jit tgt = 0"

end
