(* ===== verification/RV_Jit_Sim.thy ===== *)
theory RV_Jit_Sim
  imports RV_Sljit
begin

text \<open>
  Correctness of the block compiler: the code of a block does what the interpreter's switch does with
  the instructions the block was compiled from.
\<close>

subsection \<open>Immediates\<close>

lemma sub_sign_extend:
  fixes w :: u32
  assumes "take_bit b w = w" "0 < b" "b < 32"
  shows "scast (if bit w (b - 1) then w - 2 ^ b else w) = sign_extend (ucast w) b"
proof -
  have hi: "n < b" if "bit w n" for n using assms(1) that by (rule take_bit_bound)
  have neg: "- (2 ^ b) = NOT (mask b :: u32)" by (simp add: mask_eq_exp_minus_1 not_eq_complement)
  have "w AND NOT (mask b) = 0" by (rule bit_word_eqI) (auto simp: bit_simps dest: hi)
  then have sub: "w - 2 ^ b = w OR NOT (mask b)"
    unfolding diff_conv_add_uminus neg by (rule disjunctive_add_eq_or)
  have "bit (if bit w (b - 1) then w - 2 ^ b else w) n = bit w (if n < b then n else b - 1)" if "n < 32" for n
    using that hi [of n] unfolding sub by (auto simp: bit_simps)
  then have bits: "bit (scast (if bit w (b - 1) then w - 2 ^ b else w) :: u64) n = bit (ucast w :: u64) (if n < b then n else b - 1)"
    if "n < 64" for n
    using that assms(2,3) by (auto simp: bit_simps)
  have "take_bit b (ucast w :: u64) = ucast w"
    by (rule bit_word_eqI) (auto simp: bit_simps dest: hi)
  from sign_extend_eqI [OF this assms(2) _ bits] assms(3) show ?thesis by simp
qed

lemma sub_sign_extends:
  fixes w :: u32
  shows "take_bit 12 w = w \<Longrightarrow> scast (if bit w 11 then w - 0x1000 else w) = sign_extend (ucast w) 12"
    "take_bit 13 w = w \<Longrightarrow> scast (if bit w 12 then w - 0x2000 else w) = sign_extend (ucast w) 13"
    "take_bit 21 w = w \<Longrightarrow> scast (if bit w 20 then w - 0x200000 else w) = sign_extend (ucast w) 21"
  using sub_sign_extend [of 12 w] sub_sign_extend [of 13 w] sub_sign_extend [of 21 w] by (simp_all split: if_splits)

lemma test_bit: "w AND 0x800 \<noteq> 0 \<longleftrightarrow> bit (w :: u32) 11" "w AND 0x1000 \<noteq> 0 \<longleftrightarrow> bit w 12"
  "w AND 0x100000 \<noteq> 0 \<longleftrightarrow> bit w 20"
  using and_exp_eq_0_iff_not_bit [of w 11] and_exp_eq_0_iff_not_bit [of w 12] and_exp_eq_0_iff_not_bit [of w 20]
  by simp_all

lemma jit_imm_i_eq: "jit_imm_i insn = imm_i insn"
  unfolding jit_imm_i_def imm_i_def
  by (intro sign_extend_eqI [symmetric] bit_word_eqI) (auto simp: bit_simps bit_signed_drop_bit_iff dest: bit_imp_le_length)

lemma jit_imm_u_eq: "jit_imm_u insn = imm_u insn"
proof -
  have u: "(0xFFFFF000 :: u32) = NOT (mask 12)" "(0xFFFFF000 :: u64) = mask 32 AND NOT (mask 12)"
    by (simp_all add: mask_eq_exp_minus_1)
  show ?thesis unfolding jit_imm_u_def imm_u_def u
    by (intro sign_extend_eqI [symmetric] bit_word_eqI) (auto simp: bit_simps dest: bit_imp_le_length)
qed

lemma take_bit_field: "k + j \<le> n \<Longrightarrow> take_bit n (shl (take_bit k w) j) = shl (take_bit k w) j"
  for w :: "'a::len word"
  by (rule bit_word_eqI) (auto simp: bit_simps)

lemma take_bit_low: "k \<le> n \<Longrightarrow> take_bit n (take_bit k w) = take_bit k w" "take_bit 12 (shl (shr v 25) 5) = shl (shr v 25) 5"
  for w :: "'a::len word" and v :: u32
  by (rule bit_word_eqI; auto simp: bit_simps dest: bit_imp_le_length)+

lemma take_bit_orI: "take_bit n a = a \<Longrightarrow> take_bit n b = b \<Longrightarrow> take_bit n (a OR b) = a OR b"
  for a b :: "'a::len word"
  by (simp add: take_bit_or)

lemma imm_fields_bound:
  "take_bit 12 (shl (shr insn 25) 5 OR (shr insn 7 AND 0x1F)) = shl (shr insn 25) 5 OR (shr insn 7 AND 0x1F :: u32)"
  "take_bit 13 (shl (shr insn 31 AND 1) 12 OR shl (shr insn 7 AND 1) 11 OR shl (shr insn 25 AND 0x3F) 5 OR shl (shr insn 8 AND 0xF) 1)
    = (shl (shr insn 31 AND 1) 12 OR shl (shr insn 7 AND 1) 11 OR shl (shr insn 25 AND 0x3F) 5 OR shl (shr insn 8 AND 0xF) 1 :: u32)"
  "take_bit 21 (shl (shr insn 31 AND 1) 20 OR shl (shr insn 12 AND 0xFF) 12 OR shl (shr insn 20 AND 1) 11 OR shl (shr insn 21 AND 0x3FF) 1)
    = (shl (shr insn 31 AND 1) 20 OR shl (shr insn 12 AND 0xFF) 12 OR shl (shr insn 20 AND 1) 11 OR shl (shr insn 21 AND 0x3FF) 1 :: u32)"
  unfolding field_masks by (intro take_bit_orI take_bit_field take_bit_low; simp)+

lemma jit_imm_s_eq: "jit_imm_s insn = imm_s insn"
  unfolding jit_imm_s_def imm_s_def Let_def test_bit
  by (rule sub_sign_extends) (rule imm_fields_bound)

lemma jit_off_b_eq: "jit_off_b insn = imm_b insn"
  unfolding jit_off_b_def imm_b_def Let_def test_bit
  by (rule sub_sign_extends) (rule imm_fields_bound)

lemma jit_off_j_eq: "jit_off_j insn = imm_j insn"
proof -
  have swap: "shl (shr insn 31 AND 1) 20 OR shl (shr insn 21 AND 0x3FF) 1 OR shl (shr insn 20 AND 1) 11 OR shl (shr insn 12 AND 0xFF) 12
    = shl (shr insn 31 AND 1) 20 OR shl (shr insn 12 AND 0xFF) 12 OR shl (shr insn 20 AND 1) 11 OR shl (shr insn 21 AND 0x3FF) 1"
    by (simp add: ac_simps)
  show ?thesis
    unfolding jit_off_j_def imm_j_def Let_def test_bit swap
    by (rule sub_sign_extends) (rule imm_fields_bound)
qed

lemma jit_f7_eq: "jit_f7 insn = f7_of insn"
  unfolding jit_f7_def f7_of_def field_masks
  by (rule bit_word_eqI) (auto simp: bit_simps dest: bit_imp_le_length)

lemma jit_shamt_eq:
  "jit_shamt insn 0x3F = ucast (shr insn 20 AND 0x3F)" "jit_shamt insn 0x1F = ucast (shr insn 20 AND 0x1F)"
  unfolding jit_shamt_def field_masks
  by (rule bit_word_eqI; auto simp: bit_simps bit_signed_drop_bit_iff)+

lemmas jit_fields = jit_imm_i_eq jit_imm_u_eq jit_imm_s_eq jit_off_b_eq jit_off_j_eq jit_f7_eq jit_shamt_eq

subsection \<open>What code does\<close>

text \<open>Code that runs to its end, or leaves for the epilogue, with a given machine, keeping the two
  registers that a block relies on.\<close>

definition kept :: "lir_env \<Rightarrow> lir_env \<Rightarrow> bool" where
  "kept e e' \<longleftrightarrow> le_reg e' CPU_REG = le_reg e CPU_REG \<and> le_reg e' COUNT_REG = le_reg e COUNT_REG"

definition falls_through :: "host_fp \<Rightarrow> lir_host \<Rightarrow> lir list \<Rightarrow> lir_env \<Rightarrow> 'c vm \<Rightarrow> 'c vm \<Rightarrow> bool" where
  "falls_through hf h code e m m' \<longleftrightarrow>
     (\<forall>rest res. (\<forall>e'. kept e e' \<longrightarrow> lir_run hf h rest e' m' = res) \<longrightarrow> lir_run hf h (code @ rest) e m = res)"

definition exits :: "host_fp \<Rightarrow> lir_host \<Rightarrow> lir list \<Rightarrow> lir_env \<Rightarrow> 'c vm \<Rightarrow> 'c vm \<Rightarrow> bool" where
  "exits hf h code e m m' \<longleftrightarrow>
     (\<forall>rest res. (\<forall>e'. kept e e' \<longrightarrow> lir_run hf h (goto EPILOGUE rest) e' m' = res) \<longrightarrow>
        lir_run hf h (code @ rest) e m = res)"

lemma falls_throughI:
  "(\<And>rest res. (\<And>e'. kept e e' \<Longrightarrow> lir_run hf h rest e' m' = res) \<Longrightarrow> lir_run hf h (code @ rest) e m = res) \<Longrightarrow>
   falls_through hf h code e m m'"
  by (simp add: falls_through_def)

lemma exitsI:
  "(\<And>rest res. (\<And>e'. kept e e' \<Longrightarrow> lir_run hf h (goto EPILOGUE rest) e' m' = res) \<Longrightarrow> lir_run hf h (code @ rest) e m = res) \<Longrightarrow>
   exits hf h code e m m'"
  by (simp add: exits_def)

lemma exits_append: "exits hf h code e m m' \<Longrightarrow> Label EPILOGUE \<notin> set code' \<Longrightarrow> exits hf h (code @ code') e m m'"
  by (simp add: exits_def)

text \<open>Storing the program counter that is already there changes nothing.\<close>

lemma set_pc:
  assumes "cpu_pc m = pc"
  shows "exits hf h code e m m' \<Longrightarrow> exits hf h (Op1 SLJIT_MOV Mem_pc (Imm pc) # code) e m m'"
    "falls_through hf h code e m m' \<Longrightarrow> falls_through hf h (Op1 SLJIT_MOV Mem_pc (Imm pc) # code) e m m'"
  using assms by (auto simp: exits_def falls_through_def)

lemma no_epilogue_label [simp]:
  "Label l \<notin> set (emit_load_guest r g)" "Label l \<notin> set (emit_store_guest g r)" "Label l \<notin> set (emit_extend f3)"
  "Label l \<notin> set (emit_memory_icall st sz rs1 imm rs2)" "Label l \<notin> set (emit_set_less c o2)"
  "Label l \<notin> set (emit_result_32 g)"
  by (auto simp: emit_load_guest_def emit_store_guest_def emit_extend_def emit_memory_icall_def emit_set_less_def
      emit_result_32_def Let_def)

lemma WR_x0: "cpu_x m 0 = 0 \<Longrightarrow> WR 0 v m = m"
  by (simp add: WR_def fun_upd_idem)

lemma emit_load_guest_run [simp]:
  "cpu_x m 0 = 0 \<Longrightarrow> lir_run hf h (emit_load_guest r g @ rest) e m = lir_run hf h rest (e\<lparr>le_reg := (le_reg e)(r := cpu_x m g)\<rparr>) m"
  by (simp add: emit_load_guest_def)

lemma emit_store_guest_run [simp]:
  "cpu_x m 0 = 0 \<Longrightarrow> lir_run hf h (emit_store_guest g r @ rest) e m = lir_run hf h rest e (WR g (le_reg e r) m)"
  "cpu_x m 0 = 0 \<Longrightarrow> lir_run hf h (emit_store_guest g r) e m = lir_run hf h [] e (WR g (le_reg e r) m)"
  by (auto simp: emit_store_guest_def WR_x0 WR_def fun_upd_twist fun_upd_idem)

lemma f3_cases: "f3_of insn \<in> {0, 1, 2, 3, 4, 5, 6, 7}"
  unfolding f3_of_def by (rule and_7_cases)

subsection \<open>Where the compiler and the interpreter agree\<close>

text \<open>A loaded value fits the size of the access; devices may return more than was asked for.\<close>

definition load_fits :: "'c vm \<Rightarrow> u32 \<Rightarrow> bool" where
  "load_fits m insn =
     (case load_size (f3_of insn) of
        None \<Rightarrow> True
      | Some sz \<Rightarrow> (case rv64_cpu_load m (cpu_x m (rs1_of insn) + imm_i insn) sz ACCESS_READ of
            Some (Inr val, _) \<Rightarrow> take_bit (8 * sz) val = val
          | _ \<Rightarrow> True))"

text \<open>What the compiler relies on: \<open>x0\<close> is zero, no multiplication or division, register shifts below
  the operand width, no reserved shift, load or store encoding.\<close>

definition insn_ok :: "'c vm \<Rightarrow> u32 \<Rightarrow> bool" where
  "insn_ok m insn \<longleftrightarrow>
     (let op = op_of insn; f3 = f3_of insn; f7 = f7_of insn; b = cpu_x m (rs2_of insn) in
      cpu_x m 0 = 0 \<and>
      (op = 0x33 \<longrightarrow> f7 \<noteq> 1 \<and> (f3 \<in> {1, 5} \<longrightarrow> unat b < 64)) \<and>
      (op = 0x3B \<longrightarrow> f7 \<noteq> 1 \<and> (f3 \<in> {1, 5} \<longrightarrow> unat (ucast b :: u32) < 32)) \<and>
      (op = 0x13 \<and> f3 = 5 \<longrightarrow> shr f7 1 \<in> {0, 0x10}) \<and>
      (op = 0x03 \<longrightarrow> f3 \<noteq> 7 \<and> load_fits m insn) \<and>
      (op = 0x23 \<longrightarrow> f3 < 4))"

lemma and_shift_masks: "b AND 0x3F = take_bit 6 (b :: u64)" "c AND 0x1F = take_bit 5 (c :: u32)"
  by (simp_all add: take_bit_eq_mask mask_eq_exp_minus_1)

lemma small_shift [simp]:
  "unat (b :: u64) < 64 \<Longrightarrow> unat (b AND 0x3F) = unat b" "unat (c :: u32) < 32 \<Longrightarrow> unat (c AND 0x1F) = unat c"
  using take_bit_nat_eq_self [of "unat b" 6] take_bit_nat_eq_self [of "unat c" 5]
  by (simp_all only: and_shift_masks unsigned_take_bit_eq) simp_all

lemma emit_op_sim:
  assumes "insn_ok m insn" "op_of insn = 0x33"
  shows "\<exists>v. alu_reg (f7_of insn) (f3_of insn) (cpu_x m (rs1_of insn)) (cpu_x m (rs2_of insn)) = Some v \<and>
    falls_through hf h (em_code (emit_op insn nj)) e m (WR (rd_of insn) v m)"
proof -
  have x0: "cpu_x m 0 = 0" and f7: "f7_of insn \<noteq> 1" using assms by (simp_all add: insn_ok_def Let_def)
  have sh: "unat (cpu_x m (rs2_of insn)) < 64" if "f3_of insn \<in> {1, 5}" using assms that by (auto simp: insn_ok_def Let_def)
  show ?thesis
    using f3_cases [of insn] x0 f7 sh
    by (auto simp: emit_op_def alu_reg_def emit_set_less_def jit_fields cond_holds_def shift_values shift_count_def
        Let_def kept_def intro!: falls_throughI)
qed



lemma shift_count_shamt:
  "shift_count True (ucast (shr insn 20 AND 0x3F :: u32) :: u64) = Some (unat (shr insn 20 AND 0x3F))"
  "shift_count True (ucast (ucast (shr insn 20 AND 0x1F :: u32) :: u64) :: u32) = Some (unat (shr insn 20 AND 0x1F))"
proof -
  have "shr insn 20 AND 0x3F \<le> 0x3F" "shr insn 20 AND 0x1F \<le> 0x1F" by (rule word_and_le1)+
  then have "unat (shr insn 20 AND 0x3F) < 64" "unat (shr insn 20 AND 0x1F) < 32" by (simp_all add: word_le_nat_alt)
  then show "shift_count True (ucast (shr insn 20 AND 0x3F :: u32) :: u64) = Some (unat (shr insn 20 AND 0x3F))"
    "shift_count True (ucast (ucast (shr insn 20 AND 0x1F :: u32) :: u64) :: u32) = Some (unat (shr insn 20 AND 0x1F))"
    by (simp_all add: shift_count_def unsigned_ucast_eq take_bit_nat_eq_self take_bit_word_beyond_length_eq)
qed

lemma emit_op_imm_sim:
  assumes "insn_ok m insn" "op_of insn = 0x13"
  shows "falls_through hf h (em_code (emit_op_imm insn nj)) e m (WR (rd_of insn)
    (alu_imm (f3_of insn) (f7_of insn) (unat (shr insn 20 AND 0x3F)) (cpu_x m (rs1_of insn)) (imm_i insn)) m)"
proof -
  have x0: "cpu_x m 0 = 0" using assms by (simp add: insn_ok_def Let_def)
  have "shr insn 26 = shr (f7_of insn) 1"
    unfolding f7_of_def field_masks by (rule bit_word_eqI) (auto simp: bit_simps dest: bit_imp_le_length)
  then have arith: "shr insn 26 = 0x10 \<longleftrightarrow> shr (f7_of insn) 1 \<noteq> 0" if "f3_of insn = 5"
    using assms that by (auto simp: insn_ok_def Let_def)
  note shift_count_shamt(1) [of insn]
  then show ?thesis
    using f3_cases [of insn] x0 arith
    by (auto simp: emit_op_imm_def alu_imm_def emit_set_less_def jit_fields cond_holds_def shift_values
        Let_def kept_def intro!: falls_throughI)
qed

lemma emit_op_32_sim:
  assumes "insn_ok m insn" "op_of insn = 0x3B" "em_supported (emit_op_32 insn nj)"
  shows "\<exists>v. alu_reg_w (f7_of insn) (f3_of insn) (ucast (cpu_x m (rs1_of insn))) (ucast (cpu_x m (rs2_of insn))) = Some (Inr v) \<and>
    falls_through hf h (em_code (emit_op_32 insn nj)) e m (WR (rd_of insn) (scast v) m)"
proof -
  have x0: "cpu_x m 0 = 0" and f7: "f7_of insn \<noteq> 1" using assms by (simp_all add: insn_ok_def Let_def)
  have sh: "unat (ucast (cpu_x m (rs2_of insn)) :: u32) < 32" if "f3_of insn \<in> {1, 5}"
    using assms that by (auto simp: insn_ok_def Let_def)
  have f3: "f3_of insn \<in> {0, 1, 5}" using assms(3) by (simp add: emit_op_32_def Let_def)
  show ?thesis
    using f3 x0 f7 sh
    by (auto simp: emit_op_32_def alu_reg_w_def emit_result_32_def jit_fields shift_values shift_count_def
        mov_value_def Let_def kept_def intro!: falls_throughI)
qed

lemma emit_op_imm_32_sim:
  assumes "insn_ok m insn" "em_supported (emit_op_imm_32 insn nj)"
  shows "\<exists>v. alu_imm_w (f3_of insn) (f7_of insn) (unat (shr insn 20 AND 0x1F)) (ucast (cpu_x m (rs1_of insn))) (imm_i insn) = Inr v \<and>
    falls_through hf h (em_code (emit_op_imm_32 insn nj)) e m (WR (rd_of insn) (scast v) m)"
proof -
  have x0: "cpu_x m 0 = 0" using assms by (simp add: insn_ok_def Let_def)
  have f3: "f3_of insn \<in> {0, 1, 5}" using assms(2) by (simp add: emit_op_imm_32_def Let_def)
  note shift_count_shamt(2) [of insn]
  then show ?thesis
    using f3 x0
    by (auto simp: emit_op_imm_32_def alu_imm_w_def emit_result_32_def jit_fields shift_values
        mov_value_def Let_def kept_def intro!: falls_throughI)
qed

text \<open>The result of an access that raised an exception is not 0, whatever the width it is read at.\<close>

lemma exc_word_fault:
  "exc \<in> {fault_code acc, access_fault acc, EXC_STORE_PAGE_FAULT, EXC_STORE_ACCESS} \<Longrightarrow> exc_word (Inl exc) \<noteq> 0"
  by (auto simp: exc_word_def fault_code_def access_fault_def split: if_splits access.splits)

lemma exc_word_Inr [simp]: "exc_word (Inr v) = 0"
  by (simp add: exc_word_def)

lemma unat_jit_size:
  "load_size (f3_of insn) = Some sz \<Longrightarrow> unat (jit_size (f3_of insn)) = sz"
  "store_size (f3_of insn) = Some sz \<Longrightarrow> unat (jit_size (f3_of insn)) = sz"
  using f3_cases [of insn] by (auto simp: load_size_def store_size_def jit_size_def)

lemma emit_icall_load:
  assumes "cpu_x m 0 = 0" "le_reg e CPU_REG = lh_cpu h"
    and "rv64_cpu_load m (cpu_x m rs1 + imm) (unat sz) ACCESS_READ = Some (r, m1)"
  shows "(case r of
      Inl _ \<Rightarrow> exits hf h (emit_memory_icall False sz rs1 imm 0) e m m1
    | Inr val \<Rightarrow> \<forall>rest res. (\<forall>e'. kept e e' \<and> le_reg e' R0 = val \<longrightarrow> lir_run hf h rest e' m1 = res) \<longrightarrow>
        lir_run hf h (emit_memory_icall False sz rs1 imm 0 @ rest) e m = res)"
proof (cases r)
  case (Inl exc)
  with cpu_load_faults assms(3) have "exc_word r \<noteq> 0" by (auto dest!: faults_inD intro!: exc_word_fault)
  then show ?thesis using assms Inl
    by (auto simp: emit_memory_icall_def lir_call_def helper_sljit_load_def rv64_jit_load_def cond_holds_def
        Let_def kept_def intro!: exitsI)
next
  case (Inr val)
  then show ?thesis using assms
    by (auto simp: emit_memory_icall_def lir_call_def helper_sljit_load_def rv64_jit_load_def cond_holds_def
        Let_def kept_def)
qed

lemma emit_icall_store:
  assumes "cpu_x m 0 = 0" "le_reg e CPU_REG = lh_cpu h"
    and "cpu_store m (cpu_x m rs1 + imm) (unat sz) (cpu_x m rs2) = Some (r, m1)"
  shows "case r of
      Inl _ \<Rightarrow> exits hf h (emit_memory_icall True sz rs1 imm rs2) e m m1
    | Inr _ \<Rightarrow> falls_through hf h (emit_memory_icall True sz rs1 imm rs2) e m m1"
proof (cases r)
  case (Inl exc)
  with cpu_store_faults assms(3) have "exc_word r \<noteq> 0" by (auto dest!: faults_inD intro!: exc_word_fault)
  then show ?thesis using assms Inl
    by (auto simp: emit_memory_icall_def lir_call_def helper_sljit_store_def rv64_jit_store_def cond_holds_def
        Let_def kept_def intro!: exitsI)
next
  case (Inr u)
  then show ?thesis using assms
    by (auto simp: emit_memory_icall_def lir_call_def helper_sljit_store_def rv64_jit_store_def cond_holds_def
        Let_def kept_def intro!: falls_throughI)
qed

text \<open>What the zero extensions of the compiler keep.\<close>

lemma zero_extends:
  "take_bit 8 v = v \<Longrightarrow> ucast (ucast v :: u8) = (v :: u64)" "take_bit 16 v = v \<Longrightarrow> ucast (ucast v :: u16) = v"
  "take_bit 32 v = v \<Longrightarrow> ucast (ucast v :: u32) = v"
proof -
  have "ucast (ucast v :: u8) = take_bit 8 v" "ucast (ucast v :: u16) = take_bit 16 v" "ucast (ucast v :: u32) = take_bit 32 v"
    by (rule bit_word_eqI; auto simp: bit_simps)+
  then show "take_bit 8 v = v \<Longrightarrow> ucast (ucast v :: u8) = v" "take_bit 16 v = v \<Longrightarrow> ucast (ucast v :: u16) = v"
    "take_bit 32 v = v \<Longrightarrow> ucast (ucast v :: u32) = v" by simp_all
qed

lemma emit_extend_run:
  assumes "load_size (f3_of insn) = Some sz" "f3_of insn \<in> {4, 5, 6} \<longrightarrow> take_bit (8 * sz) (le_reg e R0) = le_reg e R0"
  shows "lir_run hf h (emit_extend (f3_of insn) @ rest) e m =
    lir_run hf h rest (e\<lparr>le_reg := (le_reg e)(R0 := load_extend (f3_of insn) (le_reg e R0))\<rparr>) m"
  using f3_cases [of insn] assms zero_extends [of "le_reg e R0"]
  by (auto simp: emit_extend_def load_extend_def load_size_def mov_value_def fun_upd_idem)

subsection \<open>One instruction\<close>

text \<open>An instruction that does not complete leaves the machine as it is when the interpreter takes the
  trap, or, where the floating point unit has taken the trap itself, after it.\<close>

definition leaves :: "host_fp \<Rightarrow> 'c vm \<Rightarrow> u32 \<Rightarrow> u64 \<Rightarrow> 'c vm \<Rightarrow> bool" where
  "leaves hf m insn next_pc m' \<longleftrightarrow>
     (\<exists>exc tval. exec hf m insn next_pc = take_trap m' exc tval) \<or> exec hf m insn next_pc = Some (Done, m')"

text \<open>Code that matches an instruction: \<open>ends\<close> says that it sets the program counter itself.\<close>

definition simulates :: "host_fp \<Rightarrow> lir_host \<Rightarrow> lir list \<Rightarrow> bool \<Rightarrow> 'c vm \<Rightarrow> u32 \<Rightarrow> u64 \<Rightarrow> bool" where
  "simulates hf h code ends m insn next_pc \<longleftrightarrow>
     (\<forall>npc m1. exec hf m insn next_pc = Some (Next npc, m1) \<longrightarrow>
        (ends \<or> npc = next_pc) \<and>
        (\<forall>e. le_reg e CPU_REG = lh_cpu h \<longrightarrow> falls_through hf h code e m (if ends then m1\<lparr>cpu_pc := npc\<rparr> else m1))) \<and>
     (\<forall>m1. exec hf m insn next_pc = Some (Done, m1) \<longrightarrow>
        (\<exists>m2. leaves hf m insn next_pc m2 \<and> (\<forall>e. le_reg e CPU_REG = lh_cpu h \<longrightarrow> exits hf h code e m m2)))"

lemma simulates_next:
  assumes "exec hf m insn next_pc = Some (Next next_pc, m1)"
    and "\<And>e. le_reg e CPU_REG = lh_cpu h \<Longrightarrow> falls_through hf h code e m m1"
  shows "simulates hf h code False m insn next_pc"
  using assms by (simp add: simulates_def)

lemma simulates_alu:
  assumes "insn_ok m insn" "em_supported (emit_insn pc len insn nj)" "op_of insn \<in> {0x33, 0x13, 0x3B, 0x1B}"
  shows "simulates hf h (em_code (emit_insn pc len insn nj)) False m insn next_pc"
  using assms(3)
proof (elim insertE emptyE)
  assume op: "op_of insn = 0x33"
  from emit_op_sim [OF assms(1) op] obtain v where
    "alu_reg (f7_of insn) (f3_of insn) (cpu_x m (rs1_of insn)) (cpu_x m (rs2_of insn)) = Some v" "\<And>e. falls_through hf h (em_code (emit_op insn nj)) e m (WR (rd_of insn) v m)"
    by (metis option.inject)
  with op show ?thesis by (intro simulates_next) (simp_all add: exec_def exec_op_def emit_insn_def Let_def)
next
  assume op: "op_of insn = 0x13"
  with emit_op_imm_sim [OF assms(1) op] show ?thesis
    by (intro simulates_next) (auto simp: exec_def exec_op_imm_def emit_insn_def Let_def)
next
  assume op: "op_of insn = 0x3B"
  then have sup: "em_supported (emit_op_32 insn nj)" using assms(2) by (simp add: emit_insn_def Let_def)
  from emit_op_32_sim [OF assms(1) op sup] obtain v where
    "alu_reg_w (f7_of insn) (f3_of insn) (ucast (cpu_x m (rs1_of insn))) (ucast (cpu_x m (rs2_of insn))) = Some (Inr v)"
    "\<And>e. falls_through hf h (em_code (emit_op_32 insn nj)) e m (WR (rd_of insn) (scast v) m)"
    by (metis option.inject sum.inject(2))
  with op show ?thesis by (intro simulates_next) (simp_all add: exec_def exec_op_32_def emit_insn_def Let_def)
next
  assume op: "op_of insn = 0x1B"
  then have sup: "em_supported (emit_op_imm_32 insn nj)" using assms(2) by (simp add: emit_insn_def Let_def)
  from emit_op_imm_32_sim [OF assms(1) sup] obtain v where
    "alu_imm_w (f3_of insn) (f7_of insn) (unat (shr insn 20 AND 0x1F)) (ucast (cpu_x m (rs1_of insn))) (imm_i insn) = Inr v"
    "\<And>e. falls_through hf h (em_code (emit_op_imm_32 insn nj)) e m (WR (rd_of insn) (scast v) m)"
    by (metis sum.inject(2))
  with op show ?thesis by (intro simulates_next) (simp_all add: exec_def exec_op_imm_32_def emit_insn_def Let_def)
qed

lemma simulates_const:
  assumes "insn_ok m insn" "cpu_pc m = pc" "op_of insn \<in> {0x37, 0x17}"
  shows "simulates hf h (em_code (emit_insn pc len insn nj)) False m insn next_pc"
proof -
  have x0: "cpu_x m 0 = 0" using assms by (simp add: insn_ok_def Let_def)
  show ?thesis using assms x0
    by (auto simp: simulates_def exec_def emit_insn_def emit_const_def jit_fields Let_def kept_def intro!: falls_throughI)
qed

lemma branch_type_taken:
  "branch_type f3 = Some type \<Longrightarrow> branch_taken f3 a b = Some (cond_holds type a b)"
  by (auto simp: branch_type_def branch_taken_def cond_holds_def split: if_splits)

lemma simulates_jump:
  assumes "insn_ok m insn" "cpu_pc m = pc" "op_of insn \<in> {0x6F, 0x67}"
  shows "simulates hf h (em_code (emit_insn pc len insn nj)) True m insn (pc + len)"
proof -
  have x0: "cpu_x m 0 = 0" using assms by (simp add: insn_ok_def Let_def)
  have pc: "(WR r v m)\<lparr>cpu_pc := p\<rparr> = WR r v (m\<lparr>cpu_pc := p\<rparr>)" for r v p by (simp add: WR_def)
  show ?thesis using assms x0
    by (auto simp: simulates_def exec_def emit_insn_def emit_jal_def emit_jalr_def
      jit_fields Let_def kept_def intro!: falls_throughI)
qed

lemma simulates_branch:
  assumes "insn_ok m insn" "cpu_pc m = pc" "op_of insn = 0x63" "em_supported (emit_insn pc len insn nj)"
  shows "simulates hf h (em_code (emit_insn pc len insn nj)) True m insn (pc + len)"
proof -
  have x0: "cpu_x m 0 = 0" using assms by (simp add: insn_ok_def Let_def)
  obtain type where type: "branch_type (f3_of insn) = Some type"
    using assms(3,4) by (auto simp: emit_insn_def emit_branch_def Let_def split: option.splits)
  show ?thesis using assms(2,3) x0 type branch_type_taken [OF type]
    by (auto simp: simulates_def exec_def emit_insn_def emit_branch_def exec_branch_def jit_fields Let_def kept_def
        intro!: falls_throughI)
qed

lemma simulates_load:
  assumes "insn_ok m insn" "cpu_pc m = pc" "op_of insn = 0x03"
  shows "simulates hf h (em_code (emit_insn pc len insn nj)) False m insn next_pc"
proof -
  let ?addr = "cpu_x m (rs1_of insn) + imm_i insn"
  have x0: "cpu_x m 0 = 0" and f3: "f3_of insn \<noteq> 7" and fits: "load_fits m insn"
    using assms by (simp_all add: insn_ok_def Let_def)
  obtain sz where sz: "load_size (f3_of insn) = Some sz"
    using f3_cases [of insn] f3 by (auto simp: load_size_def)
  have code: "em_code (emit_insn pc len insn nj) = Op1 SLJIT_MOV Mem_pc (Imm pc) #
      emit_memory_icall False (jit_size (f3_of insn)) (rs1_of insn) (imm_i insn) 0 @
      emit_extend (f3_of insn) @ emit_store_guest (rd_of insn) R0"
    using assms(3) by (simp add: emit_insn_def emit_load_def jit_fields Let_def)
  have ex: "exec hf m insn next_pc = do {
      (r, m1) \<leftarrow> rv64_cpu_load m ?addr sz ACCESS_READ;
      (case r of Inl exc \<Rightarrow> take_trap m1 exc ?addr
       | Inr val \<Rightarrow> Some (Next next_pc, WR (rd_of insn) (load_extend (f3_of insn) val) m1)) }"
    using assms(3) sz by (simp add: exec_def exec_load_def Let_def)
  show ?thesis
  proof (cases "rv64_cpu_load m ?addr sz ACCESS_READ")
    case None
    with ex show ?thesis by (simp add: simulates_def)
  next
    case (Some p)
    then obtain r m1 where ld: "rv64_cpu_load m ?addr sz ACCESS_READ = Some (r, m1)" by (cases p) auto
    note call = emit_icall_load [OF x0 _ ld [folded unat_jit_size(1) [OF sz]]]
    have x1: "cpu_x m1 0 = 0" using rv64_cpu_load_same [OF ld] x0 by (auto simp: mmu_same_fields)
    show ?thesis
    proof (cases r)
      case (Inl exc)
      have lv: "leaves hf m insn next_pc m1" using ex ld Inl by (auto simp: leaves_def)
      show ?thesis
        using ex ld Inl lv call assms(2)
        by (auto simp: simulates_def take_trap_def bind_eq_Some_conv code intro!: exI [of _ m1] set_pc exits_append)
    next
      case (Inr val)
      have fit: "take_bit (8 * sz) val = val" using fits sz ld Inr by (simp add: load_fits_def)
      show ?thesis
      proof (rule simulates_next)
        show "exec hf m insn next_pc = Some (Next next_pc, WR (rd_of insn) (load_extend (f3_of insn) val) m1)"
          using ex ld Inr by simp
        fix e :: lir_env assume cpu: "le_reg e CPU_REG = lh_cpu h"
        have "lir_run hf h (emit_extend (f3_of insn) @ emit_store_guest (rd_of insn) R0 @ rest) e' m1 =
          lir_run hf h rest (e'\<lparr>le_reg := (le_reg e')(R0 := load_extend (f3_of insn) val)\<rparr>)
            (WR (rd_of insn) (load_extend (f3_of insn) val) m1)" if "le_reg e' R0 = val" for e' rest
          using that fit x1 by (simp add: emit_extend_run [OF sz])
        then show "falls_through hf h (em_code (emit_insn pc len insn nj)) e m (WR (rd_of insn) (load_extend (f3_of insn) val) m1)"
          using call [OF cpu, of hf] Inr assms(2)
          by (intro falls_throughI) (auto simp: code kept_def)
      qed
    qed
  qed
qed

lemma simulates_store:
  assumes "insn_ok m insn" "cpu_pc m = pc" "op_of insn = 0x23"
  shows "simulates hf h (em_code (emit_insn pc len insn nj)) False m insn next_pc"
proof -
  let ?addr = "cpu_x m (rs1_of insn) + imm_s insn" and ?val = "cpu_x m (rs2_of insn)"
  have x0: "cpu_x m 0 = 0" and f3: "f3_of insn < 4"
    using assms by (simp_all add: insn_ok_def Let_def)
  obtain sz where sz: "store_size (f3_of insn) = Some sz"
    using f3_cases [of insn] f3 by (auto simp: store_size_def)
  have code: "em_code (emit_insn pc len insn nj) = Op1 SLJIT_MOV Mem_pc (Imm pc) #
      emit_memory_icall True (jit_size (f3_of insn)) (rs1_of insn) (imm_s insn) (rs2_of insn)"
    using assms(3) by (simp add: emit_insn_def emit_store_def jit_fields Let_def)
  have ex: "exec hf m insn next_pc = do {
      (r, m1) \<leftarrow> cpu_store m ?addr sz ?val;
      (case r of Inl exc \<Rightarrow> take_trap m1 exc ?addr | Inr _ \<Rightarrow> Some (Next next_pc, m1)) }"
    using assms(3) sz by (simp add: exec_def exec_store_def Let_def)
  show ?thesis
  proof (cases "cpu_store m ?addr sz ?val")
    case None
    with ex show ?thesis by (simp add: simulates_def)
  next
    case (Some p)
    then obtain r m1 where st: "cpu_store m ?addr sz ?val = Some (r, m1)" by (cases p) auto
    note call = emit_icall_store [OF x0 _ st [folded unat_jit_size(2) [OF sz]]]
    show ?thesis
    proof (cases r)
      case (Inl exc)
      have lv: "leaves hf m insn next_pc m1" using ex st Inl by (auto simp: leaves_def)
      show ?thesis
        using ex st Inl lv call assms(2)
        by (auto simp: simulates_def take_trap_def bind_eq_Some_conv code intro!: exI [of _ m1] set_pc)
    next
      case (Inr u)
      then show ?thesis using ex st call assms(2)
        by (intro simulates_next) (auto simp: code intro: set_pc)
    qed
  qed
qed

text \<open>How the calling convention passes an \<open>int\<close>: its bits are the lower half, and 0 is passed as 0.\<close>

definition int_abi :: "lir_host \<Rightarrow> bool" where
  "int_abi h \<longleftrightarrow> (\<forall>w. ucast (lh_int h w) = w) \<and> lh_int h 0 = 0"

lemma fp_rc_word: "int_abi h \<Longrightarrow> lh_int h (fp_rc_int rc) = 0 \<longleftrightarrow> rc = FP_OK"
  by (cases rc) (auto simp: int_abi_def fp_rc_int_def dest: spec [of _ 1] spec [of _ "- 1"])

lemma simulates_fp:
  assumes "cpu_pc m = pc" "op_of insn \<in> {0x07, 0x27, 0x43, 0x47, 0x4B, 0x4F, 0x53}" "int_abi h"
  shows "simulates hf h (em_code (emit_insn pc len insn nj)) False m insn next_pc"
proof -
  have code: "em_code (emit_insn pc len insn nj) = Op1 SLJIT_MOV Mem_pc (Imm pc) #
      [Op1 SLJIT_MOV (Reg R0) (Reg CPU_REG), Op1 SLJIT_MOV (Reg R1) (Imm (ucast insn)), Icall Call_rv64_fp_exec,
       Cmp SLJIT_NOT_EQUAL (Reg R0) (Imm 0) EPILOGUE]" (is "_ = _ # ?call")
    using assms(2) by (auto simp: emit_insn_def emit_fp_def Let_def)
  have ex: "exec hf m insn next_pc = exec_fp hf m insn next_pc"
    using assms(2) by (auto simp: exec_def Let_def)
  show ?thesis
  proof (cases "rv64_fp_exec hf m insn")
    case None
    with ex show ?thesis by (simp add: simulates_def exec_fp_def)
  next
    case (Some p)
    then obtain rc m1 where fp: "rv64_fp_exec hf m insn = Some (rc, m1)" by (cases p) auto
    have cast: "ucast (ucast insn :: u64) = insn" by (rule bit_word_eqI) (simp add: bit_simps)
    have run: "if rc = FP_OK then falls_through hf h ?call e m m1 else exits hf h ?call e m m1"
      if "le_reg e CPU_REG = lh_cpu h" for e
      using that fp fp_rc_word [OF assms(3)]
      by (auto simp: lir_call_def cond_holds_def kept_def Let_def cast intro!: exitsI falls_throughI)
    have lv: "rc \<noteq> FP_OK \<Longrightarrow> leaves hf m insn next_pc m1"
      using fp by (cases rc) (auto simp: leaves_def ex exec_fp_def illegal_def)
    show ?thesis
      using run lv ex fp assms(1)
      by (cases rc) (auto simp: simulates_def code exec_fp_def illegal_def take_trap_def bind_eq_Some_conv
          intro!: set_pc exI [of _ m1])
  qed
qed

lemmas simulates_insn = simulates_alu simulates_const simulates_jump simulates_branch simulates_load simulates_store simulates_fp

text \<open>The opcodes that set the program counter.\<close>

definition is_jump :: "u32 \<Rightarrow> bool" where
  "is_jump insn \<longleftrightarrow> op_of insn \<in> {0x6F, 0x67, 0x63}"

lemma emit_insn_simulates:
  assumes "insn_ok m insn" "cpu_pc m = pc" "em_supported (emit_insn pc len insn nj)" "int_abi h"
  shows "simulates hf h (em_code (emit_insn pc len insn nj)) (is_jump insn) m insn (pc + len)"
proof -
  have "op_of insn \<in> {0x33, 0x13, 0x3B, 0x1B, 0x37, 0x17, 0x6F, 0x67, 0x63, 0x03, 0x23, 0x07, 0x27, 0x43, 0x47, 0x4B, 0x4F, 0x53}"
    using assms(3) by (auto simp: emit_insn_def emit_nothing_def Let_def split: if_splits)
  then consider "op_of insn \<in> {0x33, 0x13, 0x3B, 0x1B}" | "op_of insn \<in> {0x37, 0x17}" | "op_of insn \<in> {0x6F, 0x67}"
    | "op_of insn = 0x63" | "op_of insn = 0x03" | "op_of insn = 0x23"
    | "op_of insn \<in> {0x07, 0x27, 0x43, 0x47, 0x4B, 0x4F, 0x53}" by auto
  then show ?thesis
    using assms by cases (auto simp: is_jump_def intro: simulates_insn)
qed

subsection \<open>A block\<close>

text \<open>A block as a list of instructions with their lengths: the interpreter's run of it, which stops at
  the first instruction that does not complete.\<close>

type_synonym insns = "(u64 \<times> u32) list"

inductive interp_run :: "host_fp \<Rightarrow> insns \<Rightarrow> 'c vm \<Rightarrow> nat \<Rightarrow> 'c vm \<Rightarrow> bool" for hf where
  ir_end: "interp_run hf [] m 0 m"
| ir_next: "exec hf m insn (cpu_pc m + len) = Some (Next npc, m1) \<Longrightarrow> interp_run hf is (m1\<lparr>cpu_pc := npc\<rparr>) n m' \<Longrightarrow>
    interp_run hf ((len, insn) # is) m (Suc n) m'"
| ir_left: "leaves hf m insn (cpu_pc m + len) m' \<Longrightarrow> interp_run hf ((len, insn) # is) m 0 m'"

text \<open>Every instruction that the run reaches is one the compiler handles as the interpreter does, and its
  result is defined.\<close>

fun block_ok :: "host_fp \<Rightarrow> insns \<Rightarrow> 'c vm \<Rightarrow> bool" where
  "block_ok hf [] m \<longleftrightarrow> True"
| "block_ok hf ((len, insn) # is) m \<longleftrightarrow> insn_ok m insn \<and>
     (case exec hf m insn (cpu_pc m + len) of
        None \<Rightarrow> False
      | Some (Next npc, m1) \<Rightarrow> block_ok hf is (m1\<lparr>cpu_pc := npc\<rparr>)
      | Some (Done, _) \<Rightarrow> True)"

text \<open>The code of a list of instructions, as the loop of the compiler lays it out.\<close>

fun block_code :: "u64 \<Rightarrow> insns \<Rightarrow> lir list" where
  "block_code pc [] = []"
| "block_code pc ((len, insn) # is) =
     em_code (emit_insn pc len insn 0) @ [Op2 SLJIT_ADD None COUNT_REG (Reg COUNT_REG) (Imm 1)] @
     (if is_jump insn then [] else Op1 SLJIT_MOV Mem_pc (Imm (pc + len)) # block_code (pc + len) is)"

fun wf_block :: "u64 \<Rightarrow> insns \<Rightarrow> bool" where
  "wf_block pc [] \<longleftrightarrow> True"
| "wf_block pc ((len, insn) # is) \<longleftrightarrow> em_supported (emit_insn pc len insn 0) \<and> (is_jump insn \<longrightarrow> is = []) \<and> wf_block (pc + len) is"

lemma emit_insn_no_epilogue: "Label EPILOGUE \<notin> set (em_code (emit_insn pc len insn nj))"
  by (simp add: emit_insn_def emit_op_def emit_op_imm_def emit_op_32_def emit_op_imm_32_def emit_const_def emit_jal_def
      emit_jalr_def emit_branch_def emit_load_def emit_store_def emit_fp_def emit_nothing_def Let_def split: option.split)

lemma block_code_no_epilogue: "Label EPILOGUE \<notin> set (block_code pc is)"
  by (induction pc "is" rule: block_code.induct) (auto simp: emit_insn_no_epilogue)

lemma block_epilogue_run [simp]:
  "lir_run hf h block_epilogue e m = Some (le_reg e COUNT_REG, m)" "goto EPILOGUE block_epilogue = block_epilogue"
  by (simp_all add: block_epilogue_def)

lemma block_code_correct:
  fixes m :: "'c vm"
  assumes "block_ok hf is m" "wf_block pc is" "cpu_pc m = pc" "int_abi h"
    and tail: "\<And>e (m :: 'c vm). falls_through hf h tail e m m" "Label EPILOGUE \<notin> set tail"
  shows "\<exists>n m'. interp_run hf is m n m' \<and> n \<le> length is \<and>
    (\<forall>e. le_reg e CPU_REG = lh_cpu h \<longrightarrow>
       lir_run hf h (block_code pc is @ tail @ block_epilogue) e m = Some (le_reg e COUNT_REG + of_nat n, m'))"
  using assms(1-3)
proof (induction "is" arbitrary: m pc)
  case Nil
  have "lir_run hf h (tail @ block_epilogue) e m = Some (le_reg e COUNT_REG, m)" for e
    using tail(1) [of e m] by (simp add: falls_through_def kept_def)
  then show ?case by (intro exI [of _ 0] exI [of _ m]) (simp add: ir_end)
next
  case (Cons a as)
  obtain len insn where a: "a = (len, insn)" by (cases a)
  let ?em = "em_code (emit_insn pc len insn 0)" and ?count = "Op2 SLJIT_ADD None COUNT_REG (Reg COUNT_REG) (Imm 1)"
  have ok: "insn_ok m insn" and sup: "em_supported (emit_insn pc len insn 0)" and last: "is_jump insn \<longrightarrow> as = []"
    and wf: "wf_block (pc + len) as" and pc: "cpu_pc m = pc"
    using Cons.prems by (auto simp: a)
  have sim: "simulates hf h ?em (is_jump insn) m insn (pc + len)"
    using emit_insn_simulates [OF ok pc sup assms(4)] .
  obtain fl m1 where ex: "exec hf m insn (pc + len) = Some (fl, m1)"
    using Cons.prems(1) pc by (auto simp: a split: option.splits)
  show ?case
  proof (cases fl)
    case (Next npc)
    define m2 where "m2 = m1\<lparr>cpu_pc := npc\<rparr>"
    have ok2: "block_ok hf as m2" using Cons.prems(1) ex Next pc by (simp add: a m2_def)
    have npc: "is_jump insn \<or> npc = pc + len"
      and ft: "le_reg e CPU_REG = lh_cpu h \<Longrightarrow> falls_through hf h ?em e m (if is_jump insn then m2 else m1)" for e
      using sim ex Next by (auto simp: simulates_def m2_def)
    obtain n m' where run: "interp_run hf as m2 n m'" "n \<le> length as"
      and rest: "\<And>e. le_reg e CPU_REG = lh_cpu h \<Longrightarrow>
        lir_run hf h ((if is_jump insn then [] else block_code (pc + len) as) @ tail @ block_epilogue) e m2 = Some (le_reg e COUNT_REG + of_nat n, m')"
    proof (cases "is_jump insn")
      case True
      then show thesis using that [of 0 m2] last tail(1) by (simp add: ir_end falls_through_def kept_def)
    next
      case False
      then show thesis using that Cons.IH [OF ok2 wf] npc by (auto simp: m2_def)
    qed
    have "lir_run hf h (block_code pc (a # as) @ tail @ block_epilogue) e m = Some (le_reg e COUNT_REG + of_nat (Suc n), m')"
      if cpu: "le_reg e CPU_REG = lh_cpu h" for e
      using ft [OF cpu] rest npc cpu unfolding falls_through_def kept_def
      by (auto simp: a m2_def split: if_splits)
    moreover have "interp_run hf (a # as) m (Suc n) m'"
      unfolding a by (rule ir_next [OF ex [unfolded Next, folded pc]]) (use run in \<open>simp add: m2_def\<close>)
    ultimately show ?thesis using run(2) by (intro exI [of _ "Suc n"] exI [of _ m']) simp
  next
    case Done
    then obtain m2 where lv: "leaves hf m insn (pc + len) m2"
      and out: "\<And>e. le_reg e CPU_REG = lh_cpu h \<Longrightarrow> exits hf h ?em e m m2"
      using sim ex by (auto simp: simulates_def)
    have "lir_run hf h (block_code pc (a # as) @ tail @ block_epilogue) e m = Some (le_reg e COUNT_REG, m2)"
      if cpu: "le_reg e CPU_REG = lh_cpu h" for e
      using out [OF cpu] tail(2) block_code_no_epilogue [of "pc + len" as] by (auto simp: a exits_def kept_def)
    then show ?thesis using lv pc by (intro exI [of _ 0] exI [of _ m2]) (auto simp: a intro: ir_left)
  qed
qed

subsection \<open>What the compiler's loop produces\<close>

text \<open>The jumps to the epilogue, which the compiler counts in \<open>num_epilogue_jumps\<close>.\<close>

definition count_exits :: "lir list \<Rightarrow> nat" where
  "count_exits code = length (filter (\<lambda>i. case i of Cmp _ _ _ l \<Rightarrow> l = EPILOGUE | _ \<Rightarrow> False) code)"

lemma count_exits_simps [simp]:
  "count_exits [] = 0" "count_exits (a @ b) = count_exits a + count_exits b"
  "count_exits (Op1 mv d s # is) = count_exits is" "count_exits (Op2 op f r s t # is) = count_exits is"
  "count_exits (Op_flags r c # is) = count_exits is" "count_exits (Local_base r # is) = count_exits is"
  "count_exits (Icall g # is) = count_exits is" "count_exits (Jump l # is) = count_exits is"
  "count_exits (Label l # is) = count_exits is" "count_exits (Cmp c s t l # is) = (if l = EPILOGUE then 1 else 0) + count_exits is"
  by (simp_all add: count_exits_def)

lemmas emit_defs = emit_insn_def emit_op_def emit_op_imm_def emit_op_32_def emit_op_imm_32_def emit_const_def emit_jal_def
  emit_jalr_def emit_branch_def emit_load_def emit_store_def emit_fp_def emit_nothing_def Let_def

lemma count_exits_emit [simp]:
  "count_exits (emit_load_guest r g) = 0" "count_exits (emit_store_guest g r) = 0" "count_exits (emit_extend f3) = 0"
  "count_exits (emit_memory_icall st sz rs1 imm rs2) = 1" "count_exits (emit_set_less c o2) = 0"
  "count_exits (emit_result_32 g) = 0"
  by (auto simp: emit_load_guest_def emit_store_guest_def emit_extend_def emit_memory_icall_def emit_set_less_def
      emit_result_32_def Let_def)

definition insn_code :: "u64 \<Rightarrow> u64 \<Rightarrow> u32 \<Rightarrow> lir list" where
  "insn_code pc len insn = em_code (emit_insn pc len insn 0)"

definition insn_supported :: "u64 \<Rightarrow> u64 \<Rightarrow> u32 \<Rightarrow> bool" where
  "insn_supported pc len insn = em_supported (emit_insn pc len insn 0)"

lemma emit_insn_nj:
  "em_code (emit_insn pc len insn nj) = insn_code pc len insn"
  "em_supported (emit_insn pc len insn nj) = insn_supported pc len insn"
  "em_jumps (emit_insn pc len insn nj) = nj + count_exits (insn_code pc len insn)"
  by (simp_all add: insn_code_def insn_supported_def emit_defs split: option.split)

text \<open>Which code can leave early, and which ends a block.\<close>

lemma emit_exits:
  "count_exits (em_code (emit_op insn nj)) = 0" "count_exits (em_code (emit_op_imm insn nj)) = 0"
  "count_exits (em_code (emit_op_32 insn nj)) = 0" "count_exits (em_code (emit_op_imm_32 insn nj)) = 0"
  "count_exits (em_code (emit_const insn v nj)) = 0" "count_exits (em_code (emit_jal pc len insn nj)) = 0"
  "count_exits (em_code (emit_jalr pc len insn nj)) = 0" "count_exits (em_code (emit_branch pc len insn nj)) = 0"
  "count_exits (em_code (emit_load pc insn nj)) = 1" "count_exits (em_code (emit_store pc insn nj)) = 1"
  "count_exits (em_code (emit_fp pc insn nj)) = 1" "count_exits (em_code (emit_nothing nj)) = 0"
  by (simp_all add: emit_defs split: option.split)

lemma emit_ends:
  "\<not> em_ended (emit_op insn nj)" "\<not> em_ended (emit_op_imm insn nj)" "\<not> em_ended (emit_op_32 insn nj)"
  "\<not> em_ended (emit_op_imm_32 insn nj)" "\<not> em_ended (emit_const insn v nj)" "em_ended (emit_jal pc len insn nj)"
  "em_ended (emit_jalr pc len insn nj)" "em_ended (emit_branch pc len insn nj) = em_supported (emit_branch pc len insn nj)"
  "em_ended (emit_load pc insn nj) \<longleftrightarrow> nj \<ge> 60" "em_ended (emit_store pc insn nj) \<longleftrightarrow> nj \<ge> 60"
  "em_ended (emit_fp pc insn nj) \<longleftrightarrow> nj \<ge> 60" "\<not> em_supported (emit_nothing nj)" "\<not> em_ended (emit_nothing nj)"
  by (auto simp: emit_defs split: option.split)

lemma emit_insn_ended:
  "em_supported (emit_insn pc len insn nj) \<Longrightarrow> em_ended (emit_insn pc len insn nj) \<longleftrightarrow>
     is_jump insn \<or> count_exits (insn_code pc len insn) = 1 \<and> nj \<ge> 60"
  by (simp add: insn_code_def emit_insn_def emit_exits emit_ends is_jump_def Let_def split: if_split_asm)

lemma emit_insn_exits_le: "count_exits (em_code (emit_insn pc len insn nj)) \<le> 1"
  by (simp add: emit_insn_def emit_exits Let_def)

text \<open>What is left of an instruction that turned out not to be supported: loads of scratch registers.\<close>

definition dead_code :: "lir list \<Rightarrow> bool" where
  "dead_code is \<longleftrightarrow> (\<forall>i \<in> set is. \<exists>r src. i = Op1 SLJIT_MOV (Reg r) src \<and> r \<noteq> CPU_REG \<and> r \<noteq> COUNT_REG)"

lemma dead_code_falls: "dead_code is \<Longrightarrow> falls_through hf h is e m m"
proof (induction "is" arbitrary: e)
  case (Cons i "is")
  then obtain r src where i: "i = Op1 SLJIT_MOV (Reg r) src" "r \<noteq> CPU_REG" "r \<noteq> COUNT_REG" and "dead_code is"
    by (auto simp: dead_code_def)
  from Cons.IH [OF this(4), of "e\<lparr>le_reg := (le_reg e)(r := lopnd_get e m src)\<rparr>"] i show ?case
    by (auto simp: falls_through_def kept_def)
qed (simp add: falls_through_def kept_def)

lemma unsupported_codes:
  "em_supported (emit_op insn nj)" "em_supported (emit_op_imm insn nj)" "em_supported (emit_const insn v nj)"
  "em_supported (emit_jal pc len insn nj)" "em_supported (emit_jalr pc len insn nj)" "em_supported (emit_load pc insn nj)"
  "em_supported (emit_store pc insn nj)" "em_supported (emit_fp pc insn nj)"
  "em_supported (emit_op_32 insn nj) \<or> dead_code (em_code (emit_op_32 insn nj))"
  "em_supported (emit_op_imm_32 insn nj) \<or> dead_code (em_code (emit_op_imm_32 insn nj))"
  "em_supported (emit_branch pc len insn nj) \<or> dead_code (em_code (emit_branch pc len insn nj))"
  "dead_code (em_code (emit_nothing nj))"
  using f3_cases [of insn] by (auto simp: emit_defs dead_code_def emit_load_guest_def split: option.split)

lemma unsupported_dead: "em_supported (emit_insn pc len insn nj) \<or> dead_code (em_code (emit_insn pc len insn nj))"
  by (simp add: emit_insn_def Let_def unsupported_codes)

text \<open>The instructions at a program counter, decoded as the interpreter decodes them.\<close>

definition decode_word :: "u64 \<Rightarrow> (u64 \<times> u32) option" where
  "decode_word val =
     (let word = ucast val :: u32 in
      if word AND 3 \<noteq> 3 then map_option (Pair 2) (rvc_expand (ucast word)) else Some (4, word))"

fun decode_block :: "nat \<Rightarrow> 'c vm \<Rightarrow> u64 \<Rightarrow> insns" where
  "decode_block 0 m pc = []"
| "decode_block (Suc n) m pc =
     (case rv64_cpu_load m pc 4 ACCESS_EXEC of
        Some (Inr val, m1) \<Rightarrow>
          (case decode_word val of
             Some (len, insn) \<Rightarrow> (len, insn) # decode_block n m1 (pc + len)
           | None \<Rightarrow> [])
      | _ \<Rightarrow> [])"

lemma jit_decode_word:
  "jit_decode val = (len, insn) \<Longrightarrow> \<not> (len = 2 \<and> insn = 0) \<Longrightarrow> decode_word val = Some (len, insn)"
proof -
  have "(ucast val :: u32) AND 0xFFFF = take_bit 16 (ucast val)" by (simp add: take_bit_eq_mask mask_eq_exp_minus_1)
  then have "ucast ((ucast val :: u32) AND 0xFFFF) = (ucast (ucast val :: u32) :: u16)"
    by (simp only:) (rule bit_word_eqI, simp add: bit_simps)
  then show "jit_decode val = (len, insn) \<Longrightarrow> \<not> (len = 2 \<and> insn = 0) \<Longrightarrow> decode_word val = Some (len, insn)"
    by (auto simp: jit_decode_def decode_word_def sljit_uncompress_eq Let_def split: if_splits option.splits)
qed

lemma emit_word_cases:
  obtains "emit_word jit pc len insn nj = emit_nothing nj"
  | "emit_word jit pc len insn nj = emit_insn pc len insn nj" "\<not> (len = 2 \<and> insn = 0)"
  using that unfolding emit_word_def
  by (cases "len = 2 \<and> insn = 0 \<or> jit_op_disabled jit (op_of insn)") simp_all

abbreviation count_insn :: lir where
  "count_insn \<equiv> Op2 SLJIT_ADD None COUNT_REG (Reg COUNT_REG) (Imm 1)"

lemma compile_loop_cases:
  assumes "compile_loop jit (Suc k) m pc n nj code = Some (Code code' n', m')"
  obtains (stop) tail where "code' = code @ tail" "n' = n" "dead_code tail"
  | (ended) val m1 len insn where "rv64_cpu_load m pc 4 ACCESS_EXEC = Some (Inr val, m1)" "decode_word val = Some (len, insn)"
      "insn_supported pc len insn" "em_ended (emit_insn pc len insn nj)"
      "code' = code @ insn_code pc len insn @ [count_insn]" "n' = n + 1"
  | (more) val m1 len insn where "rv64_cpu_load m pc 4 ACCESS_EXEC = Some (Inr val, m1)" "decode_word val = Some (len, insn)"
      "insn_supported pc len insn" "\<not> em_ended (emit_insn pc len insn nj)"
      "compile_loop jit k m1 (pc + len) (n + 1) (nj + count_exits (insn_code pc len insn))
         (code @ insn_code pc len insn @ [count_insn, Op1 SLJIT_MOV Mem_pc (Imm (pc + len))]) = Some (Code code' n', m')"
proof -
  obtain r m1 where ld: "rv64_cpu_load m pc 4 ACCESS_EXEC = Some (r, m1)"
    using assms by (auto simp: bind_eq_Some_conv)
  show thesis
  proof (cases r)
    case (Inl exc)
    with assms ld show thesis by (intro stop [of "[]"]) (simp_all add: dead_code_def)
  next
    case (Inr val)
    obtain len insn where dec: "jit_decode val = (len, insn)" by (cases "jit_decode val")
    let ?em = "emit_word jit pc len insn nj"
    have eq: "(if \<not> em_supported ?em then (if n = 0 then Some (Unsupported, m1) else Some (Code (code @ em_code ?em) n, m1))
        else if em_ended ?em then Some (Code (code @ em_code ?em @ [count_insn]) (n + 1), m1)
        else compile_loop jit k m1 (pc + len) (n + 1) (em_jumps ?em)
          (code @ em_code ?em @ [count_insn, Op1 SLJIT_MOV Mem_pc (Imm (pc + len))])) = Some (Code code' n', m')"
      using assms ld Inr dec by (auto simp: Let_def split: if_splits)
    show thesis
    proof (cases "em_supported ?em")
      case False
      have "dead_code (em_code ?em)"
        using False unsupported_dead [of pc len insn nj] by (auto simp: emit_word_def emit_nothing_def dead_code_def)
      with False eq show thesis by (intro stop [of "em_code ?em"]) (auto split: if_splits)
    next
      case True
      then have em: "?em = emit_insn pc len insn nj" and word: "decode_word val = Some (len, insn)"
        using jit_decode_word [OF dec] by (cases rule: emit_word_cases [of jit pc len insn nj]; simp add: emit_nothing_def)+
      show thesis
        using True eq ended [OF ld [unfolded Inr] word] more [OF ld [unfolded Inr] word]
        unfolding em emit_insn_nj by (auto split: if_splits)
    qed
  qed
qed

lemma compile_loop_block:
  assumes "compile_loop jit k m pc n nj code = Some (Code code' n', m')" "count_exits code' \<le> 60" "nj = count_exits code"
  shows "\<exists>is tail. code' = code @ block_code pc is @ tail \<and> n' = n + length is \<and> length is \<le> k \<and>
    wf_block pc is \<and> is = decode_block (length is) m pc \<and> dead_code tail"
  using assms
proof (induction k arbitrary: m pc n nj code)
  case 0
  then show ?case by (intro exI [of _ "[]"]) (simp add: dead_code_def)
next
  case (Suc k)
  from Suc.prems(1) show ?case
  proof (cases rule: compile_loop_cases)
    case (stop tail)
    then show ?thesis by (intro exI [of _ "[]"] exI [of _ tail]) simp
  next
    case (ended val m1 len insn)
    then have "is_jump insn"
      using Suc.prems(2,3) emit_insn_ended [of pc len insn nj] by (auto simp: emit_insn_nj)
    with ended show ?thesis
      by (intro exI [of _ "[(len, insn)]"] exI [of _ "[]"]) (simp add: emit_insn_nj dead_code_def)
  next
    case (more val m1 len insn)
    have "\<not> is_jump insn" using more(3,4) emit_insn_ended [of pc len insn nj] by (auto simp: emit_insn_nj)
    moreover obtain "is" tail where "code' = (code @ insn_code pc len insn @ [count_insn,
          Op1 SLJIT_MOV Mem_pc (Imm (pc + len))]) @ block_code (pc + len) is @ tail"
        "n' = n + 1 + length is" "length is \<le> k" "wf_block (pc + len) is" "is = decode_block (length is) m1 (pc + len)" "dead_code tail"
      using Suc.IH [OF more(5) Suc.prems(2)] Suc.prems(3) by auto
    ultimately show ?thesis using more(1-3)
      by (intro exI [of _ "(len, insn) # is"] exI [of _ tail]) (simp add: emit_insn_nj)
  qed
qed

lemma count_exits_prologue [simp]: "count_exits block_prologue = 0" "count_exits block_epilogue = 0"
  by (simp_all add: block_prologue_def block_epilogue_def count_exits_def)

text \<open>The array \<open>epilogue_jumps[64]\<close>.\<close>

lemma compile_loop_exits:
  assumes "compile_loop jit k m pc n nj code = Some (Code code' n', m')" "nj = count_exits code" "nj \<le> 60"
  shows "count_exits code' \<le> 61"
  using assms
proof (induction k arbitrary: m pc n nj code)
  case (Suc k)
  have le: "count_exits (insn_code pc len insn) \<le> 1" for len insn
    using emit_insn_exits_le [of pc len insn 0] by (simp add: emit_insn_nj)
  from Suc.prems(1) show ?case
  proof (cases rule: compile_loop_cases)
    case (stop tail)
    then have "count_exits tail = 0" by (force simp: dead_code_def count_exits_def filter_empty_conv)
    with stop Suc.prems show ?thesis by simp
  next
    case (ended val m1 len insn)
    with le [of len insn] Suc.prems show ?thesis by simp
  next
    case (more val m1 len insn)
    then have "nj + count_exits (insn_code pc len insn) \<le> 60"
      using le [of len insn] Suc.prems(3) emit_insn_ended [of pc len insn nj] by (auto simp: emit_insn_nj le_Suc_eq)
    then show ?thesis using Suc.IH [OF more(5)] Suc.prems(2) by simp
  qed
qed simp

end
