(* ===== verification/RV_Jit.thy ===== *)
theory RV_Jit
  imports RV_Jit_Sim
begin

text \<open>
  What the compiler promises: a block is correct, its bookkeeping stays within its arrays, and a cached
  block runs as the interpreter would have run its instructions. The last section records where the
  compiled code differs from the interpreter.
\<close>

subsection \<open>Compiled blocks\<close>

lemma jit_compiled:
  assumes "jit_compile_block al m0 jit pc = Some (Some b, m1)" "jb_host_code b = Some code"
  obtains c n m2 where "compile_loop jit (jit_max_insns jit) m0 pc 0 0 block_prologue = Some (Code c n, m2)"
    "code = c @ block_epilogue" "jb_insn_count b = of_nat n"
proof -
  obtain r m2 where r: "compile_loop jit (jit_max_insns jit) m0 pc 0 0 block_prologue = Some (r, m2)"
    using assms(1) by (auto simp: jit_compile_block_def bind_eq_Some_conv split: if_splits)
  show thesis
  proof (cases r)
    case (Code c n)
    with assms r that show thesis by (auto simp: jit_compile_block_def Let_def split: if_splits)
  next
    case Unsupported
    with assms r show thesis by (auto simp: jit_compile_block_def Let_def split: if_splits)
  qed
qed

lemma small_count:
  assumes "n < 2 ^ 31"
  shows "unat (of_nat n :: u32) = n" "ucast (of_nat n :: u64) = (of_nat n :: u32)" "scast (of_nat n :: u32) = (of_nat n :: u64)"
  using assms signed_take_bit_int_eq_self [of 31 "int n"]
  by (simp_all add: unsigned_of_nat signed_of_nat take_bit_nat_eq_self)

lemma jit_max_bound: "jit_rt_max_block_insns jit < 2 ^ 31 \<Longrightarrow> jit_max_insns jit < 2 ^ 31"
  by (simp add: jit_max_insns_def nat_less_iff)

lemma jit_block_run:
  assumes "jit_compile_block al m0 jit pc = Some (Some b, m1)" "jb_host_code b = Some code"
    and "count_exits code \<le> 60" "jit_rt_max_block_insns jit < 2 ^ 31" "cpu_pc m = pc" "int_abi h"
    and "block_ok hf (decode_block (unat (jb_insn_count b)) m0 pc) m"
  shows "\<exists>n m'. interp_run hf (decode_block (unat (jb_insn_count b)) m0 pc) m n m' \<and> n < 2 ^ 31 \<and>
    block_call hf h code m pc = Some (of_nat n, m')"
proof -
  obtain c n m2 where c: "compile_loop jit (jit_max_insns jit) m0 pc 0 0 block_prologue = Some (Code c n, m2)"
    and code: "code = c @ block_epilogue" and n: "jb_insn_count b = of_nat n"
    using assms(1,2) by (rule jit_compiled)
  obtain "is" tail where blk: "c = block_prologue @ block_code pc is @ tail" "n = length is" "length is \<le> jit_max_insns jit"
      "wf_block pc is" "is = decode_block (length is) m0 pc" "dead_code tail"
    using compile_loop_block [OF c] assms(3) code by auto
  have len: "length is < 2 ^ 31" using blk(3) jit_max_bound [OF assms(4)] by simp
  then have "unat (jb_insn_count b) = length is" by (simp add: n blk(2) small_count)
  then have dec: "decode_block (unat (jb_insn_count b)) m0 pc = is" using blk(5) by simp
  have "Label EPILOGUE \<notin> set tail" using blk(6) by (auto simp: dead_code_def)
  from block_code_correct [OF assms(7) [unfolded dec] blk(4) assms(5,6) dead_code_falls [OF blk(6)] this]
  obtain k m' where k: "interp_run hf is m k m'" "k \<le> length is"
    and run: "\<And>e. le_reg e CPU_REG = lh_cpu h \<Longrightarrow>
      lir_run hf h (block_code pc is @ tail @ block_epilogue) e m = Some (le_reg e COUNT_REG + of_nat k, m')" by blast
  have "block_call hf h code m pc = Some (of_nat k, m')"
    by (simp add: block_call_def code blk(1) block_prologue_def run)
  with k len dec show ?thesis by auto
qed

text \<open>C2. Compiled code refines the interpreter: the code of a block, run on any machine at the block's
  program counter, completes the number of instructions that it returns, each exactly as the
  interpreter's switch executes it, and stops where one of them does not complete, with the machine that
  the interpreter has when it takes the trap. The instructions are those the interpreter decodes at the
  addresses the block was compiled from. Blocks that the limit on exits has cut short are excluded, and
  so are the instructions that \<open>insn_ok\<close> rules out.\<close>

theorem jit_block_correct:
  assumes "jit_compile_block al m0 jit pc = Some (Some b, m1)" "jb_host_code b = Some code"
    and "count_exits code \<le> 60" "jit_rt_max_block_insns jit < 2 ^ 31" "cpu_pc m = pc" "int_abi h"
    and "block_ok hf (decode_block (unat (jb_insn_count b)) m0 pc) m"
  shows "\<exists>n m'. interp_run hf (decode_block (unat (jb_insn_count b)) m0 pc) m n m' \<and>
    block_call hf h code m pc = Some (of_nat n, m')"
  using jit_block_run [OF assms] by blast


text \<open>C32. The compiler's array \<open>epilogue_jumps[64]\<close> never overflows: a block has at most 61 jumps to
  its epilogue, whatever the instructions and the configured maximal length.\<close>

theorem jit_epilogue_jumps:
  assumes "jit_compile_block al m0 jit pc = Some (Some b, m1)" "jb_host_code b = Some code"
  shows "count_exits code \<le> 61"
proof -
  obtain c n m2 where c: "compile_loop jit (jit_max_insns jit) m0 pc 0 0 block_prologue = Some (Code c n, m2)"
    and "code = c @ block_epilogue"
    using assms by (rule jit_compiled)
  then show ?thesis using compile_loop_exits [OF c] by simp
qed

subsection \<open>A compiled block\<close>

text \<open>\<open>ADDI x1, x0, 5\<close> and \<open>JAL x0, 8\<close> at the start of RAM, in machine mode.\<close>

definition jit_ram :: mem where
  "jit_ram = (\<lambda>_. 0)(0 := 0x93, 2 := 0x50, 4 := 0x6F, 6 := 0x80)"

definition jit_vm :: "lir list vm" where
  "jit_vm = (bare_vm jit_ram 0x10000)\<lparr>cpu_jit := Some (jit_init zero_jit)\<rparr>"

definition jit_code :: "lir list" where
  "jit_code = [Op1 SLJIT_MOV (Reg S1) (Imm 0),
     Op1 SLJIT_MOV (Reg R0) (Imm 0), Op2 SLJIT_ADD None R0 (Reg R0) (Imm 5), Op1 SLJIT_MOV (Mem_x 1) (Reg R0),
     count_insn, Op1 SLJIT_MOV Mem_pc (Imm 0x80000004),
     Op1 SLJIT_MOV (Reg R0) (Imm 0x80000008), Op1 SLJIT_MOV Mem_pc (Imm 0x8000000C), count_insn,
     Label 0, Op1 SLJIT_MOV (Reg R0) (Reg S1), Return R0]"

lemma jit_vm_simps [simp]:
  "cpu_pc jit_vm = 0x80000000" "cpu_priv jit_vm = PRIV_M" "cpu_x jit_vm = (\<lambda>_. 0)" "cpu_jit jit_vm = Some (jit_init zero_jit)"
  "cpu_tlb jit_vm = (\<lambda>_. zero_tlb_entry)" "cpu_ram_size jit_vm = 0x10000" "vm_ram jit_vm = Some jit_ram"
  by (simp_all add: jit_vm_def bare_vm_simps)

lemma jit_ram_words: "load_le jit_ram 0 4 = 0x00500093" "load_le jit_ram 4 4 = 0x0080006F"
  by (simp_all add: load_le_def read_bytes_def jit_ram_def upt_rec)

lemma jit_vm_fetch:
  "rv64_cpu_load jit_vm 0x80000000 4 ACCESS_EXEC = Some (Inr 0x00500093, jit_vm)"
  "rv64_cpu_load jit_vm 0x80000004 4 ACCESS_EXEC = Some (Inr 0x0080006F, jit_vm)"
  by (simp_all add: rv64_cpu_load_def fast_load_ok_def tlb_slot_def zero_tlb_entry_def Let_def cpu_load_slow_def
    crosses_page_def rv64_translate_def bus_load_def ram_hit_def ram_load_def bus_size_def in_block_def jit_ram_words)

lemma jit_vm_decode: "decode_block 2 jit_vm 0x80000000 = [(4, 0x00500093), (4, 0x0080006F)]"
proof -
  have "decode_block (Suc (Suc 0)) jit_vm 0x80000000 = [(4, 0x00500093), (4, 0x0080006F)]"
    by (simp add: jit_vm_fetch decode_word_def)
  then show ?thesis by (simp add: eval_nat_numeral)
qed

lemmas jit_eval = jit_decode_def emit_word_def emit_insn_def emit_op_imm_def emit_jal_def emit_load_guest_def
  emit_store_guest_def op_of_def f3_of_def rs1_of_def rd_of_def jit_imm_i_eq jit_off_j_eq imm_i_def imm_j_def sign_extend_def
  jit_op_disabled_def block_prologue_def block_epilogue_def Let_def

lemma jit_vm_loop:
  "jit_disabled_ops jit = (\<lambda>_. 0) \<Longrightarrow>
     compile_loop jit (Suc (Suc k)) jit_vm 0x80000000 0 0 block_prologue = Some (Code (take 9 jit_code) 2, jit_vm)"
  by (simp add: jit_vm_fetch jit_eval jit_code_def)

definition jit_ready :: "lir list jit_block" where
  "jit_ready = \<lparr>jb_guest_pc = 0x80000000, jb_host_code = Some jit_code, jb_insn_count = 2, jb_valid = True,
     jb_has_store = False, jb_pending = False\<rparr>"

abbreviation alloc_ok :: sljit_alloc where
  "alloc_ok \<equiv> \<lparr>sa_compiler = True, sa_code = (\<lambda>_. True)\<rparr>"

lemma jit_vm_compiles:
  "jit_compile_block alloc_ok jit_vm (jit_init zero_jit) 0x80000000 = Some (Some jit_ready, set_jit_block 0 jit_ready jit_vm)"
proof -
  let ?jit = "jit_init zero_jit :: lir list jit_state"
  have max: "jit_max_insns ?jit = Suc (Suc 62)"
    by (simp add: jit_max_insns_def jit_init_def zero_jit_def)
  have "jit_disabled_ops ?jit = (\<lambda>_. 0)" by (simp add: jit_init_def zero_jit_def)
  from jit_vm_loop [OF this, of 62] show ?thesis
    unfolding jit_compile_block_def max
    by (simp add: jit_ready_def jit_code_def block_epilogue_def jit_cache_index_def jit_init_def zero_jit_def
        zero_jit_block_def Let_def)
qed

definition a_host :: lir_host where
  "a_host = \<lparr>lh_cpu = 0x1000, lh_local = 0x2000, lh_up = (\<lambda>_. 7), lh_scratch = (\<lambda>_. 9), lh_int = ucast\<rparr>"

lemma a_host_abi: "int_abi a_host"
proof -
  have "ucast (ucast w :: u64) = (w :: u32)" for w by (rule bit_word_eqI) (simp add: bit_simps)
  then show ?thesis by (simp add: int_abi_def a_host_def)
qed

lemma jit_vm_ok: "block_ok hf (decode_block 2 jit_vm 0x80000000) m" if "cpu_x m = (\<lambda>_. 0)" "cpu_pc m = 0x80000000"
  unfolding jit_vm_decode using that
  by (simp add: insn_ok_def exec_def exec_op_imm_def op_of_def f3_of_def WR_def Let_def)

theorem jit_block_correct_witness:
  "\<exists>n m'. interp_run undefined [(4, 0x00500093), (4, 0x0080006F)] jit_vm n m' \<and>
     block_call undefined a_host jit_code jit_vm 0x80000000 = Some (of_nat n, m')"
  using jit_block_correct [OF jit_vm_compiles _ _ _ _ a_host_abi, of jit_code jit_vm undefined] jit_vm_ok [of jit_vm undefined]
  by (simp add: jit_ready_def jit_vm_decode count_exits_def jit_code_def jit_init_def zero_jit_def)

text \<open>The machine once the block is in its cache.\<close>

definition warm_vm :: "lir list vm" where
  "warm_vm = set_jit_block 0 jit_ready jit_vm"


theorem jit_epilogue_jumps_witness: "count_exits jit_code \<le> 61 \<and> jb_host_code jit_ready = Some jit_code"
  using jit_epilogue_jumps [OF jit_vm_compiles] by (simp add: jit_ready_def)

subsection \<open>Where compiled code differs from the interpreter\<close>

text \<open>\<open>MUL x3, x1, x2\<close> is compiled to an addition: the compiler tests \<open>funct7\<close> for subtraction
  only. The interpreter multiplies.\<close>

theorem jit_mul_adds:
  assumes "cpu_x m 0 = 0"
  shows "em_supported (emit_insn pc 4 0x022081B3 nj) \<and>
    falls_through hf h (em_code (emit_insn pc 4 0x022081B3 nj)) e m (WR 3 (cpu_x m 1 + cpu_x m 2) m) \<and>
    exec hf m 0x022081B3 (pc + 4) = Some (Next (pc + 4), WR 3 (cpu_x m 1 * cpu_x m 2) m)"
  using assms
  by (auto simp: emit_insn_def emit_op_def exec_def exec_op_def alu_reg_def mul_div_def op_of_def f3_of_def f7_of_def jit_f7_def
      rd_of_def rs1_of_def rs2_of_def kept_def Let_def intro!: falls_throughI)

text \<open>\<open>SLL x3, x1, x2\<close> with 64 in \<open>x2\<close>: the generator leaves a shift by 64 undefined, the interpreter
  shifts by 0.\<close>

theorem jit_shift_undefined:
  assumes "cpu_x m 0 = 0" "cpu_x m 2 = 64"
  shows "lir_run hf h (em_code (emit_insn pc 4 0x002091B3 nj) @ rest) e m = None \<and>
    exec hf m 0x002091B3 (pc + 4) = Some (Next (pc + 4), WR 3 (cpu_x m 1) m)"
  using assms
  by (auto simp: emit_insn_def emit_op_def exec_def exec_op_def alu_reg_def op_of_def f3_of_def f7_of_def jit_f7_def
      rd_of_def rs1_of_def rs2_of_def op2_value_def shift_count_def Let_def)

lemma exec_store_next:
  assumes "exec_store m insn next_pc = Some (Next npc, m1)"
  shows "cpu_pc m1 = cpu_pc m"
proof -
  obtain sz where sz: "store_size (f3_of insn) = Some sz"
    using assms by (cases "store_size (f3_of insn)") (auto simp: exec_store_def illegal_def take_trap_def Let_def bind_eq_Some_conv)
  obtain r m2 where st: "cpu_store m (cpu_x m (rs1_of insn) + imm_s insn) sz (cpu_x m (rs2_of insn)) = Some (r, m2)"
    using assms sz by (auto simp: exec_store_def Let_def bind_eq_Some_conv)
  have "m1 = m2" using assms sz st by (cases r) (auto simp: exec_store_def take_trap_def Let_def bind_eq_Some_conv)
  then show ?thesis using mem_same_fields(2) [OF cpu_store_same(1) [OF st]] by simp
qed

text \<open>A store that is the 61st access of a block ends it without advancing the program counter: the block
  reports the store as completed and leaves \<open>pc\<close> at it, so it is executed again.\<close>

theorem jit_limit_repeats:
  assumes "insn_ok m insn" "op_of insn = 0x23" "cpu_pc m = pc" "le_reg e CPU_REG = lh_cpu h"
    and "exec hf m insn (pc + len) = Some (Next npc, m1)"
  shows "em_ended (emit_insn pc len insn 60) \<and> npc = pc + len \<and>
    lir_run hf h (em_code (emit_insn pc len insn 60) @ [count_insn] @ block_epilogue) e m = Some (le_reg e COUNT_REG + 1, m1) \<and>
    cpu_pc m1 = pc"
proof -
  have sim: "simulates hf h (em_code (emit_insn pc len insn 60)) False m insn (pc + len)"
    using simulates_store [OF assms(1,3,2)] .
  then have ft: "falls_through hf h (em_code (emit_insn pc len insn 60)) e m m1" and npc: "npc = pc + len"
    using assms(4,5) by (auto simp: simulates_def)
  have "cpu_pc m1 = cpu_pc m"
    using exec_store_next [of m insn "pc + len" npc m1] assms(2,5) by (simp add: exec_def)
  moreover have "em_ended (emit_insn pc len insn 60)" using assms(2) by (simp add: emit_insn_def emit_store_def Let_def)
  ultimately show ?thesis using ft npc assms(3) by (auto simp: falls_through_def kept_def)
qed

end
