(* ===== verification/RV_Run.thy ===== *)
theory RV_Run
  imports RV_Jit
begin

text \<open>
  The run loops of \<open>rv64_cpu.c\<close>: \<open>rv64_run\<close>, which interprets, and \<open>rv64_run_jit\<close>, which tries
  compiled code first. Both advance the timer from the host clock, deliver interrupts, wait in \<open>WFI\<close>
  and stop on the cycle budget, a debug halt or a wait that nothing ends.

  The loops may run forever (a trap does not advance \<open>cycle\<close>), so they are partial functions: \<open>None\<close>
  stands for a loop that does not end or that reaches undefined behaviour. \<open>rv64_step\<close> returns 0 on
  every path, so the branches for a negative result have no counterpart.
\<close>

subsection \<open>The loop body\<close>

text \<open>\<open>mtime\<close> from \<open>clock_gettime\<close>: 100 ns per tick since \<open>vm_boot_time_ns\<close>.\<close>

definition drive_mtime :: "'c vm \<Rightarrow> 'c vm" where
  "drive_mtime m =
     (let now_ns = vm_clock m (vm_clock_reads m)
      in m\<lparr>vm_clock_reads := Suc (vm_clock_reads m),
           cpu_clint := (cpu_clint m)\<lparr>c_mtime := (now_ns - vm_boot_time_ns m) div 100\<rparr>\<rparr>)"

text \<open>One turn of the wait: time passes, then interrupts are checked.\<close>

definition wfi_tick :: "u64 \<Rightarrow> 'c vm \<Rightarrow> 'c vm" where
  "wfi_tick check_interval m =
     cpu_prof_update (prof_wfi_cycles_update (\<lambda>n. n + check_interval))
       (cpu_cycle_update (\<lambda>n. n + check_interval) (drive_mtime m))"

partial_function (option) wfi_loop :: "u64 \<Rightarrow> u64 \<Rightarrow> 'c vm \<Rightarrow> 'c vm option" where
  "wfi_loop check_interval max_cycles m =
     (if cpu_halted m \<and> cpu_cycle m < max_cycles then do {
        (_, m1) \<leftarrow> check_interrupts (wfi_tick check_interval m);
        if cpu_mip m1 AND cpu_mie m1 \<noteq> 0 then Some (m1\<lparr>cpu_halted := False\<rparr>)
        else wfi_loop check_interval max_cycles m1
      } else Some m)"

text \<open>The whole of the branch for a halted processor; the flag says whether the loop continues.\<close>

definition run_halted :: "u64 \<Rightarrow> u64 \<Rightarrow> 'c vm \<Rightarrow> (bool \<times> 'c vm) undef" where
  "run_halted check_interval max_cycles m =
     (if cpu_mie m = 0 then Some (True, m\<lparr>cpu_halted := False\<rparr>)
      else do {
        m1 \<leftarrow> wfi_loop check_interval max_cycles m;
        if cpu_halted m1 then Some (False, m1\<lparr>cpu_run_exit_reason := RUN_EXIT_WFI_TIMEOUT\<rparr>) else Some (True, m1)
      })"

text \<open>After an interpreted instruction: the debug halt.\<close>

definition run_debug :: "'c vm \<Rightarrow> bool \<times> 'c vm" where
  "run_debug m =
     (if dbg_debug_halt (cpu_dbg m) \<and> dbg_break_halt (cpu_dbg m)
      then (False, m\<lparr>cpu_run_exit_reason := RUN_EXIT_DEBUG_HALT\<rparr>)
      else (True, m\<lparr>cpu_dbg := (cpu_dbg m)\<lparr>dbg_debug_halt := False\<rparr>\<rparr>))"

text \<open>The periodic check of \<open>rv64_run\<close>: the flag says whether an interrupt was taken, the word is
  \<open>next_check_cycle\<close>.\<close>

definition run_irq :: "u64 \<Rightarrow> 'c vm \<Rightarrow> (bool \<times> u64 \<times> 'c vm) undef" where
  "run_irq next_check m =
     (if cpu_pending_irq_check m \<or> cpu_cycle m \<ge> next_check then do {
        let (next1, m1) = (if cpu_cycle m \<ge> next_check then (cpu_cycle m + 9973, drive_mtime m) else (next_check, m));
        (taken, m2) \<leftarrow> check_interrupts (m1\<lparr>cpu_pending_irq_check := False\<rparr>);
        Some (taken, next1, m2)
      } else Some (False, next_check, m))"

definition run_iter :: "host_fp \<Rightarrow> u64 \<Rightarrow> u64 \<Rightarrow> 'c vm \<Rightarrow> (bool \<times> u64 \<times> 'c vm) undef" where
  "run_iter hf max_cycles next_check m = do {
     (taken, next1, m1) \<leftarrow> run_irq next_check m;
     if taken then Some (True, next1, m1)
     else if cpu_halted m1 then do {
       (go, m2) \<leftarrow> run_halted 9973 max_cycles m1;
       Some (go, next1, m2)
     } else do {
       m2 \<leftarrow> rv64_step hf m1;
       Some (fst (run_debug m2), next1, snd (run_debug m2))
     }
   }"

text \<open>The loop over a body that says whether to go on.\<close>

partial_function (option) run_loop ::
  "(u64 \<Rightarrow> 'c vm \<Rightarrow> (bool \<times> u64 \<times> 'c vm) undef) \<Rightarrow> u64 \<Rightarrow> u64 \<Rightarrow> 'c vm \<Rightarrow> 'c vm option" where
  "run_loop iter max_cycles next_check m =
     (if cpu_cycle m < max_cycles \<and> \<not> cpu_error m then do {
        (go, next1, m1) \<leftarrow> iter next_check m;
        if go then run_loop iter max_cycles next1 m1 else Some m1
      } else Some m)"

subsection \<open>The two loops\<close>

text \<open>The reason for a loop that fell through its condition.\<close>

definition run_finish :: "'c vm \<Rightarrow> 'c vm" where
  "run_finish m =
     (if cpu_run_exit_reason m = RUN_EXIT_NONE then
        m\<lparr>cpu_run_exit_reason :=
          (if dbg_debug_halt (cpu_dbg m) then RUN_EXIT_DEBUG_HALT
           else if cpu_error m then RUN_EXIT_ERROR else RUN_EXIT_BUDGET)\<rparr>
      else m)"

definition run_interp :: "host_fp \<Rightarrow> 'c vm \<Rightarrow> u64 \<Rightarrow> (u64 \<times> 'c vm) option" where
  "run_interp hf m n =
     (let start = cpu_cycle m; max_cycles = start + n in do {
        m1 \<leftarrow> run_loop (run_iter hf max_cycles) max_cycles (start + 9973) (m\<lparr>cpu_run_exit_reason := RUN_EXIT_NONE\<rparr>);
        Some (cpu_cycle (run_finish m1) - start, run_finish m1)
      })"

text \<open>The periodic check of \<open>rv64_run_jit\<close>, which does not look at \<open>pending_irq_check\<close>.\<close>

definition run_irq_jit :: "u64 \<Rightarrow> 'c vm \<Rightarrow> (bool \<times> u64 \<times> 'c vm) undef" where
  "run_irq_jit next_check m =
     (if cpu_cycle m \<ge> next_check then do {
        (taken, m1) \<leftarrow> check_interrupts (drive_mtime m);
        Some (taken, cpu_cycle m + 10000, m1)
      } else Some (False, next_check, m))"

text \<open>Every 128th turn records a sample.\<close>

definition perf_record :: "'c vm \<Rightarrow> 'c vm" where
  "perf_record m =
     (let p = cpu_prof m; tick = prof_perf_sample_tick p + 1
      in if tick \<ge> 128 then
           (let idx = prof_perf_sample_idx p mod DBG_PERF_LOG_SIZE
            in m\<lparr>cpu_prof := p\<lparr>prof_perf_sample_tick := 0, prof_perf_sample_idx := prof_perf_sample_idx p + 1,
                 prof_perf_samples := (prof_perf_samples p)(idx :=
                   \<lparr>ps_pc = cpu_pc m, ps_ra = cpu_x m 1, ps_fp = cpu_x m 8\<rparr>)\<rparr>\<rparr>)
         else m\<lparr>cpu_prof := p\<lparr>prof_perf_sample_tick := tick\<rparr>\<rparr>)"

definition try_jit :: "host_fp \<Rightarrow> lir_host \<Rightarrow> sljit_alloc \<Rightarrow> lir list vm \<Rightarrow> (bool \<times> lir list vm) undef" where
  "try_jit hf h al m =
     (if cpu_mip m AND cpu_mie m = 0 then do {
        (jit_ran, m1) \<leftarrow> jit_exec hf h al m;
        if sint jit_ran > 0 then Some (True, cpu_cycle_update (\<lambda>n. n + scast jit_ran) m1) else Some (False, m1)
      } else Some (False, m))"

definition run_iter_jit ::
  "host_fp \<Rightarrow> lir_host \<Rightarrow> sljit_alloc \<Rightarrow> u64 \<Rightarrow> u64 \<Rightarrow> lir list vm \<Rightarrow> (bool \<times> u64 \<times> lir list vm) undef" where
  "run_iter_jit hf h al max_cycles next_check m = do {
     (taken, next1, m1) \<leftarrow> run_irq_jit next_check m;
     if taken then Some (True, next1, m1)
     else if cpu_halted m1 then do {
       (go, m2) \<leftarrow> run_halted 10000 max_cycles m1;
       Some (go, next1, m2)
     } else do {
       (did, m2) \<leftarrow> try_jit hf h al (perf_record m1);
       if did then Some (True, next1, m2)
       else do {
         m3 \<leftarrow> rv64_step hf m2;
         Some (fst (run_debug m3), next1, snd (run_debug m3))
       }
     }
   }"

definition run_finish_jit :: "'c vm \<Rightarrow> 'c vm" where
  "run_finish_jit m =
     (if cpu_run_exit_reason m = RUN_EXIT_NONE then
        m\<lparr>cpu_run_exit_reason := (if cpu_error m then RUN_EXIT_ERROR else RUN_EXIT_BUDGET)\<rparr>
      else m)"

definition rv64_run_jit ::
  "host_fp \<Rightarrow> lir_host \<Rightarrow> sljit_alloc \<Rightarrow> lir list vm \<Rightarrow> u64 \<Rightarrow> (u64 \<times> lir list vm) option" where
  "rv64_run_jit hf h al m n =
     (let start = cpu_cycle m; max_cycles = start + n in do {
        m1 \<leftarrow> run_loop (run_iter_jit hf h al max_cycles) max_cycles (start + 10000)
               (m\<lparr>cpu_run_exit_reason := RUN_EXIT_NONE\<rparr>);
        Some (cpu_cycle (run_finish_jit m1) - start, run_finish_jit m1)
      })"

definition rv64_run ::
  "host_fp \<Rightarrow> lir_host \<Rightarrow> sljit_alloc \<Rightarrow> lir list vm \<Rightarrow> u64 \<Rightarrow> (u64 \<times> lir list vm) option" where
  "rv64_run hf h al m n =
     (if (case cpu_jit m of None \<Rightarrow> False | Some jit \<Rightarrow> jit_enabled jit) then rv64_run_jit hf h al m n
      else run_interp hf m n)"

subsection \<open>Invariants of compiled code\<close>

text \<open>A property of the machine that compiled code keeps too: it respects in addition what code does
  to the registers by itself, the cache and the counters. Such a property allows the floating point unit every
  register.\<close>

locale code_invariant = exec_invariant +
  assumes regs: "I m \<Longrightarrow> I (m\<lparr>cpu_x := x\<rparr>)"
    and set_pc: "I m \<Longrightarrow> I (m\<lparr>cpu_pc := pc\<rparr>)"
    and cache: "I m \<Longrightarrow> I (cpu_jit_update j m)"
    and retired: "I m \<Longrightarrow> I (m\<lparr>cpu_instret := ir\<rparr>)"
    and any_reg: "X r"
begin

lemma lopnd_set_kept: "I m \<Longrightarrow> lopnd_set dst v e m = Some (e', m') \<Longrightarrow> I m'"
  by (cases dst) (auto intro: regs set_pc)

lemma lir_call_kept:
  assumes "I m" "lir_call hf h f e m = Some (e', m')"
  shows "I m'"
proof (cases f)
  case Call_helper_sljit_load
  with assms show ?thesis
    by (auto simp: lir_call_def helper_sljit_load_def rv64_jit_load_def Let_def bind_eq_Some_conv dest: load split: if_splits)
next
  case Call_helper_sljit_store
  with assms show ?thesis
    by (auto simp: lir_call_def helper_sljit_store_def rv64_jit_store_def Let_def bind_eq_Some_conv dest: store split: if_splits)
next
  case Call_rv64_fp_exec
  then obtain rc where "rv64_fp_exec hf m (ucast (le_reg e R1)) = Some (rc, m')"
    using assms(2) by (auto simp: lir_call_def Let_def bind_eq_Some_conv split: if_splits)
  moreover have "all_results I (rv64_fp_exec hf m (ucast (le_reg e R1)))"
    using keeps_fp_exec [OF assms(1)] any_reg by blast
  ultimately show ?thesis by (auto simp: all_results_def)
qed

lemma lir_step_kept: "I m \<Longrightarrow> lir_step hf h i e m = Some (e', m') \<Longrightarrow> I m'"
  by (cases i) (auto simp: Let_def bind_eq_Some_conv dest: lopnd_set_kept lir_call_kept split: option.splits if_splits)

lemma lir_run_kept: "I m \<Longrightarrow> lir_run hf h is e m = Some (v, m') \<Longrightarrow> I m'"
proof (induction hf h "is" e m rule: lir_run.induct)
  case (2 hf h i "is" e m)
  show ?case
  proof (cases "\<exists>r. i = Return r")
    case True
    with 2 show ?thesis by auto
  next
    case False
    then have "lir_run hf h (i # is) e m = do { (e', m') \<leftarrow> lir_step hf h i e m; lir_run hf h (lir_next i is e m) e' m' }"
      by (cases i) (simp_all add: lir_run.simps(2))
    then obtain e1 m1 where st: "lir_step hf h i e m = Some (e1, m1)" and run: "lir_run hf h (lir_next i is e m) e1 m1 = Some (v, m')"
      using "2.prems"(2) by (cases "lir_step hf h i e m") auto
    from 2 False st run lir_step_kept [OF "2.prems"(1) st] show ?thesis by (cases i) auto
  qed
qed simp

lemma compile_loop_kept: "I m \<Longrightarrow> compile_loop jit k m pc n nj code = Some (r, m') \<Longrightarrow> I m'"
proof (induction k arbitrary: m pc n nj code)
  case (Suc k)
  then obtain ld m1 where ld: "rv64_cpu_load m pc 4 ACCESS_EXEC = Some (ld, m1)" by (auto simp: bind_eq_Some_conv)
  have "I m1" using load [OF Suc.prems(1) ld] .
  with Suc ld show ?case by (cases ld) (auto simp: Let_def split: if_splits prod.splits)
qed simp

end

text \<open>The same for the machine with a cache of compiled code.\<close>

locale jit_invariant = code_invariant I X for I :: "lir list vm \<Rightarrow> bool" and X
begin

lemma jit_compile_kept:
  assumes "I m" "jit_compile_block al m jit pc = Some (b, m')"
  shows "I m'"
proof (cases "sa_compiler al")
  case True
  then obtain r m1 where lp: "compile_loop jit (jit_max_insns jit) m pc 0 0 block_prologue = Some (r, m1)"
    using assms(2) by (auto simp: jit_compile_block_def bind_eq_Some_conv)
  have "I m1" using compile_loop_kept [OF assms(1) lp] .
  then show ?thesis using assms(2) lp True
    by (cases r) (auto simp: jit_compile_block_def Let_def set_jit_block_def intro: cache split: if_splits)
qed (use assms in \<open>simp add: jit_compile_block_def\<close>)

lemma jit_run_kept:
  assumes "I m" "jit_run_block hf h b m = Some (n, m')"
  shows "I m'"
proof (cases "jb_host_code b")
  case (Some code)
  then obtain v m1 where run: "block_call hf h code m (cpu_pc m) = Some (v, m1)"
    and m': "m' = m1\<lparr>cpu_instret := cpu_instret m1 + scast (ucast v :: u32),
      cpu_jit := map_option (jit_stat_jit_insns_update (\<lambda>n. n + scast (ucast v :: u32))) (cpu_jit m1)\<rparr>"
    using assms(2) by (auto simp: jit_run_block_def Let_def bind_eq_Some_conv)
  have "I m1" using lir_run_kept [OF assms(1)] run by (simp add: block_call_def)
  then show ?thesis unfolding m' by (intro cache retired)
qed (use assms in \<open>simp add: jit_run_block_def\<close>)

lemma jit_exec_kept:
  assumes "I m" "jit_exec hf h al m = Some (n, m')"
  shows "I m'"
proof -
  consider "m' = m" | jit b where "cpu_jit m = Some jit" "jit_run_block hf h b m = Some (n, m')"
    | jit r m1 where "jit_compile_block al m jit (cpu_pc m) = Some (r, m1)"
        "m' = m1 \<or> (\<exists>b. jit_run_block hf h b m1 = Some (n, m'))"
    using assms(2) by (auto simp: jit_exec_def Let_def bind_eq_Some_conv split: option.split_asm if_split_asm) blast+
  then show ?thesis using assms(1) by cases (auto dest: jit_run_kept jit_compile_kept)
qed

end

subsection \<open>The machine as a transition system\<close>

text \<open>What a run is made of: clock readings, interrupt checks, interpreted instructions, blocks, and the
  bookkeeping of the loops.\<close>

inductive vm_step :: "host_fp \<Rightarrow> lir_host \<Rightarrow> sljit_alloc \<Rightarrow> lir list vm \<Rightarrow> lir list vm \<Rightarrow> bool" for hf h al where
  vs_clock: "vm_step hf h al m (drive_mtime m)"
| vs_irq: "check_interrupts m = Some (taken, m') \<Longrightarrow> vm_step hf h al m m'"
| vs_insn: "rv64_step hf m = Some m' \<Longrightarrow> vm_step hf h al m m'"
| vs_block: "jit_exec hf h al m = Some (n, m') \<Longrightarrow> vm_step hf h al m m'"
| vs_wake: "vm_step hf h al m (m\<lparr>cpu_halted := False\<rparr>)"
| vs_cycle: "vm_step hf h al m (cpu_cycle_update f m)"
| vs_prof: "vm_step hf h al m (cpu_prof_update p m)"
| vs_flag: "vm_step hf h al m (m\<lparr>cpu_pending_irq_check := b\<rparr>)"
| vs_debug: "vm_step hf h al m (m\<lparr>cpu_dbg := d\<rparr>)"
| vs_reason: "vm_step hf h al m (m\<lparr>cpu_run_exit_reason := r\<rparr>)"

abbreviation reaches :: "host_fp \<Rightarrow> lir_host \<Rightarrow> sljit_alloc \<Rightarrow> lir list vm \<Rightarrow> lir list vm \<Rightarrow> bool" where
  "reaches hf h al \<equiv> (vm_step hf h al)\<^sup>*\<^sup>*"

lemma step_then: "vm_step hf h al m1 m2 \<Longrightarrow> reaches hf h al m m1 \<Longrightarrow> reaches hf h al m m2"
  by (rule rtranclp.rtrancl_into_rtrancl)

lemmas then_update = step_then [OF vs_clock] step_then [OF vs_wake] step_then [OF vs_cycle] step_then [OF vs_prof]
  step_then [OF vs_flag] step_then [OF vs_debug] step_then [OF vs_reason]

lemmas then_run = step_then [OF vs_irq] step_then [OF vs_insn] step_then [OF vs_block]

text \<open>What holds each time the loop is entered, and how the loop ends, by the fixpoint of the loop.\<close>

locale loop_invariant =
  fixes iter :: "u64 \<Rightarrow> 'c vm \<Rightarrow> (bool \<times> u64 \<times> 'c vm) undef" and R :: "'c vm \<Rightarrow> bool"
  assumes body: "R m \<Longrightarrow> iter nc m = Some (True, nc', m') \<Longrightarrow> R m'"
begin

lemma run_loop_result:
  assumes "run_loop iter mx nc m = Some m'" "R m"
  shows "(R m' \<and> (cpu_cycle m' \<ge> mx \<or> cpu_error m')) \<or> (\<exists>nc1 m1 nc2. R m1 \<and> iter nc1 m1 = Some (False, nc2, m'))"
proof -
  have "it = iter \<longrightarrow> R m \<longrightarrow> (R m' \<and> (cpu_cycle m' \<ge> mx \<or> cpu_error m')) \<or>
      (\<exists>nc1 m1 nc2. R m1 \<and> iter nc1 m1 = Some (False, nc2, m'))" if "run_loop it mx nc m = Some m'" for it
    using that
  proof (induction it mx nc m m' rule: run_loop.raw_induct [rotated, consumes 1])
    case (1 loop it mx nc m m')
    show ?case
    proof (cases "cpu_cycle m < mx \<and> \<not> cpu_error m")
      case False
      then show ?thesis using 1(2) by auto
    next
      case True
      then obtain go nc1 m1 where it: "it nc m = Some (go, nc1, m1)"
        and rest: "(if go then loop it mx nc1 m1 else Some m1) = Some m'"
        using 1(2) by (auto simp: bind_eq_Some_conv)
      show ?thesis
      proof (cases go)
        case True
        then show ?thesis using 1(1) [of it mx nc1 m1 m'] it rest body [of m nc nc1 m1] by auto
      next
        case False
        then show ?thesis using it rest by auto
      qed
    qed
  qed
  then show ?thesis using assms by blast
qed

end

lemma wfi_loop_kept:
  assumes "wfi_loop i mx m = Some m'" "R m"
    and "\<And>m b m'. R m \<Longrightarrow> check_interrupts (wfi_tick i m) = Some (b, m') \<Longrightarrow> R m'" "\<And>m. R m \<Longrightarrow> R (m\<lparr>cpu_halted := False\<rparr>)"
  shows "R m'"
proof -
  have "j = i \<longrightarrow> R m \<longrightarrow> R m'" if "wfi_loop j mx m = Some m'" for j
    using that
  proof (induction j mx m m' rule: wfi_loop.raw_induct [rotated, consumes 1])
    case (1 loop j mx m m')
    show ?case
    proof (cases "cpu_halted m \<and> cpu_cycle m < mx")
      case True
      then obtain b m1 where "check_interrupts (wfi_tick j m) = Some (b, m1)"
        "(if cpu_mip m1 AND cpu_mie m1 \<noteq> 0 then Some (m1\<lparr>cpu_halted := False\<rparr>) else loop j mx m1) = Some m'"
        using 1(2) by (auto simp: bind_eq_Some_conv)
      then show ?thesis using 1(1) [of j mx m1 m'] assms(3) [of m b m1] assms(4) [of m1] by (auto split: if_splits)
    qed (use 1(2) in auto)
  qed
  then show ?thesis using assms(1,2) by blast
qed

lemma wfi_tick_reaches: "reaches hf h al m m1 \<Longrightarrow> reaches hf h al m (wfi_tick i m1)"
  unfolding wfi_tick_def by (intro then_update)

lemma wfi_loop_reaches: "wfi_loop i mx m = Some m' \<Longrightarrow> reaches hf h al m0 m \<Longrightarrow> reaches hf h al m0 m'"
  by (erule wfi_loop_kept, assumption) (rule then_run(1), assumption, erule wfi_tick_reaches, erule then_update)

lemma run_halted_reaches:
  assumes "run_halted i mx m = Some (go, m')" "reaches hf h al m0 m"
  shows "reaches hf h al m0 m'"
proof (cases "cpu_mie m = 0")
  case True
  with assms(1) have "m' = m\<lparr>cpu_halted := False\<rparr>" by (simp add: run_halted_def)
  with assms(2) show ?thesis by (simp add: then_update)
next
  case False
  then obtain m1 where lp: "wfi_loop i mx m = Some m1" and m': "m' = m1 \<or> m' = m1\<lparr>cpu_run_exit_reason := RUN_EXIT_WFI_TIMEOUT\<rparr>"
    using assms(1) by (auto simp: run_halted_def bind_eq_Some_conv split: if_splits)
  show ?thesis using wfi_loop_reaches [OF lp assms(2)] m' then_update(7) by blast
qed

lemma run_debug_reaches: "reaches hf h al m0 m \<Longrightarrow> reaches hf h al m0 (snd (run_debug m))"
  by (simp add: run_debug_def then_update)

lemma run_irq_reaches:
  assumes "reaches hf h al m0 m"
  shows "run_irq nc m = Some (t, nc', m') \<Longrightarrow> reaches hf h al m0 m'"
    "run_irq_jit nc m = Some (t, nc', m') \<Longrightarrow> reaches hf h al m0 m'"
proof -
  have "reaches hf h al m0 (drive_mtime m)" "reaches hf h al m0 (m\<lparr>cpu_pending_irq_check := False\<rparr>)"
    "reaches hf h al m0 ((drive_mtime m)\<lparr>cpu_pending_irq_check := False\<rparr>)"
    by (intro then_update assms)+
  then show "run_irq nc m = Some (t, nc', m') \<Longrightarrow> reaches hf h al m0 m'"
    "run_irq_jit nc m = Some (t, nc', m') \<Longrightarrow> reaches hf h al m0 m'"
    using assms by (auto simp: run_irq_def run_irq_jit_def bind_eq_Some_conv dest: then_run(1) split: if_splits)
qed

lemma run_insn_reaches:
  "rv64_step hf m = Some m' \<Longrightarrow> reaches hf h al m0 m \<Longrightarrow> reaches hf h al m0 (snd (run_debug m'))"
  by (rule run_debug_reaches) (rule then_run(2))

lemma run_iter_reaches:
  assumes "run_iter hf mx nc m = Some (go, nc', m')" "reaches hf h al m0 m"
  shows "reaches hf h al m0 m'"
proof -
  obtain t nc1 m1 where irq: "run_irq nc m = Some (t, nc1, m1)"
    using assms(1) by (auto simp: run_iter_def bind_eq_Some_conv)
  have "reaches hf h al m0 m1" using run_irq_reaches(1) [OF assms(2) irq] .
  then show ?thesis using assms(1) irq
    by (auto simp: run_iter_def bind_eq_Some_conv dest: run_halted_reaches run_insn_reaches split: if_splits)
qed

lemma try_jit_reaches: "try_jit hf h al m = Some (did, m') \<Longrightarrow> reaches hf h al m0 m \<Longrightarrow> reaches hf h al m0 m'"
  by (auto simp: try_jit_def bind_eq_Some_conv dest: then_run(3) intro: then_update(3) split: if_splits)

lemma run_iter_jit_reaches:
  assumes "run_iter_jit hf h al mx nc m = Some (go, nc', m')" "reaches hf h al m0 m"
  shows "reaches hf h al m0 m'"
proof -
  obtain t nc1 m1 where irq: "run_irq_jit nc m = Some (t, nc1, m1)"
    using assms(1) by (auto simp: run_iter_jit_def bind_eq_Some_conv)
  have r1: "reaches hf h al m0 m1" using run_irq_reaches(2) [OF assms(2) irq] .
  then have "reaches hf h al m0 (perf_record m1)" by (simp add: perf_record_def Let_def then_update)
  then show ?thesis using assms(1) irq r1
    by (auto simp: run_iter_jit_def bind_eq_Some_conv split: if_splits
        dest: try_jit_reaches run_halted_reaches run_insn_reaches)
qed

interpretation interp_reaches: loop_invariant "run_iter hf mx" "reaches hf h al m0"
  by unfold_locales (rule run_iter_reaches)

interpretation jit_reaches: loop_invariant "run_iter_jit hf h al mx" "reaches hf h al m0"
  by unfold_locales (rule run_iter_jit_reaches)

text \<open>Everything a run does is made of these steps.\<close>

lemma run_finish_reaches:
  "reaches hf h al m m1 \<Longrightarrow> reaches hf h al m (run_finish m1)" "reaches hf h al m m1 \<Longrightarrow> reaches hf h al m (run_finish_jit m1)"
  by (simp_all add: run_finish_def run_finish_jit_def then_update)

lemma run_interp_reaches:
  assumes "run_interp hf m n = Some (k, m')"
  shows "reaches hf h al m m'"
proof -
  obtain m1 where lp: "run_loop (run_iter hf (cpu_cycle m + n)) (cpu_cycle m + n) (cpu_cycle m + 9973)
      (m\<lparr>cpu_run_exit_reason := RUN_EXIT_NONE\<rparr>) = Some m1" and m': "m' = run_finish m1"
    using assms by (auto simp: run_interp_def Let_def bind_eq_Some_conv)
  have "reaches hf h al m (m\<lparr>cpu_run_exit_reason := RUN_EXIT_NONE\<rparr>)" by (simp add: then_update)
  from interp_reaches.run_loop_result [OF lp this] have "reaches hf h al m m1"
    by (auto dest: run_iter_reaches)
  with m' show ?thesis by (simp add: run_finish_reaches)
qed

lemma run_jit_reaches:
  assumes "rv64_run_jit hf h al m n = Some (k, m')"
  shows "reaches hf h al m m'"
proof -
  obtain m1 where lp: "run_loop (run_iter_jit hf h al (cpu_cycle m + n)) (cpu_cycle m + n) (cpu_cycle m + 10000)
      (m\<lparr>cpu_run_exit_reason := RUN_EXIT_NONE\<rparr>) = Some m1" and m': "m' = run_finish_jit m1"
    using assms by (auto simp: rv64_run_jit_def Let_def bind_eq_Some_conv)
  have "reaches hf h al m (m\<lparr>cpu_run_exit_reason := RUN_EXIT_NONE\<rparr>)" by (simp add: then_update)
  from jit_reaches.run_loop_result [OF lp this] have "reaches hf h al m m1"
    by (auto dest: run_iter_jit_reaches)
  with m' show ?thesis by (simp add: run_finish_reaches)
qed

lemma run_reaches: "rv64_run hf h al m n = Some (k, m') \<Longrightarrow> reaches hf h al m m'"
  by (auto simp: rv64_run_def dest: run_interp_reaches run_jit_reaches split: if_splits)

subsection \<open>Safety of whole runs\<close>

text \<open>A property that also survives clock readings, interrupt checks and bookkeeping holds of every machine
  a run goes through.\<close>

locale run_invariant = jit_invariant +
  assumes committed: "I m \<Longrightarrow> I (m\<lparr>cpu_pc := pc, cpu_instret := ir, cpu_cycle := cy\<rparr>)"
    and clock: "I m \<Longrightarrow> I (drive_mtime m)"
    and irq: "I m \<Longrightarrow> check_interrupts m = Some (b, m') \<Longrightarrow> I m'"
    and cycles: "I m \<Longrightarrow> I (cpu_cycle_update f m)"
    and reason: "I m \<Longrightarrow> I (m\<lparr>cpu_run_exit_reason := rs\<rparr>)"

sublocale run_invariant \<subseteq> step_invariant I X
  by unfold_locales (rule committed)

context run_invariant
begin

lemma vm_step_kept: "vm_step hf h al m m' \<Longrightarrow> I m \<Longrightarrow> I m'"
  by (induction rule: vm_step.induct)
    (auto intro: clock irq step_kept jit_exec_kept halt cycles prof pending debug reason any_reg)

lemma reaches_kept: "reaches hf h al m m' \<Longrightarrow> I m \<Longrightarrow> I m'"
  by (induction rule: rtranclp_induct) (auto intro: vm_step_kept)

end

text \<open>What an interrupt check leaves alone.\<close>

lemma net_event_loop_null: "net_event_loop m = Some m' \<Longrightarrow> (vm_ram m' = None) = (vm_ram m = None)"
  by (auto simp: net_event_loop_def bind_eq_Some_conv dest: virtio_net_poll_null split: if_splits)

lemma net_event_loop_fields:
  assumes "net_event_loop m = Some m'"
  shows "tlb_inv m' = tlb_inv m" "cpu_priv m' = cpu_priv m" "cpu_error m' = cpu_error m" "cpu_mie m' = cpu_mie m"
    "cpu_run_exit_reason m' = cpu_run_exit_reason m" "cpu_cycle m' = cpu_cycle m" "cpu_halted m' = cpu_halted m"
proof -
  obtain dev ram where m': "m' = m\<lparr>cpu_virtio_net := dev, vm_ram := ram\<rparr>" using net_event_loop_frame [OF assms] by blast
  show "tlb_inv m' = tlb_inv m" "cpu_priv m' = cpu_priv m" "cpu_error m' = cpu_error m" "cpu_mie m' = cpu_mie m"
    "cpu_run_exit_reason m' = cpu_run_exit_reason m" "cpu_cycle m' = cpu_cycle m" "cpu_halted m' = cpu_halted m"
    using net_event_loop_null [OF assms] by (simp_all add: m' tlb_inv_def ram_ok_def)
qed

lemma trap_fields:
  assumes "trap m cause tval = Some m'"
  shows "cpu_error m' = cpu_error m" "cpu_run_exit_reason m' = cpu_run_exit_reason m" "cpu_cycle m' = cpu_cycle m"
    "cpu_mie m' = cpu_mie m" "cpu_halted m' = cpu_halted m"
  using assms by (cases rule: trap_cases; simp)+

lemma check_interrupts_frame:
  assumes "check_interrupts m = Some (b, m')"
  shows "tlb_inv m \<Longrightarrow> tlb_inv m'" "cpu_priv m < 4 \<Longrightarrow> cpu_priv m' < 4" "cpu_error m' = cpu_error m"
    "cpu_run_exit_reason m' = cpu_run_exit_reason m" "cpu_cycle m' = cpu_cycle m"
proof -
  let ?m = "(cpu_prof_update (prof_irq_checks_update (\<lambda>n. n + 1)) m)\<lparr>cpu_mip := mip_update m\<rparr>"
  obtain m3 where net: "net_event_loop ?m = Some m3"
    and end': "m' = m3 \<or> (\<exists>cause m4. trap m3 cause 0 = Some m4 \<and>
      m' = cpu_prof_update (prof_irq_taken_update (\<lambda>n. n + 1)) (m4\<lparr>cpu_halted := False\<rparr>))"
    using check_interrupts_cases [OF assms] by blast
  note f = net_event_loop_fields [OF net]
  show "tlb_inv m \<Longrightarrow> tlb_inv m'" using end' f(1) by (auto dest: trap_inv)
  show "cpu_priv m < 4 \<Longrightarrow> cpu_priv m' < 4" using end' f(2) by (auto dest: trap_frames(1))
  show "cpu_error m' = cpu_error m" using end' f(3) by (auto dest: trap_fields)
  show "cpu_run_exit_reason m' = cpu_run_exit_reason m" using end' f(5) by (auto dest: trap_fields)
  show "cpu_cycle m' = cpu_cycle m" using end' f(6) by (auto dest: trap_fields)
qed

interpretation safe_run: run_invariant "vm_inv :: lir list vm \<Rightarrow> bool" "\<lambda>_. True"
proof unfold_locales
  fix m m' :: "lir list vm" and b
  assume "vm_inv m"
  then show "vm_inv m'" if "check_interrupts m = Some (b, m')"
    using check_interrupts_frame(1,2) [OF that] by (simp add: vm_inv_def)
qed (auto simp: vm_inv_def drive_mtime_def Let_def)

text \<open>C3. Whole runs are safe: whatever the guest does, with compiled code or without, through interrupts,
  waits and device activity, a run that starts in a machine satisfying the invariant ends in one.\<close>

theorem run_preserves_vm_inv:
  assumes "vm_inv m" "rv64_run hf h al m n = Some (k, m')"
  shows "vm_inv m'"
  using safe_run.reaches_kept [OF run_reaches [OF assms(2)] assms(1)] .

subsection \<open>Why a run ends\<close>

definition undecided :: "bool \<Rightarrow> 'c vm \<Rightarrow> bool" where
  "undecided er m \<longleftrightarrow> cpu_run_exit_reason m = RUN_EXIT_NONE \<and> cpu_error m = er"

interpretation no_reason: step_invariant "undecided er :: 'c vm \<Rightarrow> bool" "\<lambda>_. True"
proof
  fix m m' :: "'c vm" and v sz acc r r' val cause tval a
  assume inv: "undecided er m"
  show "undecided er m'" if "rv64_cpu_load m v sz acc = Some (r, m')"
    using rv64_cpu_load_same [OF that] inv by (auto simp: undecided_def mmu_same_fields)
  show "undecided er m'" if "cpu_store m v sz val = Some (r', m')"
    using cpu_store_same [OF that] inv by (auto simp: undecided_def mem_same_fields)
  show "undecided er m'" if "trap m cause tval = Some m'"
    using trap_fields [OF that] inv by (simp add: undecided_def)
  show "undecided er m'" if "csr_write m a val = Inr m'"
    using csr_write_frame [OF that] inv by (simp add: undecided_def)
qed (auto simp: undecided_def WR_def set_x_def mark_fs_dirty_def mret_def sret_def Let_def split_beta rv64_tlb_flush_def)

interpretation no_reason_jit: jit_invariant "undecided er :: lir list vm \<Rightarrow> bool" "\<lambda>_. True"
  by unfold_locales (auto simp: undecided_def)

lemma undecided_simps [simp]:
  "undecided er (drive_mtime m) = undecided er m" "undecided er (wfi_tick i m) = undecided er m"
  "undecided er (m\<lparr>cpu_halted := h\<rparr>) = undecided er m" "undecided er (m\<lparr>cpu_pending_irq_check := h\<rparr>) = undecided er m"
  "undecided er (m\<lparr>cpu_dbg := d\<rparr>) = undecided er m" "undecided er (cpu_cycle_update f m) = undecided er m"
  "undecided er (perf_record m) = undecided er m"
  by (simp_all add: undecided_def drive_mtime_def wfi_tick_def perf_record_def Let_def)

lemma undecided_check: "check_interrupts m = Some (b, m') \<Longrightarrow> undecided er m \<Longrightarrow> undecided er m'"
  by (auto simp: undecided_def dest: check_interrupts_frame)

lemma undecided_irq:
  "run_irq nc m = Some (t, nc', m') \<Longrightarrow> undecided er m \<Longrightarrow> undecided er m'"
  "run_irq_jit nc m = Some (t, nc', m') \<Longrightarrow> undecided er m \<Longrightarrow> undecided er m'"
  by (auto simp: run_irq_def run_irq_jit_def bind_eq_Some_conv dest: undecided_check split: if_splits)

text \<open>The reasons that the body of a loop gives when it breaks off.\<close>

definition broke_off :: "bool \<Rightarrow> 'c vm \<Rightarrow> bool" where
  "broke_off er m \<longleftrightarrow> cpu_error m = er \<and>
     (cpu_run_exit_reason m = RUN_EXIT_WFI_TIMEOUT \<and> cpu_halted m \<or>
      cpu_run_exit_reason m = RUN_EXIT_DEBUG_HALT \<and> dbg_debug_halt (cpu_dbg m))"

lemma undecided_halted:
  assumes "run_halted i mx m = Some (go, m')" "undecided er m"
  shows "if go then undecided er m' else broke_off er m'"
proof (cases "cpu_mie m = 0")
  case False
  then obtain m1 where lp: "wfi_loop i mx m = Some m1"
    and m': "go = (\<not> cpu_halted m1)" "m' = (if go then m1 else m1\<lparr>cpu_run_exit_reason := RUN_EXIT_WFI_TIMEOUT\<rparr>)"
    using assms(1) by (auto simp: run_halted_def bind_eq_Some_conv split: if_split_asm)
  have "undecided er m1"
    by (rule wfi_loop_kept [where R = "undecided er", OF lp assms(2)]) (auto dest: undecided_check)
  then show ?thesis using m' by (auto simp: undecided_def broke_off_def)
qed (use assms in \<open>auto simp: run_halted_def\<close>)

lemma undecided_debug:
  "undecided er m \<Longrightarrow> if fst (run_debug m) then undecided er (snd (run_debug m)) else broke_off er (snd (run_debug m))"
  by (auto simp: run_debug_def undecided_def broke_off_def)

lemma undecided_insn:
  "rv64_step hf m = Some m' \<Longrightarrow> undecided er m \<Longrightarrow>
     if fst (run_debug m') then undecided er (snd (run_debug m')) else broke_off er (snd (run_debug m'))"
  by (rule undecided_debug) (auto intro: no_reason.step_kept)

lemma undecided_iter:
  assumes "run_iter hf mx nc m = Some (go, nc', m')" "undecided er m"
  shows "if go then undecided er m' else broke_off er m'"
proof -
  obtain t nc1 m1 where irq: "run_irq nc m = Some (t, nc1, m1)"
    using assms(1) by (auto simp: run_iter_def bind_eq_Some_conv)
  have "undecided er m1" using undecided_irq(1) [OF irq assms(2)] .
  then show ?thesis using assms(1) irq
    by (auto simp: run_iter_def bind_eq_Some_conv dest: undecided_halted undecided_insn split: if_split_asm)
qed

lemma undecided_iter_jit:
  assumes "run_iter_jit hf h al mx nc m = Some (go, nc', m')" "undecided er m"
  shows "if go then undecided er m' else broke_off er m'"
proof -
  obtain t nc1 m1 where irq: "run_irq_jit nc m = Some (t, nc1, m1)"
    using assms(1) by (auto simp: run_iter_jit_def bind_eq_Some_conv)
  have u1: "undecided er m1" using undecided_irq(2) [OF irq assms(2)] .
  then have up: "undecided er (perf_record m1)" by simp
  have u2: "undecided er m2" if "try_jit hf h al (perf_record m1) = Some (did, m2)" for did m2
    using that up by (auto simp: try_jit_def bind_eq_Some_conv dest: no_reason_jit.jit_exec_kept [OF up] split: if_split_asm)
  show ?thesis using assms(1) irq u1
    by (auto simp: run_iter_jit_def bind_eq_Some_conv dest: u2 undecided_halted undecided_insn split: if_split_asm)
qed

interpretation interp_undecided: loop_invariant "run_iter hf mx" "undecided er"
  by unfold_locales (auto dest: undecided_iter)

interpretation jit_undecided: loop_invariant "run_iter_jit hf h al mx" "undecided er"
  by unfold_locales (auto dest: undecided_iter_jit)

text \<open>What the exit reason says about the machine it is left with.\<close>

definition exit_explained :: "u64 \<Rightarrow> bool \<Rightarrow> 'c vm \<Rightarrow> bool" where
  "exit_explained max_cycles er m = (cpu_error m = er \<and>
     (case cpu_run_exit_reason m of
        RUN_EXIT_NONE \<Rightarrow> False
      | RUN_EXIT_BUDGET \<Rightarrow> cpu_cycle m \<ge> max_cycles \<and> \<not> er
      | RUN_EXIT_ERROR \<Rightarrow> er
      | RUN_EXIT_DEBUG_HALT \<Rightarrow> dbg_debug_halt (cpu_dbg m)
      | RUN_EXIT_WFI_TIMEOUT \<Rightarrow> cpu_halted m))"

lemma finish_explained:
  assumes "undecided er m \<and> (cpu_cycle m \<ge> mx \<or> cpu_error m) \<or> broke_off er m"
  shows "exit_explained mx er (run_finish m)" "exit_explained mx er (run_finish_jit m)"
  using assms by (auto simp: exit_explained_def undecided_def broke_off_def run_finish_def run_finish_jit_def)

lemma start_undecided: "undecided (cpu_error m) (m\<lparr>cpu_run_exit_reason := RUN_EXIT_NONE\<rparr>)"
  by (simp add: undecided_def)

lemma run_interp_explained:
  assumes "run_interp hf m n = Some (k, m')"
  shows "k = cpu_cycle m' - cpu_cycle m \<and> exit_explained (cpu_cycle m + n) (cpu_error m) m'"
proof -
  obtain m1 where lp: "run_loop (run_iter hf (cpu_cycle m + n)) (cpu_cycle m + n) (cpu_cycle m + 9973)
      (m\<lparr>cpu_run_exit_reason := RUN_EXIT_NONE\<rparr>) = Some m1"
    and k: "k = cpu_cycle (run_finish m1) - cpu_cycle m" "m' = run_finish m1"
    using assms by (auto simp: run_interp_def Let_def bind_eq_Some_conv)
  from interp_undecided.run_loop_result [OF lp start_undecided]
  show ?thesis unfolding k by (auto intro!: finish_explained dest: undecided_iter)
qed

lemma run_jit_explained:
  assumes "rv64_run_jit hf h al m n = Some (k, m')"
  shows "k = cpu_cycle m' - cpu_cycle m \<and> exit_explained (cpu_cycle m + n) (cpu_error m) m'"
proof -
  obtain m1 where lp: "run_loop (run_iter_jit hf h al (cpu_cycle m + n)) (cpu_cycle m + n) (cpu_cycle m + 10000)
      (m\<lparr>cpu_run_exit_reason := RUN_EXIT_NONE\<rparr>) = Some m1"
    and k: "k = cpu_cycle (run_finish_jit m1) - cpu_cycle m" "m' = run_finish_jit m1"
    using assms by (auto simp: rv64_run_jit_def Let_def bind_eq_Some_conv)
  from jit_undecided.run_loop_result [OF lp start_undecided]
  show ?thesis unfolding k by (auto intro!: finish_explained dest: undecided_iter_jit)
qed

text \<open>C26. A run always says truthfully why it ended: it reports the cycles it used and one of four
  reasons, of which the budget means that the cycle counter has reached its limit and no error was set, a debug halt
  that the debugger asked for it, a wait that timed out that the processor is still halted, and an error
  that the error flag was set when the run began; the loops never set it themselves.\<close>

theorem run_exit_reason:
  assumes "rv64_run hf h al m n = Some (k, m')"
  shows "k = cpu_cycle m' - cpu_cycle m \<and> exit_explained (cpu_cycle m + n) (cpu_error m) m'"
  using assms by (auto simp: rv64_run_def dest: run_interp_explained run_jit_explained split: if_split_asm)

subsection \<open>Waiting\<close>

text \<open>A halted processor that nothing can wake: no interrupt it enables is pending or can become pending
  through the timers and the interrupt controller, and no network is attached.\<close>

definition idle :: "'c vm \<Rightarrow> bool" where
  "idle m \<longleftrightarrow> cpu_halted m \<and> cpu_mie m \<noteq> 0 \<and> dev_slirp (cpu_virtio_net m) = None \<and>
     cpu_mie m AND (cpu_mip m OR (MIP_MTIP OR MIP_STIP OR MIP_SEIP)) = 0"

lemma mip_bits:
  fixes a x y z :: u64
  assumes "bit (let m1 = (if p then a OR x else a AND NOT x); m2 = (if q then m1 OR y else m1) in if r then m2 OR z else m2 AND NOT z) k"
  shows "bit (a OR (x OR y OR z)) k"
  using assms by (auto simp: Let_def bit_or_iff bit_and_iff split: if_splits)

lemma idle_mip: "cpu_mie m AND (cpu_mip m OR (MIP_MTIP OR MIP_STIP OR MIP_SEIP)) = 0 \<Longrightarrow>
  mip_update m AND cpu_mie m = 0 \<and> cpu_mie m AND (mip_update m OR (MIP_MTIP OR MIP_STIP OR MIP_SEIP)) = 0"
proof -
  assume z: "cpu_mie m AND (cpu_mip m OR (MIP_MTIP OR MIP_STIP OR MIP_SEIP)) = 0"
  have "bit (mip_update m) k \<Longrightarrow> bit (cpu_mip m OR (MIP_MTIP OR MIP_STIP OR MIP_SEIP)) k" for k
    using mip_bits [of _ _ MIP_MTIP _ MIP_STIP _ MIP_SEIP k] unfolding mip_update_def Let_def by blast
  moreover have "\<not> (bit (cpu_mie m) k \<and> bit (cpu_mip m OR (MIP_MTIP OR MIP_STIP OR MIP_SEIP)) k)" for k
    using z by (metis bit_0_eq bit_and_iff bot_apply bot_bool_def)
  ultimately show ?thesis
    by (intro conjI bit_word_eqI) (simp_all only: bit_and_iff bit_or_iff bit_0_eq bot_apply bot_bool_def, blast+)
qed

lemma idle_check:
  assumes "idle m"
  shows "\<exists>m'. check_interrupts m = Some (False, m') \<and> idle m' \<and> cpu_cycle m' = cpu_cycle m \<and>
    cpu_mip m' AND cpu_mie m' = 0 \<and> cpu_error m' = cpu_error m"
proof -
  let ?m = "(cpu_prof_update (prof_irq_checks_update (\<lambda>n. n + 1)) m)\<lparr>cpu_mip := mip_update m\<rparr>"
  have net: "net_event_loop ?m = Some ?m"
    using assms by (simp add: net_event_loop_def virtio_net_poll_def idle_def)
  have z: "mip_update m AND cpu_mie m = 0" "cpu_mie m AND (mip_update m OR (MIP_MTIP OR MIP_STIP OR MIP_SEIP)) = 0"
    using idle_mip assms unfolding idle_def by blast+
  have "check_interrupts m = Some (False, ?m)"
    using net z(1) by (simp add: check_interrupts_def Let_def mip_update_prof)
  moreover have "idle ?m" using assms z(2) by (simp add: idle_def)
  ultimately show ?thesis using z(1) by (intro exI [of _ ?m]) simp
qed

lemma idle_simps [simp]:
  "idle (wfi_tick i m) = idle m" "idle (drive_mtime m) = idle m" "idle (m\<lparr>cpu_pending_irq_check := b\<rparr>) = idle m"
  "idle (m\<lparr>cpu_run_exit_reason := r\<rparr>) = idle m" "cpu_cycle (wfi_tick i m) = cpu_cycle m + i" "cpu_cycle (drive_mtime m) = cpu_cycle m"
  "cpu_error (drive_mtime m) = cpu_error m"
  by (simp_all add: idle_def wfi_tick_def drive_mtime_def Let_def)

text \<open>Each turn uses up \<open>check_interval\<close> cycles, so the wait ends; the limit has to leave room for one more
  interval below \<open>2\<^sup>6\<^sup>4\<close>.\<close>

lemma wfi_loop_idle:
  assumes "idle m" "0 < unat i" "unat mx + unat i < 2 ^ 64"
  shows "\<exists>m'. wfi_loop i mx m = Some m' \<and> idle m' \<and> cpu_cycle m' \<ge> mx"
  using assms(1)
proof (induction "unat mx - unat (cpu_cycle m)" arbitrary: m rule: less_induct)
  case less
  show ?case
  proof (cases "cpu_cycle m < mx")
    case True
    obtain m1 where m1: "check_interrupts (wfi_tick i m) = Some (False, m1)" "idle m1" "cpu_mip m1 AND cpu_mie m1 = 0"
      and cyc: "cpu_cycle m1 = cpu_cycle m + i"
      using idle_check [of "wfi_tick i m"] less.prems by auto
    have "unat (cpu_cycle m + i) = unat (cpu_cycle m) + unat i"
      using True assms(3) by (intro unat_add_lem [THEN iffD1]) (simp add: word_less_nat_alt)
    then have "unat mx - unat (cpu_cycle m1) < unat mx - unat (cpu_cycle m)"
      using True assms(2) by (simp add: cyc word_less_nat_alt)
    from less.hyps [OF this m1(2)] show ?thesis
      using True less.prems m1 by (subst wfi_loop.simps) (simp add: idle_def)
  next
    case False
    then show ?thesis using less.prems by (subst wfi_loop.simps) auto
  qed
qed

lemma run_halted_idle:
  assumes "idle m" "0 < unat i" "unat mx + unat i < 2 ^ 64"
  shows "\<exists>m'. run_halted i mx m = Some (False, m') \<and> cpu_run_exit_reason m' = RUN_EXIT_WFI_TIMEOUT \<and> cpu_cycle m' \<ge> mx"
proof -
  obtain m1 where "wfi_loop i mx m = Some m1" "idle m1" "cpu_cycle m1 \<ge> mx" using wfi_loop_idle [OF assms] by blast
  then show ?thesis using assms(1) by (simp add: run_halted_def idle_def)
qed

lemma run_irq_idle:
  assumes "idle m"
  shows "\<exists>nc' m'. run_irq nc m = Some (False, nc', m') \<and> idle m'"
    "\<exists>nc' m'. run_irq_jit nc m = Some (False, nc', m') \<and> idle m'"
  using assms idle_check [of "(drive_mtime m)\<lparr>cpu_pending_irq_check := False\<rparr>"]
    idle_check [of "m\<lparr>cpu_pending_irq_check := False\<rparr>"] idle_check [of "drive_mtime m"]
  by (auto simp: run_irq_def run_irq_jit_def)

lemma run_iter_idle:
  assumes "idle m" "idle mj" "unat mx + 10000 < 2 ^ 64"
  shows "\<exists>nc' m'. run_iter hf mx nc m = Some (False, nc', m') \<and> cpu_run_exit_reason m' = RUN_EXIT_WFI_TIMEOUT \<and> cpu_cycle m' \<ge> mx"
    "\<exists>nc' m'. run_iter_jit hf h al mx nc mj = Some (False, nc', m') \<and> cpu_run_exit_reason m' = RUN_EXIT_WFI_TIMEOUT \<and> cpu_cycle m' \<ge> mx"
proof -
  obtain nc1 m1 where "run_irq nc m = Some (False, nc1, m1)" "idle m1" using run_irq_idle(1) [OF assms(1)] by blast
  then show "\<exists>nc' m'. run_iter hf mx nc m = Some (False, nc', m') \<and> cpu_run_exit_reason m' = RUN_EXIT_WFI_TIMEOUT \<and> cpu_cycle m' \<ge> mx"
    using run_halted_idle [of m1 9973 mx] assms(3) by (auto simp: run_iter_def idle_def)
next
  obtain nc1 m1 where "run_irq_jit nc mj = Some (False, nc1, m1)" "idle m1" using run_irq_idle(2) [OF assms(2)] by blast
  then show "\<exists>nc' m'. run_iter_jit hf h al mx nc mj = Some (False, nc', m') \<and> cpu_run_exit_reason m' = RUN_EXIT_WFI_TIMEOUT \<and> cpu_cycle m' \<ge> mx"
    using run_halted_idle [of m1 10000 mx] assms(3) by (auto simp: run_iter_jit_def idle_def)
qed

lemma run_loop_stops:
  assumes "cpu_cycle m < mx" "\<not> cpu_error m" "iter nc m = Some (False, nc', m')"
  shows "run_loop iter mx nc m = Some m'"
  using assms by (subst run_loop.simps) simp

lemma run_idle:
  assumes "idle m" "\<not> cpu_error m" "0 < n" "unat (cpu_cycle m) + unat n + 10000 < 2 ^ 64"
  shows "\<exists>m'. rv64_run hf h al m n = Some (cpu_cycle m' - cpu_cycle m, m') \<and>
    cpu_run_exit_reason m' = RUN_EXIT_WFI_TIMEOUT \<and> cpu_cycle m' \<ge> cpu_cycle m + n"
proof -
  let ?mx = "cpu_cycle m + n" and ?m = "m\<lparr>cpu_run_exit_reason := RUN_EXIT_NONE\<rparr>"
  have sum: "unat ?mx = unat (cpu_cycle m) + unat n"
    using assms(4) by (intro unat_add_lem [THEN iffD1]) simp
  with assms(3,4) have lt: "cpu_cycle ?m < ?mx" and room: "unat ?mx + 10000 < 2 ^ 64"
    by (simp_all add: word_less_nat_alt)
  obtain nc1 m1 where it: "run_iter hf ?mx (cpu_cycle m + 9973) ?m = Some (False, nc1, m1)"
    and r: "cpu_run_exit_reason m1 = RUN_EXIT_WFI_TIMEOUT" "cpu_cycle m1 \<ge> ?mx"
    using run_iter_idle(1) [of ?m ?m ?mx hf "cpu_cycle m + 9973"] assms(1) room by auto
  obtain nc2 m2 where itj: "run_iter_jit hf h al ?mx (cpu_cycle m + 10000) ?m = Some (False, nc2, m2)"
    and rj: "cpu_run_exit_reason m2 = RUN_EXIT_WFI_TIMEOUT" "cpu_cycle m2 \<ge> ?mx"
    using run_iter_idle(2) [of ?m ?m ?mx hf h al "cpu_cycle m + 10000"] assms(1) room by auto
  have "run_interp hf m n = Some (cpu_cycle m1 - cpu_cycle m, m1)"
    using run_loop_stops [where iter = "run_iter hf ?mx", OF lt _ it] assms(2) r by (simp add: run_interp_def Let_def run_finish_def)
  moreover have "rv64_run_jit hf h al m n = Some (cpu_cycle m2 - cpu_cycle m, m2)"
    using run_loop_stops [where iter = "run_iter_jit hf h al ?mx", OF lt _ itj] assms(2) rj by (simp add: rv64_run_jit_def Let_def run_finish_jit_def)
  ultimately show ?thesis using r rj by (auto simp: rv64_run_def)
qed

text \<open>C27. A processor halted by \<open>WFI\<close> that nothing can wake does not hang the emulator: whichever loop
  runs it, \<open>rv64_run\<close> returns, having let at least the whole budget pass, and reports the wait that timed out.
  The budget must leave room below \<open>2\<^sup>6\<^sup>4\<close> for one check interval, since the loops compare counters that wrap.\<close>

theorem idle_run_returns:
  assumes "idle m" "\<not> cpu_error m" "0 < n" "unat (cpu_cycle m) + unat n + 10000 < 2 ^ 64"
  shows "\<exists>k m'. rv64_run hf h al m n = Some (k, m') \<and> cpu_run_exit_reason m' = RUN_EXIT_WFI_TIMEOUT \<and>
    unat (cpu_cycle m) + unat n \<le> unat (cpu_cycle m') \<and> k = cpu_cycle m' - cpu_cycle m"
proof -
  have "unat (cpu_cycle m + n) = unat (cpu_cycle m) + unat n"
    using assms(4) by (intro unat_add_lem [THEN iffD1]) simp
  with run_idle [OF assms, of hf h al] show ?thesis by (auto simp: word_le_nat_alt)
qed

text \<open>The machine of the witnesses: out of reset, halted, with the machine software interrupt enabled.\<close>

definition idle_vm :: "lir list vm" where
  "idle_vm = (bare_vm (\<lambda>_. 0) 0x10000)\<lparr>cpu_halted := True, cpu_mie := MIP_MSIP\<rparr>"

lemma idle_vm_idle: "idle idle_vm" "\<not> cpu_error idle_vm" "cpu_cycle idle_vm = 0"
  by (simp_all add: idle_vm_def idle_def bare_vm_simps zero_dev_def)

lemma idle_vm_inv: "vm_inv idle_vm"
  by (simp add: idle_vm_def bare_vm_simps vm_inv_def tlb_inv_def ram_ok_def tlb_entry_ok_def zero_tlb_entry_def dvd_def)

theorem idle_run_returns_witness:
  "\<forall>hf h al. \<exists>k m'. rv64_run hf h al idle_vm 100 = Some (k, m') \<and>
     cpu_run_exit_reason m' = RUN_EXIT_WFI_TIMEOUT \<and> 100 \<le> unat (cpu_cycle m') \<and> k = cpu_cycle m'"
  using idle_run_returns [OF idle_vm_idle(1,2), of 100] by (simp add: idle_vm_idle)

theorem run_preserves_vm_inv_witness:
  "\<forall>hf h al. \<exists>k m'. rv64_run hf h al idle_vm 100 = Some (k, m') \<and> vm_inv m'"
proof (intro allI)
  fix hf h al
  obtain k m' where run: "rv64_run hf h al idle_vm 100 = Some (k, m')"
    using run_idle [OF idle_vm_idle(1,2), of 100 hf h al] by (auto simp: idle_vm_idle)
  from run_preserves_vm_inv [OF idle_vm_inv run] run show "\<exists>k m'. rv64_run hf h al idle_vm 100 = Some (k, m') \<and> vm_inv m'"
    by blast
qed

theorem run_exit_reason_witness:
  "\<forall>hf h al. \<exists>k m'. rv64_run hf h al idle_vm 100 = Some (k, m') \<and> exit_explained 100 False m'"
proof (intro allI)
  fix hf h al
  obtain m' where run: "rv64_run hf h al idle_vm 100 = Some (cpu_cycle m' - 0, m')"
    using run_idle [OF idle_vm_idle(1,2), of 100 hf h al] by (auto simp: idle_vm_idle)
  from run_exit_reason [OF run] run show "\<exists>k m'. rv64_run hf h al idle_vm 100 = Some (k, m') \<and> exit_explained 100 False m'"
    by (auto simp: idle_vm_idle)
qed

end
