(* ===== verification/RV_Disk.thy ===== *)
theory RV_Disk
  imports RV_Virtio "HOL-Library.AList"
begin

text \<open>
  The disk of \<open>rv64_pgext.c\<close>: an image in memory, a bitmap with one bit per block of 4096 bytes
  that a guest write sets (\<open>vm_dirty_callback\<close>), and the table \<open>vm_blocks\<close> of the database, to which the
  worker and \<open>vm_disk_flush\<close> write dirty blocks and from which booting overlays the image.

  The table is an association list with the primary key \<open>(vm_id, blk_idx)\<close>. Whether the server accepts a
  connection and an insertion is a parameter (\<open>spi\<close>). Accesses outside the bitmap or the image are \<open>None\<close>.
\<close>

subsection \<open>The bitmap\<close>

abbreviation (input) DISK_BLOCK_SIZE :: u64 where "DISK_BLOCK_SIZE \<equiv> 4096"

text \<open>\<open>vm_disk_dirty\<close>; \<open>None\<close> is the null pointer.\<close>

type_synonym bitmap = "u8 list option"

definition DISK_DIRTY_SET :: "bitmap \<Rightarrow> u64 \<Rightarrow> bitmap undef" where
  "DISK_DIRTY_SET dirty idx = (case dirty of
     None \<Rightarrow> Some None
   | Some d \<Rightarrow> let i = unat (shr idx 3) in
       if i < length d then Some (Some (d[i := d ! i OR shl 1 (unat (idx AND 7))])) else None)"

definition DISK_DIRTY_GET :: "bitmap \<Rightarrow> u64 \<Rightarrow> bool undef" where
  "DISK_DIRTY_GET dirty idx = (case dirty of
     None \<Rightarrow> Some False
   | Some d \<Rightarrow> let i = unat (shr idx 3) in
       if i < length d then Some (d ! i AND shl 1 (unat (idx AND 7)) \<noteq> 0) else None)"

definition DISK_DIRTY_CLR :: "bitmap \<Rightarrow> u64 \<Rightarrow> bitmap undef" where
  "DISK_DIRTY_CLR dirty idx = (case dirty of
     None \<Rightarrow> Some None
   | Some d \<Rightarrow> let i = unat (shr idx 3) in
       if i < length d then Some (Some (d[i := d ! i AND NOT (shl 1 (unat (idx AND 7)))])) else None)"

definition disk_nblocks :: "u64 \<Rightarrow> u64" where
  "disk_nblocks disk_size = (disk_size + DISK_BLOCK_SIZE - 1) div DISK_BLOCK_SIZE"

text \<open>\<open>calloc(bmap_bytes, 1)\<close>.\<close>

definition disk_bitmap :: "u64 \<Rightarrow> bitmap" where
  "disk_bitmap disk_size = Some (replicate (unat ((disk_nblocks disk_size + 7) div 8)) 0)"

function dirty_loop :: "bitmap \<Rightarrow> u64 \<Rightarrow> u64 \<Rightarrow> bitmap undef" where
  "dirty_loop dirty b blk_end =
     (if b < blk_end then do { dirty' \<leftarrow> DISK_DIRTY_SET dirty b; dirty_loop dirty' (b + 1) blk_end }
      else Some dirty)"
  by pat_completeness auto

lemma unat_add_one: "(b :: u64) < e \<Longrightarrow> unat (b + 1) = unat b + 1"
  using unsigned_less [of e, where ?'a = nat] by (auto simp: word_less_nat_alt unat_word_ariths)

lemma up_to_measure: "(b :: u64) < e \<Longrightarrow> unat (e - (b + 1)) < unat (e - b)"
proof -
  assume "b < e"
  then have "e - b \<noteq> 0" by simp
  then have "unat (e - b - 1) < unat (e - b)" by (simp add: unat_minus_one unat_gt_0)
  then show ?thesis by (simp add: diff_diff_eq)
qed

termination dirty_loop
  by (relation "measure (\<lambda>(dirty, b, e). unat (e - b))") (simp_all add: up_to_measure)

declare dirty_loop.simps [simp del]

definition vm_dirty_callback :: "bitmap \<Rightarrow> u64 \<Rightarrow> u64 \<Rightarrow> bitmap undef" where
  "vm_dirty_callback dirty byte_offset len =
     (if dirty = None \<or> len = 0 then Some dirty
      else dirty_loop dirty (byte_offset div DISK_BLOCK_SIZE)
        ((byte_offset + len + DISK_BLOCK_SIZE - 1) div DISK_BLOCK_SIZE))"

subsection \<open>The table\<close>

type_synonym blocks = "((u64 \<times> u64) \<times> u8 list) list"

record spi =
  spi_connect :: bool
  spi_insert :: "u64 \<Rightarrow> bool"

text \<open>\<open>INSERT \<dots> ON CONFLICT \<dots> DO UPDATE\<close> and \<open>SELECT blk_idx, data \<dots> ORDER BY blk_idx\<close> of one machine.\<close>

definition upsert_block :: "spi \<Rightarrow> u64 \<Rightarrow> u64 \<Rightarrow> u8 list \<Rightarrow> blocks \<Rightarrow> blocks" where
  "upsert_block db vm_id b data tbl = (if spi_insert db b then AList.update (vm_id, b) data tbl else tbl)"

definition select_blocks :: "u64 \<Rightarrow> blocks \<Rightarrow> (u64 \<times> u8 list) list" where
  "select_blocks vm_id tbl =
     sort_key (\<lambda>(b, _). sint b) (map (\<lambda>((_, b), data). (b, data)) (filter (\<lambda>((v, _), _). v = vm_id) tbl))"

text \<open>The length of a block, the last of which may be short, and its bytes.\<close>

definition block_len :: "u64 \<Rightarrow> u64 \<Rightarrow> u64" where
  "block_len disk_size b =
     (let off = b * DISK_BLOCK_SIZE in
      if off + DISK_BLOCK_SIZE > disk_size then disk_size - off else DISK_BLOCK_SIZE)"

definition block_data :: "mem option \<Rightarrow> u64 \<Rightarrow> u64 \<Rightarrow> u8 list undef" where
  "block_data disk disk_size b = (case disk of
     None \<Rightarrow> None
   | Some m \<Rightarrow>
       let off = b * DISK_BLOCK_SIZE; n = unat (block_len disk_size b) in
       if in_block disk_size off n then Some (read_bytes m off n) else None)"

text \<open>The worker clears the bit, then inserts under \<open>vm_id\<close> 1 and does not look at the result; it stops
  after 256 blocks.\<close>

function worker_flush_loop ::
  "spi \<Rightarrow> mem option \<Rightarrow> u64 \<Rightarrow> u64 \<Rightarrow> nat \<Rightarrow> bitmap \<Rightarrow> blocks \<Rightarrow> (bitmap \<times> blocks) undef" where
  "worker_flush_loop db disk disk_size b flushed dirty tbl =
     (if b < disk_nblocks disk_size then do {
        d \<leftarrow> DISK_DIRTY_GET dirty b;
        if d then do {
          dirty' \<leftarrow> DISK_DIRTY_CLR dirty b;
          data \<leftarrow> block_data disk disk_size b;
          let tbl' = upsert_block db 1 b data tbl;
          if flushed + 1 \<ge> 256 then Some (dirty', tbl')
          else worker_flush_loop db disk disk_size (b + 1) (flushed + 1) dirty' tbl'
        } else worker_flush_loop db disk disk_size (b + 1) flushed dirty tbl
      } else Some (dirty, tbl))"
  by pat_completeness auto

termination worker_flush_loop
  by (relation "measure (\<lambda>(db, disk, sz, b, n, dirty, tbl). unat (disk_nblocks sz - b))") (simp_all add: up_to_measure)

declare worker_flush_loop.simps [simp del]

definition worker_flush_dirty_blocks ::
  "spi \<Rightarrow> mem option \<Rightarrow> u64 \<Rightarrow> bitmap \<Rightarrow> blocks \<Rightarrow> (bitmap \<times> blocks) undef" where
  "worker_flush_dirty_blocks db disk disk_size dirty tbl =
     (if dirty = None \<or> disk_size = 0 \<or> \<not> spi_connect db then Some (dirty, tbl)
      else worker_flush_loop db disk disk_size 0 0 dirty tbl)"

text \<open>\<open>vm_disk_flush\<close> inserts first and clears the bit of a block that was accepted; the count is of the
  blocks it tried.\<close>

function disk_flush_loop ::
  "spi \<Rightarrow> u64 \<Rightarrow> mem option \<Rightarrow> u64 \<Rightarrow> u64 \<Rightarrow> u64 \<Rightarrow> bitmap \<Rightarrow> blocks \<Rightarrow> (u64 \<times> bitmap \<times> blocks) undef" where
  "disk_flush_loop db vm_id disk disk_size b flushed dirty tbl =
     (if b < disk_nblocks disk_size then do {
        d \<leftarrow> DISK_DIRTY_GET dirty b;
        if d then do {
          data \<leftarrow> block_data disk disk_size b;
          let tbl' = upsert_block db vm_id b data tbl;
          dirty' \<leftarrow> (if spi_insert db b then DISK_DIRTY_CLR dirty b else Some dirty);
          disk_flush_loop db vm_id disk disk_size (b + 1) (flushed + 1) dirty' tbl'
        } else disk_flush_loop db vm_id disk disk_size (b + 1) flushed dirty tbl
      } else Some (flushed, dirty, tbl))"
  by pat_completeness auto

termination disk_flush_loop
  by (relation "measure (\<lambda>(db, v, disk, sz, b, n, dirty, tbl). unat (disk_nblocks sz - b))") (simp_all add: up_to_measure)

declare disk_flush_loop.simps [simp del]

datatype flush_result = No_Disk | Connect_Failed | Flushed u64

definition rv64_vm_disk_flush ::
  "spi \<Rightarrow> u64 \<Rightarrow> mem option \<Rightarrow> u64 \<Rightarrow> bitmap \<Rightarrow> blocks \<Rightarrow> (flush_result \<times> bitmap \<times> blocks) undef" where
  "rv64_vm_disk_flush db vm_id disk disk_size dirty tbl =
     (if disk = None \<or> dirty = None \<or> disk_size = 0 then Some (No_Disk, dirty, tbl)
      else if \<not> spi_connect db then Some (Connect_Failed, dirty, tbl)
      else do {
        (n, dirty', tbl') \<leftarrow> disk_flush_loop db vm_id disk disk_size 0 0 dirty tbl;
        Some (Flushed n, dirty', tbl')
      })"

text \<open>Booting copies the stored blocks over the image.\<close>

fun overlay_blocks :: "u64 \<Rightarrow> (u64 \<times> u8 list) list \<Rightarrow> mem \<Rightarrow> mem undef" where
  "overlay_blocks disk_size [] disk = Some disk"
| "overlay_blocks disk_size ((blk, data) # rows) disk =
     (let off = blk * DISK_BLOCK_SIZE; blen = of_nat (length data) :: u64 in
      if off + blen \<le> disk_size then
        (if in_block disk_size off (length data) then overlay_blocks disk_size rows (write_bytes disk off data) else None)
      else overlay_blocks disk_size rows disk)"

subsection \<open>The bitmap as a set of blocks\<close>

definition dirty_blocks :: "u8 list \<Rightarrow> nat set" where
  "dirty_blocks d = {k. k div 8 < length d \<and> bit (d ! (k div 8)) (k mod 8)}"

lemma block_bit_index:
  "unat (shr (idx :: u64) 3) = unat idx div 8" "unat (idx AND 7) = unat idx mod 8"
proof -
  show "unat (shr idx 3) = unat idx div 8" by (simp add: drop_bit_eq_div unat_div)
  have "idx AND 7 = take_bit 3 idx" by (simp add: take_bit_eq_mask mask_eq_exp_minus_1)
  then show "unat (idx AND 7) = unat idx mod 8" by (simp add: take_bit_eq_mod unat_mod_distrib)
qed

lemma byte_bits:
  assumes "j < 8" "k < 8"
  shows "bit (w OR 2 ^ j :: u8) k \<longleftrightarrow> bit w k \<or> k = j" "bit (w AND NOT (2 ^ j) :: u8) k \<longleftrightarrow> bit w k \<and> k \<noteq> j"
    "w AND 2 ^ j = (0 :: u8) \<longleftrightarrow> \<not> bit w j"
  using assms by (auto simp: bit_simps and_exp_eq_0_iff_not_bit)

lemma div_mod_8_eq: "(i :: nat) div 8 = j div 8 \<Longrightarrow> i mod 8 = j mod 8 \<Longrightarrow> i = j"
  by (metis div_mult_mod_eq)

lemma dirty_get:
  "unat idx div 8 < length d \<Longrightarrow> DISK_DIRTY_GET (Some d) idx = Some (unat idx \<in> dirty_blocks d)"
  by (simp add: DISK_DIRTY_GET_def Let_def block_bit_index dirty_blocks_def byte_bits(3) [of "unat idx mod 8" 0])

lemma dirty_set:
  assumes "unat idx div 8 < length d"
  obtains d' where "DISK_DIRTY_SET (Some d) idx = Some (Some d')" "length d' = length d"
    "dirty_blocks d' = insert (unat idx) (dirty_blocks d)"
proof
  let ?d = "d[unat idx div 8 := d ! (unat idx div 8) OR shl 1 (unat idx mod 8)]"
  show "DISK_DIRTY_SET (Some d) idx = Some (Some ?d)"
    using assms by (simp add: DISK_DIRTY_SET_def Let_def block_bit_index)
  show "dirty_blocks ?d = insert (unat idx) (dirty_blocks d)"
    using assms by (auto simp: dirty_blocks_def nth_list_update byte_bits(1) split: if_splits intro: div_mod_8_eq)
qed simp

lemma dirty_clr:
  assumes "unat idx div 8 < length d"
  obtains d' where "DISK_DIRTY_CLR (Some d) idx = Some (Some d')" "length d' = length d"
    "dirty_blocks d' = dirty_blocks d - {unat idx}"
proof
  let ?d = "d[unat idx div 8 := d ! (unat idx div 8) AND NOT (shl 1 (unat idx mod 8))]"
  show "DISK_DIRTY_CLR (Some d) idx = Some (Some ?d)"
    using assms by (simp add: DISK_DIRTY_CLR_def Let_def block_bit_index)
  show "dirty_blocks ?d = dirty_blocks d - {unat idx}"
    using assms by (auto simp: dirty_blocks_def nth_list_update byte_bits(2) split: if_splits intro: div_mod_8_eq)
qed simp

text \<open>Sizes of disks come from a \<open>long\<close>; below \<open>2\<^sup>6\<^sup>3\<close> the counts are exact.\<close>

abbreviation (input) disk_ok :: "u64 \<Rightarrow> bool" where "disk_ok sz \<equiv> unat sz < 2 ^ 63"

lemma round_up_blocks:
  assumes "unat (a :: u64) \<le> 2 ^ 63"
  shows "unat ((a + DISK_BLOCK_SIZE - 1) div DISK_BLOCK_SIZE) = (unat a + 4095) div 4096"
proof -
  have "unat (a + 4095) = unat a + 4095"
    using assms by (simp add: unat_word_ariths)
  moreover have "a + DISK_BLOCK_SIZE - 1 = a + 4095" by simp
  ultimately show ?thesis by (simp only: unat_div unat_numeral) simp
qed

lemma disk_nblocks_nat: "disk_ok sz \<Longrightarrow> unat (disk_nblocks sz) = (unat sz + 4095) div 4096"
  unfolding disk_nblocks_def by (rule round_up_blocks) simp

definition bitmap_ok :: "u64 \<Rightarrow> u8 list \<Rightarrow> bool" where
  "bitmap_ok sz d \<longleftrightarrow> unat (disk_nblocks sz) \<le> 8 * length d"

lemma bitmap_ok_index: "bitmap_ok sz d \<Longrightarrow> k < unat (disk_nblocks sz) \<Longrightarrow> k div 8 < length d"
  by (simp add: bitmap_ok_def)

lemma disk_bitmap_ok:
  assumes "disk_ok sz"
  obtains d where "disk_bitmap sz = Some d" "bitmap_ok sz d" "dirty_blocks d = {}"
proof
  let ?n = "unat ((disk_nblocks sz + 7) div 8)"
  have "unat (disk_nblocks sz) \<le> (2 ^ 63 + 4095) div 4096" using assms by (simp add: disk_nblocks_nat)
  then have "unat (disk_nblocks sz + 7) = unat (disk_nblocks sz) + 7" by (simp add: unat_word_ariths)
  then have "?n = (unat (disk_nblocks sz) + 7) div 8" by (simp add: unat_div)
  then show "bitmap_ok sz (replicate ?n 0)" by (simp add: bitmap_ok_def)
  show "dirty_blocks (replicate ?n 0) = {}" by (auto simp: dirty_blocks_def)
qed (simp add: disk_bitmap_def)

lemma dirty_loop_marks:
  assumes "unat e \<le> 8 * length d"
  shows "\<exists>d'. dirty_loop (Some d) b e = Some (Some d') \<and> length d' = length d \<and>
    dirty_blocks d' = dirty_blocks d \<union> {unat b ..< unat e}"
  using assms
proof (induction "unat e - unat b" arbitrary: b d)
  case 0
  then have "\<not> b < e" by (simp add: word_less_nat_alt)
  then show ?case using 0 by (subst dirty_loop.simps) (simp add: word_less_nat_alt)
next
  case (Suc n)
  then have less: "b < e" by (simp add: word_less_nat_alt)
  then have sb: "unat (b + 1) = unat b + 1" by (rule unat_add_one)
  have n: "n = unat e - unat (b + 1)" using Suc.hyps(2) by (simp add: sb)
  obtain d1 where d1: "DISK_DIRTY_SET (Some d) b = Some (Some d1)" "length d1 = length d"
    "dirty_blocks d1 = insert (unat b) (dirty_blocks d)"
    using Suc.prems less by (auto simp: word_less_nat_alt intro: dirty_set [of b d])
  obtain d' where "dirty_loop (Some d1) (b + 1) e = Some (Some d')" "length d' = length d1"
    "dirty_blocks d' = dirty_blocks d1 \<union> {unat (b + 1) ..< unat e}"
    using Suc.hyps(1) [OF n, of d1] Suc.prems by (auto simp: d1(2))
  moreover have "dirty_loop (Some d) b e = dirty_loop (Some d1) (b + 1) e"
    using d1(1) less by (subst dirty_loop.simps) simp
  moreover have "insert (unat b) {unat (b + 1) ..< unat e} = {unat b ..< unat e}"
    using less unfolding sb word_less_nat_alt by fastforce
  ultimately show ?case using d1(2,3) by (metis Un_insert_left Un_insert_right)
qed

text \<open>A write inside the disk marks the blocks it touches, inside the bitmap.\<close>

lemma dirty_callback_marks:
  assumes "disk_ok sz" "bitmap_ok sz d" "unat off + unat len \<le> unat sz" "0 < len"
  obtains d' where "vm_dirty_callback (Some d) off len = Some (Some d')" "length d' = length d"
    "dirty_blocks d' = dirty_blocks d \<union> {unat off div 4096 ..< (unat off + unat len + 4095) div 4096}"
proof -
  have sum: "unat (off + len) = unat off + unat len"
    using assms by (simp add: unat_word_ariths)
  let ?e = "(off + len + DISK_BLOCK_SIZE - 1) div DISK_BLOCK_SIZE"
  have e: "unat ?e = (unat off + unat len + 4095) div 4096"
    using round_up_blocks [of "off + len"] assms by (simp add: sum)
  have "unat ?e \<le> 8 * length d"
    unfolding e using assms(1-3) div_le_mono [of "unat off + unat len + 4095" "unat sz + 4095" 4096]
    by (simp add: bitmap_ok_def disk_nblocks_nat)
  from dirty_loop_marks [OF this, of "off div DISK_BLOCK_SIZE"] obtain d' where
    "dirty_loop (Some d) (off div DISK_BLOCK_SIZE) ?e = Some (Some d')" "length d' = length d"
    "dirty_blocks d' = dirty_blocks d \<union> {unat (off div DISK_BLOCK_SIZE) ..< unat ?e}" by blast
  with assms(4) show ?thesis
    unfolding e by (intro that [of d']) (auto simp: vm_dirty_callback_def unat_div)
qed

subsection \<open>Blocks\<close>

text \<open>A block by its number, and its bytes.\<close>

definition blk_len :: "u64 \<Rightarrow> nat \<Rightarrow> nat" where
  "blk_len sz k = min 4096 (unat sz - 4096 * k)"

definition blk_bytes :: "u64 \<Rightarrow> mem \<Rightarrow> nat \<Rightarrow> u8 list" where
  "blk_bytes sz m k = read_bytes m (of_nat (4096 * k)) (blk_len sz k)"

lemma block_in_disk: "disk_ok sz \<Longrightarrow> k < unat (disk_nblocks sz) \<Longrightarrow> 4096 * k < unat sz"
  by (simp add: disk_nblocks_nat)

lemma block_offset:
  assumes "disk_ok sz" "b < disk_nblocks sz"
  shows "unat (b * DISK_BLOCK_SIZE) = 4096 * unat b" "b * DISK_BLOCK_SIZE = of_nat (4096 * unat b)"
proof -
  have "4096 * unat b < unat sz" using block_in_disk assms by (simp add: word_less_nat_alt)
  then show "unat (b * DISK_BLOCK_SIZE) = 4096 * unat b"
    using assms(1) by (simp add: unat_word_ariths mult.commute)
  show "b * DISK_BLOCK_SIZE = of_nat (4096 * unat b)" by (simp add: mult.commute)
qed

lemma block_len_nat:
  assumes "disk_ok sz" "b < disk_nblocks sz"
  shows "unat (block_len sz b) = blk_len sz (unat b)"
proof -
  have less: "4096 * unat b < unat sz" using block_in_disk assms by (simp add: word_less_nat_alt)
  have off: "unat (b * DISK_BLOCK_SIZE) = 4096 * unat b" using block_offset(1) [OF assms] .
  then have "unat (b * DISK_BLOCK_SIZE + DISK_BLOCK_SIZE) = 4096 * unat b + 4096"
    using less assms(1) by (simp add: unat_word_ariths)
  moreover have "unat (sz - b * DISK_BLOCK_SIZE) = unat sz - 4096 * unat b"
    using off less by (simp add: unat_sub_if')
  ultimately show ?thesis
    by (auto simp: block_len_def blk_len_def Let_def word_less_nat_alt)
qed

lemma block_data_bytes:
  assumes "disk_ok sz" "b < disk_nblocks sz"
  shows "block_data (Some m) sz b = Some (blk_bytes sz m (unat b))"
proof -
  have "4096 * unat b < unat sz" using block_in_disk assms by (simp add: word_less_nat_alt)
  then have "in_block sz (b * DISK_BLOCK_SIZE) (blk_len sz (unat b))"
    by (simp add: in_block_def block_offset(1) [OF assms] blk_len_def)
  then show ?thesis
    by (simp add: block_data_def Let_def block_len_nat [OF assms] blk_bytes_def) (simp add: mult.commute)
qed

text \<open>A write leaves the blocks it does not touch alone.\<close>

lemma blk_bytes_write:
  assumes "disk_ok sz" "unat off + length bs \<le> unat sz"
    and "k \<notin> {unat off div 4096 ..< (unat off + length bs + 4095) div 4096}"
  shows "blk_bytes sz (write_bytes m off bs) k = blk_bytes sz m k"
proof (cases "4096 * k < unat sz")
  case True
  have "unat (of_nat (4096 * k) :: u64) = 4096 * k"
    using True assms(1) by (simp only: unat_of_nat) simp
  moreover have "unat off + length bs \<le> 4096 * k \<or> 4096 * k + 4096 \<le> unat off" using assms(3) by auto
  ultimately show ?thesis
    using True assms(1,2) unfolding blk_bytes_def
    by (intro read_write_bytes_disjoint) (auto simp: blk_len_def)
qed (simp add: blk_bytes_def blk_len_def read_bytes_def)

text \<open>Two images with the same blocks have the same bytes.\<close>

lemma blk_bytes_all:
  assumes "disk_ok sz" "\<And>k. k < unat (disk_nblocks sz) \<Longrightarrow> blk_bytes sz m k = blk_bytes sz m' k" "i < sz"
  shows "m i = m' i"
proof -
  let ?k = "unat i div 4096" and ?j = "unat i mod 4096"
  have "?k < unat (disk_nblocks sz)" using assms(1,3) by (simp add: disk_nblocks_nat word_less_nat_alt)
  from assms(2) [OF this] have eq: "blk_bytes sz m ?k = blk_bytes sz m' ?k" .
  have "?j < blk_len sz ?k" using assms(3) by (auto simp: blk_len_def word_less_nat_alt minus_mod_eq_mult_div [symmetric])
  moreover have "of_nat (4096 * ?k) + of_nat ?j = i"
    unfolding of_nat_add [symmetric] mult_div_mod_eq by simp
  ultimately show ?thesis
    using arg_cong [OF eq, of "\<lambda>bs. bs ! ?j"] by (simp add: blk_bytes_def)
qed

subsection \<open>The stored blocks and the disk\<close>

text \<open>A clean block of the disk is what booting would restore: the stored data, or the image where none is stored.\<close>

definition restored :: "u64 \<Rightarrow> u64 \<Rightarrow> mem \<Rightarrow> blocks \<Rightarrow> nat \<Rightarrow> u8 list" where
  "restored vm_id sz base tbl k = (case map_of tbl (vm_id, of_nat k) of Some data \<Rightarrow> data | None \<Rightarrow> blk_bytes sz base k)"

definition table_ok :: "u64 \<Rightarrow> u64 \<Rightarrow> blocks \<Rightarrow> bool" where
  "table_ok vm_id sz tbl \<longleftrightarrow> distinct (map fst tbl) \<and>
     (\<forall>b data. map_of tbl (vm_id, b) = Some data \<longrightarrow> b < disk_nblocks sz \<and> length data = blk_len sz (unat b))"

definition backed :: "u64 \<Rightarrow> u64 \<Rightarrow> mem \<Rightarrow> mem \<Rightarrow> u8 list \<Rightarrow> blocks \<Rightarrow> bool" where
  "backed vm_id sz base disk d tbl \<longleftrightarrow> bitmap_ok sz d \<and> table_ok vm_id sz tbl \<and>
     (\<forall>k < unat (disk_nblocks sz). k \<notin> dirty_blocks d \<longrightarrow> blk_bytes sz disk k = restored vm_id sz base tbl k)"

lemma backed_write:
  assumes "backed vm_id sz base disk d tbl" "disk_ok sz" "unat off + length bs \<le> unat sz"
    and "vm_dirty_callback (Some d) off (of_nat (length bs)) = Some (Some d')"
  shows "backed vm_id sz base (write_bytes disk off bs) d' tbl"
proof (cases "bs = []")
  case True
  then have "write_bytes disk off bs = disk" by (simp add: write_bytes_def fun_eq_iff)
  then show ?thesis using assms True by (simp add: vm_dirty_callback_def)
next
  case False
  have len: "unat (of_nat (length bs) :: u64) = length bs"
    using assms(2,3) by (simp add: unat_of_nat)
  then have "0 < (of_nat (length bs) :: u64)" using False by (simp add: word_less_nat_alt)
  then obtain d1 where "vm_dirty_callback (Some d) off (of_nat (length bs)) = Some (Some d1)" "length d1 = length d"
    "dirty_blocks d1 = dirty_blocks d \<union> {unat off div 4096 ..< (unat off + length bs + 4095) div 4096}"
    using dirty_callback_marks [of sz d off "of_nat (length bs)"] assms by (auto simp: len backed_def)
  then show ?thesis using assms blk_bytes_write [OF assms(2,3)] by (auto simp: backed_def bitmap_ok_def)
qed

lemma backed_store:
  assumes "backed vm_id sz base disk d tbl" "b < disk_nblocks sz" "length d' = length d"
    and "dirty_blocks d' = dirty_blocks d - {unat b}"
  shows "backed vm_id sz base disk d' (AList.update (vm_id, b) (blk_bytes sz disk (unat b)) tbl)"
proof -
  have "of_nat k = b \<longleftrightarrow> k = unat b" if "k < unat (disk_nblocks sz)" for k
    using that unsigned_less [of "disk_nblocks sz", where ?'a = nat] by (auto simp: unat_of_nat)
  then show ?thesis
    using assms by (auto simp: backed_def bitmap_ok_def table_ok_def restored_def update_conv' distinct_update
        blk_bytes_def split: if_split_asm)
qed

lemma backed_less:
  assumes "backed vm_id sz base disk d tbl" "length d' = length d" "dirty_blocks d \<subseteq> dirty_blocks d'"
  shows "backed vm_id sz base disk d' tbl"
  using assms by (auto simp: backed_def bitmap_ok_def)

text \<open>Booting with the stored blocks.\<close>

lemma overlay_blocks_restores:
  assumes "disk_ok sz" "distinct (map fst rows)"
    and "\<And>b data. (b, data) \<in> set rows \<Longrightarrow> b < disk_nblocks sz \<and> length data = blk_len sz (unat b)"
  shows "\<exists>m. overlay_blocks sz rows base = Some m \<and> (\<forall>k < unat (disk_nblocks sz).
    blk_bytes sz m k = (case map_of rows (of_nat k) of Some data \<Rightarrow> data | None \<Rightarrow> blk_bytes sz base k))"
  using assms(2,3)
proof (induction rows arbitrary: base)
  case (Cons r rows)
  obtain b data where r: "r = (b, data)" by (cases r)
  let ?off = "b * DISK_BLOCK_SIZE" and ?base = "write_bytes base (b * DISK_BLOCK_SIZE) data"
  have b: "b < disk_nblocks sz" "length data = blk_len sz (unat b)" using Cons.prems(2) [of b data] r by auto
  have off: "unat ?off = 4096 * unat b" and less: "4096 * unat b < unat sz"
    using block_offset(1) [OF assms(1) b(1)] block_in_disk [OF assms(1)] b(1) by (auto simp: word_less_nat_alt)
  then have fits: "unat ?off + length data \<le> unat sz" by (simp add: b(2) blk_len_def)
  then have "unat (?off + of_nat (length data)) = unat ?off + length data"
    using assms(1) by (simp add: unat_word_ariths unat_of_nat)
  with fits have step: "overlay_blocks sz (r # rows) base = overlay_blocks sz rows ?base"
    by (simp add: r Let_def word_le_nat_alt in_block_def)
  have "{unat ?off div 4096 ..< (unat ?off + length data + 4095) div 4096} \<subseteq> {unat b}"
    by (auto simp: off b(2) blk_len_def)
  then have other: "blk_bytes sz ?base k = blk_bytes sz base k" if "k \<noteq> unat b" for k
    using blk_bytes_write [OF assms(1) fits] that by blast
  have own: "blk_bytes sz ?base (unat b) = data"
    unfolding blk_bytes_def block_offset(2) [OF assms(1) b(1), symmetric] b(2) [symmetric]
    by (rule read_write_bytes) (simp add: b(2) blk_len_def)
  have inj: "of_nat k = b \<longleftrightarrow> k = unat b" if "k < unat (disk_nblocks sz)" for k
    using that unsigned_less [of "disk_nblocks sz", where ?'a = nat] by (auto simp: unat_of_nat)
  obtain m where "overlay_blocks sz rows ?base = Some m" "\<forall>k < unat (disk_nblocks sz).
    blk_bytes sz m k = (case map_of rows (of_nat k) of Some data \<Rightarrow> data | None \<Rightarrow> blk_bytes sz ?base k)"
    using Cons.IH [of ?base] Cons.prems by fastforce
  moreover have "map_of rows b = None" using Cons.prems(1) by (auto simp: r map_of_eq_None_iff)
  ultimately show ?case unfolding step by (auto simp: r inj own other split: option.split)
qed simp

lemma select_blocks_rows:
  assumes "distinct (map fst tbl)"
  shows "distinct (map fst (select_blocks vm_id tbl))" "(b, data) \<in> set (select_blocks vm_id tbl) \<longleftrightarrow> map_of tbl (vm_id, b) = Some data"
    "map_of (select_blocks vm_id tbl) b = map_of tbl (vm_id, b)"
proof -
  let ?rows = "map (\<lambda>((_, b), data). (b, data)) (filter (\<lambda>((v, _), _). v = vm_id) tbl)"
  have "distinct (map fst ?rows)" using assms
  proof (induction tbl)
    case (Cons e tbl)
    then show ?case by (cases e) (force simp: image_iff)
  qed simp
  then show d: "distinct (map fst (select_blocks vm_id tbl))"
    unfolding select_blocks_def by (simp only: distinct_map distinct_sort set_sort)
  have "(b, data) \<in> set ?rows \<longleftrightarrow> ((vm_id, b), data) \<in> set tbl" for b data by force
  then show "(b, data) \<in> set (select_blocks vm_id tbl) \<longleftrightarrow> map_of tbl (vm_id, b) = Some data" for b data
    using assms unfolding select_blocks_def set_sort by simp
  then show "map_of (select_blocks vm_id tbl) b = map_of tbl (vm_id, b)"
    using d by (metis map_of_eq_Some_iff not_None_eq)
qed

lemma boot_restores:
  assumes "disk_ok sz" "table_ok vm_id sz tbl"
  shows "\<exists>m. overlay_blocks sz (select_blocks vm_id tbl) base = Some m \<and>
    (\<forall>k < unat (disk_nblocks sz). blk_bytes sz m k = restored vm_id sz base tbl k)"
  using overlay_blocks_restores [OF assms(1), of "select_blocks vm_id tbl" base] assms(2)
  by (simp add: table_ok_def select_blocks_rows restored_def)

text \<open>A machine just booted has a clean disk that its table backs.\<close>

lemma boot_backed:
  assumes "disk_ok sz" "table_ok vm_id sz tbl" "overlay_blocks sz (select_blocks vm_id tbl) base = Some disk"
    and "disk_bitmap sz = Some d"
  shows "backed vm_id sz base disk d tbl" "dirty_blocks d = {}"
proof -
  obtain d' where "disk_bitmap sz = Some d'" "bitmap_ok sz d'" "dirty_blocks d' = {}" using assms(1) by (rule disk_bitmap_ok)
  with assms(4) have d: "bitmap_ok sz d" "dirty_blocks d = {}" by auto
  from d(2) show "dirty_blocks d = {}" .
  show "backed vm_id sz base disk d tbl"
    using boot_restores [OF assms(1,2), of base] assms(2,3) d(1) by (auto simp: backed_def)
qed

text \<open>A disk without dirty blocks is restored byte for byte.\<close>

lemma clean_restored:
  assumes "disk_ok sz" "backed vm_id sz base disk d tbl" "dirty_blocks d \<inter> {..< unat (disk_nblocks sz)} = {}"
  shows "\<exists>m. overlay_blocks sz (select_blocks vm_id tbl) base = Some m \<and> (\<forall>i < sz. m i = disk i)"
proof -
  obtain m where m: "overlay_blocks sz (select_blocks vm_id tbl) base = Some m"
    "\<forall>k < unat (disk_nblocks sz). blk_bytes sz m k = restored vm_id sz base tbl k"
    using boot_restores [OF assms(1), of vm_id tbl base] assms(2) by (auto simp: backed_def)
  have "blk_bytes sz m k = blk_bytes sz disk k" if "k < unat (disk_nblocks sz)" for k
    using m(2) assms(2,3) that by (auto simp: backed_def)
  then show ?thesis using m(1) blk_bytes_all [OF assms(1)] by blast
qed

subsection \<open>Flushing\<close>

text \<open>One call of the worker's flush cleans 256 blocks or all that are dirty, and keeps the disk backed, if the
  server accepts the insertions.\<close>

lemma worker_flush_loop_backed:
  assumes "disk_ok sz" "\<And>b. spi_insert db b" "backed 1 sz base disk d tbl" "n < 256"
    and "dirty_blocks d \<inter> {..< unat b} = {}" "unat b \<le> unat (disk_nblocks sz)"
  shows "\<exists>d' tbl'. worker_flush_loop db (Some disk) sz b n (Some d) tbl = Some (Some d', tbl') \<and>
    backed 1 sz base disk d' tbl' \<and> length d' = length d \<and>
    card (dirty_blocks d' \<inter> {..< unat (disk_nblocks sz)}) = card (dirty_blocks d \<inter> {..< unat (disk_nblocks sz)}) - (256 - n)"
  using assms(3-6)
proof (induction "unat (disk_nblocks sz) - unat b" arbitrary: b d n tbl)
  case 0
  then have "unat b = unat (disk_nblocks sz)" by simp
  then show ?case using 0 by (subst worker_flush_loop.simps) (simp add: word_less_nat_alt)
next
  case (Suc l)
  let ?D = "\<lambda>d. dirty_blocks d \<inter> {..< unat (disk_nblocks sz)}"
  from Suc.hyps(2) have less: "b < disk_nblocks sz" by (simp add: word_less_nat_alt)
  then have sb: "unat (b + 1) = unat b + 1" by (rule unat_add_one)
  then have upto: "{..< unat (b + 1)} = insert (unat b) {..< unat b}" by auto
  have l: "l = unat (disk_nblocks sz) - unat (b + 1)" "unat (b + 1) \<le> unat (disk_nblocks sz)"
    using Suc.hyps(2) unfolding sb by simp_all
  have idx: "unat b div 8 < length d"
    using bitmap_ok_index less Suc.prems(1) by (auto simp: backed_def word_less_nat_alt)
  show ?case
  proof (cases "unat b \<in> dirty_blocks d")
    case True
    obtain d1 where d1: "DISK_DIRTY_CLR (Some d) b = Some (Some d1)" "length d1 = length d" "dirty_blocks d1 = dirty_blocks d - {unat b}"
      using idx by (rule dirty_clr)
    let ?tbl = "AList.update (1, b) (blk_bytes sz disk (unat b)) tbl"
    have bk: "backed 1 sz base disk d1 ?tbl" using backed_store [OF Suc.prems(1) less d1(2,3)] .
    have "?D d1 = ?D d - {unat b}" using d1(3) by blast
    then have c: "card (?D d1) = card (?D d) - 1" using True less by (simp add: word_less_nat_alt)
    have step: "worker_flush_loop db (Some disk) sz b n (Some d) tbl =
        (if n + 1 \<ge> 256 then Some (Some d1, ?tbl) else worker_flush_loop db (Some disk) sz (b + 1) (n + 1) (Some d1) ?tbl)"
      by (subst worker_flush_loop.simps)
        (simp add: less dirty_get [OF idx] True d1(1) block_data_bytes [OF assms(1) less] upsert_block_def assms(2))
    show ?thesis
    proof (cases "n + 1 \<ge> 256")
      case True
      then show ?thesis using step bk c d1(2) Suc.prems(2) by (intro exI [of _ d1] exI [of _ ?tbl]) auto
    next
      case False
      have "dirty_blocks d1 \<inter> {..< unat (b + 1)} = {}"
        using Suc.prems(3) unfolding d1(3) upto by blast
      from Suc.hyps(1) [OF l(1) bk _ this l(2), of "n + 1"] False obtain d' tbl' where
        "worker_flush_loop db (Some disk) sz (b + 1) (n + 1) (Some d1) ?tbl = Some (Some d', tbl')"
        "backed 1 sz base disk d' tbl'" "length d' = length d1" "card (?D d') = card (?D d1) - (256 - (n + 1))" by auto
      with False c d1(2) show ?thesis by (intro exI [of _ d'] exI [of _ tbl']) (simp add: step)
    qed
  next
    case False
    have "dirty_blocks d \<inter> {..< unat (b + 1)} = {}" using Suc.prems(3) False unfolding upto by blast
    from Suc.hyps(1) [OF l(1) Suc.prems(1,2) this l(2)] show ?thesis
      by (subst worker_flush_loop.simps) (simp add: less dirty_get [OF idx] False)
  qed
qed

lemma worker_flush_backed:
  assumes "disk_ok sz" "\<And>b. spi_insert db b" "backed 1 sz base disk d tbl"
    and "worker_flush_dirty_blocks db (Some disk) sz (Some d) tbl = Some (dirty', tbl')"
  shows "\<exists>d'. dirty' = Some d' \<and> backed 1 sz base disk d' tbl'"
  using worker_flush_loop_backed [OF assms(1-3), of 0 0] assms(3,4)
  by (auto simp: worker_flush_dirty_blocks_def split: if_split_asm)

text \<open>\<open>vm_disk_flush\<close> keeps the disk backed whatever the server accepts, since it clears only the bits of
  accepted blocks.\<close>

lemma disk_flush_loop_backed:
  assumes "disk_ok sz" "backed vm_id sz base disk d tbl"
    and "disk_flush_loop db vm_id (Some disk) sz b n (Some d) tbl = Some (n', dirty', tbl')"
  shows "\<exists>d'. dirty' = Some d' \<and> backed vm_id sz base disk d' tbl'"
  using assms(2,3)
proof (induction "unat (disk_nblocks sz) - unat b" arbitrary: b d n tbl)
  case 0
  then have "\<not> b < disk_nblocks sz" by (simp add: word_less_nat_alt)
  with 0 show ?case by (subst (asm) disk_flush_loop.simps) auto
next
  case (Suc l)
  from Suc.hyps(2) have less: "b < disk_nblocks sz" by (simp add: word_less_nat_alt)
  have l: "l = unat (disk_nblocks sz) - unat (b + 1)" using Suc.hyps(2) unat_add_one [OF less] by simp
  have idx: "unat b div 8 < length d"
    using bitmap_ok_index less Suc.prems(1) by (auto simp: backed_def word_less_nat_alt)
  obtain d1 where d1: "DISK_DIRTY_CLR (Some d) b = Some (Some d1)" "length d1 = length d" "dirty_blocks d1 = dirty_blocks d - {unat b}"
    using idx by (rule dirty_clr)
  have eq: "disk_flush_loop db vm_id (Some disk) sz b n (Some d) tbl =
     (if unat b \<in> dirty_blocks d then
        (if spi_insert db b then disk_flush_loop db vm_id (Some disk) sz (b + 1) (n + 1) (Some d1)
             (AList.update (vm_id, b) (blk_bytes sz disk (unat b)) tbl)
         else disk_flush_loop db vm_id (Some disk) sz (b + 1) (n + 1) (Some d) tbl)
      else disk_flush_loop db vm_id (Some disk) sz (b + 1) n (Some d) tbl)"
    by (subst disk_flush_loop.simps) (simp add: less dirty_get [OF idx] d1(1) block_data_bytes [OF assms(1) less] upsert_block_def)
  show ?case
    using Suc.hyps(1) [OF l backed_store [OF Suc.prems(1) less d1(2,3)]] Suc.hyps(1) [OF l Suc.prems(1)] Suc.prems(2)
    unfolding eq by (simp split: if_split_asm)
qed

lemma disk_flush_backed:
  assumes "disk_ok sz" "backed vm_id sz base disk d tbl"
    and "rv64_vm_disk_flush db vm_id (Some disk) sz (Some d) tbl = Some (r, dirty', tbl')"
  shows "\<exists>d'. dirty' = Some d' \<and> backed vm_id sz base disk d' tbl'"
  using assms(2,3) disk_flush_loop_backed [OF assms(1,2)]
  by (auto simp: rv64_vm_disk_flush_def bind_eq_Some_conv split: if_split_asm)

subsection \<open>The life of a disk\<close>

text \<open>What happens to the disk of machine 1: booting overlays the stored blocks, the guest writes with the
  callback installed, and both flushes run, in any order.\<close>

inductive disk_life :: "spi \<Rightarrow> u64 \<Rightarrow> mem \<Rightarrow> mem \<Rightarrow> u8 list \<Rightarrow> blocks \<Rightarrow> bool" for db sz base where
  booted: "table_ok 1 sz tbl \<Longrightarrow> overlay_blocks sz (select_blocks 1 tbl) base = Some disk \<Longrightarrow> disk_bitmap sz = Some d \<Longrightarrow>
    disk_life db sz base disk d tbl"
| written: "disk_life db sz base disk d tbl \<Longrightarrow> in_block sz off (length bs) \<Longrightarrow>
    vm_dirty_callback (Some d) off (of_nat (length bs)) = Some (Some d') \<Longrightarrow>
    disk_life db sz base (write_bytes disk off bs) d' tbl"
| flushed: "disk_life db sz base disk d tbl \<Longrightarrow>
    worker_flush_dirty_blocks db (Some disk) sz (Some d) tbl = Some (Some d', tbl') \<Longrightarrow> disk_life db sz base disk d' tbl'"
| sql_flushed: "disk_life db sz base disk d tbl \<Longrightarrow>
    rv64_vm_disk_flush db 1 (Some disk) sz (Some d) tbl = Some (r, Some d', tbl') \<Longrightarrow> disk_life db sz base disk d' tbl'"

lemma disk_life_backed:
  assumes "disk_life db sz base disk d tbl" "disk_ok sz" "\<And>b. spi_insert db b"
  shows "backed 1 sz base disk d tbl"
  using assms(1)
proof induction
  case (booted tbl disk d)
  then show ?case using boot_backed(1) [OF assms(2)] by blast
next
  case (written disk d tbl off bs d')
  then show ?case using backed_write [OF _ assms(2)] by (auto simp: in_block_def)
next
  case (flushed disk d tbl d' tbl')
  then show ?case using worker_flush_backed [OF assms(2,3)] by blast
next
  case (sql_flushed disk d tbl r d' tbl')
  then show ?case using disk_flush_backed [OF assms(2)] by blast
qed

text \<open>The flushes that follow \<open>k\<close> commands of the worker during which the guest does not write.\<close>

fun worker_flushes :: "nat \<Rightarrow> spi \<Rightarrow> mem option \<Rightarrow> u64 \<Rightarrow> bitmap \<Rightarrow> blocks \<Rightarrow> (bitmap \<times> blocks) undef" where
  "worker_flushes 0 db disk sz dirty tbl = Some (dirty, tbl)"
| "worker_flushes (Suc k) db disk sz dirty tbl = do {
     (dirty', tbl') \<leftarrow> worker_flush_dirty_blocks db disk sz dirty tbl;
     worker_flushes k db disk sz dirty' tbl'
   }"

lemma worker_flushes_clean:
  assumes "disk_ok sz" "sz \<noteq> 0" "spi_connect db" "\<And>b. spi_insert db b" "backed 1 sz base disk d tbl"
    and "card (dirty_blocks d \<inter> {..< unat (disk_nblocks sz)}) \<le> 256 * k"
  shows "\<exists>d' tbl'. worker_flushes k db (Some disk) sz (Some d) tbl = Some (Some d', tbl') \<and>
    backed 1 sz base disk d' tbl' \<and> dirty_blocks d' \<inter> {..< unat (disk_nblocks sz)} = {}"
  using assms(5,6)
proof (induction k arbitrary: d tbl)
  case (Suc k)
  obtain d1 tbl1 where "worker_flush_loop db (Some disk) sz 0 0 (Some d) tbl = Some (Some d1, tbl1)" "backed 1 sz base disk d1 tbl1"
    "card (dirty_blocks d1 \<inter> {..< unat (disk_nblocks sz)}) = card (dirty_blocks d \<inter> {..< unat (disk_nblocks sz)}) - 256"
    using worker_flush_loop_backed [OF assms(1,4) Suc.prems(1), of 0 0] by auto
  with Suc.IH [of d1 tbl1] Suc.prems(2) assms(2,3) show ?case by (simp add: worker_flush_dirty_blocks_def)
qed auto


text \<open>A disk of two blocks, one byte of which the guest has written.\<close>

definition db_ok :: spi where
  "db_ok = \<lparr>spi_connect = True, spi_insert = (\<lambda>_. True)\<rparr>"

lemma small_disk_life: "disk_life db_ok 0x2000 (\<lambda>_. 0) (write_bytes (\<lambda>_. 0) 5 [7]) [1] []"
proof (rule written)
  show "disk_life db_ok 0x2000 (\<lambda>_. 0) (\<lambda>_. 0) [0] []"
    by (rule booted) (simp_all add: table_ok_def select_blocks_def disk_bitmap_def disk_nblocks_def)
  show "vm_dirty_callback (Some [0]) 5 (of_nat (length [7 :: u8])) = Some (Some [1])"
    by (simp add: vm_dirty_callback_def dirty_loop.simps DISK_DIRTY_SET_def)
qed (simp add: in_block_def)


subsection \<open>Where blocks are lost\<close>

text \<open>The worker stores under machine 1 whatever machine it runs: the blocks of another are cleaned without
  being stored for it.\<close>

theorem worker_flush_other_vm:
  assumes "worker_flush_dirty_blocks db disk sz dirty tbl = Some (dirty', tbl')" "vm_id \<noteq> 1"
  shows "map_of tbl' (vm_id, blk) = map_of tbl (vm_id, blk)"
proof -
  have "map_of tbl' (vm_id, blk) = map_of tbl (vm_id, blk)"
    if "worker_flush_loop db disk sz b n dirty tbl = Some (dirty', tbl')" for b n
    using that
  proof (induction db disk sz b n dirty tbl rule: worker_flush_loop.induct)
    case (1 db disk sz b n dirty tbl)
    from 1(3) [unfolded worker_flush_loop.simps [of db disk sz b n dirty tbl]] 1(1,2) assms(2) show ?case
      by (auto simp: bind_eq_Some_conv Let_def upsert_block_def update_conv' split: if_split_asm)
  qed
  with assms(1) show ?thesis by (auto simp: worker_flush_dirty_blocks_def split: if_split_asm)
qed

text \<open>A block whose insertion fails is cleaned all the same.\<close>

theorem worker_flush_loses_block:
  "worker_flush_dirty_blocks \<lparr>spi_connect = True, spi_insert = (\<lambda>_. False)\<rparr> (Some disk) 0x1000 (Some [1]) [] = Some (Some [0], [])"
  by (simp add: worker_flush_dirty_blocks_def worker_flush_loop.simps disk_nblocks_def DISK_DIRTY_GET_def DISK_DIRTY_CLR_def
      block_data_def block_len_def in_block_def upsert_block_def)

end
