(* ===== verification/RV_Track.thy ===== *)
theory RV_Track
  imports RV_Run RV_Disk
begin

text \<open>
  The disk of a running machine: every byte that a run changes on the disk is reported through the
  device's \<open>mark_dirty\<close> callback, so that the bitmap of \<open>rv64_pgext.c\<close> knows it. The callback is part of the
  device structure, which a driver reset clears; the statements are about devices that still have it.
\<close>

subsection \<open>Invariants of memory accesses\<close>

text \<open>What a property of the machine has to respect to hold after every translated access: the bus itself,
  and what translation and the fast paths change on their own.\<close>

locale bus_invariant =
  fixes I :: "'c vm \<Rightarrow> bool"
  assumes bus_loaded: "I m \<Longrightarrow> bus_load m a sz = Some (r, m') \<Longrightarrow> I m'"
    and bus_stored: "I m \<Longrightarrow> bus_store m a sz val = Some (r', m') \<Longrightarrow> I m'"
    and tlb_filled: "I m \<Longrightarrow> I (m\<lparr>cpu_tlb := t\<rparr>)"
    and counted: "I m \<Longrightarrow> I (cpu_prof_update g m)"
    and ram_written: "I m \<Longrightarrow> I (m\<lparr>vm_ram := ram\<rparr>)"
    and logged: "I m \<Longrightarrow> I (m\<lparr>cpu_dbg := d\<rparr>)"
begin

lemma pte_read_kept: "I m \<Longrightarrow> pte_read m a = Some (r, m') \<Longrightarrow> I m'"
  by (auto simp: pte_read_def dest: bus_loaded split: if_splits option.splits)

lemma walk_leaf_kept: "I m \<Longrightarrow> walk_leaf v acc level a pte m = Some (r, m') \<Longrightarrow> I m'"
  by (auto simp: walk_leaf_def bind_eq_Some_conv intro: tlb_filled dest: bus_stored split: if_splits)

lemma sv39_walk_kept: "I m \<Longrightarrow> sv39_walk v acc m pt n = Some (r, m') \<Longrightarrow> I m'"
proof (induction v acc m pt n rule: sv39_walk.induct)
  case (2 v acc m pt level)
  let ?a = "pt + vpn_part v level * 8"
    and ?m = "cpu_prof_update (prof_mmu_walk_steps_update (\<lambda>n. n + 1)) m"
  obtain rp m1 where rd: "pte_read ?m ?a = Some (rp, m1)"
    using "2.prems"(2) by (auto simp: Let_def bind_eq_Some_conv)
  have I1: "I m1" using pte_read_kept [OF counted [OF "2.prems"(1)] rd] .
  show ?case
    using "2.prems"(2) "2.IH" [OF refl rd refl] rd walk_leaf_kept [OF I1] I1
    by (auto simp: Let_def split: sum.splits if_splits)
qed simp

lemma translate_kept: "I m \<Longrightarrow> rv64_translate m v acc = Some (r, m') \<Longrightarrow> I m'"
  by (auto simp: rv64_translate_def intro: counted dest: sv39_walk_kept [OF counted] split: if_splits)

lemma load_bytes_kept: "I m \<Longrightarrow> cpu_load_bytes n i m v acc res = Some (r, m') \<Longrightarrow> I m'"
proof (induction n i m v acc res rule: cpu_load_bytes.induct)
  case (2 n i m v acc res)
  obtain rt m1 where tr: "rv64_translate m (v + of_nat i) acc = Some (rt, m1)"
    using "2.prems"(2) by (auto simp: bind_eq_Some_conv)
  have I1: "I m1" using translate_kept [OF "2.prems"(1) tr] .
  show ?case
  proof (cases rt)
    case (Inr pa)
    with "2.prems"(2) tr obtain b m2 where bl: "bus_load m1 pa 1 = Some (b, m2)" by (auto simp: bind_eq_Some_conv)
    show ?thesis using "2.IH" [OF tr refl Inr bl refl] "2.prems"(2) tr Inr bl bus_loaded [OF I1 bl] by (cases b) auto
  qed (use "2.prems"(2) tr I1 in simp)
qed simp

lemma load_slow_kept: "I m \<Longrightarrow> cpu_load_slow m v sz acc = Some (r, m') \<Longrightarrow> I m'"
  by (auto simp: cpu_load_slow_def bind_sum_Some dest: load_bytes_kept translate_kept bus_loaded split: if_splits)

lemma cpu_load_kept: "I m \<Longrightarrow> rv64_cpu_load m v sz acc = Some (r, m') \<Longrightarrow> I m'"
  by (auto simp: rv64_cpu_load_def Let_def intro: counted dest: load_slow_kept load_slow_kept [OF counted]
      split: if_splits option.splits)

lemma store_bytes_kept: "I m \<Longrightarrow> cpu_store_bytes n i m v val = Some (r, m') \<Longrightarrow> I m'"
proof (induction n i m v val rule: cpu_store_bytes.induct)
  case (2 n i m v val)
  obtain rt m1 where tr: "rv64_translate m (v + of_nat i) ACCESS_WRITE = Some (rt, m1)"
    using "2.prems"(2) by (auto simp: bind_eq_Some_conv)
  have I1: "I m1" using translate_kept [OF "2.prems"(1) tr] .
  show ?case
  proof (cases rt)
    case (Inr pa)
    with "2.prems"(2) tr obtain b m2 where bs: "bus_store m1 pa 1 (shr val (i * 8) AND 0xFF) = Some (b, m2)"
      by (auto simp: bind_eq_Some_conv)
    show ?thesis using "2.IH" [OF tr refl Inr bs refl] "2.prems"(2) tr Inr bs bus_stored [OF I1 bs] by (cases b) auto
  qed (use "2.prems"(2) tr I1 in simp)
qed simp

lemma store_slow_kept: "I m \<Longrightarrow> cpu_store_slow m v sz val = Some (r, m') \<Longrightarrow> I m'"
  by (auto simp: cpu_store_slow_def bind_sum_Some dest: store_bytes_kept translate_kept bus_stored split: if_splits)

lemma store_fast_kept: "I m \<Longrightarrow> cpu_store_fast m v sz val = Some (r, m') \<Longrightarrow> I m'"
  by (auto simp: cpu_store_fast_def Let_def intro: ram_written counted dest: store_slow_kept [OF counted]
      split: if_splits option.splits)

lemma cpu_store_kept:
  assumes "I m" "cpu_store m v sz val = Some (r, m')"
  shows "I m'"
proof -
  obtain m0 where m0: "store_watch m v sz val = Some m0"
    and st: "cpu_store_fast m0 v sz val = Some (r, m') \<or> cpu_store_slow m0 v sz val = Some (r, m')"
    using assms(2) by (auto simp: cpu_store_def bind_eq_Some_conv split: if_splits)
  have "I m0" using store_watch_fields [OF m0] logged [OF assms(1)] by auto
  then show ?thesis using st store_fast_kept store_slow_kept by blast
qed

end

subsection \<open>What a device operation does to the disk\<close>

text \<open>Two states of a device, the second of which still has its callback: the disk went from one to the
  other by writes inside it, each of which was reported.\<close>

definition write_all :: "(u64 \<times> u8 list) list \<Rightarrow> mem \<Rightarrow> mem" where
  "write_all ws disk = fold (\<lambda>(off, bs) m. write_bytes m off bs) ws disk"

definition reports :: "(u64 \<times> u8 list) list \<Rightarrow> (u64 \<times> u64) list" where
  "reports ws = map (\<lambda>(off, bs). (off, of_nat (length bs))) ws"

definition tracked_by :: "virtio_mmio_dev \<Rightarrow> virtio_mmio_dev \<Rightarrow> (u64 \<times> u8 list) list \<Rightarrow> bool" where
  "tracked_by d d' ws \<longleftrightarrow> dev_mark_dirty d \<and> dev_dirty_log d' = dev_dirty_log d @ reports ws \<and>
     (\<forall>(off, bs) \<in> set ws. in_block (dev_disk_size d) off (length bs)) \<and>
     dev_disk_data d' = map_option (write_all ws) (dev_disk_data d)"

definition tracked :: "virtio_mmio_dev \<Rightarrow> virtio_mmio_dev \<Rightarrow> bool" where
  "tracked d d' \<longleftrightarrow> dev_disk_size d' = dev_disk_size d \<and> (dev_mark_dirty d' \<longrightarrow> (\<exists>ws. tracked_by d d' ws))"

lemma write_all_simps [simp]:
  "write_all [] = (\<lambda>m. m)" "write_all (w # ws) = (\<lambda>m. write_all ws (write_bytes m (fst w) (snd w)))"
  "write_all (ws @ ws') = (\<lambda>m. write_all ws' (write_all ws m))"
  by (auto simp: write_all_def split_beta)

lemma reports_simps [simp]:
  "reports [] = []" "reports (w # ws) = (fst w, of_nat (length (snd w))) # reports ws" "reports (ws @ ws') = reports ws @ reports ws'"
  by (auto simp: reports_def split_beta)

lemma tracked_same:
  assumes "dev_disk_size d' = dev_disk_size d" "dev_mark_dirty d' = dev_mark_dirty d"
    and "dev_dirty_log d' = dev_dirty_log d" "dev_disk_data d' = dev_disk_data d"
  shows "tracked d d'"
  unfolding tracked_def tracked_by_def using assms
  by (auto simp: option.map_ident intro!: exI [of _ "[]"])

lemma tracked_refl [simp]: "tracked d d"
  by (rule tracked_same) simp_all

lemma tracked_trans [trans]:
  assumes "tracked d d'" "tracked d' d''"
  shows "tracked d d''"
proof -
  have "\<exists>ws. tracked_by d d'' ws" if "dev_mark_dirty d''"
  proof -
    from assms(2) that obtain ws' where ws': "tracked_by d' d'' ws'" by (auto simp: tracked_def)
    then have "dev_mark_dirty d'" by (simp add: tracked_by_def)
    with assms(1) obtain ws where ws: "tracked_by d d' ws" by (auto simp: tracked_def)
    have "tracked_by d d'' (ws @ ws')"
      using ws ws' assms(1) by (simp add: tracked_by_def tracked_def option.map_comp comp_def ball_Un)
    then show ?thesis ..
  qed
  with assms show ?thesis by (auto simp: tracked_def)
qed

text \<open>Operations that do not touch the disk.\<close>

definition disk_kept :: "virtio_mmio_dev \<Rightarrow> virtio_mmio_dev \<Rightarrow> bool" where
  "disk_kept d d' \<longleftrightarrow> dev_disk_size d' = dev_disk_size d \<and> dev_mark_dirty d' = dev_mark_dirty d \<and>
     dev_dirty_log d' = dev_dirty_log d \<and> dev_disk_data d' = dev_disk_data d"

lemma disk_kept_tracked: "disk_kept d d' \<Longrightarrow> tracked d d'"
  by (rule tracked_same) (simp_all add: disk_kept_def)

lemma disk_kept_refl [simp]: "disk_kept d d"
  by (simp add: disk_kept_def)

lemma disk_kept_trans: "disk_kept d d' \<Longrightarrow> disk_kept d' d'' \<Longrightarrow> disk_kept d d''"
  by (simp add: disk_kept_def)

lemma slirp_send_kept: "slirp_send_packet d p = Some d' \<Longrightarrow> disk_kept d d'"
  by (auto simp: slirp_send_packet_def disk_kept_def Let_def bind_eq_Some_conv split: if_splits)

lemma slirp_deliver_kept: "slirp_deliver ps d = Some d' \<Longrightarrow> disk_kept d d'"
  by (induction ps arbitrary: d) (auto simp: bind_eq_Some_conv dest: slirp_send_kept intro: disk_kept_trans)

lemma slirp_call_kept: "slirp_call d c = Some d' \<Longrightarrow> disk_kept d d'"
  by (auto simp: slirp_call_def Let_def dest!: slirp_deliver_kept split: option.splits) (simp add: disk_kept_def)

lemma net_tx_request_kept: "net_tx_request vq d ram rs = Some (d', ram') \<Longrightarrow> disk_kept d d'"
  by (auto simp: net_tx_request_def Let_def bind_eq_Some_conv dest: slirp_call_kept split: if_splits)

lemma net_tx_loop_kept: "net_tx_loop a d vq ram rs = Some (d', vq', ram') \<Longrightarrow> disk_kept d d'"
proof (induction a d vq ram rs rule: net_tx_loop.induct)
  case (1 a d vq ram rs)
  show ?case
  proof (cases "vq_last_avail vq = a")
    case True
    then show ?thesis using "1.prems" by (subst (asm) net_tx_loop.simps) simp
  next
    case False
    then obtain d1 ram1 where r: "net_tx_request vq d ram rs = Some (d1, ram1)"
      and l: "net_tx_loop a d1 (vq\<lparr>vq_last_avail := vq_last_avail vq + 1\<rparr>) ram1 rs = Some (d', vq', ram')"
      using "1.prems" by (subst (asm) net_tx_loop.simps) (auto simp: bind_eq_Some_conv)
    from "1.IH" [OF False r refl l] net_tx_request_kept [OF r] show ?thesis by (blast intro: disk_kept_trans)
  qed
qed

lemma net_process_kept: "virtio_net_process_queue d q ram rs = Some (d', ram') \<Longrightarrow> disk_kept d d'"
  by (auto simp: virtio_net_process_queue_def Let_def bind_eq_Some_conv disk_kept_def dest!: net_tx_loop_kept split: if_splits)

subsection \<open>Block requests\<close>

lemma guest_read_length: "guest_read ram rs a len = Some (Some bs) \<Longrightarrow> length bs = unat len"
  by (auto simp: guest_read_def split: if_splits option.splits)

lemma data_in_kept: "blk_data_in d ram rs rq desc = Some (d', ram', rq') \<Longrightarrow> disk_kept d d'"
  by (auto simp: blk_data_in_def disk_kept_def Let_def bind_eq_Some_conv split: if_splits option.splits)

lemma data_out_cases:
  assumes "blk_data_out d ram rs rq desc = Some (d', ram', rq')"
  obtains (error) "d' = d"
  | (written) off len bs disk where "guest_read ram rs (d_addr desc) len = Some (Some bs)" "dev_disk_data d = Some disk"
      "in_block (dev_disk_size d) off (unat len)" "dev_disk_size d' = dev_disk_size d" "dev_mark_dirty d' = dev_mark_dirty d"
      "dev_disk_data d' = Some (write_bytes disk off bs)"
      "dev_dirty_log d' = (if dev_mark_dirty d then dev_dirty_log d @ [(off, len)] else dev_dirty_log d)"
proof (cases "rq_sector rq * 512 + ucast (d_len desc) > dev_disk_size d")
  case True
  with assms error show thesis by (simp add: blk_data_out_def Let_def)
next
  case False
  then obtain r where r: "guest_read ram rs (d_addr desc) (ucast (d_len desc)) = Some r"
    using assms by (auto simp: blk_data_out_def Let_def bind_eq_Some_conv)
  show thesis
  proof (cases r)
    case None
    with assms False r error show thesis by (simp add: blk_data_out_def Let_def)
  next
    case (Some bs)
    with assms False r obtain disk where "dev_disk_data d = Some disk" by (auto simp: blk_data_out_def Let_def split: option.split_asm)
    with assms False r Some show thesis
      by (intro written [of "ucast (d_len desc)" bs disk "rq_sector rq * 512"]) (auto simp: blk_data_out_def Let_def split: if_split_asm)
  qed
qed

lemma data_out_tracked: "blk_data_out d ram rs rq desc = Some (d', ram', rq') \<Longrightarrow> tracked d d'"
proof (erule data_out_cases)
  fix off len bs disk
  assume w: "guest_read ram rs (d_addr desc) len = Some (Some bs)" "dev_disk_data d = Some disk"
    "in_block (dev_disk_size d) off (unat len)" "dev_disk_size d' = dev_disk_size d" "dev_mark_dirty d' = dev_mark_dirty d"
    "dev_disk_data d' = Some (write_bytes disk off bs)"
    "dev_dirty_log d' = (if dev_mark_dirty d then dev_dirty_log d @ [(off, len)] else dev_dirty_log d)"
  have "length bs = unat len" using guest_read_length [OF w(1)] .
  moreover from this have "of_nat (length bs) = len" by (metis of_nat_unat ucast_id)
  ultimately have "tracked_by d d' [(off, bs)]" if "dev_mark_dirty d'" using that w by (simp add: tracked_by_def)
  with w show "tracked d d'" unfolding tracked_def by blast
qed simp

lemma blk_desc_tracked: "blk_desc d ram rs rq desc = Some (brk, d', ram', rq') \<Longrightarrow> tracked d d'"
  by (auto simp: blk_desc_def bind_eq_Some_conv dest: data_in_kept [THEN disk_kept_tracked] data_out_tracked
      split: if_splits option.splits)

lemma blk_chain_tracked: "blk_chain n vq i d ram rs rq = Some (d', ram', rq') \<Longrightarrow> tracked d d'"
proof (induction n vq i d ram rs rq rule: blk_chain.induct)
  case (2 n vq i d ram rs rq)
  then show ?case
    by (auto simp: bind_eq_Some_conv dest: blk_desc_tracked split: option.splits if_splits prod.splits)
      (blast dest: blk_desc_tracked intro: tracked_trans)+
qed simp

lemma blk_request_tracked: "blk_request vq i d ram rs = Some (d', ram') \<Longrightarrow> tracked d d'"
  by (auto simp: blk_request_def bind_eq_Some_conv dest: blk_chain_tracked)

lemma blk_loop_tracked: "blk_loop a d vq ram rs = Some (d', vq', ram') \<Longrightarrow> tracked d d'"
proof (induction a d vq ram rs rule: blk_loop.induct)
  case (1 a d vq ram rs)
  show ?case
  proof (cases "vq_last_avail vq = a")
    case True
    then show ?thesis using "1.prems" by (subst (asm) blk_loop.simps) simp
  next
    case False
    then obtain i r where i: "vring_avail_slot vq = Some i" and r: "guest_read ram rs (vq_avail_addr vq + 4 + ucast i * 2) 2 = Some r"
      using "1.prems" by (subst (asm) blk_loop.simps) (auto simp: bind_eq_Some_conv)
    show ?thesis
    proof (cases r)
      case None
      then show ?thesis using "1.prems" False i r by (subst (asm) blk_loop.simps) simp
    next
      case (Some bs)
      then obtain d1 ram1 where q: "blk_request vq (ucast (le_val bs)) d ram rs = Some (d1, ram1)"
        and l: "blk_loop a d1 (vq\<lparr>vq_last_avail := vq_last_avail vq + 1\<rparr>) ram1 rs = Some (d', vq', ram')"
        using "1.prems" False i r by (subst (asm) blk_loop.simps) (auto simp: bind_eq_Some_conv)
      from "1.IH" [OF False i r Some q refl l] blk_request_tracked [OF q] show ?thesis by (blast intro: tracked_trans)
    qed
  qed
qed

lemma tracked_queues: "tracked d d' \<Longrightarrow> tracked d (d'\<lparr>dev_queues := qs\<rparr>)" "tracked d d' \<Longrightarrow> tracked d (d'\<lparr>dev_int_status := st\<rparr>)"
  by (erule tracked_trans, rule tracked_same, simp_all)+

lemma blk_process_tracked: "virtio_blk_process_queue d q ram rs = Some (d', ram') \<Longrightarrow> tracked d d'"
  by (auto simp: virtio_blk_process_queue_def Let_def bind_eq_Some_conv dest!: blk_loop_tracked
      intro!: tracked_queues split: if_split_asm option.split_asm)

text \<open>Registers: only a reset touches the callback, and clears it.\<close>

lemma update_queue_kept: "mmio_update_queue d f = Some d' \<Longrightarrow> disk_kept d d'"
  by (auto simp: mmio_update_queue_def disk_kept_def bind_eq_Some_conv split: option.splits)

lemma reset_tracked: "tracked d (virtio_reset d)"
  by (simp add: tracked_def virtio_reset_def zero_dev_def)

lemma store_reg_tracked: "mmio_store_reg d off val = Some d' \<Longrightarrow> tracked d d'"
proof -
  have "tracked d (virtio_reset (d\<lparr>dev_status := s\<rparr>))" for s
    by (rule tracked_trans [OF _ reset_tracked]) (rule tracked_same; simp)
  then show "mmio_store_reg d off val = Some d' \<Longrightarrow> tracked d d'"
    by (auto simp: mmio_store_reg_def Let_def intro: tracked_same dest: update_queue_kept [THEN disk_kept_tracked]
        split: if_split_asm)
qed

lemma mmio_store_tracked: "virtio_mmio_store d off val ram rs = Some (d', ram') \<Longrightarrow> tracked d d'"
  by (auto simp: virtio_mmio_store_def virtio_notify_def bind_eq_Some_conv
      dest: store_reg_tracked blk_process_tracked net_process_kept [THEN disk_kept_tracked] split: if_splits)

subsection \<open>Whole runs\<close>

abbreviation (input) blk_tracked :: "virtio_mmio_dev \<Rightarrow> 'c vm \<Rightarrow> bool" where
  "blk_tracked d m \<equiv> tracked d (cpu_virtio_blk m)"

lemma bus_raise_blk: "bus_raise m irq = Some m' \<Longrightarrow> cpu_virtio_blk m' = cpu_virtio_blk m"
  by (auto simp: bus_raise_def split: if_splits)

lemma virtio_store_tracked:
  assumes "virtio_bus_store m r off val = Some m'"
  shows "blk_tracked (cpu_virtio_blk m) m'"
proof -
  obtain dev ram where "virtio_mmio_store (virtio_dev m r) off val (vm_ram m) (cpu_ram_size m) = Some (dev, ram)"
    and "cpu_virtio_blk m' = cpu_virtio_blk (set_virtio_dev m r dev)"
    using assms by (auto simp: virtio_bus_store_def Let_def bind_eq_Some_conv dest: bus_raise_blk split: if_splits)
  then show ?thesis
    by (cases r) (auto simp: set_virtio_dev_def virtio_dev_def dest: mmio_store_tracked)
qed

lemma bus_store_tracked: "bus_store m a sz val = Some (r, m') \<Longrightarrow> blk_tracked (cpu_virtio_blk m) m'"
  by (auto simp: bus_store_def ram_store_def uart_bus_store_def Let_def dest: bus_raise_blk virtio_store_tracked
      split: if_splits option.splits prod.splits)

lemma bus_load_blk: "bus_load m a sz = Some (r, m') \<Longrightarrow> cpu_virtio_blk m' = cpu_virtio_blk m"
  by (auto simp: bus_load_def bind_eq_Some_conv split: if_splits option.splits prod.splits)

interpretation disk_bus: bus_invariant "blk_tracked d :: 'c vm \<Rightarrow> bool"
  by unfold_locales (auto dest: bus_load_blk bus_store_tracked intro: tracked_trans)

lemma trap_blk: "trap m cause tval = Some m' \<Longrightarrow> cpu_virtio_blk m' = cpu_virtio_blk m"
  by (erule trap_cases) simp_all

lemma csr_write_blk: "csr_write m a val = Inr m' \<Longrightarrow> cpu_virtio_blk m' = cpu_virtio_blk m"
  unfolding csr_write_def by (auto simp: rv64_tlb_flush_def split: if_split_asm)

lemma check_interrupts_blk: "check_interrupts m = Some (b, m') \<Longrightarrow> cpu_virtio_blk m' = cpu_virtio_blk m"
  using check_interrupts_cases [of m b m'] by (auto dest!: net_event_loop_frame trap_blk)

interpretation disk_step: step_invariant "blk_tracked d :: 'c vm \<Rightarrow> bool" "\<lambda>_. True"
proof
  fix m m' :: "'c vm" and v sz acc r r' val cause tval a
  assume inv: "blk_tracked d m"
  show "blk_tracked d m'" if "rv64_cpu_load m v sz acc = Some (r, m')" using disk_bus.cpu_load_kept [OF inv that] .
  show "blk_tracked d m'" if "cpu_store m v sz val = Some (r', m')" using disk_bus.cpu_store_kept [OF inv that] .
  show "blk_tracked d m'" if "trap m cause tval = Some m'" using trap_blk [OF that] inv by simp
  show "blk_tracked d m'" if "csr_write m a val = Inr m'" using csr_write_blk [OF that] inv by simp
qed (auto simp: WR_def set_x_def mark_fs_dirty_def mret_def sret_def Let_def split_beta rv64_tlb_flush_def)

interpretation disk_run: run_invariant "blk_tracked d :: lir list vm \<Rightarrow> bool" "\<lambda>_. True"
  by unfold_locales (auto simp: drive_mtime_def Let_def dest: check_interrupts_blk)

lemma run_tracked: "rv64_run hf h al m n = Some (k, m') \<Longrightarrow> blk_tracked (cpu_virtio_blk m) m'"
  using disk_run.reaches_kept [OF run_reaches] by simp

text \<open>The calls of the callback, in order: \<open>vm_dirty_callback\<close> on each reported range.\<close>

fun dirty_calls :: "bitmap \<Rightarrow> (u64 \<times> u64) list \<Rightarrow> bitmap undef" where
  "dirty_calls dirty [] = Some dirty"
| "dirty_calls dirty ((off, len) # cs) = do { dirty' \<leftarrow> vm_dirty_callback dirty off len; dirty_calls dirty' cs }"

definition new_reports :: "'c vm \<Rightarrow> 'c vm \<Rightarrow> (u64 \<times> u64) list" where
  "new_reports m m' = drop (length (dev_dirty_log (cpu_virtio_blk m))) (dev_dirty_log (cpu_virtio_blk m'))"

lemma dirty_calls_backed:
  assumes "disk_ok sz" "backed vm_id sz base disk d tbl" "\<forall>(off, bs) \<in> set ws. in_block sz off (length bs)"
  shows "\<exists>d'. dirty_calls (Some d) (reports ws) = Some (Some d') \<and> backed vm_id sz base (write_all ws disk) d' tbl"
  using assms(2,3)
proof (induction ws arbitrary: disk d)
  case (Cons w ws)
  obtain off bs where w: "w = (off, bs)" by (cases w)
  then have fits: "unat off + length bs \<le> unat sz" using Cons.prems(2) by (simp add: in_block_def)
  then have len: "unat (of_nat (length bs) :: u64) = length bs"
    using assms(1) by (simp add: unat_of_nat)
  obtain d1 where d1: "vm_dirty_callback (Some d) off (of_nat (length bs)) = Some (Some d1)"
  proof (cases "length bs = 0")
    case True
    then show thesis by (intro that [of d]) (simp add: vm_dirty_callback_def)
  next
    case False
    then have "(0 :: u64) < of_nat (length bs)" using len by (simp add: word_less_nat_alt)
    then show thesis using dirty_callback_marks [OF assms(1), of d off "of_nat (length bs)"] Cons.prems(1) fits len that
      by (auto simp: backed_def)
  qed
  have "backed vm_id sz base (write_bytes disk off bs) d1 tbl" using backed_write [OF Cons.prems(1) assms(1) fits d1] .
  from Cons.IH [OF this] Cons.prems(2) show ?case by (simp add: w d1)
qed simp

text \<open>No write of the guest escapes the bitmap: if the disk is backed by the table and the bitmap before a run that leaves the device
  with its callback, then the calls of \<open>vm_dirty_callback\<close> made during the run stay inside the bitmap, and with the bitmap they leave,
  the disk as the run left it is backed again.\<close>

lemma run_keeps_disk_backed:
  assumes "disk_ok sz" "backed vm_id sz base disk d tbl"
    and "dev_disk_data (cpu_virtio_blk m) = Some disk" "dev_disk_size (cpu_virtio_blk m) = sz"
    and "rv64_run hf h al m n = Some (k, m')" "dev_mark_dirty (cpu_virtio_blk m')"
  shows "\<exists>disk' d'. dev_disk_data (cpu_virtio_blk m') = Some disk' \<and>
    dirty_calls (Some d) (new_reports m m') = Some (Some d') \<and> backed vm_id sz base disk' d' tbl"
proof -
  obtain ws where ws: "tracked_by (cpu_virtio_blk m) (cpu_virtio_blk m') ws"
    using run_tracked [OF assms(5)] assms(6) by (auto simp: tracked_def)
  with assms(3,4) have "dev_disk_data (cpu_virtio_blk m') = Some (write_all ws disk)" "new_reports m m' = reports ws"
    "\<forall>(off, bs) \<in> set ws. in_block sz off (length bs)"
    by (simp_all add: tracked_by_def new_reports_def)
  then show ?thesis using dirty_calls_backed [OF assms(1,2), of ws] by auto
qed

text \<open>A concrete machine: it waits for an interrupt and has a disk of one block.\<close>

definition disk_vm :: "lir list vm" where
  "disk_vm = idle_vm\<lparr>cpu_virtio_blk := (zero_dev [])\<lparr>dev_disk_data := Some (\<lambda>_. 0), dev_disk_size := 4096, dev_mark_dirty := True\<rparr>\<rparr>"

lemma disk_vm_idle: "idle disk_vm" "\<not> cpu_error disk_vm" "cpu_cycle disk_vm = 0"
  using idle_vm_idle by (simp_all add: disk_vm_def idle_def)

lemma wfi_loop_blk: "wfi_loop i mx m = Some m' \<Longrightarrow> cpu_virtio_blk m' = cpu_virtio_blk m"
  by (erule wfi_loop_kept [where R = "\<lambda>x. cpu_virtio_blk x = cpu_virtio_blk m"])
    (auto simp: wfi_tick_def drive_mtime_def Let_def dest!: check_interrupts_blk)

lemma idle_iter_blk:
  assumes "idle m" "run_iter hf mx nc m = Some (go, nc', m')"
  shows "cpu_virtio_blk m' = cpu_virtio_blk m"
proof -
  obtain nc1 m1 where irq: "run_irq nc m = Some (False, nc1, m1)" "idle m1" using run_irq_idle(1) [OF assms(1)] by blast
  have "cpu_virtio_blk m1 = cpu_virtio_blk m"
    using irq(1) by (auto simp: run_irq_def drive_mtime_def Let_def bind_eq_Some_conv dest!: check_interrupts_blk split: if_splits)
  then show ?thesis using assms(2) irq
    by (auto simp: run_iter_def idle_def run_halted_def bind_eq_Some_conv dest!: wfi_loop_blk split: if_splits)
qed

lemma disk_vm_run:
  obtains k m' where "rv64_run hf h al disk_vm 100 = Some (k, m')" "cpu_virtio_blk m' = cpu_virtio_blk disk_vm"
proof -
  let ?m = "disk_vm\<lparr>cpu_run_exit_reason := RUN_EXIT_NONE\<rparr>"
  obtain nc m1 where it: "run_iter hf 100 9973 ?m = Some (False, nc, m1)"
    using run_iter_idle(1) [of ?m ?m 100 hf 9973] disk_vm_idle(1) by auto
  from idle_iter_blk [OF _ it] have "cpu_virtio_blk m1 = cpu_virtio_blk disk_vm" using disk_vm_idle(1) by simp
  moreover have "run_loop (run_iter hf 100) 100 9973 ?m = Some m1"
    by (rule run_loop_stops [where iter = "run_iter hf 100", OF _ _ it]) (simp_all add: disk_vm_idle)
  moreover have "cpu_jit disk_vm = None" by (simp add: disk_vm_def idle_vm_def bare_vm_simps)
  ultimately show thesis
    by (intro that [of "cpu_cycle (run_finish m1)" "run_finish m1"]) (simp_all add: rv64_run_def run_interp_def disk_vm_idle run_finish_def)
qed

lemma disk_vm_backed: "backed 1 4096 (\<lambda>_. 0) (\<lambda>_. 0) [0] []"
proof -
  have "disk_bitmap 4096 = Some [0]" by (simp add: disk_bitmap_def disk_nblocks_def)
  from boot_backed(1) [OF _ _ _ this, of 1 "[]" "\<lambda>_. 0"] show ?thesis by (simp add: table_ok_def select_blocks_def)
qed

text \<open>A driver that resets the device, as the initialisation of a virtio driver begins, clears the callback with the rest of
  the structure, and no later request reports its writes.\<close>

theorem reset_drops_callback:
  assumes "mmio_store_reg d VIRTIO_MMIO_STATUS 0 = Some d1" "blk_data_out d1 ram rs rq desc = Some (d2, ram', rq')"
  shows "dev_disk_data d1 = dev_disk_data d \<and> dev_dirty_log d2 = dev_dirty_log d"
proof -
  have "\<not> dev_mark_dirty d1" "dev_disk_data d1 = dev_disk_data d" "dev_dirty_log d1 = dev_dirty_log d"
    using assms(1) by (auto simp: mmio_store_reg_def virtio_reset_def zero_dev_def)
  then show ?thesis
    using assms(2) by (auto elim: data_out_cases)
qed

end
