(* ===== verification/RV_Ipc.thy ===== *)
theory RV_Ipc
  imports RV_Run
begin

text \<open>
  The shared memory between the SQL sessions and the background worker of \<open>rv64_pgext.c\<close>: its structure
  (\<open>SharedVMState\<close>), the console and input buffers, the requests the sessions leave in it, and how a session
  posts a command and sees that it is done. A C string is the list of its bytes; messages are strings.
  A raised SQL error is \<open>Inl\<close> with its message.
\<close>

subsection \<open>The structure\<close>

datatype VmIPCCommand = VM_CMD_IDLE | VM_CMD_BOOT | VM_CMD_STEP | VM_CMD_HALT | VM_CMD_SAVE | VM_CMD_SEND
  | VM_CMD_WATCHPOINT | VM_CMD_BREAKPOINT

abbreviation (input) CONSOLE_BUF_SIZE :: int where "CONSOLE_BUF_SIZE \<equiv> 1024 * 1024"
abbreviation (input) VM_IPC_MAGIC :: u32 where "VM_IPC_MAGIC \<equiv> 0xBEEF8899"

text \<open>The lock is left out: every critical section is one step below. A latch is the number of the session that
  owns it. \<open>st_cpu\<close> is the copy of the processor structure, without the RAM behind it.\<close>

record SharedVMState =
  st_magic :: u32
  st_worker_pid :: int
  st_worker_ready :: bool
  st_shutdown_requested :: bool
  st_cmd :: VmIPCCommand
  st_cmd_arg :: u64
  st_cmd_arg_ext :: u64
  st_cmd_result :: int
  st_cmd_return :: u64
  st_error_msg :: string
  st_input_buf :: "nat \<Rightarrow> u8"
  st_console_pos :: int
  st_console_buf :: "nat \<Rightarrow> u8"
  st_client_latch :: "nat option"
  st_cpu :: "lir list rv64_cpu"
  st_ram_size :: u64
  st_ram_handle_valid :: bool
  st_jit_block_size_request :: int
  st_jit_disabled_ops :: "nat \<Rightarrow> u64"
  st_jit_disabled_ops_dirty :: bool

text \<open>\<open>snprintf\<close> into \<open>error_msg\<close> keeps 255 characters.\<close>

definition set_error_msg :: "string \<Rightarrow> SharedVMState \<Rightarrow> SharedVMState" where
  "set_error_msg msg st = st\<lparr>st_error_msg := take 255 msg\<rparr>"

text \<open>What \<open>launch_native_worker\<close> puts into a new segment, and the worker's announcement.\<close>

definition fresh_shared :: SharedVMState where
  "fresh_shared = \<lparr>st_magic = VM_IPC_MAGIC, st_worker_pid = 0, st_worker_ready = False, st_shutdown_requested = False,
     st_cmd = VM_CMD_IDLE, st_cmd_arg = 0, st_cmd_arg_ext = 0, st_cmd_result = 0, st_cmd_return = 0, st_error_msg = [],
     st_input_buf = (\<lambda>_. 0), st_console_pos = 0, st_console_buf = (\<lambda>_. 0), st_client_latch = None,
     st_cpu = rv64_cpu.truncate (zero_cpu (bare_vm (\<lambda>_. 0) 0)), st_ram_size = 0, st_ram_handle_valid = False,
     st_jit_block_size_request = - 1, st_jit_disabled_ops = (\<lambda>_. 0), st_jit_disabled_ops_dirty = False\<rparr>"

definition worker_start :: "int \<Rightarrow> SharedVMState \<Rightarrow> (string + SharedVMState)" where
  "worker_start pid st =
     (if st_magic st \<noteq> VM_IPC_MAGIC then Inl ''Corrupt SharedVMState magically mapped.''
      else Inr (st\<lparr>st_worker_pid := pid, st_worker_ready := True\<rparr>))"

subsection \<open>Finding the worker\<close>

text \<open>What a session finds outside: the row of \<open>vm_state\<close> (its columns may be null), which processes are alive, and the
  segments that \<open>dsm_attach\<close> finds. The session's own state is the handle it is attached to.\<close>

record attach_env =
  ae_row :: "(u64 option \<times> int option) option"
  ae_alive :: "int \<Rightarrow> bool"
  ae_segment :: "u32 \<Rightarrow> SharedVMState option"

definition ensure_worker_attached :: "attach_env \<Rightarrow> u32 option \<Rightarrow> u32 option" where
  "ensure_worker_attached env dsm = (case dsm of
     Some _ \<Rightarrow> dsm
   | None \<Rightarrow> (case ae_row env of
       Some (Some hdl, Some pid) \<Rightarrow>
         if pid > 0 \<and> ae_alive env pid then
           (case ae_segment env (ucast hdl) of
              None \<Rightarrow> None
            | Some st \<Rightarrow> if st_magic st = VM_IPC_MAGIC then Some (ucast hdl) else None)
         else None
     | _ \<Rightarrow> None))"

definition vm_shared_state :: "attach_env \<Rightarrow> u32 option \<Rightarrow> SharedVMState option" where
  "vm_shared_state env dsm = Option.bind dsm (ae_segment env)"

text \<open>The test that opens most SQL functions.\<close>

definition require_vm :: "string \<Rightarrow> SharedVMState option \<Rightarrow> string + SharedVMState" where
  "require_vm msg shared = (case shared of
     None \<Rightarrow> Inl msg
   | Some st \<Rightarrow> if st_worker_ready st then Inr st else Inl msg)"

subsection \<open>The console\<close>

text \<open>The callback of the UART appends one byte and keeps the text terminated; the last position stays free. (The
  correlation of newlines with \<open>instret\<close> is not modelled.)\<close>

definition pg_uart_tx :: "u8 \<Rightarrow> SharedVMState \<Rightarrow> SharedVMState undef" where
  "pg_uart_tx ch st =
     (let pos = st_console_pos st in
      if pos < CONSOLE_BUF_SIZE - 1 then
        (if 0 \<le> pos then Some (st\<lparr>st_console_buf := (st_console_buf st)(nat pos := ch, nat pos + 1 := 0), st_console_pos := pos + 1\<rparr>)
         else None)
      else Some st)"

fun console_put :: "u8 list \<Rightarrow> SharedVMState \<Rightarrow> SharedVMState undef" where
  "console_put [] st = Some st"
| "console_put (ch # chs) st = do { st' \<leftarrow> pg_uart_tx ch st; console_put chs st' }"

definition rv64_vm_console :: "SharedVMState option \<Rightarrow> u8 list" where
  "rv64_vm_console shared = (case shared of
     None \<Rightarrow> []
   | Some st \<Rightarrow> if st_console_pos st = 0 then [] else map (st_console_buf st) [0 ..< nat (st_console_pos st)])"

definition rv64_vm_console_tail :: "SharedVMState option \<Rightarrow> int \<Rightarrow> u8 list" where
  "rv64_vm_console_tail shared n = (case shared of
     None \<Rightarrow> []
   | Some st \<Rightarrow>
       let pos = st_console_pos st in
       if pos = 0 then []
       else if n \<le> 0 \<or> n \<ge> pos then map (st_console_buf st) [0 ..< nat pos]
       else map (st_console_buf st) [nat (pos - n) ..< nat (pos - n) + nat n])"

definition rv64_vm_console_clear :: "SharedVMState option \<Rightarrow> SharedVMState option" where
  "rv64_vm_console_clear shared =
     map_option (\<lambda>st. st\<lparr>st_console_pos := 0, st_console_buf := (st_console_buf st)(0 := 0)\<rparr>) shared"

subsection \<open>Commands\<close>

text \<open>Posting a command, and the test that ends the wait. \<open>alive\<close> is what \<open>kill(worker_pid, 0)\<close> says.\<close>

definition ipc_send :: "nat \<Rightarrow> VmIPCCommand \<Rightarrow> u64 \<Rightarrow> SharedVMState \<Rightarrow> SharedVMState" where
  "ipc_send client cmd arg st = st\<lparr>st_cmd := cmd, st_cmd_arg := arg, st_client_latch := Some client, st_cmd_result := 0\<rparr>"

definition ipc_send_ext :: "nat \<Rightarrow> VmIPCCommand \<Rightarrow> u64 \<Rightarrow> u64 \<Rightarrow> SharedVMState \<Rightarrow> SharedVMState" where
  "ipc_send_ext client cmd arg arg_ext st = (ipc_send client cmd arg st)\<lparr>st_cmd_arg_ext := arg_ext\<rparr>"

definition ipc_poll :: "bool \<Rightarrow> SharedVMState \<Rightarrow> bool \<times> SharedVMState" where
  "ipc_poll alive st =
     (if st_cmd st = VM_CMD_IDLE \<or> st_shutdown_requested st then (True, st)
      else if st_worker_pid st > 0 \<and> \<not> alive
      then (True, (set_error_msg ''LinuxSQL Background worker terminated unexpectedly'' st)\<lparr>st_cmd_result := - 1\<rparr>)
      else (False, st))"

definition ipc_result :: "SharedVMState \<Rightarrow> string + unit" where
  "ipc_result st = (if st_cmd_result st < 0 then Inl (''LinuxSQL Background Worker Error: '' @ st_error_msg st) else Inr ())"

text \<open>The arguments of the SQL functions.\<close>

definition vm_step_cycles :: "u64 \<Rightarrow> u64" where
  "vm_step_cycles cycles = (if sint cycles \<le> 0 then 10000000 else cycles)"

definition send_step :: "nat \<Rightarrow> u64 \<Rightarrow> SharedVMState \<Rightarrow> SharedVMState" where
  "send_step client cycles = ipc_send client VM_CMD_STEP (vm_step_cycles cycles)"

text \<open>\<open>strncpy(input_buf, input, 1022)\<close> pads with zeros up to 1022 bytes and does not terminate a longer text.\<close>

definition strncpy_buf :: "nat \<Rightarrow> u8 list \<Rightarrow> (nat \<Rightarrow> u8) \<Rightarrow> nat \<Rightarrow> u8" where
  "strncpy_buf n s buf = (\<lambda>i. if i < n then (if i < length s then s ! i else 0) else buf i)"

definition rv64_vm_send :: "nat \<Rightarrow> u8 list \<Rightarrow> SharedVMState \<Rightarrow> SharedVMState" where
  "rv64_vm_send client input st =
     (let len = length input; buf = strncpy_buf 1022 input (st_input_buf st);
          buf' = (if len > 0 \<and> input ! (len - 1) \<noteq> 10 \<and> len < 1022 then buf(len := 10, len + 1 := 0) else buf(1023 := 0))
      in ipc_send client VM_CMD_SEND 0 (st\<lparr>st_input_buf := buf'\<rparr>))"

definition rv64_vm_type :: "nat \<Rightarrow> u8 list \<Rightarrow> SharedVMState \<Rightarrow> SharedVMState" where
  "rv64_vm_type client str st =
     (let len = min (length str) 1023;
          buf = (\<lambda>i. if i < len then str ! i else if i = len then 0 else st_input_buf st i)
      in ipc_send client VM_CMD_SEND 0 (st\<lparr>st_input_buf := buf\<rparr>))"

text \<open>The loop that feeds the buffer to the UART reads up to the first zero; \<open>None\<close> is a buffer of 1024 bytes without one.\<close>

fun input_bytes :: "nat \<Rightarrow> (nat \<Rightarrow> u8) \<Rightarrow> nat \<Rightarrow> u8 list undef" where
  "input_bytes 0 buf i = None"
| "input_bytes (Suc n) buf i = (if buf i = 0 then Some [] else map_option (Cons (buf i)) (input_bytes n buf (Suc i)))"

definition input_text :: "SharedVMState \<Rightarrow> u8 list undef" where
  "input_text st = input_bytes 1024 (st_input_buf st) 0"

subsection \<open>Configuration of the compiler\<close>

definition rv64_vm_jit_block_size :: "int \<Rightarrow> SharedVMState \<Rightarrow> string + SharedVMState" where
  "rv64_vm_jit_block_size n st =
     (if n < 0 \<or> n > 4096 then Inl ''vm_jit_block_size: n must be 0..4096 (0 = default)''
      else Inr (st\<lparr>st_jit_block_size_request := n\<rparr>))"

definition rv64_vm_jit_disable_op :: "int \<Rightarrow> SharedVMState \<Rightarrow> string + SharedVMState" where
  "rv64_vm_jit_disable_op oc st =
     (if oc < 0 \<or> oc > 127 then Inl ''vm_jit_disable_op: opcode must be 0..127''
      else (let w = nat oc div 64 in
        Inr (st\<lparr>st_jit_disabled_ops := (st_jit_disabled_ops st)(w := st_jit_disabled_ops st w OR shl 1 (nat oc mod 64)),
                st_jit_disabled_ops_dirty := True\<rparr>)))"

definition rv64_vm_jit_enable_op :: "int \<Rightarrow> SharedVMState \<Rightarrow> string + SharedVMState" where
  "rv64_vm_jit_enable_op oc st =
     (if oc < 0 \<or> oc > 127 then Inl ''vm_jit_enable_op: opcode must be 0..127''
      else (let w = nat oc div 64 in
        Inr (st\<lparr>st_jit_disabled_ops := (st_jit_disabled_ops st)(w := st_jit_disabled_ops st w AND NOT (shl 1 (nat oc mod 64))),
                st_jit_disabled_ops_dirty := True\<rparr>)))"

text \<open>The opcodes that \<open>vm_jit_disabled_ops\<close> lists.\<close>

definition rv64_vm_jit_disabled_ops :: "SharedVMState \<Rightarrow> nat list" where
  "rv64_vm_jit_disabled_ops st =
     filter (\<lambda>i. (if i < 64 then st_jit_disabled_ops st 0 else st_jit_disabled_ops st 1) AND shl 1 (i mod 64) \<noteq> 0) [0 ..< 128]"

subsection \<open>The console text\<close>

text \<open>The position never leaves the buffer, and what is printed is appended until the buffer is full.\<close>

definition console_ok :: "SharedVMState \<Rightarrow> bool" where
  "console_ok st \<longleftrightarrow> 0 \<le> st_console_pos st \<and> st_console_pos st < CONSOLE_BUF_SIZE"

definition console_text :: "SharedVMState \<Rightarrow> u8 list" where
  "console_text st = map (st_console_buf st) [0 ..< nat (st_console_pos st)]"

lemma vm_console_text: "rv64_vm_console (Some st) = console_text st"
  by (simp add: rv64_vm_console_def console_text_def)

lemma vm_console_tail_text:
  assumes "console_ok st"
  shows "rv64_vm_console_tail (Some st) n =
    (if n \<le> 0 then console_text st else drop (length (console_text st) - nat n) (console_text st))"
proof -
  have "[nat (st_console_pos st - n) ..< nat (st_console_pos st - n) + nat n] = drop (nat (st_console_pos st) - nat n) [0 ..< nat (st_console_pos st)]"
    if "0 < n" "n < st_console_pos st"
    using that by (simp add: nat_diff_distrib)
  then show ?thesis by (auto simp: rv64_vm_console_tail_def console_text_def Let_def drop_map)
qed

lemma take_take_append: "take n (take n xs @ ys) = take n (xs @ ys)"
  by (cases "n \<le> length xs") simp_all

lemma uart_tx_appends:
  assumes "console_ok st"
  obtains st' where "pg_uart_tx ch st = Some st'" "console_ok st'"
    "console_text st' = take (nat (CONSOLE_BUF_SIZE - 1)) (console_text st @ [ch])"
    "\<exists>b p. st' = st\<lparr>st_console_buf := b, st_console_pos := p\<rparr>"
proof (cases "st_console_pos st < CONSOLE_BUF_SIZE - 1")
  case True
  let ?p = "nat (st_console_pos st)"
  let ?st = "st\<lparr>st_console_buf := (st_console_buf st)(?p := ch, ?p + 1 := 0), st_console_pos := st_console_pos st + 1\<rparr>"
  have "nat (st_console_pos st + 1) = Suc ?p" using assms by (auto simp: console_ok_def)
  then have "console_text ?st = console_text st @ [ch]" by (simp add: console_text_def)
  moreover have "length (console_text st @ [ch]) \<le> nat (CONSOLE_BUF_SIZE - 1)" using True by (simp add: console_text_def)
  ultimately show thesis using assms True by (intro that [of ?st]) (auto simp: pg_uart_tx_def Let_def console_ok_def)
next
  case False
  then have "length (console_text st) = nat (CONSOLE_BUF_SIZE - 1)" using assms by (simp add: console_text_def console_ok_def)
  moreover have "\<exists>b p. st = st\<lparr>st_console_buf := b, st_console_pos := p\<rparr>"
    by (intro exI [of _ "st_console_buf st"] exI [of _ "st_console_pos st"]) simp
  ultimately show thesis using assms False by (intro that [of st]) (simp_all add: pg_uart_tx_def Let_def)
qed

lemma console_put_appends:
  assumes "console_ok st"
  shows "\<exists>st'. console_put chs st = Some st' \<and> console_ok st' \<and>
    console_text st' = take (nat (CONSOLE_BUF_SIZE - 1)) (console_text st @ chs) \<and>
    (\<exists>b p. st' = st\<lparr>st_console_buf := b, st_console_pos := p\<rparr>)"
  using assms
proof (induction chs arbitrary: st)
  case Nil
  then have "length (console_text st) \<le> nat (CONSOLE_BUF_SIZE - 1)" by (auto simp: console_text_def console_ok_def)
  moreover have "\<exists>b p. st = st\<lparr>st_console_buf := b, st_console_pos := p\<rparr>"
    by (intro exI [of _ "st_console_buf st"] exI [of _ "st_console_pos st"]) simp
  ultimately show ?case using Nil by simp
next
  case (Cons ch chs)
  let ?n = "nat (CONSOLE_BUF_SIZE - 1)"
  obtain st1 where st1: "pg_uart_tx ch st = Some st1" "console_ok st1" "console_text st1 = take ?n (console_text st @ [ch])"
    "\<exists>b p. st1 = st\<lparr>st_console_buf := b, st_console_pos := p\<rparr>"
    using uart_tx_appends [OF Cons.prems] by blast
  obtain st2 where st2: "console_put chs st1 = Some st2" "console_ok st2" "console_text st2 = take ?n (console_text st1 @ chs)"
    "\<exists>b p. st2 = st1\<lparr>st_console_buf := b, st_console_pos := p\<rparr>"
    using Cons.IH [OF st1(2)] by blast
  have "take ?n (take ?n (console_text st @ [ch]) @ chs) = take ?n (console_text st @ ch # chs)"
    using take_take_append [of ?n "console_text st @ [ch]" chs] by simp
  moreover have "\<exists>b p. st2 = st\<lparr>st_console_buf := b, st_console_pos := p\<rparr>"
  proof -
    obtain b p b' p' where "st1 = st\<lparr>st_console_buf := b, st_console_pos := p\<rparr>" "st2 = st1\<lparr>st_console_buf := b', st_console_pos := p'\<rparr>"
      using st1(4) st2(4) by blast
    then have "st2 = st\<lparr>st_console_buf := b', st_console_pos := p'\<rparr>" by simp
    then show ?thesis by blast
  qed
  ultimately show ?case using st1(1,3) st2(1-3) by auto
qed

subsection \<open>The input text\<close>

lemma input_bytes_text:
  assumes "\<forall>i < length s. buf (k + i) = s ! i" "0 \<notin> set s" "buf (k + length s) = 0" "length s < n"
  shows "input_bytes n buf k = Some s"
  using assms
proof (induction s arbitrary: n k)
  case (Cons c s)
  then obtain n' where n: "n = Suc n'" by (cases n) auto
  have "\<forall>i < length s. buf (Suc k + i) = s ! i" using Cons.prems(1) by fastforce
  with Cons.IH [of "Suc k" n'] Cons.prems n show ?case by auto
next
  case Nil
  then show ?case by (cases n) auto
qed

text \<open>What \<open>vm_send\<close> types: the text with a newline, or its first 1022 bytes.\<close>

definition sent_line :: "u8 list \<Rightarrow> u8 list" where
  "sent_line input = (if input \<noteq> [] \<and> last input \<noteq> 10 \<and> length input < 1022 then input @ [10] else take 1022 input)"

lemma vm_send_text:
  assumes "0 \<notin> set input" "length input < 1022 \<or> st_input_buf st 1022 = 0"
  shows "input_text (rv64_vm_send client input st) = Some (sent_line input)"
  unfolding input_text_def
  using assms in_set_takeD [of 0 1022 input]
  by (intro input_bytes_text)
    (auto simp: sent_line_def rv64_vm_send_def ipc_send_def Let_def strncpy_buf_def last_conv_nth nth_append min_def)

lemma vm_type_text:
  assumes "0 \<notin> set s"
  shows "input_text (rv64_vm_type client s st) = Some (take 1023 s)"
  unfolding input_text_def
  using assms in_set_takeD [of 0 1023 s]
  by (intro input_bytes_text) (auto simp: rv64_vm_type_def ipc_send_def Let_def min_def)

text \<open>A text of 1023 bytes typed before a long line shows through at its end: \<open>vm_send\<close> does not terminate the 1022 bytes
  it copies.\<close>

theorem vm_send_stale_byte:
  assumes "length s = 1023" "0 \<notin> set s" "length input \<ge> 1022" "0 \<notin> set input"
  shows "input_text (rv64_vm_send c2 input (rv64_vm_type c1 s st)) = Some (take 1022 input @ [s ! 1022])"
proof -
  have "s ! 1022 \<in> set s" by (rule nth_mem) (simp add: assms(1))
  then have z: "s ! 1022 \<noteq> 0" using assms(2) by auto
  have "i < 1022 \<or> i = 1022" if "i < 1023" for i :: nat using that by auto
  then show ?thesis
    unfolding input_text_def using assms z in_set_takeD [of 0 1022 input]
    by (intro input_bytes_text)
      (auto simp: rv64_vm_send_def rv64_vm_type_def ipc_send_def Let_def strncpy_buf_def nth_append)
qed

subsection \<open>The disabled opcodes as a set\<close>

lemma disabled_ops_mem:
  "i \<in> set (rv64_vm_jit_disabled_ops st) \<longleftrightarrow> i < 128 \<and> bit (st_jit_disabled_ops st (i div 64)) (i mod 64)"
proof -
  have "i < 128 \<Longrightarrow> i div 64 = (if i < 64 then 0 else 1)" by auto
  then show ?thesis
    by (auto simp: rv64_vm_jit_disabled_ops_def and_exp_eq_0_iff_not_bit)
qed

lemma jit_op_set:
  assumes "0 \<le> oc" "oc \<le> 127"
  obtains st1 st2 where "rv64_vm_jit_disable_op oc st = Inr st1" "rv64_vm_jit_enable_op oc st = Inr st2"
    "set (rv64_vm_jit_disabled_ops st1) = insert (nat oc) (set (rv64_vm_jit_disabled_ops st))"
    "set (rv64_vm_jit_disabled_ops st2) = set (rv64_vm_jit_disabled_ops st) - {nat oc}"
proof -
  have eq: "i = nat oc" if "i div 64 = nat oc div 64" "i mod 64 = nat oc mod 64" for i
    using that by (metis div_mult_mod_eq)
  obtain st1 st2 where st: "rv64_vm_jit_disable_op oc st = Inr st1" "rv64_vm_jit_enable_op oc st = Inr st2"
    using assms by (simp add: rv64_vm_jit_disable_op_def rv64_vm_jit_enable_op_def Let_def)
  have "nat oc < 128" using assms by simp
  then have "set (rv64_vm_jit_disabled_ops st1) = insert (nat oc) (set (rv64_vm_jit_disabled_ops st))"
    "set (rv64_vm_jit_disabled_ops st2) = set (rv64_vm_jit_disabled_ops st) - {nat oc}"
    using st assms eq
    by (auto simp: set_eq_iff disabled_ops_mem rv64_vm_jit_disable_op_def rv64_vm_jit_enable_op_def Let_def bit_simps
        split: if_split_asm)
  with st that show thesis by blast
qed

end
