(* ===== verification/RV_Text.thy ===== *)
theory RV_Text
  imports RV_Prelude
begin

text \<open>
  Text as the C code formats it: the conversions \<open>%d\<close>, \<open>%ld\<close>, \<open>%lu\<close>, \<open>%x\<close>, \<open>%0nx\<close> and \<open>%-ns\<close> of \<open>snprintf\<close> that
  the sources use, the truncation to the size of the buffer, and strings as bytes. Both number formats can be read back, so that
  a number printed in a line determines the number.
\<close>

subsection \<open>Digits\<close>

text \<open>Decimal digits.\<close>

fun dec_digits :: "nat \<Rightarrow> string" where
  "dec_digits n = (if n < 10 then [char_of (48 + n)] else dec_digits (n div 10) @ [char_of (48 + n mod 10)])"

definition hex_digit :: "nat \<Rightarrow> char" where
  "hex_digit n = ''0123456789abcdef'' ! n"

text \<open>Hexadecimal digits (\<open>%x\<close>).\<close>

fun hex_digits :: "nat \<Rightarrow> string" where
  "hex_digits n = (if n < 16 then [hex_digit n] else hex_digits (n div 16) @ [hex_digit (n mod 16)])"

declare dec_digits.simps [simp del] hex_digits.simps [simp del]

text \<open>\<open>%ld\<close>, \<open>%d\<close> and \<open>%x\<close> with a width filled with zeros.\<close>

definition fmt_ld :: "u64 \<Rightarrow> string" where
  "fmt_ld n = (if sint n < 0 then CHR ''-'' # dec_digits (nat (- sint n)) else dec_digits (nat (sint n)))"

definition fmt_d :: "int \<Rightarrow> string" where
  "fmt_d n = (if n < 0 then CHR ''-'' # dec_digits (nat (- n)) else dec_digits (nat n))"

definition fmt_0x :: "nat \<Rightarrow> nat \<Rightarrow> string" where
  "fmt_0x w n = (let s = hex_digits n in replicate (w - length s) (CHR ''0'') @ s)"

text \<open>\<open>%-ns\<close>: a string filled with blanks on the right.\<close>

definition fmt_left :: "nat \<Rightarrow> string \<Rightarrow> string" where
  "fmt_left w s = s @ replicate (w - length s) (CHR '' '')"

text \<open>What \<open>snprintf\<close> leaves in a buffer of \<open>n > 0\<close> bytes, up to the terminator.\<close>

definition snprintf_text :: "nat \<Rightarrow> string \<Rightarrow> string" where
  "snprintf_text n s = take (n - 1) s"

definition bytes_of :: "string \<Rightarrow> u8 list" where
  "bytes_of s = map (\<lambda>c. of_nat (of_char c)) s"

subsection \<open>Reading numbers back\<close>

definition undec :: "string \<Rightarrow> nat" where
  "undec s = foldl (\<lambda>a c. 10 * a + (of_char c - 48)) 0 s"

definition hex_value :: "char \<Rightarrow> nat" where
  "hex_value c = (let n = of_char c in if n < 58 then n - 48 else n - 87)"

definition unhex :: "string \<Rightarrow> nat" where
  "unhex s = foldl (\<lambda>a c. 16 * a + hex_value c) 0 s"

lemma hex_value_digit: "n < 16 \<Longrightarrow> hex_value (hex_digit n) = n"
proof -
  have "\<forall>k\<in>set [0..<16]. hex_value (hex_digit k) = k" by code_simp
  then show "n < 16 \<Longrightarrow> ?thesis" by simp
qed

lemma of_char_dec: "n < 10 \<Longrightarrow> of_char (char_of (48 + n) :: char) = (48 + n :: nat)"
  by (simp add: of_char_of)

lemma undec_dec_digits [simp]: "undec (dec_digits n) = n"
proof (induction n rule: dec_digits.induct)
  case (1 n)
  show ?case
  proof (cases "n < 10")
    case True
    then show ?thesis by (simp add: dec_digits.simps undec_def of_char_dec)
  next
    case False
    then have "undec (dec_digits n) = 10 * undec (dec_digits (n div 10)) + n mod 10"
      by (subst dec_digits.simps) (simp add: undec_def of_char_dec)
    with 1 False show ?thesis by simp
  qed
qed

lemma unhex_hex_digits [simp]: "unhex (hex_digits n) = n"
proof (induction n rule: hex_digits.induct)
  case (1 n)
  show ?case
  proof (cases "n < 16")
    case True
    then show ?thesis by (simp add: hex_digits.simps unhex_def hex_value_digit)
  next
    case False
    then have "unhex (hex_digits n) = 16 * unhex (hex_digits (n div 16)) + n mod 16"
      by (subst hex_digits.simps) (simp add: unhex_def hex_value_digit)
    with 1 False show ?thesis by simp
  qed
qed

lemma dec_digits_inject [simp]: "dec_digits m = dec_digits n \<longleftrightarrow> m = n"
  by (metis undec_dec_digits)

lemma hex_digits_inject [simp]: "hex_digits m = hex_digits n \<longleftrightarrow> m = n"
  by (metis unhex_hex_digits)

lemma dec_digits_length: "n < 10 ^ k \<Longrightarrow> 0 < k \<Longrightarrow> length (dec_digits n) \<le> k"
proof (induction k arbitrary: n)
  case (Suc k)
  show ?case
  proof (cases "n < 10")
    case True
    then show ?thesis by (simp add: dec_digits.simps)
  next
    case False
    with Suc.prems have "n div 10 < 10 ^ k" "0 < k" by (cases k; auto simp: less_mult_imp_div_less)+
    with Suc.IH[of "n div 10"] False show ?thesis by (subst dec_digits.simps) simp
  qed
qed simp

lemma hex_digits_length: "n < 16 ^ k \<Longrightarrow> 0 < k \<Longrightarrow> length (hex_digits n) \<le> k"
proof (induction k arbitrary: n)
  case (Suc k)
  show ?case
  proof (cases "n < 16")
    case True
    then show ?thesis by (simp add: hex_digits.simps)
  next
    case False
    with Suc.prems have "n div 16 < 16 ^ k" "0 < k" by (cases k; auto simp: less_mult_imp_div_less)+
    with Suc.IH[of "n div 16"] False show ?thesis by (subst hex_digits.simps) simp
  qed
qed simp

lemma fmt_d_length: "\<bar>n\<bar> < 10 ^ k \<Longrightarrow> 0 < k \<Longrightarrow> length (fmt_d n) \<le> Suc k"
  using dec_digits_length[of "nat \<bar>n\<bar>" k] by (auto simp: fmt_d_def nat_less_iff le_SucI)

lemma length_bytes_of [simp]: "length (bytes_of s) = length s"
  by (simp add: bytes_of_def)

lemma length_fmt_0x: "length (fmt_0x w n) = max w (length (hex_digits n))"
  by (simp add: fmt_0x_def Let_def)

end
