(* ===== verification/RV_Boot.thy ===== *)
theory RV_Boot
  imports RV_Ipc RV_Track RV_Text
begin

text \<open>
  Booting a machine from the database (\<open>worker_handle_cmd_boot\<close> of \<open>rv64_pgext.c\<close>) and saving its state
  (\<open>vm_state_save\<close>): the copies between memory and large objects, the assets, the patch of the device tree, and the
  construction of the processor, fresh or from a saved state.

  What the server supplies is a parameter (\<open>boot_env\<close>): whether allocations and connections succeed, the saved row and the
  assets, a large object being the list of its bytes. \<open>inv_read\<close> returns the bytes at the current position, as many as there are up to
  the number asked for, and \<open>inv_write\<close> overwrites there. The server answers the queries of one boot alike.
\<close>

subsection \<open>Large objects\<close>

abbreviation (input) LO_CHUNK :: u64 where "LO_CHUNK \<equiv> 1024 * 1024"

text \<open>The number of bytes that the loop of \<open>lo_read_buf\<close> has read when it ends.\<close>

function lo_read_loop :: "u8 list \<Rightarrow> u64 \<Rightarrow> u64 \<Rightarrow> u64" where
  "lo_read_loop lo len off =
     (if off < len then
        (let want = (if len - off > LO_CHUNK then LO_CHUNK else len - off);
             got = length (take (unat want) (drop (unat off) lo))
         in if got \<le> 0 then off else lo_read_loop lo len (off + of_nat got))
      else off)"
  by pat_completeness auto

text \<open>The chunk starting at an offset below the end stays inside.\<close>

lemma chunk_fits:
  fixes off len :: u64
  assumes "off < len" "n \<le> unat (if len - off > c then c else len - off)"
  shows "n \<le> unat len - unat off" "unat (off + of_nat n) = unat off + n" "n > 0 \<Longrightarrow> unat (len - (off + of_nat n)) < unat (len - off)"
    "off + of_nat n \<le> len"
proof -
  have d: "unat (len - off) = unat len - unat off" using assms(1) by (simp add: unat_sub)
  have "unat (if len - off > c then c else len - off) \<le> unat (len - off)" by (simp add: word_less_nat_alt)
  with assms(2) d show n: "n \<le> unat len - unat off" by simp
  have lt: "unat off + n \<le> unat len" using n assms(1) by (simp add: word_less_nat_alt)
  then show sum: "unat (off + of_nat n) = unat off + n"
    using unsigned_less [of len, where ?'a = nat] by (simp add: unat_word_ariths unat_of_nat)
  then show le: "off + of_nat n \<le> len" using lt by (simp add: word_le_nat_alt)
  have "unat (len - (off + of_nat n)) = unat len - (unat off + n)" unfolding unat_sub [OF le] sum ..
  then show "n > 0 \<Longrightarrow> unat (len - (off + of_nat n)) < unat (len - off)" unfolding d using lt by simp
qed

termination lo_read_loop
proof (relation "measure (\<lambda>(lo, len, off). unat (len - off))")
  fix lo :: "u8 list" and len off want :: u64 and got :: nat
  assume "off < len" "want = (if len - off > LO_CHUNK then LO_CHUNK else len - off)"
    and "got = length (take (unat want) (drop (unat off) lo))" "\<not> got \<le> 0"
  then show "((lo, len, off + of_nat got), lo, len, off) \<in> measure (\<lambda>(lo, len, off). unat (len - off))"
    using chunk_fits(3) [of off len got LO_CHUNK] by simp
qed simp

declare lo_read_loop.simps [simp del]

text \<open>The value returned (a 64-bit integer, -1 for an invalid object) and the bytes put into the buffer.\<close>

definition lo_read_buf :: "u8 list option \<Rightarrow> u64 \<Rightarrow> u64 \<times> u8 list" where
  "lo_read_buf obj len = (case obj of
     None \<Rightarrow> (- 1, [])
   | Some lo \<Rightarrow> let off = lo_read_loop lo len 0 in (off, take (unat off) lo))"

function lo_write_loop :: "u8 list \<Rightarrow> u64 \<Rightarrow> u64 \<Rightarrow> u8 list \<Rightarrow> u8 list" where
  "lo_write_loop buf len off lo =
     (if off < len then
        (let n = (if len - off > LO_CHUNK then LO_CHUNK else len - off)
         in lo_write_loop buf len (off + n)
              (take (unat off) lo @ take (unat n) (drop (unat off) buf) @ drop (unat off + unat n) lo))
      else lo)"
  by pat_completeness auto

termination lo_write_loop
proof (relation "measure (\<lambda>(buf, len, off, lo). unat (len - off))")
  fix buf lo :: "u8 list" and len off n :: u64
  assume less: "off < len" and n: "n = (if len - off > LO_CHUNK then LO_CHUNK else len - off)"
  have "0 < unat n" using less n by (auto simp: unat_gt_0)
  then show "((buf, len, off + n, take (unat off) lo @ take (unat n) (drop (unat off) buf) @ drop (unat off + unat n) lo), buf, len, off, lo)
      \<in> measure (\<lambda>(buf, len, off, lo). unat (len - off))"
    using chunk_fits(3) [of off len "unat n" LO_CHUNK] less n by simp
qed simp

declare lo_write_loop.simps [simp del]

text \<open>An existing object is written over, a missing one created.\<close>

definition lo_write_buf :: "u8 list \<Rightarrow> u64 \<Rightarrow> u8 list option \<Rightarrow> u8 list" where
  "lo_write_buf buf len existing = lo_write_loop buf len 0 (case existing of None \<Rightarrow> [] | Some lo \<Rightarrow> lo)"

lemma lo_read_loop_bytes:
  assumes "unat off \<le> length lo" "off \<le> len" "length lo < 2 ^ 64"
  shows "unat (lo_read_loop lo len off) = min (unat len) (length lo)"
  using assms(1,2)
proof (induction "unat (len - off)" arbitrary: off rule: less_induct)
  case less
  let ?want = "if len - off > LO_CHUNK then LO_CHUNK else len - off"
  let ?got = "length (take (unat ?want) (drop (unat off) lo))"
  show ?case
  proof (cases "off < len \<and> ?got > 0")
    case True
    note fit = chunk_fits [of off len ?got LO_CHUNK]
    have "unat (off + of_nat ?got) = unat off + ?got" using fit(2) True by simp
    moreover have "off + of_nat ?got \<le> len" using fit(4) True by simp
    moreover have "unat off + ?got \<le> length lo" using less.prems(1) by simp
    ultimately have "unat (lo_read_loop lo len (off + of_nat ?got)) = min (unat len) (length lo)"
      using less.hyps [of "off + of_nat ?got"] fit(3) True by simp
    moreover have "lo_read_loop lo len off = lo_read_loop lo len (off + of_nat ?got)"
      using True by (subst lo_read_loop.simps) (simp only: Let_def not_le [symmetric] if_True if_False simp_thms)
    ultimately show ?thesis by simp
  next
    case False
    then have "lo_read_loop lo len off = off" by (subst lo_read_loop.simps) (auto simp: Let_def)
    moreover have "off = len \<or> unat off = length lo"
      using False less.prems by (auto simp: unat_gt_0 split: if_split_asm)
    ultimately show ?thesis using less.prems by (auto simp: word_le_nat_alt)
  qed
qed

text \<open>Reading in chunks reads what one read would.\<close>

lemma lo_read_buf_bytes:
  assumes "length lo < 2 ^ 64"
  shows "lo_read_buf (Some lo) len = (of_nat (min (unat len) (length lo)), take (unat len) lo)"
proof -
  have "unat (lo_read_loop lo len 0) = min (unat len) (length lo)"
    using lo_read_loop_bytes [of 0 lo len] assms by simp
  then have "lo_read_loop lo len 0 = of_nat (min (unat len) (length lo))" "take (unat (lo_read_loop lo len 0)) lo = take (unat len) lo"
    by (metis of_nat_unat ucast_id, simp add: min_def)
  then show ?thesis by (simp add: lo_read_buf_def Let_def)
qed

lemma lo_write_loop_bytes:
  assumes "length buf = unat len" "off \<le> len" "unat off \<le> length lo" "take (unat off) lo = take (unat off) buf"
  shows "lo_write_loop buf len off lo = buf @ drop (unat len) lo"
  using assms(2-4)
proof (induction "unat (len - off)" arbitrary: off lo rule: less_induct)
  case less
  let ?n = "if len - off > LO_CHUNK then LO_CHUNK else len - off"
  show ?case
  proof (cases "off < len")
    case True
    have pos: "0 < unat ?n" using True by (auto simp: unat_gt_0)
    note fit = chunk_fits [of off len "unat ?n" LO_CHUNK, OF True order_refl]
    let ?lo = "take (unat off) lo @ take (unat ?n) (drop (unat off) buf) @ drop (unat off + unat ?n) lo"
    have sum: "unat (off + ?n) = unat off + unat ?n" using fit(2) by simp
    have fits: "unat off + unat ?n \<le> unat len" using fit(1) True by (simp add: word_less_nat_alt)
    have pre: "take (unat off) lo @ take (unat ?n) (drop (unat off) buf) = take (unat off + unat ?n) buf"
      using less.prems(3) by (simp add: take_add)
    then have lo: "?lo = take (unat off + unat ?n) buf @ drop (unat off + unat ?n) lo" by (metis append.assoc)
    have len: "length (take (unat off + unat ?n) buf) = unat off + unat ?n" using fits assms(1) by simp
    have "lo_write_loop buf len (off + ?n) ?lo = buf @ drop (unat len) ?lo"
    proof (rule less.hyps)
      show "unat (len - (off + ?n)) < unat (len - off)" using fit(3) [OF pos] by simp
      show "off + ?n \<le> len" using sum fits by (simp add: word_le_nat_alt)
      show "unat (off + ?n) \<le> length ?lo" unfolding lo sum using len by simp
      show "take (unat (off + ?n)) ?lo = take (unat (off + ?n)) buf" unfolding lo sum using len by simp
    qed
    moreover have "drop (unat len) ?lo = drop (unat len) lo" unfolding lo using len fits by simp
    ultimately show ?thesis using True by (subst lo_write_loop.simps) (simp add: Let_def)
  next
    case False
    then have "off = len" using less.prems(1) by simp
    then show ?thesis using less.prems assms(1) by (subst lo_write_loop.simps) (metis append_take_drop_id order.irrefl take_all_iff order_refl)
  qed
qed

text \<open>Writing puts the buffer at the front of the object; what was longer keeps its tail.\<close>

lemma lo_write_buf_bytes:
  "length buf = unat len \<Longrightarrow> lo_write_buf buf len existing = buf @ drop (unat len) (case existing of None \<Rightarrow> [] | Some lo \<Rightarrow> lo)"
  unfolding lo_write_buf_def by (rule lo_write_loop_bytes) simp_all

subsection \<open>Assets\<close>

text \<open>The row of an asset: its object (\<open>None\<close> without a row or with a null or invalid one) and its declared size.\<close>

record asset =
  as_data :: "u8 list option"
  as_size :: u64

definition load_asset_from_db :: "asset \<Rightarrow> u64 \<Rightarrow> u64 \<Rightarrow> mem \<Rightarrow> (u64 \<times> mem) undef" where
  "load_asset_from_db a ram_size load_addr ram = (case as_data a of
     None \<Rightarrow> Some (- 1, ram)
   | Some lo \<Rightarrow>
       let offset = load_addr - RAM_BASE; (n, bs) = lo_read_buf (Some lo) (as_size a) in
       if offset + as_size a \<le> ram_size then
         (if in_block ram_size offset (length bs)
          then Some (if n = as_size a then as_size a else - 1, write_bytes ram offset bs) else None)
       else Some (- 1, ram))"

text \<open>The disk goes into a block of its declared size; the pointer is null after a failure.\<close>

definition load_disk_from_db :: "bool \<Rightarrow> asset \<Rightarrow> u64 \<times> mem option" where
  "load_disk_from_db malloc_ok a = (case as_data a of
     None \<Rightarrow> (- 1, None)
   | Some lo \<Rightarrow>
       let (n, bs) = lo_read_buf (Some lo) (as_size a) in
       if malloc_ok \<and> n = as_size a then (as_size a, Some (write_bytes (\<lambda>_. 0) 0 bs)) else (- 1, None))"

subsection \<open>The device tree\<close>

text \<open>A byte of the blob at physical address \<open>0x82000000\<close>. Shifts of bytes into the sign bit wrap.\<close>

abbreviation (input) DTB_OFFSET :: u64 where "DTB_OFFSET \<equiv> 0x82000000 - RAM_BASE"

definition dtb_byte :: "u64 \<Rightarrow> mem \<Rightarrow> u64 \<Rightarrow> u8 undef" where
  "dtb_byte ram_size ram i = (if in_block ram_size (DTB_OFFSET + i) 1 then Some (ram (DTB_OFFSET + i)) else None)"

definition dtb_be32 :: "u64 \<Rightarrow> mem \<Rightarrow> u32 \<Rightarrow> u32 undef" where
  "dtb_be32 ram_size ram p = do {
     b0 \<leftarrow> dtb_byte ram_size ram (ucast p);
     b1 \<leftarrow> dtb_byte ram_size ram (ucast (p + 1));
     b2 \<leftarrow> dtb_byte ram_size ram (ucast (p + 2));
     b3 \<leftarrow> dtb_byte ram_size ram (ucast (p + 3));
     Some (shl (ucast b0) 24 OR shl (ucast b1) 16 OR shl (ucast b2) 8 OR ucast b3)
   }"

text \<open>\<open>"linux,initrd-end"\<close> with its terminating zero.\<close>

definition dtb_target :: "u8 list" where
  "dtb_target = [108, 105, 110, 117, 120, 44, 105, 110, 105, 116, 114, 100, 45, 101, 110, 100, 0]"

partial_function (option) dtb_find_string :: "u64 \<Rightarrow> mem \<Rightarrow> u32 \<Rightarrow> u32 \<Rightarrow> u32 \<Rightarrow> u32 option undef" where
  "dtb_find_string ram_size ram off_strings size_strings i =
     (if i + 17 \<le> size_strings then do {
        bs \<leftarrow> those (map (\<lambda>k. dtb_byte ram_size ram (ucast off_strings + ucast i + of_nat k)) [0 ..< 17]);
        if bs = dtb_target then Some (Some i) else dtb_find_string ram_size ram off_strings size_strings (i + 1)
      } else Some None)"

text \<open>The walk over the structure block, up to the first property of that name with eight bytes.\<close>

partial_function (option) dtb_walk :: "u64 \<Rightarrow> mem \<Rightarrow> u32 \<Rightarrow> u32 \<Rightarrow> u64 \<Rightarrow> u32 \<Rightarrow> mem undef" where
  "dtb_walk ram_size ram totalsize str_off initrd_end p =
     (if p + 12 \<le> totalsize then do {
        tok \<leftarrow> dtb_be32 ram_size ram p;
        if tok = 3 then do {
          plen \<leftarrow> dtb_be32 ram_size ram (p + 4);
          nameoff \<leftarrow> dtb_be32 ram_size ram (p + 8);
          if nameoff = str_off \<and> plen = 8 then
            (let off = DTB_OFFSET + ucast (p + 12) in
             if in_block ram_size off 8 then Some (write_bytes ram off (rev (le_bytes 8 initrd_end))) else None)
          else dtb_walk ram_size ram totalsize str_off initrd_end (p + 12 + (plen + 3 AND NOT 3))
        } else dtb_walk ram_size ram totalsize str_off initrd_end (p + 4)
      } else Some ram)"

definition dtb_patch :: "u64 \<Rightarrow> mem \<Rightarrow> u64 \<Rightarrow> mem undef" where
  "dtb_patch ram_size ram init_sz = do {
     magic \<leftarrow> dtb_be32 ram_size ram 0;
     if magic = 0xd00dfeed then do {
       totalsize \<leftarrow> dtb_be32 ram_size ram 4;
       off_strings \<leftarrow> dtb_be32 ram_size ram 12;
       size_strings \<leftarrow> dtb_be32 ram_size ram 32;
       str_off \<leftarrow> dtb_find_string ram_size ram off_strings size_strings 0;
       (case str_off of
          None \<Rightarrow> Some ram
        | Some so \<Rightarrow>
            if sint so \<ge> 0 then do {
              off_structs \<leftarrow> dtb_be32 ram_size ram 8;
              dtb_walk ram_size ram totalsize so (0x82200000 + init_sz) off_structs
            } else Some ram)
     } else Some ram
   }"

text \<open>The patch changes at most eight bytes of RAM, to the end of the initial RAM disk in big-endian order.\<close>

definition dtb_patched :: "u64 \<Rightarrow> mem \<Rightarrow> u64 \<Rightarrow> mem \<Rightarrow> bool" where
  "dtb_patched ram_size ram initrd_end ram' \<longleftrightarrow>
     ram' = ram \<or> (\<exists>off. in_block ram_size off 8 \<and> ram' = write_bytes ram off (rev (le_bytes 8 initrd_end)))"

lemma dtb_patchedI:
  "dtb_patched rs ram e ram" "in_block rs off 8 \<Longrightarrow> dtb_patched rs ram e (write_bytes ram off (rev (le_bytes 8 e)))"
  by (auto simp: dtb_patched_def)

lemma dtb_walk_patched: "dtb_walk rs ram tsz so e p = Some ram' \<Longrightarrow> dtb_patched rs ram e ram'"
proof (induction rs ram tsz so e p ram' rule: dtb_walk.raw_induct [rotated, consumes 1])
  case (1 walk rs ram tsz so e p ram')
  from 1(2) show ?case by (auto simp: bind_eq_Some_conv Let_def dest: 1(1) intro: dtb_patchedI split: if_split_asm)
qed

lemma dtb_patch_patched: "dtb_patch rs ram n = Some ram' \<Longrightarrow> dtb_patched rs ram (0x82200000 + n) ram'"
  by (auto simp: dtb_patch_def bind_eq_Some_conv dest: dtb_walk_patched intro: dtb_patchedI split: if_split_asm option.split_asm)

text \<open>A property whose declared length makes the step wrap to zero holds the walk for ever: no result.\<close>

theorem dtb_walk_hangs:
  assumes "dtb_be32 rs ram p = Some 3" "dtb_be32 rs ram (p + 4) = Some plen" "12 + (plen + 3 AND NOT 3) = 0" "plen \<noteq> 8"
    and "p + 12 \<le> tsz"
  shows "dtb_walk rs ram tsz so e p = None"
proof -
  have "\<not> (rs' = rs \<and> ram0 = ram \<and> tsz' = tsz \<and> q = p)" if "dtb_walk rs' ram0 tsz' so' e' q = Some ram'" for rs' ram0 tsz' so' e' q ram'
    using that
  proof (induction rs' ram0 tsz' so' e' q ram' rule: dtb_walk.raw_induct [rotated, consumes 1])
    case (1 walk rs' ram0 tsz' so' e' q ram')
    show ?case
    proof
      assume eq: "rs' = rs \<and> ram0 = ram \<and> tsz' = tsz \<and> q = p"
      have "p + 12 + (plen + 3 AND - 4) = p" using assms(3) by (simp add: add.assoc)
      with 1(2) eq assms(1,2,4,5) have "walk rs ram tsz so' e' p = Some ram'"
        by (auto simp: bind_eq_Some_conv split: if_split_asm)
      from 1(1) [OF this] eq show False by blast
    qed
  qed
  then show ?thesis by (metis not_None_eq)
qed

subsection \<open>Booting\<close>

text \<open>The worker's own variables. \<open>vm_cpu\<close> carries the RAM block \<open>vm_ram\<close> with it; a boot that fails after it has replaced
  that block leaves a processor whose TLB points into the old one, and \<open>w_stale\<close> records it. \<open>vm_disk\<close> is the block that the device's
  \<open>disk_data\<close> points to.\<close>

record vm_worker =
  w_cpu :: "lir list vm option"
  w_stale :: bool
  w_disk :: "mem option"
  w_disk_size :: u64
  w_dirty :: bitmap

record vm_state_row =
  vs_ram :: "u8 list option"
  vs_cpu :: "lir list rv64_cpu option"
  vs_console :: "u8 list"

record boot_env =
  be_ram_dsm :: bool
  be_spi :: spi
  be_state :: "u64 \<Rightarrow> vm_state_row option"
  be_asset :: "string \<Rightarrow> asset"
  be_malloc :: bool
  be_calloc :: bool
  be_jit_alloc :: bool
  be_clock :: "nat \<Rightarrow> u64"
  be_slirp :: "slirp option"

abbreviation (input) BOOT_RAM_SIZE :: u64 where "BOOT_RAM_SIZE \<equiv> 2048 * 1024 * 1024"

text \<open>The saved RAM, read over the fresh one, and whether it was complete; the saved processor.\<close>

definition boot_restore :: "boot_env \<Rightarrow> u64 \<Rightarrow> bool \<times> mem \<times> lir list rv64_cpu option" where
  "boot_restore env vm_id =
     (case (if spi_connect (be_spi env) then be_state env vm_id else None) of
        None \<Rightarrow> (False, \<lambda>_. 0, None)
      | Some row \<Rightarrow>
          (case vs_ram row of
             None \<Rightarrow> (False, \<lambda>_. 0, vs_cpu row)
           | Some lo \<Rightarrow>
               let (n, bs) = lo_read_buf (Some lo) BOOT_RAM_SIZE
               in (n = BOOT_RAM_SIZE, write_bytes (\<lambda>_. 0) 0 bs, vs_cpu row)))"

text \<open>The four required assets, in order; each size or -1.\<close>

definition boot_assets :: "boot_env \<Rightarrow> mem \<Rightarrow> ((u64 \<times> u64 \<times> u64 \<times> u64) \<times> mem) undef" where
  "boot_assets env ram = do {
     (fw, ram1) \<leftarrow> load_asset_from_db (be_asset env ''firmware'') BOOT_RAM_SIZE 0x80000000 ram;
     (kern, ram2) \<leftarrow> load_asset_from_db (be_asset env ''kernel'') BOOT_RAM_SIZE 0x80200000 ram1;
     (dtb, ram3) \<leftarrow> load_asset_from_db (be_asset env ''dtb'') BOOT_RAM_SIZE 0x82000000 ram2;
     (init, ram4) \<leftarrow> load_asset_from_db (be_asset env ''initrd'') BOOT_RAM_SIZE 0x82200000 ram3;
     Some ((fw, kern, dtb, init), ram4)
   }"

text \<open>The processor: a saved one loses its compiler and its TLB, otherwise a reset one. A saved pointer to a disk does not
  outlive its process.\<close>

definition boot_cpu :: "boot_env \<Rightarrow> bool \<Rightarrow> lir list rv64_cpu option \<Rightarrow> mem \<Rightarrow> lir list vm" where
  "boot_cpu env resumed saved ram = (case saved of
     Some c \<Rightarrow>
       if resumed then
         (let m = rv64_cpu.extend c (vm.fields (Some ram) (be_clock env) 0 0)
          in m\<lparr>cpu_jit := None, cpu_tlb := (\<lambda>_. zero_tlb_entry), cpu_virtio_blk := (cpu_virtio_blk m)\<lparr>dev_disk_data := None\<rparr>\<rparr>)
       else rv64_init (be_jit_alloc env) ((bare_vm ram 0)\<lparr>vm_clock := be_clock env\<rparr>) BOOT_RAM_SIZE
   | None \<Rightarrow> rv64_init (be_jit_alloc env) ((bare_vm ram 0)\<lparr>vm_clock := be_clock env\<rparr>) BOOT_RAM_SIZE)"

definition set_boot_time_ns :: "'c vm \<Rightarrow> 'c vm" where
  "set_boot_time_ns m = m\<lparr>vm_boot_time_ns := vm_clock m (vm_clock_reads m), vm_clock_reads := Suc (vm_clock_reads m)\<rparr>"

text \<open>The disk device, with the stored blocks laid over the image.\<close>

definition boot_disk :: "boot_env \<Rightarrow> u64 \<Rightarrow> blocks \<Rightarrow> u64 \<Rightarrow> mem \<Rightarrow> mem undef" where
  "boot_disk env vm_id tbl disk_size disk =
     (if spi_connect (be_spi env) then overlay_blocks disk_size (select_blocks vm_id tbl) disk else Some disk)"

definition attach_disk :: "mem \<Rightarrow> u64 \<Rightarrow> 'c vm \<Rightarrow> 'c vm" where
  "attach_disk disk disk_size m =
     m\<lparr>cpu_virtio_blk := (virtio_blk_init (cpu_virtio_blk m) VIRTIO_BLK_IRQ (Some disk) disk_size)\<lparr>dev_mark_dirty := True\<rparr>\<rparr>"

definition boot_finish :: "boot_env \<Rightarrow> 'c vm \<Rightarrow> 'c vm" where
  "boot_finish env m =
     m\<lparr>cpu_virtio_net := virtio_net_init (cpu_virtio_net m) VIRTIO_NET_IRQ True BOOT_RAM_SIZE (be_slirp env),
       cpu_virtio_devs := (cpu_virtio_devs m)(0 := Some Virtio_Blk, 1 := Some Virtio_Net),
       cpu_x := (cpu_x m)(10 := 0, 11 := 0x82000000)\<rparr>"

definition boot_fail :: "string \<Rightarrow> SharedVMState \<Rightarrow> SharedVMState" where
  "boot_fail msg st = (set_error_msg msg st)\<lparr>st_cmd_result := - 1\<rparr>"

definition boot_message :: "u64 \<times> u64 \<times> u64 \<times> u64 \<Rightarrow> u64 \<Rightarrow> string" where
  "boot_message sizes disk_size = (case sizes of (fw, kern, dtb, init) \<Rightarrow>
     ''VM initialized from DB: fw='' @ fmt_ld fw @ '' kern='' @ fmt_ld kern @ '' dtb='' @ fmt_ld dtb @
     '' initrd='' @ fmt_ld init @ '' disk='' @ dec_digits (unat disk_size))"

text \<open>From the allocation of the processor on. Without a disk the bitmap of an earlier boot stays.\<close>

definition boot_machine ::
  "boot_env \<Rightarrow> blocks \<Rightarrow> u64 \<Rightarrow> bool \<Rightarrow> lir list rv64_cpu option \<Rightarrow> mem \<Rightarrow> mem option \<Rightarrow> u64 \<Rightarrow> bitmap \<Rightarrow> vm_worker undef" where
  "boot_machine env tbl vm_id resumed saved ram disk disk_size dirty =
     (let m0 = boot_cpu env resumed saved ram;
          m1 = set_boot_time_ns (m0\<lparr>cpu_uart := (cpu_uart m0)\<lparr>u_tx_callback := True\<rparr>, cpu_id := vm_id\<rparr>) in
      case disk of
        None \<Rightarrow> Some \<lparr>w_cpu = Some (boot_finish env m1), w_stale = False, w_disk = None, w_disk_size = disk_size, w_dirty = dirty\<rparr>
      | Some d \<Rightarrow> do {
          d' \<leftarrow> boot_disk env vm_id tbl disk_size d;
          Some \<lparr>w_cpu = Some (boot_finish env (attach_disk d' disk_size m1)), w_stale = False, w_disk = Some d', w_disk_size = disk_size,
                w_dirty = (if be_calloc env then disk_bitmap disk_size else None)\<rparr>
        })"

definition worker_handle_cmd_boot ::
  "boot_env \<Rightarrow> blocks \<Rightarrow> SharedVMState \<Rightarrow> vm_worker \<Rightarrow> (SharedVMState \<times> vm_worker) undef" where
  "worker_handle_cmd_boot env tbl st w =
     (let vm_id = st_cmd_arg st; stale = (w_stale w \<or> w_cpu w \<noteq> None) in
      if \<not> be_ram_dsm env
      then Some (boot_fail ''Failed to allocate DSM for vm_ram in vm_boot'' st, w\<lparr>w_stale := stale\<rparr>)
      else do {
        let st1 = st\<lparr>st_ram_size := BOOT_RAM_SIZE, st_ram_handle_valid := True, st_console_pos := 0\<rparr>;
        let (resumed, ram0, saved) = boot_restore env vm_id;
        ((fw, kern, dtb, init), ram1) \<leftarrow> (if resumed then Some ((- 1, - 1, - 1, - 1), ram0) else boot_assets env ram0);
        let (disk_sz, disk) = load_disk_from_db (be_malloc env) (be_asset env ''disk'');
        if \<not> resumed \<and> (sint fw < 0 \<or> sint kern < 0 \<or> sint dtb < 0 \<or> sint init < 0)
        then Some (boot_fail ''Failed to load required boot assets from vm_assets'' st1, w\<lparr>w_stale := stale, w_disk := disk\<rparr>)
        else do {
          let disk_size = (if sint disk_sz > 0 then disk_sz else w_disk_size w);
          ram2 \<leftarrow> (if resumed then Some ram1 else dtb_patch BOOT_RAM_SIZE ram1 init);
          w' \<leftarrow> boot_machine env tbl vm_id resumed saved ram2 disk disk_size (w_dirty w);
          Some ((set_error_msg (boot_message (fw, kern, dtb, init) disk_size) st1)\<lparr>st_cmd_result := 0\<rparr>, w')
        }
      })"

text \<open>A boot fails with a message and result -1, or ends in \<open>boot_machine\<close> with result 0.\<close>

lemma boot_cases:
  assumes "worker_handle_cmd_boot env tbl st w = Some (st', w')"
  obtains (failed) msg d st1 where "st' = boot_fail msg st1" "w' = w\<lparr>w_stale := w_stale w \<or> w_cpu w \<noteq> None, w_disk := d\<rparr>"
      "st1 = st \<or> st1 = st\<lparr>st_ram_size := BOOT_RAM_SIZE, st_ram_handle_valid := True, st_console_pos := 0\<rparr>"
      "be_ram_dsm env \<longrightarrow> \<not> fst (boot_restore env (st_cmd_arg st))"
    | (booted) msg resumed ram0 saved ram disk disk_size where "be_ram_dsm env" "boot_restore env (st_cmd_arg st) = (resumed, ram0, saved)"
      "resumed \<longrightarrow> ram = ram0" "boot_machine env tbl (st_cmd_arg st) resumed saved ram disk disk_size (w_dirty w) = Some w'"
      "st' = (set_error_msg msg (st\<lparr>st_ram_size := BOOT_RAM_SIZE, st_ram_handle_valid := True, st_console_pos := 0\<rparr>))\<lparr>st_cmd_result := 0\<rparr>"
proof (cases "be_ram_dsm env")
  case False
  with assms show thesis by (intro failed [of _ st "w_disk w"]) (auto simp: worker_handle_cmd_boot_def Let_def)
next
  case dsm: True
  obtain resumed ram0 saved where rs: "boot_restore env (st_cmd_arg st) = (resumed, ram0, saved)" by (metis prod_cases3)
  obtain dsz disk where dk: "load_disk_from_db (be_malloc env) (be_asset env ''disk'') = (dsz, disk)" by (metis surj_pair)
  obtain fw kern dtb init ram1 where as: "(if resumed then Some ((- 1, - 1, - 1, - 1), ram0) else boot_assets env ram0) = Some ((fw, kern, dtb, init), ram1)"
    using assms dsm rs dk by (auto simp: worker_handle_cmd_boot_def Let_def bind_eq_Some_conv)
  show thesis
  proof (cases "\<not> resumed \<and> (sint fw < 0 \<or> sint kern < 0 \<or> sint dtb < 0 \<or> sint init < 0)")
    case True
    with assms dsm rs dk as show thesis by (intro failed [of _ _ disk]) (auto simp: worker_handle_cmd_boot_def Let_def)
  next
    case False
    let ?sz = "if sint dsz > 0 then dsz else w_disk_size w"
    obtain ram2 where r2: "(if resumed then Some ram1 else dtb_patch BOOT_RAM_SIZE ram1 init) = Some ram2"
      and bm: "boot_machine env tbl (st_cmd_arg st) resumed saved ram2 disk ?sz (w_dirty w) = Some w'"
      and st': "st' = (set_error_msg (boot_message (fw, kern, dtb, init) ?sz)
          (st\<lparr>st_ram_size := BOOT_RAM_SIZE, st_ram_handle_valid := True, st_console_pos := 0\<rparr>))\<lparr>st_cmd_result := 0\<rparr>"
      using assms dsm rs dk as False by (simp add: worker_handle_cmd_boot_def Let_def bind_eq_Some_conv) blast
    have "resumed \<longrightarrow> ram2 = ram0" using as r2 by auto
    from booted [OF dsm rs this bm st'] show thesis .
  qed
qed

subsection \<open>Saving\<close>

text \<open>\<open>ram\<close> is the RAM block as the session sees it, \<open>old\<close> the row that exists, \<open>insert_ok\<close> whether the server takes the
  new one. The session first copies the size of RAM into the processor copy (\<open>ensure_frontend_ram\<close>).\<close>

definition ensure_frontend_ram :: "SharedVMState option \<Rightarrow> string + SharedVMState" where
  "ensure_frontend_ram shared = (case shared of
     None \<Rightarrow> Inl ''VM RAM not available (not booted?)''
   | Some st \<Rightarrow>
       if st_ram_handle_valid st then Inr (st\<lparr>st_cpu := (st_cpu st)\<lparr>cpu_ram_size := st_ram_size st\<rparr>\<rparr>)
       else Inl ''VM RAM not available (not booted?)'')"

definition rv64_vm_state_save ::
  "spi \<Rightarrow> bool \<Rightarrow> SharedVMState option \<Rightarrow> mem \<Rightarrow> vm_state_row option \<Rightarrow> string + (vm_state_row \<times> SharedVMState)" where
  "rv64_vm_state_save db insert_ok shared ram old = (case require_vm ''vm_state_save: no VM running'' shared of
     Inl e \<Rightarrow> Inl e
   | Inr st0 \<Rightarrow> (case ensure_frontend_ram (Some st0) of
       Inl e \<Rightarrow> Inl e
     | Inr st \<Rightarrow>
         if \<not> spi_connect db then Inl ''vm_state_save: SPI_connect failed''
         else if \<not> insert_ok then Inl ''vm_state_save: SPI_execute_with_args failed''
         else (let size = cpu_ram_size (st_cpu st); buf = read_bytes ram 0 (unat size) in
           Inr (\<lparr>vs_ram = Some (lo_write_buf buf size (Option.bind old vs_ram)), vs_cpu = Some (st_cpu st),
                  vs_console = map (st_console_buf st) [0 ..< nat (st_console_pos st)]\<rparr>, st))))"

lemma saved_row:
  assumes "rv64_vm_state_save db ok (Some st) ram old = Inr (row, st')" "st_ram_size st = BOOT_RAM_SIZE"
  shows "vs_ram row = Some (read_bytes ram 0 0x80000000 @ drop 0x80000000 (case Option.bind old vs_ram of None \<Rightarrow> [] | Some lo \<Rightarrow> lo))"
    "vs_cpu row = Some ((st_cpu st)\<lparr>cpu_ram_size := BOOT_RAM_SIZE\<rparr>)"
proof -
  have "lo_write_buf (read_bytes ram 0 0x80000000) BOOT_RAM_SIZE (Option.bind old vs_ram) =
      read_bytes ram 0 0x80000000 @ drop 0x80000000 (case Option.bind old vs_ram of None \<Rightarrow> [] | Some lo \<Rightarrow> lo)"
    using lo_write_buf_bytes [of "read_bytes ram 0 0x80000000" BOOT_RAM_SIZE "Option.bind old vs_ram"]
    by (simp add: read_bytes_def)
  then show "vs_ram row = Some (read_bytes ram 0 0x80000000 @ drop 0x80000000 (case Option.bind old vs_ram of None \<Rightarrow> [] | Some lo \<Rightarrow> lo))"
    "vs_cpu row = Some ((st_cpu st)\<lparr>cpu_ram_size := BOOT_RAM_SIZE\<rparr>)"
    using assms by (auto simp: rv64_vm_state_save_def require_vm_def ensure_frontend_ram_def Let_def split: if_split_asm sum.split_asm)
qed

lemma boot_restore_saved:
  assumes "spi_connect (be_spi env)" "be_state env vm_id = Some row"
    and "vs_ram row = Some (read_bytes ram 0 0x80000000 @ rest)" "length rest < 2 ^ 63"
  shows "boot_restore env vm_id = (True, write_bytes (\<lambda>_. 0) 0 (read_bytes ram 0 0x80000000), vs_cpu row)"
proof -
  have "lo_read_buf (Some (read_bytes ram 0 0x80000000 @ rest)) BOOT_RAM_SIZE = (BOOT_RAM_SIZE, read_bytes ram 0 0x80000000)"
    using lo_read_buf_bytes [of "read_bytes ram 0 0x80000000 @ rest" BOOT_RAM_SIZE] assms(4) by (simp add: read_bytes_def)
  with assms show ?thesis by (simp add: boot_restore_def Let_def)
qed

lemma write_read_bytes_below: "unat i < n \<Longrightarrow> n < 2 ^ 64 \<Longrightarrow> write_bytes m 0 (read_bytes ram 0 n) i = ram i"
  by (simp add: write_bytes_def read_bytes_def)

text \<open>What a restored processor looks like: the saved one but for what the boot sets anew.\<close>

definition resumed_cpu :: "u64 \<Rightarrow> lir list rv64_cpu \<Rightarrow> virtio_mmio_dev \<Rightarrow> virtio_mmio_dev \<Rightarrow> lir list rv64_cpu" where
  "resumed_cpu vm_id c blk net =
     c\<lparr>cpu_jit := None, cpu_tlb := (\<lambda>_. zero_tlb_entry), cpu_uart := (cpu_uart c)\<lparr>u_tx_callback := True\<rparr>, cpu_id := vm_id,
       cpu_virtio_blk := blk, cpu_virtio_net := net,
       cpu_virtio_devs := (cpu_virtio_devs c)(0 := Some Virtio_Blk, 1 := Some Virtio_Net),
       cpu_x := (cpu_x c)(10 := 0, 11 := 0x82000000)\<rparr>"

lemma truncate_resumed:
  fixes m :: "lir list vm"
  assumes "rv64_cpu.truncate m = c"
  shows "rv64_cpu.truncate (boot_finish env (set_boot_time_ns
      (m\<lparr>cpu_jit := None, cpu_tlb := (\<lambda>_. zero_tlb_entry), cpu_virtio_blk := b, cpu_uart := (cpu_uart m)\<lparr>u_tx_callback := True\<rparr>, cpu_id := i\<rparr>))) =
    resumed_cpu i c b (virtio_net_init (cpu_virtio_net m) VIRTIO_NET_IRQ True BOOT_RAM_SIZE (be_slirp env))"
  unfolding assms [symmetric] by (simp add: boot_finish_def set_boot_time_ns_def resumed_cpu_def rv64_cpu.defs)

lemma boot_cpu_saved:
  "boot_cpu env True (Some c) ram = (let m = rv64_cpu.extend c (vm.fields (Some ram) (be_clock env) 0 0)
     in m\<lparr>cpu_jit := None, cpu_tlb := (\<lambda>_. zero_tlb_entry), cpu_virtio_blk := (cpu_virtio_blk m)\<lparr>dev_disk_data := None\<rparr>\<rparr>)"
  by (simp add: boot_cpu_def)

lemma attach_resumed:
  "attach_disk d sz (set_boot_time_ns (m\<lparr>cpu_jit := j, cpu_tlb := t, cpu_virtio_blk := b, cpu_uart := u, cpu_id := i\<rparr>)) =
   set_boot_time_ns (m\<lparr>cpu_jit := j, cpu_tlb := t,
     cpu_virtio_blk := (virtio_blk_init b VIRTIO_BLK_IRQ (Some d) sz)\<lparr>dev_mark_dirty := True\<rparr>, cpu_uart := u, cpu_id := i\<rparr>)"
  by (simp add: attach_disk_def set_boot_time_ns_def)

lemma boot_machine_resumed:
  assumes "boot_machine env tbl vm_id True (Some c) ram disk disk_size dirty = Some w'"
  shows "\<exists>m'. w_cpu w' = Some m' \<and> vm_ram m' = Some ram \<and> rv64_cpu.truncate m' = resumed_cpu vm_id c (cpu_virtio_blk m') (cpu_virtio_net m')"
proof -
  let ?m = "rv64_cpu.extend c (vm.fields (Some ram) (be_clock env) 0 0)"
  let ?b = "\<lambda>b. boot_finish env (set_boot_time_ns (?m\<lparr>cpu_jit := None, cpu_tlb := (\<lambda>_. zero_tlb_entry), cpu_virtio_blk := b,
      cpu_uart := (cpu_uart ?m)\<lparr>u_tx_callback := True\<rparr>, cpu_id := vm_id\<rparr>))"
  have "rv64_cpu.truncate ?m = c" by (cases c) (simp add: rv64_cpu.defs vm.defs)
  from truncate_resumed [OF this] have "rv64_cpu.truncate (?b b) = resumed_cpu vm_id c (cpu_virtio_blk (?b b)) (cpu_virtio_net (?b b))" for b
    by (simp add: boot_finish_def set_boot_time_ns_def)
  moreover have "vm_ram (?b b) = Some ram" for b by (simp add: boot_finish_def set_boot_time_ns_def rv64_cpu.defs vm.defs)
  moreover have "\<exists>b. w_cpu w' = Some (?b b)"
  proof (cases disk)
    case None
    with assms show ?thesis
      by (intro exI [of _ "(cpu_virtio_blk ?m)\<lparr>dev_disk_data := None\<rparr>"]) (auto simp: boot_machine_def boot_cpu_def set_boot_time_ns_def Let_def)
  next
    case (Some d)
    then obtain d' where "w_cpu w' = Some (boot_finish env (attach_disk d' disk_size (set_boot_time_ns
        (?m\<lparr>cpu_jit := None, cpu_tlb := (\<lambda>_. zero_tlb_entry), cpu_virtio_blk := (cpu_virtio_blk ?m)\<lparr>dev_disk_data := None\<rparr>,
          cpu_uart := (cpu_uart ?m)\<lparr>u_tx_callback := True\<rparr>, cpu_id := vm_id\<rparr>))))"
      using assms by (auto simp: boot_machine_def boot_cpu_def Let_def bind_eq_Some_conv)
    then show ?thesis
      by (intro exI [of _ "(virtio_blk_init ((cpu_virtio_blk ?m)\<lparr>dev_disk_data := None\<rparr>) VIRTIO_BLK_IRQ (Some d') disk_size)\<lparr>dev_mark_dirty := True\<rparr>"])
        (simp only: attach_resumed)
  qed
  ultimately show ?thesis by blast
qed

text \<open>C9. Saving and restarting: after \<open>vm_state_save\<close>, a boot that finds the saved row resumes the machine. Its RAM is the saved RAM
  byte for byte, and its processor is the saved copy in every field except those that the boot sets anew, spelled out in
  \<open>resumed_cpu\<close>: the compiler and the TLB are dropped, the console callback and the machine number set, both virtio devices
  initialised, and the registers \<open>a0\<close> and \<open>a1\<close> overwritten as on a cold boot.\<close>

theorem saved_state_resumes:
  assumes "rv64_vm_state_save db ok (Some st) ram old = Inr (row, st1)" "st_ram_size st = BOOT_RAM_SIZE"
    and "\<forall>r lo. old = Some r \<longrightarrow> vs_ram r = Some lo \<longrightarrow> length lo < 2 ^ 63"
    and "be_state env (st_cmd_arg stb) = Some row" "spi_connect (be_spi env)" "be_ram_dsm env"
    and "worker_handle_cmd_boot env tbl stb w = Some (st', w')"
  shows "\<exists>m' ram'. st_cmd_result st' = 0 \<and> w_cpu w' = Some m' \<and> vm_ram m' = Some ram' \<and> (\<forall>i < BOOT_RAM_SIZE. ram' i = ram i) \<and>
    rv64_cpu.truncate m' =
      resumed_cpu (st_cmd_arg stb) ((st_cpu st)\<lparr>cpu_ram_size := BOOT_RAM_SIZE\<rparr>) (cpu_virtio_blk m') (cpu_virtio_net m')"
proof -
  let ?ram = "write_bytes (\<lambda>_. 0) 0 (read_bytes ram 0 0x80000000)"
  have "length (drop 0x80000000 (case Option.bind old vs_ram of None \<Rightarrow> [] | Some lo \<Rightarrow> lo)) < 2 ^ 63"
    using assms(3) by (cases old) (auto split: option.split)
  from boot_restore_saved [OF assms(5,4) saved_row(1) [OF assms(1,2)] this]
  have rs: "boot_restore env (st_cmd_arg stb) = (True, ?ram, Some ((st_cpu st)\<lparr>cpu_ram_size := BOOT_RAM_SIZE\<rparr>))"
    by (simp add: saved_row(2) [OF assms(1,2)])
  have same: "\<forall>i < BOOT_RAM_SIZE. ?ram i = ram i" by (simp add: write_read_bytes_below word_less_nat_alt)
  from assms(7) show ?thesis
  proof (cases rule: boot_cases)
    case (failed msg d st0)
    with assms(6) rs show ?thesis by simp
  next
    case (booted msg resumed ram0 saved ram' disk disk_size)
    with rs same boot_machine_resumed [of env tbl "st_cmd_arg stb" "(st_cpu st)\<lparr>cpu_ram_size := BOOT_RAM_SIZE\<rparr>" ?ram disk disk_size "w_dirty w" w']
    show ?thesis by auto
  qed
qed

text \<open>The witness: a machine with RAM full of sevens, saved for the first time and booted without a disk.\<close>

definition demo_spi :: spi where "demo_spi = \<lparr>spi_connect = True, spi_insert = (\<lambda>_. True)\<rparr>"

definition demo_shared :: SharedVMState where
  "demo_shared = fresh_shared\<lparr>st_worker_ready := True, st_ram_handle_valid := True, st_ram_size := BOOT_RAM_SIZE\<rparr>"

definition demo_worker :: vm_worker where
  "demo_worker = \<lparr>w_cpu = None, w_stale = False, w_disk = None, w_disk_size = 0, w_dirty = None\<rparr>"

definition demo_env :: "vm_state_row option \<Rightarrow> boot_env" where
  "demo_env row = \<lparr>be_ram_dsm = True, be_spi = demo_spi, be_state = (\<lambda>_. row), be_asset = (\<lambda>_. \<lparr>as_data = None, as_size = 0\<rparr>),
     be_malloc = True, be_calloc = True, be_jit_alloc = True, be_clock = (\<lambda>_. 0), be_slirp = None\<rparr>"

lemma demo_boot:
  assumes "fst (boot_restore (demo_env (Some row)) (st_cmd_arg st))"
  obtains st' w' where "worker_handle_cmd_boot (demo_env (Some row)) tbl st w = Some (st', w')"
  using assms that
  by (cases "boot_restore (demo_env (Some row)) (st_cmd_arg st)")
    (auto simp: worker_handle_cmd_boot_def boot_machine_def load_disk_from_db_def Let_def demo_env_def)

theorem saved_state_resumes_witness:
  "\<exists>row st1 st' w' m' ram'. rv64_vm_state_save demo_spi True (Some demo_shared) (\<lambda>_. 7) None = Inr (row, st1) \<and>
     worker_handle_cmd_boot (demo_env (Some row)) [] demo_shared demo_worker = Some (st', w') \<and> st_cmd_result st' = 0 \<and>
     w_cpu w' = Some m' \<and> vm_ram m' = Some ram' \<and> (\<forall>i < BOOT_RAM_SIZE. ram' i = 7) \<and>
     rv64_cpu.truncate m' = resumed_cpu 0 ((st_cpu demo_shared)\<lparr>cpu_ram_size := BOOT_RAM_SIZE\<rparr>) (cpu_virtio_blk m') (cpu_virtio_net m')"
proof -
  obtain row st1 where save: "rv64_vm_state_save demo_spi True (Some demo_shared) (\<lambda>_. 7) None = Inr (row, st1)"
    by (simp add: rv64_vm_state_save_def require_vm_def ensure_frontend_ram_def demo_shared_def demo_spi_def Let_def)
  have sz: "st_ram_size demo_shared = BOOT_RAM_SIZE" "st_cmd_arg demo_shared = 0" by (simp_all add: demo_shared_def fresh_shared_def)
  have env: "be_state (demo_env (Some row)) (st_cmd_arg demo_shared) = Some row" "spi_connect (be_spi (demo_env (Some row)))"
    "be_ram_dsm (demo_env (Some row))" by (simp_all add: demo_env_def demo_spi_def)
  have "boot_restore (demo_env (Some row)) (st_cmd_arg demo_shared) =
      (True, write_bytes (\<lambda>_. 0) 0 (read_bytes (\<lambda>_. 7) 0 0x80000000), vs_cpu row)"
    by (rule boot_restore_saved [OF env(2,1) saved_row(1) [OF save sz(1)]]) simp
  then obtain st' w' where boot: "worker_handle_cmd_boot (demo_env (Some row)) [] demo_shared demo_worker = Some (st', w')"
    using demo_boot [of row demo_shared "[]" demo_worker] by auto
  from saved_state_resumes [OF save sz(1) _ env boot] show ?thesis using save boot unfolding sz(2) by simp
qed

subsection \<open>A booted machine is safe\<close>

lemma rv64_init_inv: "vm_ram m = Some ram \<Longrightarrow> vm_inv (rv64_init j m BOOT_RAM_SIZE)"
  by (simp add: rv64_init_def zero_cpu_def Let_def vm_inv_def tlb_inv_def ram_ok_def tlb_entry_ok_def zero_tlb_entry_def dvd_def)

lemma vm_inv_boot [simp]:
  "vm_inv (boot_finish env m) = vm_inv m" "vm_inv (set_boot_time_ns m) = vm_inv m" "vm_inv (attach_disk d sz m) = vm_inv m"
  by (simp_all add: boot_finish_def set_boot_time_ns_def attach_disk_def vm_inv_def tlb_inv_def ram_ok_def)

lemma boot_cpu_inv:
  assumes "\<And>c. saved = Some c \<Longrightarrow> resumed \<Longrightarrow> cpu_priv c < 4 \<and> cpu_ram_size c = BOOT_RAM_SIZE"
  shows "vm_inv (boot_cpu env resumed saved ram)"
proof -
  have init: "vm_inv (rv64_init (be_jit_alloc env) ((bare_vm ram 0)\<lparr>vm_clock := be_clock env\<rparr>) BOOT_RAM_SIZE)"
    by (rule rv64_init_inv) (simp add: bare_vm_simps)
  show ?thesis
  proof (cases "\<exists>c. saved = Some c \<and> resumed")
    case True
    with assms show ?thesis
      by (auto simp: boot_cpu_def Let_def vm_inv_def tlb_inv_def ram_ok_def tlb_entry_ok_def zero_tlb_entry_def
          rv64_cpu.defs vm.defs dvd_def)
  next
    case False
    with init show ?thesis by (auto simp: boot_cpu_def split: option.split)
  qed
qed

lemma boot_machine_inv:
  assumes "boot_machine env tbl vm_id resumed saved ram disk sz dirty = Some w'"
    and "\<And>c. saved = Some c \<Longrightarrow> resumed \<Longrightarrow> cpu_priv c < 4 \<and> cpu_ram_size c = BOOT_RAM_SIZE"
  shows "\<exists>m. w_cpu w' = Some m \<and> vm_inv m" "\<not> w_stale w'"
proof -
  have cpu: "vm_inv ((boot_cpu env resumed saved ram)\<lparr>cpu_uart := u, cpu_id := i\<rparr>)" for u i
    using boot_cpu_inv [OF assms(2), where env = env and ram = ram] by (simp add: vm_inv_def tlb_inv_def ram_ok_def)
  show "\<exists>m. w_cpu w' = Some m \<and> vm_inv m" "\<not> w_stale w'"
    using assms(1) cpu by (auto simp: boot_machine_def Let_def bind_eq_Some_conv split: option.split_asm)
qed

end
