(* ===== verification/RV_Worker.thy ===== *)
theory RV_Worker
  imports RV_Boot
begin

text \<open>
  The background worker of \<open>rv64_pgext.c\<close>: one turn of its loop (\<open>linuxsql_vm_worker_main\<close>) takes the command in the shared
  memory, carries it out on the machine, and answers. Sessions and worker interleave in any order; a reachable state of the whole system is
  what any sequence of turns, session actions, saves and restarts leads to.

  A turn is undefined (\<open>None\<close>) where the machine is, or when a run does not return. Text and dirty blocks that the machine reports
  through its callbacks during a run are taken from the machine's logs of those calls.
\<close>

subsection \<open>Running\<close>

definition apply_block_size :: "SharedVMState \<Rightarrow> 'c vm \<Rightarrow> SharedVMState \<times> 'c vm" where
  "apply_block_size st m = (case cpu_jit m of
     Some jit \<Rightarrow>
       if st_jit_block_size_request st \<ge> 0
       then (st\<lparr>st_jit_block_size_request := - 1\<rparr>,
             m\<lparr>cpu_jit := Some (jit_flush (jit\<lparr>jit_rt_max_block_insns := st_jit_block_size_request st\<rparr>))\<rparr>)
       else (st, m)
   | None \<Rightarrow> (st, m))"

definition apply_disabled_ops :: "SharedVMState \<Rightarrow> 'c vm \<Rightarrow> SharedVMState \<times> 'c vm" where
  "apply_disabled_ops st m = (case cpu_jit m of
     Some jit \<Rightarrow>
       if st_jit_disabled_ops_dirty st
       then (st\<lparr>st_jit_disabled_ops_dirty := False\<rparr>,
             m\<lparr>cpu_jit := Some (jit_flush (jit\<lparr>jit_disabled_ops := (jit_disabled_ops jit)
               (0 := st_jit_disabled_ops st 0, 1 := st_jit_disabled_ops st 1)\<rparr>))\<rparr>)
       else (st, m)
   | None \<Rightarrow> (st, m))"

text \<open>Before a run: the debug flag and the compiler's configuration.\<close>

definition sync_debug :: "SharedVMState \<Rightarrow> 'c vm \<Rightarrow> 'c vm" where
  "sync_debug st m = m\<lparr>cpu_dbg := (cpu_dbg m)\<lparr>dbg_debug_halt := dbg_debug_halt (cpu_dbg (st_cpu st))\<rparr>\<rparr>"

definition step_config :: "SharedVMState \<Rightarrow> 'c vm \<Rightarrow> SharedVMState \<times> 'c vm" where
  "step_config st m = (let (st1, m1) = apply_block_size st (sync_debug st m) in apply_disabled_ops st1 m1)"

definition new_output :: "'c vm \<Rightarrow> 'c vm \<Rightarrow> u8 list" where
  "new_output m m' = drop (length (u_tx_log (cpu_uart m))) (u_tx_log (cpu_uart m'))"

text \<open>The results in the shared memory.\<close>

definition step_results :: "lir list vm \<Rightarrow> lir list vm \<Rightarrow> SharedVMState \<Rightarrow> SharedVMState" where
  "step_results m m' st =
     st\<lparr>st_cmd_return := cpu_instret m' - cpu_instret m,
        st_cpu := (st_cpu st)\<lparr>cpu_instret := cpu_instret m', cpu_pc := cpu_pc m', cpu_error := cpu_error m'\<rparr>, st_cmd_result := 0\<rparr>"

text \<open>The answer: the command is idle again, and a waiting session gets a copy of the processor.\<close>

definition worker_reply :: "vm_worker \<Rightarrow> SharedVMState \<Rightarrow> SharedVMState" where
  "worker_reply w st =
     (case w_cpu w of
        Some m \<Rightarrow> if st_client_latch st \<noteq> None then st\<lparr>st_cmd := VM_CMD_IDLE, st_cpu := rv64_cpu.truncate m\<rparr> else st\<lparr>st_cmd := VM_CMD_IDLE\<rparr>
      | None \<Rightarrow> st\<lparr>st_cmd := VM_CMD_IDLE\<rparr>)"

definition step_machine ::
  "host_fp \<Rightarrow> lir_host \<Rightarrow> sljit_alloc \<Rightarrow> SharedVMState \<Rightarrow> vm_worker \<Rightarrow> (SharedVMState \<times> vm_worker) undef" where
  "step_machine hf h al st w = (case w_cpu w of
     None \<Rightarrow> Some ((set_error_msg ''VM not initialized in worker'' st)\<lparr>st_cmd_result := - 1\<rparr>, w)
   | Some m \<Rightarrow>
       if w_stale w then None
       else do {
         let (st1, m1) = step_config st m;
         (_, m2) \<leftarrow> rv64_run hf h al m1 (st_cmd_arg st1);
         st2 \<leftarrow> console_put (new_output m1 m2) st1;
         dirty \<leftarrow> dirty_calls (w_dirty w) (new_reports m1 m2);
         Some (step_results m1 m2 st2,
               w\<lparr>w_cpu := Some m2, w_dirty := dirty, w_disk := (if w_disk w = None then None else dev_disk_data (cpu_virtio_blk m2))\<rparr>)
       })"

definition handle_step ::
  "host_fp \<Rightarrow> lir_host \<Rightarrow> sljit_alloc \<Rightarrow> spi \<Rightarrow> SharedVMState \<Rightarrow> vm_worker \<Rightarrow> blocks \<Rightarrow> (SharedVMState \<times> vm_worker \<times> blocks) undef" where
  "handle_step hf h al db st w tbl = do {
     (st1, w1) \<leftarrow> step_machine hf h al st w;
     let st2 = worker_reply w1 st1;
     (dirty, tbl') \<leftarrow> worker_flush_dirty_blocks db (w_disk w1) (w_disk_size w1) (w_dirty w1) tbl;
     Some (st2, w1\<lparr>w_dirty := dirty\<rparr>, tbl')
   }"

subsection \<open>The other commands\<close>

definition handle_send :: "SharedVMState \<Rightarrow> vm_worker \<Rightarrow> vm_worker undef" where
  "handle_send st w = do {
     bs \<leftarrow> input_text st;
     Some (w\<lparr>w_cpu := map_option (fold (\<lambda>ch m. rv64_uart_rx m ch) bs) (w_cpu w)\<rparr>)
   }"

definition set_watchpoint :: "u64 \<Rightarrow> u64 \<Rightarrow> 'c vm \<Rightarrow> 'c vm" where
  "set_watchpoint addr sz m =
     m\<lparr>cpu_dbg := (cpu_dbg m)\<lparr>dbg_watch_addr := addr, dbg_watch_size := ucast sz, dbg_watch_active := (addr \<noteq> 0),
        dbg_store_log_count := 0, dbg_store_log := dbg_store_log zero_dbg\<rparr>\<rparr>"

definition set_breakpoint :: "u64 \<Rightarrow> u64 \<Rightarrow> 'c vm \<Rightarrow> 'c vm" where
  "set_breakpoint pc halt m =
     m\<lparr>cpu_dbg := (cpu_dbg m)\<lparr>dbg_break_pc := pc, dbg_break_halt := (ucast halt \<noteq> (0 :: u32)), dbg_break_active := (pc \<noteq> 0),
        dbg_break_log_count := 0, dbg_debug_halt := False, dbg_break_log := dbg_break_log zero_dbg\<rparr>\<rparr>"

definition handle_debug :: "(u64 \<Rightarrow> u64 \<Rightarrow> lir list vm \<Rightarrow> lir list vm) \<Rightarrow> SharedVMState \<Rightarrow> vm_worker \<Rightarrow> SharedVMState \<times> vm_worker" where
  "handle_debug f st w = (case w_cpu w of
     Some m \<Rightarrow> (st\<lparr>st_cmd_result := 0\<rparr>, w\<lparr>w_cpu := Some (f (st_cmd_arg st) (st_cmd_arg_ext st) m)\<rparr>)
   | None \<Rightarrow> (st\<lparr>st_cmd_result := - 1\<rparr>, w))"

text \<open>After the loop.\<close>

definition worker_exit :: "SharedVMState \<Rightarrow> vm_worker \<Rightarrow> SharedVMState \<times> vm_worker" where
  "worker_exit st w = (st\<lparr>st_worker_ready := False, st_shutdown_requested := True\<rparr>, w\<lparr>w_cpu := None\<rparr>)"

text \<open>One turn of the loop; the flag says whether the worker goes on. A command that the chain of tests does not know
  (\<open>VM_CMD_SAVE\<close>) leaves everything as it is.\<close>

definition worker_turn ::
  "host_fp \<Rightarrow> lir_host \<Rightarrow> sljit_alloc \<Rightarrow> boot_env \<Rightarrow> SharedVMState \<Rightarrow> vm_worker \<Rightarrow> blocks \<Rightarrow>
   (bool \<times> SharedVMState \<times> vm_worker \<times> blocks) undef" where
  "worker_turn hf h al env st w tbl =
     (if st_shutdown_requested st then Some (False, st, w, tbl)
      else case st_cmd st of
        VM_CMD_BOOT \<Rightarrow> do { (st1, w1) \<leftarrow> worker_handle_cmd_boot env tbl st w; Some (True, worker_reply w1 st1, w1, tbl) }
      | VM_CMD_STEP \<Rightarrow> do { (st1, w1, tbl1) \<leftarrow> handle_step hf h al (be_spi env) st w tbl; Some (True, st1, w1, tbl1) }
      | VM_CMD_HALT \<Rightarrow> Some (False, worker_reply w st, w, tbl)
      | VM_CMD_SEND \<Rightarrow> do { w1 \<leftarrow> handle_send st w; Some (True, worker_reply w1 st, w1, tbl) }
      | VM_CMD_WATCHPOINT \<Rightarrow> let (st1, w1) = handle_debug set_watchpoint st w in Some (True, worker_reply w1 st1, w1, tbl)
      | VM_CMD_BREAKPOINT \<Rightarrow> let (st1, w1) = handle_debug set_breakpoint st w in Some (True, worker_reply w1 st1, w1, tbl)
      | _ \<Rightarrow> Some (True, st, w, tbl))"

subsection \<open>The system\<close>

text \<open>What a session may do to the shared memory at any moment: post a command, fill the input buffer, leave a request for the
  compiler, clear the console, set or clear the debug halt of the copy, or find the worker dead.\<close>

inductive client_step :: "SharedVMState \<Rightarrow> SharedVMState \<Rightarrow> bool" where
  post: "client_step st (ipc_send client cmd arg st)"
| post_ext: "client_step st (ipc_send_ext client cmd arg arg_ext st)"
| send: "client_step st (rv64_vm_send client input st)"
| type: "client_step st (rv64_vm_type client str st)"
| clear: "rv64_vm_console_clear (Some st) = Some st' \<Longrightarrow> client_step st st'"
| block_size: "rv64_vm_jit_block_size n st = Inr st' \<Longrightarrow> client_step st st'"
| disable_op: "rv64_vm_jit_disable_op oc st = Inr st' \<Longrightarrow> client_step st st'"
| enable_op: "rv64_vm_jit_enable_op oc st = Inr st' \<Longrightarrow> client_step st st'"
| debug_halt: "client_step st (st\<lparr>st_cpu := (st_cpu st)\<lparr>cpu_dbg := (cpu_dbg (st_cpu st))\<lparr>dbg_debug_halt := b\<rparr>\<rparr>\<rparr>)"
| poll: "client_step st (snd (ipc_poll alive st))"
| attach_ram: "ensure_frontend_ram (Some st) = Inr st' \<Longrightarrow> client_step st st'"

type_synonym vm_rows = "u64 \<Rightarrow> vm_state_row option"

definition new_worker :: vm_worker where
  "new_worker = \<lparr>w_cpu = None, w_stale = False, w_disk = None, w_disk_size = 0, w_dirty = None\<rparr>"

text \<open>The states of shared memory, worker and database that can be reached from a database without saved states. A new worker starts with new
  shared memory over the same database.\<close>

inductive sys_reach ::
  "host_fp \<Rightarrow> lir_host \<Rightarrow> sljit_alloc \<Rightarrow> SharedVMState \<Rightarrow> vm_worker \<Rightarrow> blocks \<Rightarrow> vm_rows \<Rightarrow> bool" for hf h al where
  start: "worker_start pid fresh_shared = Inr st \<Longrightarrow> sys_reach hf h al st new_worker tbl (\<lambda>_. None)"
| turn: "sys_reach hf h al st w tbl rows \<Longrightarrow> be_state env = rows \<Longrightarrow>
    worker_turn hf h al env st w tbl = Some (True, st', w', tbl') \<Longrightarrow> sys_reach hf h al st' w' tbl' rows"
| stop: "sys_reach hf h al st w tbl rows \<Longrightarrow> be_state env = rows \<Longrightarrow>
    worker_turn hf h al env st w tbl = Some (False, st1, w1, tbl') \<Longrightarrow> worker_exit st1 w1 = (st', w') \<Longrightarrow> sys_reach hf h al st' w' tbl' rows"
| client: "sys_reach hf h al st w tbl rows \<Longrightarrow> client_step st st' \<Longrightarrow> sys_reach hf h al st' w tbl rows"
| save: "sys_reach hf h al st w tbl rows \<Longrightarrow> rv64_vm_state_save db ok (Some st) ram (rows vm_id) = Inr (row, st') \<Longrightarrow>
    sys_reach hf h al st' w tbl (rows(vm_id := Some row))"
| restart: "sys_reach hf h al st w tbl rows \<Longrightarrow> worker_start pid fresh_shared = Inr st' \<Longrightarrow> sys_reach hf h al st' new_worker tbl rows"

definition shared_inv :: "SharedVMState \<Rightarrow> bool" where
  "shared_inv st \<longleftrightarrow> console_ok st \<and> (\<exists>i < 1024. st_input_buf st i = 0) \<and>
     - 1 \<le> st_jit_block_size_request st \<and> st_jit_block_size_request st \<le> 4096 \<and> length (st_error_msg st) < 256 \<and>
     cpu_priv (st_cpu st) < 4 \<and> (st_ram_handle_valid st \<longrightarrow> st_ram_size st = BOOT_RAM_SIZE)"

definition worker_inv :: "vm_worker \<Rightarrow> bool" where
  "worker_inv w \<longleftrightarrow> (\<forall>m. w_cpu w = Some m \<longrightarrow> vm_inv m)"

definition saved_cpu_ok :: "lir list rv64_cpu \<Rightarrow> bool" where
  "saved_cpu_ok c \<longleftrightarrow> cpu_priv c < 4 \<and> cpu_ram_size c = BOOT_RAM_SIZE"

definition rows_inv :: "vm_rows \<Rightarrow> bool" where
  "rows_inv rows \<longleftrightarrow> (\<forall>i row c. rows i = Some row \<longrightarrow> vs_cpu row = Some c \<longrightarrow> saved_cpu_ok c)"

subsection \<open>Every action keeps the invariant\<close>

lemma fresh_inv: "worker_start pid fresh_shared = Inr st \<Longrightarrow> shared_inv st"
  by (auto simp: worker_start_def fresh_shared_def shared_inv_def console_ok_def zero_cpu_def rv64_cpu.defs intro: exI [of _ "0 :: nat"])

lemma client_step_inv: "client_step st st' \<Longrightarrow> shared_inv st \<Longrightarrow> shared_inv st'"
proof (induction rule: client_step.induct)
  case (send st client input)
  let ?b = "st_input_buf (rv64_vm_send client input st)"
  have "?b (if length input > 0 \<and> input ! (length input - 1) \<noteq> 10 \<and> length input < 1022 then length input + 1 else 1023) = 0"
    by (simp add: rv64_vm_send_def ipc_send_def Let_def)
  then have "\<exists>i < 1024. ?b i = 0"
    by (intro exI [of _ "if length input > 0 \<and> input ! (length input - 1) \<noteq> 10 \<and> length input < 1022 then length input + 1 else 1023"]) auto
  with send show ?case by (simp add: shared_inv_def console_ok_def) (simp add: rv64_vm_send_def ipc_send_def Let_def)
next
  case (type st client str)
  have "\<exists>i < 1024. st_input_buf (rv64_vm_type client str st) i = 0"
    by (intro exI [of _ "min (length str) 1023"]) (auto simp: rv64_vm_type_def ipc_send_def Let_def)
  with type show ?case by (simp add: shared_inv_def console_ok_def) (simp add: rv64_vm_type_def ipc_send_def Let_def)
next
  case (poll st alive)
  then show ?case by (auto simp: ipc_poll_def shared_inv_def console_ok_def set_error_msg_def)
next
  case (block_size n st st')
  then show ?case by (auto simp: rv64_vm_jit_block_size_def shared_inv_def console_ok_def split: if_split_asm)
next
  case (disable_op oc st st')
  then show ?case by (auto simp: rv64_vm_jit_disable_op_def Let_def shared_inv_def console_ok_def split: if_split_asm)
next
  case (enable_op oc st st')
  then show ?case by (auto simp: rv64_vm_jit_enable_op_def Let_def shared_inv_def console_ok_def split: if_split_asm)
next
  case (attach_ram st st')
  then show ?case by (auto simp: ensure_frontend_ram_def shared_inv_def console_ok_def split: if_split_asm)
next
  case (clear st st')
  then show ?case by (auto simp: rv64_vm_console_clear_def shared_inv_def console_ok_def)
qed (auto simp: shared_inv_def console_ok_def ipc_send_def ipc_send_ext_def)

lemma truncate_priv [simp]: "cpu_priv (rv64_cpu.truncate m) = cpu_priv m"
  by (simp add: rv64_cpu.defs)

lemma reply_inv: "shared_inv st \<Longrightarrow> worker_inv w \<Longrightarrow> shared_inv (worker_reply w st)"
  by (auto simp: worker_reply_def shared_inv_def console_ok_def worker_inv_def vm_inv_def split: option.split)

lemma vm_inv_frames [simp]:
  "vm_inv (m\<lparr>cpu_dbg := d\<rparr>) = vm_inv m" "vm_inv (m\<lparr>cpu_jit := j\<rparr>) = vm_inv m" "vm_inv (rv64_uart_rx m ch) = vm_inv m"
  by (simp_all add: vm_inv_def tlb_inv_def ram_ok_def rv64_uart_rx_def)

lemma step_config_inv:
  assumes "step_config st m = (st', m')"
  shows "vm_inv m' = vm_inv m" "shared_inv st \<Longrightarrow> shared_inv st'" "st_cmd_arg st' = st_cmd_arg st"
  using assms
  by (auto simp: step_config_def apply_block_size_def apply_disabled_ops_def sync_debug_def Let_def shared_inv_def console_ok_def
      split: option.split_asm if_split_asm prod.split_asm)

lemma run_inv: "rv64_run hf h al m n = Some (k, m') \<Longrightarrow> vm_inv m \<Longrightarrow> vm_inv m'"
  using safe_run.reaches_kept [OF run_reaches] by blast

lemma console_put_inv: "console_put bs st = Some st' \<Longrightarrow> shared_inv st \<Longrightarrow> shared_inv st'"
  using console_put_appends [of st bs] by (auto simp: shared_inv_def)

lemma step_machine_inv:
  assumes "step_machine hf h al st w = Some (st', w')" "shared_inv st" "worker_inv w"
  shows "shared_inv st' \<and> worker_inv w'"
proof (cases "w_cpu w")
  case None
  with assms show ?thesis by (auto simp: step_machine_def shared_inv_def console_ok_def set_error_msg_def)
next
  case (Some m)
  obtain st1 m1 where c: "step_config st m = (st1, m1)" by (metis surj_pair)
  from assms(1) Some c obtain k m2 st2 where run: "rv64_run hf h al m1 (st_cmd_arg st1) = Some (k, m2)"
    and put: "console_put (new_output m1 m2) st1 = Some st2"
    and st': "st' = step_results m1 m2 st2" and w': "w_cpu w' = Some m2"
    by (auto simp: step_machine_def bind_eq_Some_conv split: if_split_asm)
  have "vm_inv m2" using run_inv [OF run] step_config_inv(1) [OF c] assms(3) Some by (simp add: worker_inv_def)
  moreover have "shared_inv st2" using console_put_inv [OF put] step_config_inv(2) [OF c assms(2)] by blast
  ultimately show ?thesis by (simp add: st' worker_inv_def w' step_results_def shared_inv_def console_ok_def)
qed

lemma boot_inv:
  assumes "worker_handle_cmd_boot env tbl st w = Some (st', w')" "shared_inv st" "worker_inv w" "rows_inv (be_state env)"
  shows "shared_inv st' \<and> worker_inv w'"
  using assms(1)
proof (cases rule: boot_cases)
  case (failed msg d st1)
  with assms show ?thesis by (auto simp: boot_fail_def set_error_msg_def shared_inv_def console_ok_def worker_inv_def)
next
  case (booted msg resumed ram0 saved ram disk disk_size)
  have "saved_cpu_ok c" if "saved = Some c" for c
    using booted(2) that assms(4) by (auto simp: boot_restore_def rows_inv_def Let_def split: option.split_asm prod.split_asm if_split_asm)
  then have "\<exists>m. w_cpu w' = Some m \<and> vm_inv m"
    using boot_machine_inv(1) [OF booted(4)] by (auto simp: saved_cpu_ok_def)
  then show ?thesis using booted(5) assms(2) by (auto simp: worker_inv_def set_error_msg_def shared_inv_def console_ok_def)
qed

lemma send_inv: "handle_send st w = Some w' \<Longrightarrow> worker_inv w \<Longrightarrow> worker_inv w'"
proof -
  have "vm_inv (fold (\<lambda>ch m. rv64_uart_rx m ch) bs m) = vm_inv m" for bs and m :: "lir list vm" by (induction bs arbitrary: m) simp_all
  then show "handle_send st w = Some w' \<Longrightarrow> worker_inv w \<Longrightarrow> worker_inv w'"
    by (auto simp: handle_send_def worker_inv_def bind_eq_Some_conv)
qed

lemma debug_inv:
  assumes "handle_debug f st w = (st', w')" "\<And>a b m. vm_inv (f a b m) = vm_inv m" "shared_inv st" "worker_inv w"
  shows "shared_inv st' \<and> worker_inv w'"
  using assms by (auto simp: handle_debug_def shared_inv_def console_ok_def worker_inv_def split: option.split_asm)

lemma handle_step_cases:
  assumes "handle_step hf h al db st w tbl = Some (st', w', tbl')"
  obtains st1 w1 dirty where "step_machine hf h al st w = Some (st1, w1)" "st' = worker_reply w1 st1" "w' = w1\<lparr>w_dirty := dirty\<rparr>"
    "worker_flush_dirty_blocks db (w_disk w1) (w_disk_size w1) (w_dirty w1) tbl = Some (dirty, tbl')"
proof (cases "step_machine hf h al st w")
  case (Some r)
  obtain st1 w1 where r: "r = (st1, w1)" by (cases r)
  show thesis
  proof (cases "worker_flush_dirty_blocks db (w_disk w1) (w_disk_size w1) (w_dirty w1) tbl")
    case fl: (Some f)
    obtain dirty tbl1 where "f = (dirty, tbl1)" by (cases f)
    with assms Some r fl that show thesis by (auto simp: handle_step_def)
  qed (use assms Some r in \<open>simp add: handle_step_def\<close>)
qed (use assms in \<open>simp add: handle_step_def\<close>)

lemma worker_turn_inv:
  assumes "worker_turn hf h al env st w tbl = Some (go, st', w', tbl')" "shared_inv st" "worker_inv w" "rows_inv (be_state env)"
  shows "shared_inv st' \<and> worker_inv w'"
proof -
  have dbg: "vm_inv (set_watchpoint a b m) = vm_inv m" "vm_inv (set_breakpoint a b m) = vm_inv m" for a b and m :: "lir list vm"
    by (simp_all add: set_watchpoint_def set_breakpoint_def)
  show ?thesis
  proof (cases "st_shutdown_requested st")
    case True
    with assms show ?thesis by (simp add: worker_turn_def)
  next
    case run: False
    show ?thesis
    proof (cases "st_cmd st")
      case VM_CMD_BOOT
      with assms run show ?thesis by (auto simp: worker_turn_def bind_eq_Some_conv intro: reply_inv dest!: boot_inv)
    next
      case VM_CMD_STEP
      with assms(1) run have "handle_step hf h al (be_spi env) st w tbl = Some (st', w', tbl')"
        by (cases "handle_step hf h al (be_spi env) st w tbl") (auto simp: worker_turn_def)
      then obtain st1 w1 dirty where sm: "step_machine hf h al st w = Some (st1, w1)"
        and res: "st' = worker_reply w1 st1" "w' = w1\<lparr>w_dirty := dirty\<rparr>"
        by (rule handle_step_cases)
      have "shared_inv st1 \<and> worker_inv w1" using step_machine_inv [OF sm assms(2,3)] .
      moreover have "worker_inv w' = worker_inv w1" by (simp add: res(2) worker_inv_def)
      ultimately show ?thesis by (simp add: res(1) reply_inv)
    next
      case VM_CMD_SEND
      with assms run show ?thesis by (auto simp: worker_turn_def bind_eq_Some_conv intro: reply_inv dest: send_inv)
    next
      case VM_CMD_WATCHPOINT
      with assms run debug_inv [of set_watchpoint st w] dbg show ?thesis
        by (auto simp: worker_turn_def intro: reply_inv split: prod.split_asm)
    next
      case VM_CMD_BREAKPOINT
      with assms run debug_inv [of set_breakpoint st w] dbg show ?thesis
        by (auto simp: worker_turn_def intro: reply_inv split: prod.split_asm)
    qed (use assms run in \<open>auto simp: worker_turn_def intro: reply_inv\<close>)
  qed
qed

lemma save_inv:
  assumes "rv64_vm_state_save db ok (Some st) ram old = Inr (row, st')" "shared_inv st"
  shows "shared_inv st'" "vs_cpu row = Some c \<Longrightarrow> saved_cpu_ok c"
  using assms
  by (auto simp: rv64_vm_state_save_def require_vm_def ensure_frontend_ram_def Let_def shared_inv_def console_ok_def saved_cpu_ok_def
      split: if_split_asm)



end
