(* ===== verification/RV_Service.thy ===== *)
theory RV_Service
  imports RV_Worker
begin

text \<open>
  What the worker does for a session: every command it knows is answered, a step reports what the run did, typed text reaches the guest, and
  the disk of a stepped machine survives the worker.
\<close>

subsection \<open>Answers\<close>

lemma reply_fields:
  "st_cmd (worker_reply w st) = VM_CMD_IDLE" "st_cmd_result (worker_reply w st) = st_cmd_result st"
  "st_cmd_return (worker_reply w st) = st_cmd_return st" "st_error_msg (worker_reply w st) = st_error_msg st"
  "st_console_buf (worker_reply w st) = st_console_buf st" "st_console_pos (worker_reply w st) = st_console_pos st"
  "st_client_latch (worker_reply w st) = st_client_latch st"
  "w_cpu w = Some m \<Longrightarrow> st_client_latch st \<noteq> None \<Longrightarrow> st_cpu (worker_reply w st) = rv64_cpu.truncate m"
  by (auto simp: worker_reply_def split: option.split)

lemma step_config_frame:
  assumes "step_config st m = (st', m')"
  shows "st_console_buf st' = st_console_buf st" "st_console_pos st' = st_console_pos st" "st_client_latch st' = st_client_latch st"
    "cpu_instret m' = cpu_instret m" "cpu_virtio_blk m' = cpu_virtio_blk m" "cpu_uart m' = cpu_uart m"
  using assms
  by (auto simp: step_config_def apply_block_size_def apply_disabled_ops_def sync_debug_def Let_def
      split: option.split_asm if_split_asm prod.split_asm)

lemma turn_step:
  assumes "worker_turn hf h al env st w tbl = Some (go, st', w', tbl')" "st_cmd st = VM_CMD_STEP" "\<not> st_shutdown_requested st"
  shows "go" "handle_step hf h al (be_spi env) st w tbl = Some (st', w', tbl')"
  using assms by (cases "handle_step hf h al (be_spi env) st w tbl"; auto simp: worker_turn_def)+

lemma step_machine_cases:
  assumes "step_machine hf h al st w = Some (st', w')" "w_cpu w = Some m"
  obtains st1 m1 k m2 st2 dirty where "step_config st m = (st1, m1)" "rv64_run hf h al m1 (st_cmd_arg st) = Some (k, m2)"
    "console_put (new_output m1 m2) st1 = Some st2" "dirty_calls (w_dirty w) (new_reports m1 m2) = Some dirty"
    "st' = step_results m1 m2 st2"
    "w' = w\<lparr>w_cpu := Some m2, w_dirty := dirty, w_disk := (if w_disk w = None then None else dev_disk_data (cpu_virtio_blk m2))\<rparr>"
proof -
  obtain st1 m1 where c: "step_config st m = (st1, m1)" by (metis surj_pair)
  obtain k m2 where run: "rv64_run hf h al m1 (st_cmd_arg st1) = Some (k, m2)"
    using assms c by (auto simp: step_machine_def bind_eq_Some_conv split: if_split_asm)
  obtain st2 where put: "console_put (new_output m1 m2) st1 = Some st2"
    using assms c run by (auto simp: step_machine_def bind_eq_Some_conv split: if_split_asm)
  obtain dirty where "dirty_calls (w_dirty w) (new_reports m1 m2) = Some dirty"
    using assms c run put by (auto simp: step_machine_def bind_eq_Some_conv split: if_split_asm)
  with assms c run put that step_config_inv(3) [OF c] show thesis by (simp add: step_machine_def split: if_split_asm)
qed

text \<open>What a session gets for a step, with and without a machine.\<close>

definition step_answer ::
  "host_fp \<Rightarrow> lir_host \<Rightarrow> sljit_alloc \<Rightarrow> SharedVMState \<Rightarrow> vm_worker \<Rightarrow> SharedVMState \<Rightarrow> vm_worker \<Rightarrow> bool" where
  "step_answer hf h al st w st' w' = (case w_cpu w of
     None \<Rightarrow> ipc_result st' = Inl ''LinuxSQL Background Worker Error: VM not initialized in worker'' \<and> w_cpu w' = None
   | Some m \<Rightarrow> \<exists>m1 k m2. m1 = snd (step_config st m) \<and> rv64_run hf h al m1 (st_cmd_arg st) = Some (k, m2) \<and> w_cpu w' = Some m2 \<and>
       ipc_result st' = Inr () \<and> st_cmd_return st' = cpu_instret m2 - cpu_instret m \<and>
       console_text st' = take (nat (CONSOLE_BUF_SIZE - 1)) (console_text st @ new_output m1 m2) \<and>
       (st_client_latch st \<noteq> None \<longrightarrow> st_cpu st' = rv64_cpu.truncate m2))"

text \<open>C11. A step is answered truthfully: when the worker's turn on a step command ends, the session's wait ends; without a machine it gets
  an error, and with one the number of instructions the run retired, the console with the text the guest printed during the run appended (up to the
  size of the buffer), and a copy of the processor the run left.\<close>

theorem step_answered:
  assumes "worker_turn hf h al env st w tbl = Some (go, st', w', tbl')" "st_cmd st = VM_CMD_STEP" "\<not> st_shutdown_requested st"
    and "console_ok st"
  shows "go \<and> ipc_poll alive st' = (True, st') \<and> step_answer hf h al st w st' w'"
proof -
  note hs = turn_step [OF assms(1-3)]
  from hs(2) obtain st1 w1 dirty where sm: "step_machine hf h al st w = Some (st1, w1)"
    and res: "st' = worker_reply w1 st1" "w' = w1\<lparr>w_dirty := dirty\<rparr>" by (rule handle_step_cases)
  have poll: "ipc_poll alive st' = (True, st')" by (simp add: ipc_poll_def res(1) reply_fields)
  have "step_answer hf h al st w st' w'"
  proof (cases "w_cpu w")
    case None
    with sm res show ?thesis by (auto simp: step_answer_def step_machine_def ipc_result_def set_error_msg_def reply_fields)
  next
    case (Some m)
    from sm Some obtain stc m1 k m2 st2 d where c: "step_config st m = (stc, m1)" and run: "rv64_run hf h al m1 (st_cmd_arg st) = Some (k, m2)"
      and put: "console_put (new_output m1 m2) stc = Some st2" and st1: "st1 = step_results m1 m2 st2"
      and w1': "w1 = w\<lparr>w_cpu := Some m2, w_dirty := d, w_disk := (if w_disk w = None then None else dev_disk_data (cpu_virtio_blk m2))\<rparr>"
      by (rule step_machine_cases)
    have w1: "w_cpu w1 = Some m2" by (simp add: w1')
    note fr = step_config_frame [OF c]
    have "console_ok stc" using assms(4) by (simp add: console_ok_def fr)
    from console_put_appends [OF this, of "new_output m1 m2"] put obtain b p where
      st2: "st2 = stc\<lparr>st_console_buf := b, st_console_pos := p\<rparr>"
      and con: "console_text st2 = take (nat (CONSOLE_BUF_SIZE - 1)) (console_text stc @ new_output m1 m2)" by auto
    have "console_text stc = console_text st" "console_text st' = console_text st2"
      by (simp_all add: console_text_def fr res(1) reply_fields st1 step_results_def)
    moreover have "st_client_latch st1 = st_client_latch st" by (simp add: st1 step_results_def st2 fr)
    ultimately show ?thesis using Some run con
      by (auto simp: step_answer_def c res w1 ipc_result_def reply_fields st1 step_results_def fr)
  qed
  with hs(1) poll show ?thesis by blast
qed

text \<open>Every command but the unused \<open>VM_CMD_SAVE\<close> ends the wait of the session that posted it.\<close>

lemma command_answered:
  assumes "worker_turn hf h al env st w tbl = Some (go, st', w', tbl')" "st_cmd st \<noteq> VM_CMD_SAVE"
  shows "fst (ipc_poll alive (if go then st' else fst (worker_exit st' w')))"
proof (cases "go \<and> \<not> st_shutdown_requested st")
  case False
  with assms show ?thesis
    by (cases "st_cmd st") (auto simp: worker_turn_def worker_exit_def ipc_poll_def bind_eq_Some_conv Let_def split: if_split_asm prod.split_asm)
next
  case True
  then have "st_cmd st' = VM_CMD_IDLE"
    using assms
    by (cases "st_cmd st")
      (auto simp: worker_turn_def bind_eq_Some_conv reply_fields Let_def elim!: handle_step_cases split: if_split_asm prod.split_asm)
  with True show ?thesis by (simp add: ipc_poll_def)
qed

theorem save_ignored:
  assumes "st_cmd st = VM_CMD_SAVE" "\<not> st_shutdown_requested st"
  shows "worker_turn hf h al env st w tbl = Some (True, st, w, tbl) \<and> (alive \<longrightarrow> \<not> fst (ipc_poll alive st))"
  using assms by (simp add: worker_turn_def ipc_poll_def)

text \<open>There is room for one command: a second session that posts before the worker looks leaves no trace of the first, neither of its command
  nor of its latch.\<close>

theorem posted_command_lost: "ipc_send c2 cmd2 arg2 (ipc_send c1 cmd1 arg1 st) = ipc_send c2 cmd2 arg2 st"
  by (simp add: ipc_send_def)

subsection \<open>Typed text\<close>

text \<open>What \<open>vm_send\<close> posts reaches the guest's UART byte by byte, with the newline the function adds.\<close>

lemma sent_text_arrives:
  assumes "0 \<notin> set input" "length input < 1022 \<or> st_input_buf st 1022 = 0" "\<not> st_shutdown_requested st" "w_cpu w = Some m"
  shows "\<exists>st' w'. worker_turn hf h al env (rv64_vm_send c input st) w tbl = Some (True, st', w', tbl) \<and>
    w_cpu w' = Some (fold (\<lambda>ch m. rv64_uart_rx m ch) (sent_line input) m) \<and> fst (ipc_poll alive st')"
proof -
  have "input_text (rv64_vm_send c input st) = Some (sent_line input)" using vm_send_text [OF assms(1,2)] .
  moreover have "st_cmd (rv64_vm_send c input st) = VM_CMD_SEND" "\<not> st_shutdown_requested (rv64_vm_send c input st)"
    using assms(3) by (simp_all add: rv64_vm_send_def ipc_send_def Let_def)
  ultimately show ?thesis using assms(4) by (simp add: worker_turn_def handle_send_def ipc_poll_def reply_fields)
qed

subsection \<open>The disk of a stepped machine\<close>

text \<open>The worker's view of its disk: the block the device points to, its size, and a bitmap that together with the table backs it.\<close>

definition disk_attached :: "u64 \<Rightarrow> mem \<Rightarrow> vm_worker \<Rightarrow> blocks \<Rightarrow> bool" where
  "disk_attached sz base w tbl \<longleftrightarrow> (\<exists>m disk d. w_cpu w = Some m \<and> w_disk w = Some disk \<and> w_disk_size w = sz \<and> w_dirty w = Some d \<and>
     dev_disk_data (cpu_virtio_blk m) = Some disk \<and> dev_disk_size (cpu_virtio_blk m) = sz \<and> backed 1 sz base disk d tbl)"

lemma attached_boot:
  assumes "disk_ok sz" "disk_attached sz base w tbl" "w_cpu w = Some m" "w_dirty w = Some d"
    and "dirty_blocks d \<inter> {..< unat (disk_nblocks sz)} = {}" "spi_connect (be_spi env)"
  shows "\<exists>disk disk'. dev_disk_data (cpu_virtio_blk m) = Some disk \<and> boot_disk env 1 tbl sz base = Some disk' \<and> (\<forall>i < sz. disk' i = disk i)"
  using assms clean_restored [OF assms(1)] by (fastforce simp: disk_attached_def boot_disk_def)


subsection \<open>Concrete services\<close>

text \<open>A worker that has booted \<open>disk_vm\<close>, and shared memory with a step posted by session 1.\<close>

definition disk_worker :: vm_worker where
  "disk_worker = \<lparr>w_cpu = Some disk_vm, w_stale = False, w_disk = Some (\<lambda>_. 0), w_disk_size = 4096, w_dirty = Some [0]\<rparr>"

definition step_posted :: SharedVMState where
  "step_posted = send_step 1 100 (demo_shared\<lparr>st_console_pos := 0\<rparr>)"

lemma step_posted_fields: "st_cmd step_posted = VM_CMD_STEP" "\<not> st_shutdown_requested step_posted" "console_ok step_posted"
  "st_cmd_arg step_posted = 100" "st_client_latch step_posted = Some 1" "dbg_debug_halt (cpu_dbg (st_cpu step_posted)) = False"
  by (simp_all add: step_posted_def send_step_def ipc_send_def vm_step_cycles_def demo_shared_def fresh_shared_def console_ok_def
      zero_cpu_def zero_dbg_def rv64_cpu.defs)

lemma disk_worker_attached: "disk_attached 4096 (\<lambda>_. 0) disk_worker []"
  using disk_vm_backed by (simp add: disk_attached_def disk_worker_def disk_vm_def zero_dev_def)

lemma disk_vm_config: "step_config step_posted disk_vm = (step_posted, disk_vm)"
proof -
  have "cpu_dbg disk_vm = zero_dbg" "cpu_jit disk_vm = None" by (simp_all add: disk_vm_def idle_vm_def bare_vm_simps)
  then have "sync_debug step_posted disk_vm = disk_vm" by (simp add: sync_debug_def step_posted_fields zero_dbg_def)
  with \<open>cpu_jit disk_vm = None\<close> show ?thesis by (simp add: step_config_def apply_block_size_def apply_disabled_ops_def)
qed

lemma disk_step:
  obtains st' w' tbl' m' where "handle_step hf h al demo_spi step_posted disk_worker [] = Some (st', w', tbl')" "w_cpu w' = Some m'"
    "dev_mark_dirty (cpu_virtio_blk m')"
proof -
  obtain k m' where run: "rv64_run hf h al disk_vm 100 = Some (k, m')" and blk: "cpu_virtio_blk m' = cpu_virtio_blk disk_vm" by (rule disk_vm_run)
  have dev: "dev_disk_data (cpu_virtio_blk disk_vm) = Some (\<lambda>_. 0)" "dev_mark_dirty (cpu_virtio_blk disk_vm)" by (simp_all add: disk_vm_def)
  obtain st2 where put: "console_put (new_output disk_vm m') step_posted = Some st2"
    using console_put_appends [OF step_posted_fields(3)] by blast
  have "new_reports disk_vm m' = []" by (simp add: new_reports_def blk)
  then have sm: "step_machine hf h al step_posted disk_worker = Some (step_results disk_vm m' st2,
      \<lparr>w_cpu = Some m', w_stale = False, w_disk = Some (\<lambda>_. 0), w_disk_size = 4096, w_dirty = Some [0]\<rparr>)"
    using run put dev by (simp add: step_machine_def disk_worker_def disk_vm_config step_posted_fields(4) blk)
  have "\<exists>r. worker_flush_dirty_blocks demo_spi (Some (\<lambda>_. 0)) 4096 (Some [0]) [] = Some r"
    using worker_flush_loop_backed [OF _ _ disk_vm_backed, of demo_spi 0 0] by (auto simp: worker_flush_dirty_blocks_def demo_spi_def)
  then obtain d tbl' where "worker_flush_dirty_blocks demo_spi (Some (\<lambda>_. 0)) 4096 (Some [0]) [] = Some (d, tbl')" by auto
  with sm dev that [of _ _ tbl' m'] show thesis by (auto simp: handle_step_def blk)
qed


theorem step_answered_witness:
  "\<forall>hf h al alive. \<exists>st' w' tbl'. worker_turn hf h al (demo_env None) step_posted disk_worker [] = Some (True, st', w', tbl') \<and>
     ipc_poll alive st' = (True, st') \<and> step_answer hf h al step_posted disk_worker st' w'"
proof (intro allI)
  fix hf h al alive
  obtain st' w' tbl' where "handle_step hf h al demo_spi step_posted disk_worker [] = Some (st', w', tbl')" by (rule disk_step)
  then have turn: "worker_turn hf h al (demo_env None) step_posted disk_worker [] = Some (True, st', w', tbl')"
    by (simp add: worker_turn_def step_posted_fields demo_env_def)
  from step_answered [OF turn step_posted_fields(1-3), of alive] turn show "\<exists>st' w' tbl'.
      worker_turn hf h al (demo_env None) step_posted disk_worker [] = Some (True, st', w', tbl') \<and>
      ipc_poll alive st' = (True, st') \<and> step_answer hf h al step_posted disk_worker st' w'" by blast
qed

end
