(* ===== verification/RV_Inspect.thy ===== *)
theory RV_Inspect
  imports RV_Service
begin

text \<open>
  The inspection functions of \<open>rv64_pgext.c\<close>: what a session reads of the machine through the processor copy in shared memory and the RAM
  segment (\<open>vm_peek\<close>, \<open>vm_physpeek\<close>, \<open>vm_find\<close>, \<open>vm_translate\<close>), and the event logs it lists. Reading goes through the emulator's own
  load functions, so it may change the copy (its TLB, its counters) and the page tables in RAM; the definitions return both.
\<close>

subsection \<open>The machine as a session sees it\<close>

text \<open>The host pointers in the TLB of the copy are addresses of the worker process. In the model they are offsets from the worker's mapping of
  RAM; \<open>delta\<close> is the distance of the session's mapping from it, so a pointer \<open>p\<close> is at \<open>p - delta\<close> for the session.\<close>

definition rebase_tlb :: "u64 \<Rightarrow> (u64 \<Rightarrow> tlb_entry) \<Rightarrow> u64 \<Rightarrow> tlb_entry" where
  "rebase_tlb d tlb = (\<lambda>i. (tlb i)\<lparr>te_host_base := map_option (\<lambda>p. p + d) (te_host_base (tlb i))\<rparr>)"

definition session_vm :: "u64 \<Rightarrow> SharedVMState \<Rightarrow> mem \<Rightarrow> lir list vm" where
  "session_vm delta st ram =
     (let m = rv64_cpu.extend (st_cpu st) (vm.fields (Some ram) (\<lambda>_. 0) 0 0) in m\<lparr>cpu_tlb := rebase_tlb (- delta) (cpu_tlb m)\<rparr>)"

definition session_done :: "u64 \<Rightarrow> lir list vm \<Rightarrow> SharedVMState \<Rightarrow> SharedVMState" where
  "session_done delta m st = st\<lparr>st_cpu := rv64_cpu.truncate (m\<lparr>cpu_tlb := rebase_tlb delta (cpu_tlb m)\<rparr>)\<rparr>"

text \<open>An inspection in a session: it needs a running worker and RAM, and works on the session's view of the machine. The numbers in
  the messages of the errors are left out.\<close>

definition inspect ::
  "string \<Rightarrow> u64 \<Rightarrow> (lir list vm \<Rightarrow> ((string + 'a) \<times> lir list vm) undef) \<Rightarrow> SharedVMState option \<Rightarrow> mem \<Rightarrow>
   ((string + 'a) \<times> SharedVMState option \<times> mem) undef" where
  "inspect msg delta f shared ram = (case require_vm msg shared of
     Inl e \<Rightarrow> Some (Inl e, shared, ram)
   | Inr st0 \<Rightarrow> (case ensure_frontend_ram (Some st0) of
       Inl e \<Rightarrow> Some (Inl e, shared, ram)
     | Inr st \<Rightarrow> do {
         (r, m) \<leftarrow> f (session_vm delta st ram);
         Some (r, Some (session_done delta m st), the (vm_ram m))
       }))"

subsection \<open>Reading memory\<close>

definition peek_size :: "int \<Rightarrow> bool" where
  "peek_size n \<longleftrightarrow> \<not> (n \<noteq> 1 \<and> n \<noteq> 2 \<and> n \<noteq> 4 \<and> n \<noteq> 8)"

definition rv64_vm_peek :: "u64 \<Rightarrow> u64 \<Rightarrow> int \<Rightarrow> SharedVMState option \<Rightarrow> mem \<Rightarrow> ((string + u64) \<times> SharedVMState option \<times> mem) undef" where
  "rv64_vm_peek delta addr n = inspect ''vm_peek: no VM initialized'' delta (\<lambda>m.
     if \<not> peek_size n then Some (Inl ''vm_peek: size must be 1, 2, 4, or 8'', m)
     else do {
       (r, m1) \<leftarrow> rv64_jit_load m addr (nat n);
       Some (case r of Inl _ \<Rightarrow> Inl ''vm_peek: load fault'' | Inr val \<Rightarrow> Inr val, m1)
     })"

definition rv64_vm_physpeek :: "u64 \<Rightarrow> u64 \<Rightarrow> int \<Rightarrow> SharedVMState option \<Rightarrow> mem \<Rightarrow> ((string + u64) \<times> SharedVMState option \<times> mem) undef" where
  "rv64_vm_physpeek delta paddr n = inspect ''vm_physpeek: no VM initialized'' delta (\<lambda>m.
     if \<not> peek_size n then Some (Inl ''vm_physpeek: size must be 1, 2, 4, or 8'', m)
     else do {
       (r, m1) \<leftarrow> bus_load m paddr (nat n);
       Some (case r of Inl _ \<Rightarrow> Inl ''vm_physpeek: bus fault'' | Inr val \<Rightarrow> Inr val, m1)
     })"

fun physpeek_loop :: "u64 \<Rightarrow> nat \<Rightarrow> nat \<Rightarrow> lir list vm \<Rightarrow> (string \<times> lir list vm) undef" where
  "physpeek_loop paddr 0 i m = Some ([], m)"
| "physpeek_loop paddr (Suc n) i m = do {
     (r, m1) \<leftarrow> bus_load m (paddr + of_nat i) 1;
     let s = (case r of Inl _ \<Rightarrow> ''??'' | Inr val \<Rightarrow> let b = unat (val AND 0xFF) in [hex_digit (b div 16), hex_digit (b mod 16)]);
     (s', m2) \<leftarrow> physpeek_loop paddr n (Suc i) m1;
     Some (s @ (if n > 0 then '' '' else []) @ s', m2)
   }"

definition rv64_vm_physpeek_hex :: "u64 \<Rightarrow> u64 \<Rightarrow> int \<Rightarrow> SharedVMState option \<Rightarrow> mem \<Rightarrow> ((string + string) \<times> SharedVMState option \<times> mem) undef" where
  "rv64_vm_physpeek_hex delta paddr nbytes = inspect ''vm_physpeek_hex: no VM initialized'' delta (\<lambda>m.
     if nbytes \<le> 0 \<or> nbytes > 512 then Some (Inl ''vm_physpeek_hex: nbytes must be 1..512'', m)
     else map_option (\<lambda>(s, m1). (Inr s, m1)) (physpeek_loop paddr (nat nbytes) 0 m))"

subsection \<open>Searching\<close>

text \<open>The loop of \<open>vm_find\<close>, over any way of loading a byte. \<open>i\<close> moves back after a partial match (\<open>i -= match_pos\<close>, then the increment of the
  loop), so it is the start of the attempt, \<open>i - match_pos\<close>, that grows. The result is the offset of the match.\<close>

function find_loop :: "('m \<Rightarrow> u64 \<Rightarrow> (('e + u64) \<times> 'm) undef) \<Rightarrow> u64 \<Rightarrow> u8 list \<Rightarrow> int \<Rightarrow> int \<Rightarrow> nat \<Rightarrow> 'm \<Rightarrow> (u64 option \<times> 'm) undef" where
  "find_loop load start pat len i match_pos m =
     (if i < len then do {
        (r, m1) \<leftarrow> load m (start + of_int i);
        (case r of
           Inl _ \<Rightarrow> find_loop load start pat len (i + 1) 0 m1
         | Inr val \<Rightarrow>
             if match_pos < length pat then
               (if ucast val = pat ! match_pos then
                  (if match_pos + 1 = length pat then Some (Some (start + of_int i - of_nat (length pat) + 1), m1)
                   else find_loop load start pat len (i + 1) (match_pos + 1) m1)
                else if match_pos > 0 then find_loop load start pat len (i - int match_pos + 1) 0 m1
                else find_loop load start pat len (i + 1) match_pos m1)
             else None)
      } else Some (None, m))"
  by pat_completeness auto

termination find_loop
  by (relation "measures [\<lambda>(load, start, pat, len, i, p, m). nat (len - (i - int p)), \<lambda>(load, start, pat, len, i, p, m). length pat - p]")
    auto

declare find_loop.simps [simp del]

definition rv64_vm_find ::
  "u64 \<Rightarrow> u8 list \<Rightarrow> u64 \<Rightarrow> int \<Rightarrow> SharedVMState option \<Rightarrow> mem \<Rightarrow> ((string + u64 option) \<times> SharedVMState option \<times> mem) undef" where
  "rv64_vm_find delta pat start len = inspect ''vm_find: no VM initialized'' delta (\<lambda>m.
     if length pat = 0 \<or> int (length pat) > len then Some (Inr None, m)
     else map_option (\<lambda>(r, m1). (Inr r, m1)) (find_loop (\<lambda>m a. rv64_jit_load m a 1) start pat len 0 0 m))"

subsection \<open>Explaining a translation\<close>

text \<open>The columns of \<open>vm_translate\<close>; a missing value is null. The list has the entries from level 2 downwards, each with its value and
  flags if it could be read.\<close>

record translation =
  xl_mode :: u64
  xl_satp_ppn :: "u64 option"
  xl_vpn :: "(u64 \<times> u64 \<times> u64 \<times> u64) option"
  xl_ptes :: "(u64 \<times> (u64 \<times> string) option) list"
  xl_leaf_level :: "int option"
  xl_phys_addr :: "u64 option"
  xl_reason :: "string option"

definition pte_flags :: "u64 \<Rightarrow> string" where
  "pte_flags pte = map (\<lambda>(k, c). if pte AND shl 1 k \<noteq> 0 then c else CHR ''-'') (zip [0 ..< 8] ''VRWXUGAD'')"

definition store_reason :: "u8 \<Rightarrow> u64 \<Rightarrow> u64 \<Rightarrow> string" where
  "store_reason priv mstatus pte =
     (if pte AND PTE_W = 0 then ''no write permission (flags='' @ pte_flags pte @ '')''
      else if priv = PRIV_U \<and> pte AND PTE_U = 0 then ''user access to supervisor page''
      else if priv = PRIV_S \<and> pte AND PTE_U \<noteq> 0 \<and> mstatus AND MSTATUS_SUM = 0 then ''supervisor access to user page (SUM=0)''
      else ''OK'')"

fun explain_walk :: "u64 \<Rightarrow> 'c vm \<Rightarrow> u64 \<Rightarrow> nat \<Rightarrow> translation \<Rightarrow> (translation \<times> 'c vm) undef" where
  "explain_walk vaddr m pt_addr 0 x = Some (x, m)"
| "explain_walk vaddr m pt_addr (Suc level) x = do {
     let pte_addr = pt_addr + vpn_part vaddr level * 8;
     (r, m1) \<leftarrow> bus_load m pte_addr 8;
     (case r of
        Inl _ \<Rightarrow> Some (x\<lparr>xl_ptes := xl_ptes x @ [(pte_addr, None)], xl_reason := Some ''bus fault reading PTE''\<rparr>, m1)
      | Inr pte \<Rightarrow>
          let x1 = x\<lparr>xl_ptes := xl_ptes x @ [(pte_addr, Some (pte, pte_flags pte))]\<rparr>;
              rwx = pte AND (PTE_R OR PTE_W OR PTE_X) in
          if pte AND PTE_V = 0 then Some (x1\<lparr>xl_reason := Some (''PTE invalid at level '' @ dec_digits level)\<rparr>, m1)
          else if rwx = PTE_W \<or> rwx = (PTE_W OR PTE_X) then Some (x1\<lparr>xl_reason := Some ''reserved RWX bits''\<rparr>, m1)
          else if rwx \<noteq> 0 then
            (let ppn = shr pte 10; pg_off = vaddr AND 0xFFF;
                 pa = (if level = 2 then shl ppn 12 OR shl (vpn_part vaddr 1) 21 OR shl (vpn_part vaddr 0) 12 OR pg_off
                       else if level = 1 then shl (shr ppn 9) 21 OR shl (vpn_part vaddr 0) 12 OR pg_off
                       else shl ppn 12 OR pg_off)
             in Some (x1\<lparr>xl_leaf_level := Some (int level), xl_phys_addr := Some pa,
                         xl_reason := Some (store_reason (cpu_priv m1) (cpu_mstatus m1) pte)\<rparr>, m1))
          else explain_walk vaddr m1 (shl (shr pte 10 AND 0xFFFFFFFFFFF) 12) level
                 (if level = 0 then x1\<lparr>xl_reason := Some ''no leaf found (ran out of levels)''\<rparr> else x1))
   }"

definition explain :: "u64 \<Rightarrow> 'c vm \<Rightarrow> (translation \<times> 'c vm) undef" where
  "explain vaddr m =
     (let mode = shr (cpu_satp m) 60;
          none = \<lparr>xl_mode = mode, xl_satp_ppn = None, xl_vpn = None, xl_ptes = [], xl_leaf_level = None, xl_phys_addr = None, xl_reason = None\<rparr> in
      if mode = 0
      then Some (none\<lparr>xl_leaf_level := Some (- 1), xl_phys_addr := Some vaddr, xl_reason := Some ''bare mode (identity)''\<rparr>, m)
      else if cpu_priv m = 3
      then Some (none\<lparr>xl_leaf_level := Some (- 1), xl_phys_addr := Some vaddr, xl_reason := Some ''M-mode (no translation)''\<rparr>, m)
      else (let satp_ppn = cpu_satp m AND 0xFFFFFFFFFFF in
        explain_walk vaddr m (shl satp_ppn 12) 3
          (none\<lparr>xl_satp_ppn := Some satp_ppn, xl_vpn := Some (vpn_part vaddr 2, vpn_part vaddr 1, vpn_part vaddr 0, vaddr AND 0xFFF)\<rparr>)))"

definition rv64_vm_translate :: "u64 \<Rightarrow> u64 \<Rightarrow> SharedVMState option \<Rightarrow> mem \<Rightarrow> ((string + translation) \<times> SharedVMState option \<times> mem) undef" where
  "rv64_vm_translate delta vaddr = inspect ''vm_translate: no VM initialized'' delta
     (\<lambda>m. map_option (\<lambda>(x, m1). (Inr x, m1)) (explain vaddr m))"

subsection \<open>The search finds the first occurrence\<close>

text \<open>A source of bytes: loading at an address of \<open>A\<close> succeeds with the byte there, or faults where there is none, and keeps the
  invariant of the source.\<close>

locale byte_source =
  fixes load :: "'m \<Rightarrow> u64 \<Rightarrow> (('e + u64) \<times> 'm) undef" and inv :: "'m \<Rightarrow> bool" and byte :: "u64 \<Rightarrow> u8 option" and A :: "u64 \<Rightarrow> bool"
  assumes load_byte: "inv m \<Longrightarrow> A a \<Longrightarrow>
    \<exists>r m'. load m a = Some (r, m') \<and> inv m' \<and> (case byte a of None \<Rightarrow> \<exists>e. r = Inl e | Some b \<Rightarrow> \<exists>v. r = Inr v \<and> ucast v = b)"
begin

definition occurs :: "u64 \<Rightarrow> u8 list \<Rightarrow> int \<Rightarrow> bool" where
  "occurs start pat k \<longleftrightarrow> (\<forall>j < length pat. byte (start + of_int (k + int j)) = Some (pat ! j))"

definition first_at :: "u64 \<Rightarrow> u8 list \<Rightarrow> int \<Rightarrow> u64 option \<Rightarrow> bool" where
  "first_at start pat len r \<longleftrightarrow> (case r of
     None \<Rightarrow> \<forall>k. 0 \<le> k \<longrightarrow> k + int (length pat) \<le> len \<longrightarrow> \<not> occurs start pat k
   | Some a \<Rightarrow> \<exists>k. 0 \<le> k \<and> k + int (length pat) \<le> len \<and> a = start + of_int k \<and> occurs start pat k \<and>
       (\<forall>k'. 0 \<le> k' \<longrightarrow> k' < k \<longrightarrow> \<not> occurs start pat k'))"

lemma not_occurs: "j < length pat \<Longrightarrow> byte (start + of_int (k + int j)) \<noteq> Some (pat ! j) \<Longrightarrow> \<not> occurs start pat k"
  by (auto simp: occurs_def)

lemma find_loop_first:
  assumes "inv m" "\<forall>i. 0 \<le> i \<longrightarrow> i < len \<longrightarrow> A (start + of_int i)" "p < length pat" "int p \<le> i" "i \<le> len"
    and "\<forall>j < p. byte (start + of_int (i - int p + int j)) = Some (pat ! j)"
    and "\<forall>k. 0 \<le> k \<longrightarrow> k < i - int p \<longrightarrow> \<not> occurs start pat k"
  shows "\<exists>r m'. find_loop load start pat len i p m = Some (r, m') \<and> inv m' \<and> first_at start pat len r"
  using assms
proof (induction "(nat (len - (i - int p)), length pat - p)" arbitrary: i p m rule: wf_induct_rule [OF wf_lex_prod [OF wf_less wf_less]])
  case (1 i p m)
  note IH = 1(1) and prems = 1(2-)
  show ?case
  proof (cases "i < len")
    case False
    then have "\<not> occurs start pat k" if "0 \<le> k" "k + int (length pat) \<le> len" for k
      using prems that by (auto simp: first_at_def)
    moreover have "find_loop load start pat len i p m = Some (None, m)" using False by (subst find_loop.simps) simp
    ultimately show ?thesis using prems(1) by (simp add: first_at_def)
  next
    case True
    let ?a = "start + of_int i"
    obtain r m1 where ld: "load m ?a = Some (r, m1)" and m1: "inv m1"
      and r: "case byte ?a of None \<Rightarrow> \<exists>e. r = Inl e | Some b \<Rightarrow> \<exists>v. r = Inr v \<and> ucast v = b"
      using load_byte [OF prems(1), of ?a] prems True by auto
    have ne: "pat \<noteq> []" using prems(3) by auto
    note step = find_loop.simps [of load start pat len i p m]
    have here: "\<not> occurs start pat (i - int p)" if "byte ?a \<noteq> Some (pat ! p)"
      using not_occurs [of p pat start "i - int p"] prems that by simp
    show ?thesis
    proof (cases "byte ?a")
      case None
      then obtain e where e: "r = Inl e" using r by auto
      have "\<not> occurs start pat k" if k: "0 \<le> k" "k < i + 1" for k
      proof (cases "k < i - int p")
        case False
        then have "nat (i - k) < length pat" "k + int (nat (i - k)) = i" using prems k by auto
        with None show ?thesis using not_occurs [of "nat (i - k)" pat start k] by simp
      qed (use prems k in blast)
      with IH [of "i + 1" 0 m1] m1 prems True ne show ?thesis by (simp add: step ld e)
    next
      case (Some b)
      then obtain v where v: "r = Inr v" "ucast v = b" using r by auto
      consider (full) "b = pat ! p" "p + 1 = length pat" | (more) "b = pat ! p" "p + 1 < length pat" | (fail) "b \<noteq> pat ! p"
        using prems by fastforce
      then show ?thesis
      proof cases
        case full
        have "byte (start + of_int (i - int p + int j)) = Some (pat ! j)" if "j < length pat" for j
        proof (cases "j = p")
          case True
          then show ?thesis using Some full by simp
        next
          case False
          then show ?thesis using that full prems by auto
        qed
        then have occ: "occurs start pat (i - int p)" by (simp add: occurs_def)
        have len: "i - int p + int (length pat) \<le> len" "length pat = Suc p" using full True by auto
        have "start + of_int i - of_nat (length pat) + 1 = start + of_int (i - int p)" by (simp add: len)
        then show ?thesis using full occ prems True len m1 v
          by (auto simp: step ld first_at_def intro!: exI [of _ "i - int p"])
      next
        case more
        have "\<forall>j < p + 1. byte (start + of_int (i + 1 - int (p + 1) + int j)) = Some (pat ! j)"
        proof (intro allI impI)
          fix j assume "j < p + 1"
          then show "byte (start + of_int (i + 1 - int (p + 1) + int j)) = Some (pat ! j)"
            using prems Some more by (cases "j = p") auto
        qed
        with IH [of "i + 1" "p + 1" m1] m1 prems True more show ?thesis by (simp add: step ld v)
      next
        case fail
        have no: "\<forall>k. 0 \<le> k \<longrightarrow> k < i - int p + 1 \<longrightarrow> \<not> occurs start pat k"
        proof (intro allI impI)
          fix k assume "0 \<le> k" "k < i - int p + 1"
          then show "\<not> occurs start pat k" using prems here Some fail by (cases "k = i - int p") auto
        qed
        have "find_loop load start pat len i p m = find_loop load start pat len (i - int p + 1) 0 m1"
          using fail True prems(3) by (simp add: step ld v)
        with IH [of "i - int p + 1" 0 m1] m1 prems True no ne show ?thesis by simp
      qed
    qed
  qed
qed

end

subsection \<open>Addresses that read without a walk\<close>

text \<open>With a TLB entry that permits the read, or without paging in RAM, a load of one byte changes nothing but the counters.\<close>

definition settled :: "'c vm \<Rightarrow> u64 \<Rightarrow> bool" where
  "settled m a \<longleftrightarrow> (if fast_load_ok m a ACCESS_READ then frame_ok m a else \<not> paging_on m \<and> ram_hit (cpu_ram_size m) a)"

definition byte_at :: "'c vm \<Rightarrow> u64 \<Rightarrow> u8" where
  "byte_at m a = the (vm_ram m) ((if fast_load_ok m a ACCESS_READ then tlb_pa (tlb_slot m a) a else a) - RAM_BASE)"

lemma settled_prof [simp]:
  "settled (m\<lparr>cpu_prof := p\<rparr>) a = settled m a" "byte_at (m\<lparr>cpu_prof := p\<rparr>) a = byte_at m a" "tlb_inv (m\<lparr>cpu_prof := p\<rparr>) = tlb_inv m"
  by (simp_all add: settled_def byte_at_def fast_load_ok_def tlb_slot_def frame_ok_def paging_on_def tlb_inv_def ram_ok_def)

lemma byte_not_crossing: "\<not> crosses_page a 1"
proof -
  have "unat a mod 4096 < 4096" by simp
  then have "\<not> 4096 < unat a mod 4096 + 1" by linarith
  then show ?thesis by (simp add: crosses_page_iff)
qed

lemma load_one_byte: "load_le ram p (Suc 0) = ucast (ram p)"
  by (simp add: load_le_def read_bytes_def)

lemma byte_of_word: "ucast (ucast (b :: u8) :: u64) = b"
  by (rule bit_word_eqI) (auto simp: bit_simps dest: bit_imp_le_length)

lemma settled_load:
  assumes "tlb_inv m" "settled m a"
  shows "\<exists>p. rv64_jit_load m a 1 = Some (Inr (ucast (byte_at m a)), m\<lparr>cpu_prof := p\<rparr>)"
proof (cases "fast_load_ok m a ACCESS_READ")
  case True
  then obtain base where te: "te_valid (tlb_slot m a)" "te_vpn (tlb_slot m a) = shr a 12" "te_host_base (tlb_slot m a) = Some base"
    by (auto simp: fast_load_ok_def Let_def)
  have "frame_ok m a" using assms(2) True by (simp add: settled_def)
  note page = host_page_access [OF assms(1) this te, of 1]
  obtain ram where ram: "vm_ram m = Some ram" using tlb_inv_ram [OF assms(1)] by blast
  show ?thesis using True page te ram byte_not_crossing
    by (auto simp: rv64_jit_load_def rv64_cpu_load_def Let_def bus_size_def byte_at_def load_one_byte
        intro!: exI [of _ "prof_tlb_hits_update (\<lambda>n. n + 1) (cpu_prof m)"])
next
  case False
  with assms have "\<not> paging_on m" and hit: "ram_hit (cpu_ram_size m) a" and ok: "ram_ok m" by (auto simp: settled_def tlb_inv_def)
  then have tr: "rv64_translate m a ACCESS_READ = Some (Inr a, m)" by (auto simp: rv64_translate_def paging_on_def)
  have "unat a mod 4096 < 4096" by simp
  then have "unat a mod 4096 + 1 \<le> 4096" by linarith
  from ram_page_in_block [OF ok hit this] ok obtain ram where "vm_ram m = Some ram" "in_block (cpu_ram_size m) (a - RAM_BASE) 1"
    by (auto simp: ram_ok_def)
  then show ?thesis using False tr hit byte_not_crossing
    by (auto simp: rv64_jit_load_def rv64_cpu_load_def cpu_load_slow_def bus_load_ram ram_load_def bus_size_def byte_at_def load_one_byte
        intro!: exI [of _ "cpu_prof m"])
qed

interpretation guest: byte_source "\<lambda>m a. rv64_jit_load m a 1" "\<lambda>m. tlb_inv (m0 :: lir list vm) \<and> (\<exists>p. m = m0\<lparr>cpu_prof := p\<rparr>)"
  "\<lambda>a. Some (byte_at m0 a)" "settled m0"
proof
  fix m a
  assume m: "tlb_inv m0 \<and> (\<exists>p. m = m0\<lparr>cpu_prof := p\<rparr>)" and a: "settled m0 a"
  then obtain p where p: "m = m0\<lparr>cpu_prof := p\<rparr>" by blast
  from settled_load [of m a] m a p obtain q where "rv64_jit_load m a 1 = Some (Inr (ucast (byte_at m0 a)), m0\<lparr>cpu_prof := q\<rparr>)" by auto
  with m show "\<exists>r m'. rv64_jit_load m a 1 = Some (r, m') \<and> (tlb_inv m0 \<and> (\<exists>p. m' = m0\<lparr>cpu_prof := p\<rparr>)) \<and>
      (case Some (byte_at m0 a) of None \<Rightarrow> \<exists>e. r = Inl e | Some b \<Rightarrow> \<exists>v. r = Inr v \<and> ucast v = b)"
    by (intro exI [of _ "Inr (ucast (byte_at m0 a))"] exI [of _ "m0\<lparr>cpu_prof := q\<rparr>"]) (auto simp: byte_of_word simp del: unsigned_ucast_eq)
qed

definition pattern_at :: "'c vm \<Rightarrow> u64 \<Rightarrow> u8 list \<Rightarrow> int \<Rightarrow> bool" where
  "pattern_at m start pat k \<longleftrightarrow> (\<forall>j < length pat. byte_at m (start + of_int (k + int j)) = pat ! j)"

lemma guest_occurs: "guest.occurs m = pattern_at m"
  by (intro ext) (simp add: guest.occurs_def pattern_at_def)

text \<open>A session that can inspect: the worker is ready and RAM has been announced.\<close>

definition session_ready :: "SharedVMState \<Rightarrow> bool" where
  "session_ready st \<longleftrightarrow> st_worker_ready st \<and> st_ram_handle_valid st"

definition attached :: "SharedVMState \<Rightarrow> SharedVMState" where
  "attached st = st\<lparr>st_cpu := (st_cpu st)\<lparr>cpu_ram_size := st_ram_size st\<rparr>\<rparr>"

lemma inspect_ready:
  "session_ready st \<Longrightarrow> inspect msg delta f (Some st) ram = do {
     (r, m) \<leftarrow> f (session_vm delta (attached st) ram);
     Some (r, Some (session_done delta m (attached st)), the (vm_ram m))
   }"
  by (simp add: inspect_def require_vm_def ensure_frontend_ram_def session_ready_def attached_def)

lemma session_vm_ram: "vm_ram (session_vm delta st ram) = Some ram"
  by (simp add: session_vm_def Let_def vm.defs rv64_cpu.defs)


text \<open>The witness: a machine without paging and a pattern at offset 5 of RAM.\<close>

definition look_st :: SharedVMState where
  "look_st = fresh_shared\<lparr>st_worker_ready := True, st_ram_handle_valid := True, st_ram_size := BOOT_RAM_SIZE\<rparr>"

definition look_ram :: mem where
  "look_ram = (\<lambda>_. 0)(5 := 7, 6 := 7, 7 := 8)"

lemma look_ram_bytes: "look_ram 0 = 0" "look_ram 1 = 0" "look_ram 2 = 0" "look_ram 3 = 0" "look_ram 4 = 0" "look_ram 5 = 7" "look_ram 6 = 7" "look_ram 7 = 8"
  by (simp_all add: look_ram_def)

lemma look_ready: "session_ready look_st"
  by (simp add: session_ready_def look_st_def)

lemma look_vm:
  defines "m \<equiv> session_vm 0 (attached look_st) look_ram"
  shows "tlb_inv m" "\<not> fast_load_ok m a acc" "\<not> paging_on m" "cpu_ram_size m = BOOT_RAM_SIZE" "vm_ram m = Some look_ram"
  by (simp_all add: m_def session_vm_def attached_def look_st_def fresh_shared_def zero_cpu_def rv64_cpu.defs vm.defs Let_def rebase_tlb_def
      tlb_inv_def ram_ok_def tlb_entry_ok_def zero_tlb_entry_def fast_load_ok_def tlb_slot_def paging_on_def dvd_def)

lemma look_settled: "0 \<le> i \<Longrightarrow> i < 16 \<Longrightarrow> settled (session_vm 0 (attached look_st) look_ram) (RAM_BASE + of_int i)"
proof -
  assume "0 \<le> i" "i < 16"
  then obtain n where n: "i = int n" "n < 16" by (metis nonneg_int_cases of_nat_less_numeral_iff)
  then have "unat (RAM_BASE + of_int i :: u64) = 0x80000000 + n" by (simp add: unat_word_ariths unat_of_nat)
  with n show ?thesis by (simp add: settled_def look_vm ram_hit_iff)
qed


subsection \<open>The explanation is that of the emulator\<close>

lemma pte_bus_load:
  assumes "ram_ok m" "pte_in_ram m a"
  shows "bus_load m a 8 = Some (Inr (ram_pte m a), m)"
  using pte_in_ram_test [OF assms] assms by (auto simp: bus_load_ram ram_load_def ram_pte_def ram_ok_def pte_in_ram_def bus_size_def)

lemma store_reason_ok:
  "store_reason priv mstatus pte = ''OK'' \<longleftrightarrow> priv_ok priv mstatus (pte AND PTE_U \<noteq> 0) \<and> leaf_access_ok mstatus ACCESS_WRITE pte"
  by (auto simp: store_reason_def priv_ok_def leaf_access_ok_def)

lemma explain_walk_path:
  assumes "sv39_path (ram_pte m) v pt n level a pte" "ram_ok m" "tables_in_ram m v pt n"
  shows "\<exists>x'. explain_walk v m pt n x = Some (x', m) \<and> xl_leaf_level x' = Some (int level) \<and>
    xl_phys_addr x' = Some (leaf_pa level pte v) \<and> xl_reason x' = Some (store_reason (cpu_priv m) (cpu_mstatus m) pte)"
  using assms
proof (induction arbitrary: x rule: sv39_path.induct)
  case (path_leaf a pt level pte)
  then show ?case by (auto simp: Let_def pte_bus_load pte_bad_def pte_rwx_def leaf_pa_def)
next
  case (path_next ptr pt level l a pte)
  then show ?case by (auto simp: Let_def pte_bus_load pte_bad_def pte_rwx_def)
qed

lemma explain_walk_no_path:
  assumes "\<nexists>level a pte. sv39_path (ram_pte m) v pt n level a pte" "ram_ok m" "tables_in_ram m v pt n" "xl_reason x \<noteq> Some ''OK''"
  shows "\<exists>x'. explain_walk v m pt n x = Some (x', m) \<and> xl_phys_addr x' = xl_phys_addr x \<and> xl_reason x' \<noteq> Some ''OK''"
  using assms
proof (induction n arbitrary: pt x)
  case 0
  then show ?case by simp
next
  case (Suc level)
  let ?pte = "ram_pte m (pt + vpn_part v level * 8)"
  have "pte_bad ?pte \<or> pte_rwx ?pte = 0"
    using Suc.prems(1) path_leaf [OF refl refl, of "ram_pte m" pt v level] by blast
  moreover have "\<nexists>l a pte. sv39_path (ram_pte m) v (shl (shr ?pte 10 AND 0xFFFFFFFFFFF) PAGE_SHIFT) level l a pte"
    if "\<not> pte_bad ?pte" "pte_rwx ?pte = 0"
    using Suc.prems(1) path_next [where rd = "ram_pte m" and pt = pt and v = v, OF refl that] by blast
  moreover have rd: "bus_load m (pt + vpn_part v level * 8) 8 = Some (Inr ?pte, m)" using Suc.prems by (simp add: Let_def pte_bus_load)
  ultimately consider (invalid) "?pte AND PTE_V = 0" | (reserved) "pte_rwx ?pte = PTE_W \<or> pte_rwx ?pte = (PTE_W OR PTE_X)" "?pte AND PTE_V \<noteq> 0"
    | (deeper) "\<not> pte_bad ?pte" "pte_rwx ?pte = 0" "\<nexists>l a pte. sv39_path (ram_pte m) v (shl (shr ?pte 10 AND 0xFFFFFFFFFFF) PAGE_SHIFT) level l a pte"
    unfolding pte_bad_def by blast
  then show ?case
  proof cases
    case deeper
    with Suc.prems(3) have tables: "tables_in_ram m v (shl (shr ?pte 10 AND 0xFFFFFFFFFFF) PAGE_SHIFT) level" by (simp add: Let_def)
    let ?a = "pt + vpn_part v level * 8" and ?pt = "shl (shr ?pte 10 AND 0xFFFFFFFFFFF) PAGE_SHIFT"
    let ?x = "x\<lparr>xl_ptes := xl_ptes x @ [(?a, Some (?pte, pte_flags ?pte))]\<rparr>"
    let ?y = "if level = 0 then ?x\<lparr>xl_reason := Some ''no leaf found (ran out of levels)''\<rparr> else ?x"
    have "explain_walk v m pt (Suc level) x = explain_walk v m ?pt level ?y"
      using deeper(1,2) rd by (simp add: Let_def pte_bad_def pte_rwx_def)
    moreover have "xl_reason ?y \<noteq> Some ''OK''" "xl_phys_addr ?y = xl_phys_addr x" using Suc.prems(4) by simp_all
    ultimately show ?thesis using Suc.IH [OF deeper(3) Suc.prems(2) tables, of ?y] by metis
  qed (simp_all add: Let_def rd pte_rwx_def)
qed


text \<open>What it does not check.\<close>

theorem vm_translate_misaligned:
  assumes "paging_on m" "\<not> tlb_hit m v ACCESS_WRITE" "ram_ok m" "tables_in_ram m v (satp_root (cpu_satp m)) 3"
    and "sv39_path (ram_pte m) v (satp_root (cpu_satp m)) 3 level a pte" "\<not> leaf_aligned level pte"
    and "priv_ok (cpu_priv m) (cpu_mstatus m) (pte AND PTE_U \<noteq> 0)" "pte AND PTE_W \<noteq> 0"
  shows "\<exists>x m'. explain v m = Some (x, m) \<and> xl_reason x = Some ''OK'' \<and> rv64_translate m v ACCESS_WRITE = Some (Inl EXC_STORE_PAGE_FAULT, m')"
proof -
  let ?f = "\<lambda>p. p\<lparr>prof_tlb_misses := prof_tlb_misses p + 1, prof_mmu_walks := prof_mmu_walks p + 1\<rparr>" and ?pt = "satp_root (cpu_satp m)"
  obtain x0 where x0: "explain v m = explain_walk v m ?pt 3 x0" using assms(1) by (auto simp: explain_def paging_on_def Let_def satp_root_def)
  have tr: "rv64_translate m v ACCESS_WRITE = sv39_walk v ACCESS_WRITE (cpu_prof_update ?f m) ?pt 3"
    using assms(1,2) by (simp add: rv64_translate_def paging_on_def)
  have "store_reason (cpu_priv m) (cpu_mstatus m) pte = ''OK''" using assms(7,8) by (simp add: store_reason_ok leaf_access_ok_def)
  with explain_walk_path [OF assms(5,3,4), of x0] sv39_walk_path [OF assms(5,3,4), of ACCESS_WRITE ?f] assms(6) show ?thesis
    by (auto simp: x0 tr leaf_ok_def fault_code_def)
qed

text \<open>The witness: the address space of \<open>pt_vm\<close> with a writable page.\<close>

definition walk_st :: SharedVMState where
  "walk_st = fresh_shared\<lparr>st_worker_ready := True, st_ram_handle_valid := True, st_ram_size := 0x10000,
     st_cpu := (st_cpu fresh_shared)\<lparr>cpu_priv := PRIV_S, cpu_satp := 0x8000000000080000\<rparr>\<rparr>"

lemma walk_vm:
  defines "m \<equiv> session_vm 0 (attached walk_st) (pt_ram 0x20000CC7)"
  shows "paging_on m" "\<not> tlb_hit m v acc" "ram_ok m" "tables_in_ram m 0 (satp_root (cpu_satp m)) 3"
    "sv39_path (ram_pte m) 0 (satp_root (cpu_satp m)) 3 0 0x80002000 0x20000CC7" "cpu_priv m = 1"
proof -
  have m: "cpu_priv m = 1" "cpu_satp m = 0x8000000000080000" "vm_ram m = Some (pt_ram 0x20000CC7)" "cpu_ram_size m = 0x10000"
    by (simp_all add: m_def session_vm_def attached_def walk_st_def rv64_cpu.defs vm.defs Let_def)
  have "\<not> te_valid (tlb_slot m v)" for v
    by (simp add: m_def session_vm_def attached_def walk_st_def fresh_shared_def zero_cpu_def zero_tlb_entry_def rebase_tlb_def tlb_slot_def
        rv64_cpu.defs vm.defs Let_def)
  then show "\<not> tlb_hit m v acc" by (simp add: tlb_hit_def Let_def)
  have root: "satp_root (cpu_satp m) = 0x80000000" by (simp add: m satp_root_def)
  have leaf: "\<not> pte_bad 0x20000CC7" "pte_rwx 0x20000CC7 \<noteq> 0" by (simp_all add: pte_bad_def pte_rwx_def)
  show "cpu_priv m = 1" by (rule m)
  show "paging_on m" by (simp add: paging_on_def m)
  show "ram_ok m" by (simp add: ram_ok_def m dvd_def)
  have same: "ram_pte m = ram_pte (pt_vm 0x20000CC7)" "pte_in_ram m = pte_in_ram (pt_vm 0x20000CC7)"
    by (intro ext, simp add: ram_pte_def pte_in_ram_def m)+
  have "tables_in_ram m v pt n = tables_in_ram (pt_vm 0x20000CC7) v pt n" for v pt n
    by (induction n arbitrary: pt) (simp_all add: same Let_def)
  then show "tables_in_ram m 0 (satp_root (cpu_satp m)) 3" using pt_vm_tables by (simp add: root)
  show "sv39_path (ram_pte m) 0 (satp_root (cpu_satp m)) 3 0 0x80002000 0x20000CC7"
    using pt_vm_path [OF leaf] by (simp add: same root)
qed


end
