(* ===== verification/RV_Session.thy ===== *)
theory RV_Session
  imports RV_Inspect
begin

text \<open>
  The SQL functions of \<open>rv64_pgext.c\<close> that drive the machine: each posts a command, waits for the worker and returns what it left. Here a
  session is alone with its worker, so a posted command meets the worker's next turn; \<open>RV_Worker\<close> has the system with any number of sessions.
\<close>

subsection \<open>Sending and waiting\<close>

text \<open>Shared memory, worker and the table of blocks.\<close>

type_synonym service = "SharedVMState \<times> vm_worker \<times> blocks"

text \<open>One exchange: the command is posted, the worker takes a turn (and leaves its loop if the turn says so), and the session reads the result.\<close>

definition ipc_exchange ::
  "host_fp \<Rightarrow> lir_host \<Rightarrow> sljit_alloc \<Rightarrow> boot_env \<Rightarrow> (SharedVMState \<Rightarrow> SharedVMState) \<Rightarrow> service \<Rightarrow> ((string + unit) \<times> service) undef" where
  "ipc_exchange hf h al env post s = (case s of (st, w, tbl) \<Rightarrow>
     if \<not> st_worker_ready st then Some (Inl ''VM is not running. Launch background worker first.'', s)
     else do {
       (go, st1, w1, tbl1) \<leftarrow> worker_turn hf h al env (post st) w tbl;
       let (st2, w2) = (if go then (st1, w1) else worker_exit st1 w1);
       Some (ipc_result st2, st2, w2, tbl1)
     })"

definition ipc_send_and_wait ::
  "host_fp \<Rightarrow> lir_host \<Rightarrow> sljit_alloc \<Rightarrow> boot_env \<Rightarrow> nat \<Rightarrow> VmIPCCommand \<Rightarrow> u64 \<Rightarrow> service \<Rightarrow> ((string + unit) \<times> service) undef" where
  "ipc_send_and_wait hf h al env client cmd arg = ipc_exchange hf h al env (ipc_send client cmd arg)"

definition ipc_send_and_wait_ext ::
  "host_fp \<Rightarrow> lir_host \<Rightarrow> sljit_alloc \<Rightarrow> boot_env \<Rightarrow> nat \<Rightarrow> VmIPCCommand \<Rightarrow> u64 \<Rightarrow> u64 \<Rightarrow> service \<Rightarrow> ((string + unit) \<times> service) undef" where
  "ipc_send_and_wait_ext hf h al env client cmd arg arg_ext = ipc_exchange hf h al env (ipc_send_ext client cmd arg arg_ext)"

text \<open>The result of a function that reads shared memory after the exchange.\<close>

definition ipc_return :: "(SharedVMState \<Rightarrow> 'a) \<Rightarrow> ((string + unit) \<times> service) undef \<Rightarrow> ((string + 'a) \<times> service) undef" where
  "ipc_return f = map_option (\<lambda>(r, s). (case r of Inl e \<Rightarrow> Inl e | Inr _ \<Rightarrow> Inr (f (fst s)), s))"

subsection \<open>The functions\<close>

text \<open>A worker that is ready is used; otherwise a new one is started over new shared memory, if the server can.\<close>

definition launch_native_worker :: "bool \<Rightarrow> bool \<Rightarrow> int \<Rightarrow> (SharedVMState \<times> vm_worker) option \<Rightarrow> string + (SharedVMState \<times> vm_worker)" where
  "launch_native_worker dsm_ok register_ok pid cur =
     (if cur \<noteq> None \<and> st_worker_ready (fst (the cur)) then Inr (the cur)
      else if \<not> dsm_ok then Inl ''Failed to allocate dynamic shared memory for VM.''
      else if \<not> register_ok then Inl ''Failed to launch dynamic background worker for VM.''
      else (case worker_start pid fresh_shared of Inl e \<Rightarrow> Inl e | Inr st \<Rightarrow> Inr (st, new_worker)))"

definition rv64_vm_boot_from_db ::
  "host_fp \<Rightarrow> lir_host \<Rightarrow> sljit_alloc \<Rightarrow> boot_env \<Rightarrow> bool \<Rightarrow> bool \<Rightarrow> int \<Rightarrow> nat \<Rightarrow> u64 option \<Rightarrow> (SharedVMState \<times> vm_worker) option \<Rightarrow> blocks \<Rightarrow>
   (string + string \<times> service) undef" where
  "rv64_vm_boot_from_db hf h al env dsm_ok register_ok pid client vm_id cur tbl = (case launch_native_worker dsm_ok register_ok pid cur of
     Inl e \<Rightarrow> Some (Inl e)
   | Inr (st, w) \<Rightarrow> do {
       (r, s) \<leftarrow> ipc_return st_error_msg (ipc_send_and_wait hf h al env client VM_CMD_BOOT (case vm_id of None \<Rightarrow> 1 | Some i \<Rightarrow> i) (st, w, tbl));
       Some (case r of Inl e \<Rightarrow> Inl e | Inr msg \<Rightarrow> Inr (msg, s))
     })"

definition rv64_vm_step ::
  "host_fp \<Rightarrow> lir_host \<Rightarrow> sljit_alloc \<Rightarrow> boot_env \<Rightarrow> nat \<Rightarrow> u64 \<Rightarrow> service \<Rightarrow> ((string + u64) \<times> service) undef" where
  "rv64_vm_step hf h al env client cycles s =
     ipc_return st_cmd_return (ipc_send_and_wait hf h al env client VM_CMD_STEP (vm_step_cycles cycles) s)"

definition rv64_vm_watchpoint ::
  "host_fp \<Rightarrow> lir_host \<Rightarrow> sljit_alloc \<Rightarrow> boot_env \<Rightarrow> nat \<Rightarrow> u64 \<Rightarrow> int option \<Rightarrow> service \<Rightarrow> ((string + unit) \<times> service) undef" where
  "rv64_vm_watchpoint hf h al env client addr sz s = (case require_vm ''vm_watchpoint: no VM initialized'' (Some (fst s)) of
     Inl e \<Rightarrow> Some (Inl e, s)
   | Inr _ \<Rightarrow> ipc_send_and_wait_ext hf h al env client VM_CMD_WATCHPOINT addr (of_int (case sz of None \<Rightarrow> 4 | Some n \<Rightarrow> n)) s)"

definition rv64_vm_breakpoint ::
  "host_fp \<Rightarrow> lir_host \<Rightarrow> sljit_alloc \<Rightarrow> boot_env \<Rightarrow> nat \<Rightarrow> u64 \<Rightarrow> bool \<Rightarrow> service \<Rightarrow> ((string + unit) \<times> service) undef" where
  "rv64_vm_breakpoint hf h al env client pc halt s = (case require_vm ''vm_breakpoint: no VM initialized'' (Some (fst s)) of
     Inl e \<Rightarrow> Some (Inl e, s)
   | Inr _ \<Rightarrow> ipc_send_and_wait_ext hf h al env client VM_CMD_BREAKPOINT pc (if halt then 1 else 0) s)"

definition set_debug_halt :: "bool \<Rightarrow> SharedVMState \<Rightarrow> SharedVMState" where
  "set_debug_halt b st = st\<lparr>st_cpu := (st_cpu st)\<lparr>cpu_dbg := (cpu_dbg (st_cpu st))\<lparr>dbg_debug_halt := b\<rparr>\<rparr>\<rparr>"

definition rv64_vm_resume :: "SharedVMState option \<Rightarrow> string + SharedVMState" where
  "rv64_vm_resume shared = (case require_vm ''vm_resume: no VM initialized'' shared of
     Inl e \<Rightarrow> Inl e
   | Inr st \<Rightarrow> Inr (set_debug_halt False st))"

text \<open>\<open>vm_halt\<close> stops the worker, clears the console and detaches; it writes to shared memory without asking whether the session is attached to any, which is
  undefined where it is not. The processor, RAM and disk pointers of the session are null.\<close>

definition rv64_vm_halt ::
  "host_fp \<Rightarrow> lir_host \<Rightarrow> sljit_alloc \<Rightarrow> boot_env \<Rightarrow> nat \<Rightarrow> service option \<Rightarrow> ((string + unit) \<times> service) undef" where
  "rv64_vm_halt hf h al env client s = (case s of
     None \<Rightarrow> None
   | Some (st, w, tbl) \<Rightarrow> do {
       (r, st1, w1, tbl1) \<leftarrow> (if st_worker_ready st then ipc_send_and_wait hf h al env client VM_CMD_HALT 0 (st, w, tbl) else Some (Inr (), st, w, tbl));
       (case r of
          Inl e \<Rightarrow> Some (Inl e, st1, w1, tbl1)
        | Inr _ \<Rightarrow> Some (Inr (), st1\<lparr>st_console_pos := 0\<rparr>, w1, tbl1))
     })"

text \<open>\<open>vm_reset\<close> deletes the saved state of machine 1 and clears the console.\<close>

definition rv64_vm_reset :: "vm_rows \<Rightarrow> SharedVMState option \<Rightarrow> (vm_rows \<times> SharedVMState) undef" where
  "rv64_vm_reset rows shared = map_option (\<lambda>st. (rows(1 := None), st\<lparr>st_console_pos := 0\<rparr>)) shared"

subsection \<open>Running until a text appears\<close>

text \<open>The scan of the console from a little before the place where the last scan ended.\<close>

definition console_match :: "u8 list \<Rightarrow> SharedVMState \<Rightarrow> int \<Rightarrow> bool" where
  "console_match pat st i \<longleftrightarrow> map (\<lambda>k. st_console_buf st (nat i + k)) [0 ..< length pat] = pat"

definition console_scan :: "u8 list \<Rightarrow> int \<Rightarrow> SharedVMState \<Rightarrow> bool" where
  "console_scan pat search_from st =
     (let scan = (if search_from \<ge> int (length pat) then search_from - int (length pat) else search_from)
      in \<exists>i \<in> set [scan .. st_console_pos st - int (length pat)]. console_match pat st i)"

abbreviation (input) STEP_BATCH :: u64 where "STEP_BATCH \<equiv> 50000000"

text \<open>The first number counts the iterations left, the second those done. The result: whether the text was found, and the number of iterations.\<close>

fun step_until_loop ::
  "host_fp \<Rightarrow> lir_host \<Rightarrow> sljit_alloc \<Rightarrow> boot_env \<Rightarrow> nat \<Rightarrow> u8 list \<Rightarrow> nat \<Rightarrow> nat \<Rightarrow> int \<Rightarrow> service \<Rightarrow> ((string + bool \<times> nat) \<times> service) undef" where
  "step_until_loop hf h al env client pat 0 iterations search_from s = Some (Inr (False, iterations), s)"
| "step_until_loop hf h al env client pat (Suc n) iterations search_from s =
     (if cpu_error (st_cpu (fst s)) then Some (Inr (False, iterations), s)
      else do {
        (r, s1) \<leftarrow> ipc_send_and_wait hf h al env client VM_CMD_STEP STEP_BATCH s;
        (case r of
           Inl e \<Rightarrow> Some (Inl e, s1)
         | Inr _ \<Rightarrow>
             let st1 = fst s1 in
             if dbg_debug_halt (cpu_dbg (st_cpu st1)) then Some (Inr (False, iterations + 1), s1)
             else if st_console_pos st1 > search_from \<and> length pat > 0 then
               (if console_scan pat search_from st1 then Some (Inr (True, iterations + 1), set_debug_halt True st1, snd s1)
                else step_until_loop hf h al env client pat n (iterations + 1) (st_console_pos st1) s1)
             else step_until_loop hf h al env client pat n (iterations + 1) search_from s1)
      })"

definition max_iterations :: "u64 option \<Rightarrow> nat" where
  "max_iterations max_cycles = nat (sint (case max_cycles of None \<Rightarrow> 500000000 | Some c \<Rightarrow> c) sdiv 50000000 + 1)"

record until_row =
  ur_found :: bool
  ur_cycles :: int
  ur_instret :: u64
  ur_snippet :: "u8 list"

definition rv64_vm_step_until ::
  "host_fp \<Rightarrow> lir_host \<Rightarrow> sljit_alloc \<Rightarrow> boot_env \<Rightarrow> nat \<Rightarrow> u8 list \<Rightarrow> u64 option \<Rightarrow> service \<Rightarrow> ((string + until_row) \<times> service) undef" where
  "rv64_vm_step_until hf h al env client pat max_cycles s =
     (case require_vm ''vm_step_until: no VM initialized via background worker'' (Some (fst s)) of
        Inl e \<Rightarrow> Some (Inl e, s)
      | Inr st0 \<Rightarrow> do {
          (r, s1) \<leftarrow> step_until_loop hf h al env client pat (max_iterations max_cycles) 0 (st_console_pos st0) s;
          (case r of
             Inl e \<Rightarrow> Some (Inl e, s1)
           | Inr (found, iterations) \<Rightarrow>
               let st = fst s1; pos = st_console_pos st; len = (if pos > 200 then 200 else pos); start = (if pos > len then pos - len else 0) in
               Some (Inr \<lparr>ur_found = found, ur_cycles = int iterations * 50000000, ur_instret = cpu_instret (st_cpu st),
                 ur_snippet = map (\<lambda>k. st_console_buf st (nat start + k)) [0 ..< nat len]\<rparr>, s1))
        })"

subsection \<open>What is found\<close>

text \<open>The console only grows: a step appends to it until it is full.\<close>

lemma take_append_prefix: "length xs \<le> n \<Longrightarrow> \<exists>ys'. take n (xs @ ys) = xs @ ys'"
  by simp

lemma console_text_length: "console_ok st \<Longrightarrow> int (length (console_text st)) = st_console_pos st"
  by (simp add: console_text_def console_ok_def)

lemma step_turn_console:
  assumes "worker_turn hf h al env st w tbl = Some (go, st', w', tbl')" "st_cmd st = VM_CMD_STEP" "console_ok st"
  shows "console_ok st' \<and> (\<exists>ys. console_text st' = console_text st @ ys)"
proof (cases "st_shutdown_requested st")
  case True
  with assms show ?thesis by (simp add: worker_turn_def)
next
  case False
  from turn_step(2) [OF assms(1,2) False] obtain st1 w1 dirty where sm: "step_machine hf h al st w = Some (st1, w1)"
    and st': "st' = worker_reply w1 st1" by (rule handle_step_cases)
  show ?thesis
  proof (cases "w_cpu w")
    case None
    with sm assms(3) st' show ?thesis
      by (auto simp: step_machine_def console_ok_def console_text_def reply_fields set_error_msg_def)
  next
    case (Some m)
    from sm Some obtain stc m1 k m2 st2 d where c: "step_config st m = (stc, m1)"
      and put: "console_put (new_output m1 m2) stc = Some st2" and st1: "st1 = step_results m1 m2 st2" by (rule step_machine_cases)
    note fr = step_config_frame [OF c]
    have ok: "console_ok stc" and tx: "console_text stc = console_text st" using assms(3) by (simp_all add: console_ok_def console_text_def fr)
    have len: "length (console_text st) \<le> nat (CONSOLE_BUF_SIZE - 1)" using assms(3) by (auto simp: console_text_def console_ok_def)
    from console_put_appends [OF ok, of "new_output m1 m2"] put
    have "console_ok st2" "console_text st2 = take (nat (CONSOLE_BUF_SIZE - 1)) (console_text st @ new_output m1 m2)" by (auto simp: tx)
    then show ?thesis using take_append_prefix [OF len, of "new_output m1 m2"] st1 st'
      by (simp add: console_ok_def console_text_def reply_fields step_results_def)
  qed
qed

lemma step_exchange_console:
  assumes "ipc_send_and_wait hf h al env c VM_CMD_STEP arg (st, w, tbl) = Some (r, s1)" "console_ok st"
  shows "console_ok (fst s1) \<and> (\<exists>ys. console_text (fst s1) = console_text st @ ys)"
proof (cases "st_worker_ready st")
  case False
  with assms show ?thesis by (auto simp: ipc_send_and_wait_def ipc_exchange_def)
next
  case True
  then obtain go st1 w1 tbl1 where turn: "worker_turn hf h al env (ipc_send c VM_CMD_STEP arg st) w tbl = Some (go, st1, w1, tbl1)"
    and s1: "fst s1 = (if go then st1 else fst (worker_exit st1 w1))"
    using assms(1) by (cases "worker_exit (fst (snd (the (worker_turn hf h al env (ipc_send c VM_CMD_STEP arg st) w tbl))))
        (fst (snd (snd (the (worker_turn hf h al env (ipc_send c VM_CMD_STEP arg st) w tbl)))))")
      (auto simp: ipc_send_and_wait_def ipc_exchange_def bind_eq_Some_conv Let_def split: if_split_asm)
  have "console_ok (ipc_send c VM_CMD_STEP arg st)" "console_text (ipc_send c VM_CMD_STEP arg st) = console_text st"
    "st_cmd (ipc_send c VM_CMD_STEP arg st) = VM_CMD_STEP"
    using assms(2) by (simp_all add: ipc_send_def console_ok_def console_text_def)
  with step_turn_console [OF turn] show ?thesis
    by (auto simp: s1 worker_exit_def console_ok_def console_text_def)
qed

definition text_at :: "u8 list \<Rightarrow> u8 list \<Rightarrow> nat \<Rightarrow> bool" where
  "text_at pat txt p \<longleftrightarrow> p + length pat \<le> length txt \<and> take (length pat) (drop p txt) = pat"

lemma text_at_prefix: "p + length pat \<le> length xs \<Longrightarrow> text_at pat (xs @ ys) p = text_at pat xs p"
  by (simp add: text_at_def)

lemma console_match_at:
  assumes "console_ok st" "int p + int (length pat) \<le> st_console_pos st"
  shows "console_match pat st (int p) \<longleftrightarrow> text_at pat (console_text st) p"
proof -
  have "take (length pat) (drop p (console_text st)) = map (\<lambda>k. st_console_buf st (p + k)) [0 ..< length pat]"
    using assms by (intro nth_equalityI) (auto simp: console_text_def console_ok_def)
  moreover have "p + length pat \<le> length (console_text st)" using assms by (simp add: console_text_def)
  ultimately show ?thesis by (simp add: console_match_def text_at_def)
qed

lemma console_scan_iff:
  assumes "console_ok st" "int (length pat) \<le> from"
  shows "console_scan pat from st \<longleftrightarrow> (\<exists>p. from \<le> int (p + length pat) \<and> text_at pat (console_text st) p)"
proof
  assume "console_scan pat from st"
  then obtain i where i: "from - int (length pat) \<le> i" "i + int (length pat) \<le> st_console_pos st" "console_match pat st i"
    using assms(2) by (auto simp: console_scan_def Let_def)
  then obtain p where p: "i = int p" using assms(2) nonneg_int_cases [of i] by auto
  then have "text_at pat (console_text st) p" using console_match_at [OF assms(1), of p pat] i by simp
  moreover have "from \<le> int (p + length pat)" using i(1) p by simp
  ultimately show "\<exists>p. from \<le> int (p + length pat) \<and> text_at pat (console_text st) p" by blast
next
  assume "\<exists>p. from \<le> int (p + length pat) \<and> text_at pat (console_text st) p"
  then obtain p where p: "from \<le> int (p + length pat)" "text_at pat (console_text st) p" by blast
  then have "int p + int (length pat) \<le> st_console_pos st"
    using console_text_length [OF assms(1)] by (simp add: text_at_def)
  with p show "console_scan pat from st" using console_match_at [OF assms(1), of p pat] assms(2)
    by (auto simp: console_scan_def Let_def intro!: bexI [of _ "int p"])
qed

lemma step_until_loop_finds:
  assumes "step_until_loop hf h al env c pat n iters (st_console_pos (fst s)) s = Some (Inr (found, k), s')"
    and "console_ok (fst s)" "pat \<noteq> []" "int (length pat) \<le> b" "b \<le> st_console_pos (fst s)"
    and "\<forall>p. b < int (p + length pat) \<longrightarrow> \<not> text_at pat (console_text (fst s)) p"
  shows "k \<le> iters + n \<and> console_ok (fst s') \<and> (if found
    then dbg_debug_halt (cpu_dbg (st_cpu (fst s'))) \<and> (\<exists>p. b \<le> int (p + length pat) \<and> text_at pat (console_text (fst s')) p)
    else dbg_debug_halt (cpu_dbg (st_cpu (fst s'))) \<or> (\<forall>p. b < int (p + length pat) \<longrightarrow> \<not> text_at pat (console_text (fst s')) p))"
  using assms
proof (induction n arbitrary: iters s)
  case 0
  then show ?case by auto
next
  case (Suc n)
  obtain st w tbl where s: "s = (st, w, tbl)" by (metis prod_cases3)
  show ?case
  proof (cases "cpu_error (st_cpu st)")
    case True
    with Suc.prems show ?thesis by (auto simp: s)
  next
    case False
    with Suc.prems(1) obtain r s1 where ex0: "ipc_send_and_wait hf h al env c VM_CMD_STEP STEP_BATCH s = Some (r, s1)"
      by (auto simp: s bind_eq_Some_conv)
    have "r = Inr ()" using Suc.prems(1) False ex0 by (cases r) (auto simp: s)
    with ex0 have ex: "ipc_send_and_wait hf h al env c VM_CMD_STEP STEP_BATCH s = Some (Inr (), s1)" by simp
    from step_exchange_console [of hf h al env c STEP_BATCH st w tbl "Inr ()" s1] ex Suc.prems(2)
    obtain ys where ok1: "console_ok (fst s1)" and ys: "console_text (fst s1) = console_text st @ ys" by (auto simp: s)
    have pos: "int (length (console_text st)) = st_console_pos st" "int (length (console_text (fst s1))) = st_console_pos (fst s1)"
      using console_text_length Suc.prems(2) ok1 by (simp_all add: s)
    have le: "st_console_pos st \<le> st_console_pos (fst s1)" using pos ys by (metis length_append of_nat_le_iff trans_le_add1 le_refl)
    let ?st1 = "fst s1"
    have new: "\<forall>p. b < int (p + length pat) \<longrightarrow> \<not> text_at pat (console_text ?st1) p"
      if "st_console_pos ?st1 > st_console_pos st \<longrightarrow> \<not> console_scan pat (st_console_pos st) ?st1"
    proof (intro allI impI notI)
      fix p assume p: "b < int (p + length pat)" "text_at pat (console_text ?st1) p"
      show False
      proof (cases "st_console_pos ?st1 > st_console_pos st \<and> st_console_pos st \<le> int (p + length pat)")
        case True
        then show False using that p console_scan_iff [OF ok1, of pat "st_console_pos st"] Suc.prems(4,5) by (auto simp: s)
      next
        case False
        then have "p + length pat \<le> length (console_text st)" using pos le p(2) by (auto simp: text_at_def)
        then show False using text_at_prefix [of p pat "console_text st" ys] p ys Suc.prems(6) by (simp add: s)
      qed
    qed
    consider (halt) "dbg_debug_halt (cpu_dbg (st_cpu ?st1))"
      | (hit) "\<not> dbg_debug_halt (cpu_dbg (st_cpu ?st1))" "st_console_pos ?st1 > st_console_pos st" "console_scan pat (st_console_pos st) ?st1"
      | (miss) "\<not> dbg_debug_halt (cpu_dbg (st_cpu ?st1))" "st_console_pos ?st1 > st_console_pos st \<longrightarrow> \<not> console_scan pat (st_console_pos st) ?st1"
      by blast
    then show ?thesis
    proof cases
      case halt
      with Suc.prems(1) False ex ok1 show ?thesis by (auto simp: s)
    next
      case hit
      then obtain p where p: "st_console_pos st \<le> int (p + length pat)" "text_at pat (console_text ?st1) p"
        using console_scan_iff [OF ok1, of pat "st_console_pos st"] Suc.prems(4,5) by (auto simp: s)
      have res: "found" "k = iters + 1" "s' = (set_debug_halt True ?st1, snd s1)" using Suc.prems(1,3) False ex hit by (auto simp: s)
      have same: "console_ok (fst s')" "console_text (fst s') = console_text ?st1" "dbg_debug_halt (cpu_dbg (st_cpu (fst s')))"
        using ok1 by (simp_all add: res set_debug_halt_def console_ok_def console_text_def)
      have "b \<le> int (p + length pat)" using p(1) Suc.prems(5) by (simp add: s)
      with p(2) same res(1,2) show ?thesis by auto
    next
      case miss
      have "step_until_loop hf h al env c pat n (iters + 1) (st_console_pos ?st1) s1 = Some (Inr (found, k), s')"
      proof (cases "st_console_pos ?st1 > st_console_pos st")
        case True
        then show ?thesis using Suc.prems(1,3) False ex miss by (auto simp: s)
      next
        case no: False
        then have "st_console_pos ?st1 = st_console_pos st" using le by simp
        then show ?thesis using Suc.prems(1) False ex miss by (auto simp: s)
      qed
      moreover have "b \<le> st_console_pos ?st1" "iters + 1 + n = iters + Suc n" using Suc.prems(5) le by (simp_all add: s)
      ultimately show ?thesis using Suc.IH [OF _ ok1 Suc.prems(3,4) _ new [OF miss(2)], of "iters + 1"] by metis
    qed
  qed
qed


text \<open>The witness: an idle machine, one batch, and a console that ends in the pattern already.\<close>

definition idle_worker :: vm_worker where
  "idle_worker = \<lparr>w_cpu = Some idle_vm, w_stale = False, w_disk = None, w_disk_size = 0, w_dirty = None\<rparr>"

definition until_st :: SharedVMState where
  "until_st = fresh_shared\<lparr>st_worker_ready := True, st_console_pos := 1, st_console_buf := (\<lambda>_. 0)(0 := 65)\<rparr>"

lemma dirty_calls_None: "dirty_calls None rs = Some None"
  by (induction rs) (auto simp: vm_dirty_callback_def)

lemma idle_exchange:
  obtains s where "ipc_send_and_wait hf h al env c VM_CMD_STEP STEP_BATCH (until_st, idle_worker, tbl) = Some (Inr (), s)"
proof -
  let ?st = "ipc_send c VM_CMD_STEP STEP_BATCH until_st"
  have fields: "st_cmd ?st = VM_CMD_STEP" "\<not> st_shutdown_requested ?st" "console_ok ?st" "st_cmd_arg ?st = STEP_BATCH" "st_worker_ready until_st"
    "dbg_debug_halt (cpu_dbg (st_cpu ?st)) = False"
    by (simp_all add: until_st_def fresh_shared_def ipc_send_def console_ok_def zero_cpu_def zero_dbg_def rv64_cpu.defs)
  have "cpu_dbg idle_vm = zero_dbg" "cpu_jit idle_vm = None" by (simp_all add: idle_vm_def bare_vm_simps)
  then have conf: "step_config ?st idle_vm = (?st, idle_vm)"
    by (simp add: step_config_def sync_debug_def apply_block_size_def apply_disabled_ops_def fields(6) zero_dbg_def)
  obtain k m where run: "rv64_run hf h al idle_vm STEP_BATCH = Some (k, m)"
    using run_idle [OF idle_vm_idle(1,2), of STEP_BATCH hf h al] by (auto simp: idle_vm_idle)
  obtain st2 where put: "console_put (new_output idle_vm m) ?st = Some st2" using console_put_appends [OF fields(3)] by blast
  have "step_machine hf h al ?st idle_worker = Some (step_results idle_vm m st2, idle_worker\<lparr>w_cpu := Some m\<rparr>)"
    using run put by (simp add: step_machine_def idle_worker_def conf fields(4) dirty_calls_None)
  then have "worker_turn hf h al env ?st idle_worker tbl =
      Some (True, worker_reply (idle_worker\<lparr>w_cpu := Some m\<rparr>) (step_results idle_vm m st2), idle_worker\<lparr>w_cpu := Some m\<rparr>, tbl)"
    by (simp add: worker_turn_def fields(1,2) handle_step_def worker_flush_dirty_blocks_def idle_worker_def)
  with that show thesis by (simp add: ipc_send_and_wait_def ipc_exchange_def fields(5) ipc_result_def reply_fields step_results_def)
qed


text \<open>Early in a session the scan does not go back over the seam, and a pattern that one batch begins and the next ends is missed. Later it goes back
  one place too far: a pattern that stood there before counts as found.\<close>

definition seam_st :: SharedVMState where
  "seam_st = fresh_shared\<lparr>st_console_pos := 2, st_console_buf := (\<lambda>_. 0)(0 := 65, 1 := 66)\<rparr>"

theorem step_until_misses_seam: "text_at [65, 66] (console_text seam_st) 0 \<and> \<not> console_scan [65, 66] 1 seam_st"
  by (simp add: text_at_def console_text_def seam_st_def console_scan_def upt_rec numeral_2_eq_2)

theorem step_until_finds_old: "console_scan [65] 1 seam_st \<and> \<not> text_at [65] (drop 1 (console_text seam_st)) 0"
proof -
  have "console_match [65] seam_st 0" by (simp add: console_match_def seam_st_def)
  then have "console_scan [65] 1 seam_st" by (auto simp: console_scan_def seam_st_def intro!: bexI [of _ 0])
  then show ?thesis by (simp add: text_at_def console_text_def seam_st_def numeral_2_eq_2)
qed

theorem vm_halt_detached: "rv64_vm_halt hf h al env c None = None"
  by (simp add: rv64_vm_halt_def)

end
