(* ===== verification/RV_Logs.thy ===== *)
theory RV_Logs
  imports RV_Session
begin

text \<open>
  The event logs of the processor and the SQL functions that list them: \<open>vm_trap_log\<close>, \<open>vm_watch_log\<close>, \<open>vm_break_log\<close>, \<open>vm_inst_log\<close>,
  \<open>vm_console_instret\<close> and \<open>vm_profile_guest\<close>. Each log is a ring with a counter of all its events; the reader lists the last ones, oldest first.

  A log represents its history, the list of everything recorded so far (\<open>ring_rep\<close>). A locale states what a recorder does to its ring, is
  interpreted on the five recorders, and gives that the listing is the end of the history. A set-returning function is
  the list of its rows over one state of the shared memory.
\<close>

subsection \<open>Columns and rows\<close>

text \<open>A column value as \<open>Int32GetDatum\<close>, \<open>Int64GetDatum\<close>, \<open>BoolGetDatum\<close>, \<open>CStringGetTextDatum\<close>, \<open>Float4GetDatum\<close> and \<open>Float8GetDatum\<close> make it;
  a floating point number is its bit pattern.\<close>

datatype datum = Int4 u32 | Int8 u64 | Bool bool | Text string | Float4 u32 | Float8 u64

subsection \<open>Reading a ring\<close>

text \<open>The number of rows and the first slot, as every reader computes them from the counter. A negative counter would be taken for a huge
  number of rows.\<close>

definition ring_count :: "int \<Rightarrow> nat \<Rightarrow> nat undef" where
  "ring_count n k = (if n > int k then Some k else if n < 0 then None else Some (nat n))"

definition ring_start :: "int \<Rightarrow> nat \<Rightarrow> nat" where
  "ring_start n k = (if n > int k then nat (n mod int k) else 0)"

definition ring_entry :: "int \<Rightarrow> nat \<Rightarrow> (nat \<Rightarrow> 'a) \<Rightarrow> nat \<Rightarrow> 'a" where
  "ring_entry n k f i = f ((ring_start n k + i) mod k)"

subsection \<open>The readers\<close>

definition watch_row :: "int \<Rightarrow> (nat \<Rightarrow> dbg_store) \<Rightarrow> nat \<Rightarrow> datum list" where
  "watch_row n f i = (let e = ring_entry n DBG_STORE_LOG_SIZE f i in
     [Int4 (of_int (if n > int DBG_STORE_LOG_SIZE then n - int DBG_STORE_LOG_SIZE + int i else int i)),
      Int8 (st_pc e), Int8 (st_addr e), Int8 (st_value e), Int4 (st_size e), Int8 (st_instret e)])"

definition rv64_vm_watch_log :: "SharedVMState option \<Rightarrow> datum list list undef" where
  "rv64_vm_watch_log shared = (case require_vm [] shared of
     Inl _ \<Rightarrow> Some []
   | Inr st \<Rightarrow>
       let d = cpu_dbg (st_cpu st); n = dbg_store_log_count d in
       map_option (\<lambda>rows. map (watch_row n (dbg_store_log d)) [0..<rows]) (ring_count n DBG_STORE_LOG_SIZE))"

text \<open>\<open>snprintf\<close> of all registers, each followed by a blank; the last blank becomes the terminator.\<close>

definition regs_hex :: "(u32 \<Rightarrow> u64) \<Rightarrow> string" where
  "regs_hex x = butlast (concat (map (\<lambda>i. fmt_0x 16 (unat (x (of_nat i))) @ '' '') [0..<32]))"

definition break_row :: "int \<Rightarrow> (nat \<Rightarrow> dbg_break) \<Rightarrow> nat \<Rightarrow> datum list" where
  "break_row n f i = (let e = ring_entry n DBG_BREAK_LOG_SIZE f i in
     [Int4 (of_nat i), Int8 (bk_pc e), Int8 (bk_sp e), Int8 (bk_instret e), Text (regs_hex (bk_x e)), Text (regs_hex (bk_f e))])"

definition rv64_vm_break_log :: "SharedVMState option \<Rightarrow> datum list list undef" where
  "rv64_vm_break_log shared = (case require_vm [] shared of
     Inl _ \<Rightarrow> Some []
   | Inr st \<Rightarrow>
       let d = cpu_dbg (st_cpu st); n = dbg_break_log_count d in
       map_option (\<lambda>rows. map (break_row n (dbg_break_log d)) [0..<rows]) (ring_count n DBG_BREAK_LOG_SIZE))"

definition cause_names :: "(u64 \<times> string) list" where
  "cause_names = [(0, ''INSN_MISALIGN''), (1, ''INSN_ACCESS''), (2, ''ILLEGAL_INSN''), (3, ''BREAKPOINT''), (4, ''LOAD_MISALIGN''),
     (5, ''LOAD_ACCESS''), (6, ''STORE_MISALIGN''), (7, ''STORE_ACCESS''), (8, ''ECALL_U''), (9, ''ECALL_S''), (11, ''ECALL_M''),
     (12, ''INSN_PAGE_FAULT''), (13, ''LOAD_PAGE_FAULT''), (15, ''STORE_PAGE_FAULT'')]"

definition cause_name :: "u64 \<Rightarrow> string" where
  "cause_name c = (case map_of cause_names c of None \<Rightarrow> ''UNKNOWN'' | Some s \<Rightarrow> s)"

definition priv_name :: "u8 \<Rightarrow> string" where
  "priv_name p = (if p = 0 then ''U'' else if p = 1 then ''S'' else if p = 3 then ''M'' else ''?'')"

definition fmt_0xlx :: "u64 \<Rightarrow> string" where
  "fmt_0xlx v = snprintf_text 20 (''0x'' @ hex_digits (unat v))"

definition trap_row :: "int \<Rightarrow> dbg_trap \<Rightarrow> datum list" where
  "trap_row sq e =
     [Int4 (of_int sq), Text (cause_name (tl_cause e)), Text (fmt_0xlx (tl_tval e)), Text (fmt_0xlx (tl_pc e)), Text (priv_name (tl_priv e)),
      Int8 (tl_instret e), Int8 (tl_a7 e), Text (fmt_0xlx (tl_a0 e)), Text (fmt_0xlx (tl_a1 e)), Text (fmt_0xlx (tl_a2 e)),
      Text (fmt_0xlx (tl_ret_a0 e)), Text (fmt_0xlx (tl_ret_pc e))]"

text \<open>Here the number of rows is kept as an \<open>int\<close>, so a negative counter gives no rows.\<close>

definition rv64_vm_trap_log :: "SharedVMState option \<Rightarrow> string + datum list list" where
  "rv64_vm_trap_log shared = (case require_vm ''vm_trap_log: no VM initialized'' shared of
     Inl e \<Rightarrow> Inl e
   | Inr st \<Rightarrow>
       let d = cpu_dbg (st_cpu st); n = dbg_trap_log_count d;
           rows = (if n > int DBG_TRAP_LOG_SIZE then int DBG_TRAP_LOG_SIZE else n) in
       Inr (map (\<lambda>i. trap_row (n - rows + int i) (ring_entry n DBG_TRAP_LOG_SIZE (dbg_trap_log d) i)) [0..<nat rows]))"

definition inst_line :: "dbg_inst \<Rightarrow> string" where
  "inst_line e = ''PC=0x'' @ hex_digits (unat (il_pc e)) @ '' insn=0x'' @ fmt_0x 8 (unat (il_insn e)) @
     '' instret='' @ dec_digits (unat (il_instret e)) @ [char_of (10 :: nat)]"

text \<open>\<open>vm_inst_log\<close> tests the shared state without attaching to it first.\<close>

definition rv64_vm_inst_log :: "SharedVMState option \<Rightarrow> string + string" where
  "rv64_vm_inst_log shared = (case require_vm ''vm_inst_log: no VM initialized'' shared of
     Inl e \<Rightarrow> Inl e
   | Inr st \<Rightarrow>
       let d = cpu_dbg (st_cpu st); n = dbg_inst_log_idx d;
           cnt = (if n < int DBG_INST_LOG_SIZE then n else int DBG_INST_LOG_SIZE);
           start = (if n < int DBG_INST_LOG_SIZE then 0 else nat (n mod int DBG_INST_LOG_SIZE)) in
       Inr (''Last instructions:'' @ [char_of (10 :: nat)] @
         concat (map (\<lambda>i. inst_line (dbg_inst_log d ((start + i) mod DBG_INST_LOG_SIZE))) [0..<nat cnt])))"

text \<open>The start of the line that ends before a console position.\<close>

fun line_start :: "(nat \<Rightarrow> u8) \<Rightarrow> nat \<Rightarrow> nat" where
  "line_start buf 0 = 0"
| "line_start buf (Suc i) = (if buf i \<noteq> 10 then line_start buf i else Suc i)"

abbreviation (input) DBG_CONSOLE_LOG_SIZE :: nat where "DBG_CONSOLE_LOG_SIZE \<equiv> 256"

text \<open>The text of a line is at most 500 bytes, up to the first zero byte. Position 0 gives the empty line.\<close>

definition console_line :: "(nat \<Rightarrow> u8) \<Rightarrow> int \<Rightarrow> u8 list" where
  "console_line buf pos =
     (if pos \<le> 0 then []
      else let s = line_start buf (nat pos - 1); len = min 500 (nat pos - s - 1)
           in takeWhile (\<lambda>b. b \<noteq> 0) (map (\<lambda>i. buf (s + i)) [0..<len]))"

definition rv64_vm_console_instret :: "SharedVMState option \<Rightarrow> (nat \<times> u64 \<times> u8 list) list undef" where
  "rv64_vm_console_instret shared = (case shared of
     None \<Rightarrow> Some []
   | Some st \<Rightarrow>
       let d = cpu_dbg (st_cpu st); n = dbg_console_log_count d in
       if n = 0 then Some []
       else map_option (\<lambda>rows. map (\<lambda>i. let e = ring_entry n DBG_CONSOLE_LOG_SIZE (dbg_console_log d) i
                                        in (i, cl_instret e, console_line (st_console_buf st) (cl_console_pos e))) [0..<rows])
              (ring_count n DBG_CONSOLE_LOG_SIZE))"

text \<open>The profile samples, whose counter is unsigned, and their reset in the session's copy.\<close>

definition rv64_vm_profile_guest :: "SharedVMState option \<Rightarrow> datum list list" where
  "rv64_vm_profile_guest shared = (case shared of
     None \<Rightarrow> []
   | Some st \<Rightarrow>
       let p = cpu_prof (st_cpu st); n = prof_perf_sample_idx p;
           rows = (if n > DBG_PERF_LOG_SIZE then DBG_PERF_LOG_SIZE else n);
           start = (if n > DBG_PERF_LOG_SIZE then n mod DBG_PERF_LOG_SIZE else 0) in
       map (\<lambda>i. let e = prof_perf_samples p ((start + of_nat i) mod DBG_PERF_LOG_SIZE)
                in [Int4 (of_nat i), Int8 (ps_pc e), Int8 (ps_ra e), Int8 (ps_fp e)]) [0..<unat rows])"

definition rv64_vm_profile_guest_reset :: "SharedVMState option \<Rightarrow> SharedVMState option" where
  "rv64_vm_profile_guest_reset shared = map_option (\<lambda>st. st\<lparr>st_cpu := (st_cpu st)\<lparr>cpu_prof :=
     (cpu_prof (st_cpu st))\<lparr>prof_perf_sample_idx := 0, prof_perf_sample_tick := 0\<rparr>\<rparr>\<rparr>) shared"

subsection \<open>A ring and its history\<close>

definition ring_rep :: "nat \<Rightarrow> int \<Rightarrow> (nat \<Rightarrow> 'a) \<Rightarrow> 'a list \<Rightarrow> bool" where
  "ring_rep k n f hist \<longleftrightarrow> n = int (length hist) \<and> (\<forall>j. j < length hist \<and> length hist \<le> j + k \<longrightarrow> f (j mod k) = hist ! j)"

definition recent :: "nat \<Rightarrow> 'a list \<Rightarrow> 'a list" where
  "recent k xs = drop (length xs - k) xs"

lemma ring_rep_empty: "ring_rep k 0 f []"
  by (simp add: ring_rep_def)

lemma nat_int_mod [simp]: "nat (int a mod int b) = a mod b"
  by (metis nat_int of_nat_mod)

lemma ring_rep_push:
  assumes "ring_rep k n f hist" "0 < k"
  shows "ring_rep k (n + 1) (f(nat (n mod int k) := e)) (hist @ [e])"
proof -
  have n: "n = int (length hist)" using assms(1) by (simp add: ring_rep_def)
  then have slot: "nat (n mod int k) = length hist mod k" by simp
  have "j mod k \<noteq> length hist mod k" if "j < length hist" "Suc (length hist) \<le> j + k" for j
  proof
    assume "j mod k = length hist mod k"
    then have "k dvd length hist - j" using that(1) by (metis less_imp_le_nat mod_eq_dvd_iff_nat)
    with that show False by (auto dest: dvd_imp_le)
  qed
  then show ?thesis using assms(1) unfolding ring_rep_def slot by (auto simp: n nth_append less_Suc_eq)
qed

lemma ring_rep_listing:
  assumes "ring_rep k n f hist" "0 < k"
  shows "map (ring_entry n k f) [0..<length (recent k hist)] = recent k hist"
proof (rule nth_equalityI)
  fix i assume "i < length (map (ring_entry n k f) [0..<length (recent k hist)])"
  then have i: "i < length hist - (length hist - k)" by (simp add: recent_def)
  define j where "j = length hist - k + i"
  have n: "n = int (length hist)" using assms(1) by (simp add: ring_rep_def)
  have "ring_start n k mod k = (length hist - k) mod k"
  proof (cases "k < length hist")
    case True
    then show ?thesis by (simp add: ring_start_def n le_mod_geq)
  qed (simp add: ring_start_def n)
  then have "(ring_start n k + i) mod k = j mod k" by (metis j_def mod_add_left_eq)
  moreover have "j < length hist" "length hist \<le> j + k" using i by (auto simp: j_def)
  then have "f (j mod k) = hist ! j" using assms(1) unfolding ring_rep_def by blast
  ultimately show "map (ring_entry n k f) [0..<length (recent k hist)] ! i = recent k hist ! i"
    using i by (simp add: ring_entry_def recent_def j_def)
qed simp

lemma ring_rep_count: "ring_rep k n f hist \<Longrightarrow> ring_count n k = Some (length (recent k hist))"
  by (auto simp: ring_rep_def ring_count_def recent_def)

subsection \<open>The recorders\<close>

text \<open>A step of a component that may record an event, and the events of a sequence of steps.\<close>

fun do_all :: "('a \<Rightarrow> 's \<Rightarrow> 's option) \<Rightarrow> 'a list \<Rightarrow> 's \<Rightarrow> 's option" where
  "do_all step [] s = Some s"
| "do_all step (a # as) s = step a s \<bind> do_all step as"

fun events :: "('a \<Rightarrow> 's \<Rightarrow> 's option) \<Rightarrow> ('a \<Rightarrow> 's \<Rightarrow> 'e option) \<Rightarrow> 'a list \<Rightarrow> 's \<Rightarrow> 'e list" where
  "events step entry [] s = []"
| "events step entry (a # as) s =
     (case entry a s of None \<Rightarrow> [] | Some e \<Rightarrow> [e]) @ (case step a s of None \<Rightarrow> [] | Some s' \<Rightarrow> events step entry as s')"

locale recorder =
  fixes k :: nat and arr :: "'s \<Rightarrow> nat \<Rightarrow> 'e" and cnt :: "'s \<Rightarrow> int"
    and step :: "'a \<Rightarrow> 's \<Rightarrow> 's option" and entry :: "'a \<Rightarrow> 's \<Rightarrow> 'e option"
  assumes k_pos: "0 < k"
    and records: "step a s = Some s' \<Longrightarrow> entry a s = Some e \<Longrightarrow> 0 \<le> cnt s \<Longrightarrow>
      cnt s' = cnt s + 1 \<and> arr s' = (arr s)(nat (cnt s mod int k) := e)"
    and silent: "step a s = Some s' \<Longrightarrow> entry a s = None \<Longrightarrow> cnt s' = cnt s \<and> arr s' = arr s"
begin

lemma step_rep:
  assumes "step a s = Some s'" "ring_rep k (cnt s) (arr s) hist"
  shows "ring_rep k (cnt s') (arr s') (hist @ (case entry a s of None \<Rightarrow> [] | Some e \<Rightarrow> [e]))"
proof (cases "entry a s")
  case None
  with silent[OF assms(1)] assms(2) show ?thesis by simp
next
  case (Some e)
  have "0 \<le> cnt s" using assms(2) by (simp add: ring_rep_def)
  from records[OF assms(1) Some this] ring_rep_push[OF assms(2) k_pos, of e] Some show ?thesis by simp
qed

lemma steps_rep:
  "do_all step as s = Some s' \<Longrightarrow> ring_rep k (cnt s) (arr s) hist \<Longrightarrow> ring_rep k (cnt s') (arr s') (hist @ events step entry as s)"
proof (induction as arbitrary: s hist)
  case (Cons a as)
  from Cons.prems(1) obtain s1 where s1: "step a s = Some s1" "do_all step as s1 = Some s'" by (auto simp: bind_eq_Some_conv)
  from Cons.IH[OF s1(2) step_rep[OF s1(1) Cons.prems(2)]] s1(1) show ?case by simp
qed simp

lemma listing:
  assumes "do_all step as s = Some s'" "cnt s = 0"
  shows "ring_count (cnt s') k = Some (length (recent k (events step entry as s)))"
    "map (ring_entry (cnt s') k (arr s')) [0..<length (recent k (events step entry as s))] = recent k (events step entry as s)"
proof -
  have "ring_rep k (cnt s) (arr s) []" using ring_rep_empty[of k "arr s"] by (simp add: assms(2))
  from steps_rep[OF assms(1) this] have "ring_rep k (cnt s') (arr s') (events step entry as s)" by simp
  then show "ring_count (cnt s') k = Some (length (recent k (events step entry as s)))"
    "map (ring_entry (cnt s') k (arr s')) [0..<length (recent k (events step entry as s))] = recent k (events step entry as s)"
    by (rule ring_rep_count, rule ring_rep_listing[OF _ k_pos])
qed

lemma listing_nth:
  assumes "do_all step as s = Some s'" "cnt s = 0" "i < length (recent k (events step entry as s))"
  shows "ring_entry (cnt s') k (arr s') i = recent k (events step entry as s) ! i"
  using arg_cong[OF listing(2)[OF assms(1,2)], of "\<lambda>xs. xs ! i"] assms(3) by simp

end

text \<open>The trap log: a trap, or anything else the machine does that leaves the log alone up to the two fields that \<open>SRET\<close> fills in.\<close>

definition strip_ret :: "dbg_trap \<Rightarrow> dbg_trap" where
  "strip_ret e = e\<lparr>tl_ret_a0 := 0, tl_ret_pc := 0\<rparr>"

definition trap_ring_of :: "'c vm \<Rightarrow> nat \<Rightarrow> dbg_trap" where
  "trap_ring_of m i = strip_ret (dbg_trap_log (cpu_dbg m) i)"

datatype 'c machine_event = Take_Trap u64 u64 | Other "'c vm"

definition do_trap :: "'c machine_event \<Rightarrow> 'c vm \<Rightarrow> 'c vm undef" where
  "do_trap a m = (case a of
     Take_Trap cause tval \<Rightarrow> trap m cause tval
   | Other m' \<Rightarrow> if dbg_trap_log_count (cpu_dbg m') = dbg_trap_log_count (cpu_dbg m) \<and> trap_ring_of m' = trap_ring_of m then Some m' else None)"

definition trap_entry :: "'c machine_event \<Rightarrow> 'c vm \<Rightarrow> dbg_trap option" where
  "trap_entry a m = (case a of
     Take_Trap cause tval \<Rightarrow>
       if is_interrupt cause \<or> cause = EXC_ECALL_S then None
       else Some \<lparr>tl_cause = cause, tl_tval = tval, tl_pc = cpu_pc m, tl_instret = cpu_instret m, tl_priv = cpu_priv m,
         tl_a7 = cpu_x m 17, tl_a0 = cpu_x m 10, tl_a1 = cpu_x m 11, tl_a2 = cpu_x m 12, tl_ret_a0 = 0, tl_ret_pc = 0\<rparr>
   | Other _ \<Rightarrow> None)"

definition watch_entry :: "u64 \<times> nat \<times> u64 \<Rightarrow> 'c vm \<Rightarrow> dbg_store option" where
  "watch_entry a m = (case a of (vaddr, sz, val) \<Rightarrow>
     if watch_hit (cpu_dbg m) vaddr sz
     then Some \<lparr>st_pc = cpu_pc m, st_addr = vaddr, st_value = val, st_size = of_nat sz, st_instret = cpu_instret m\<rparr> else None)"

definition break_entry :: "unit \<Rightarrow> 'c vm \<Rightarrow> dbg_break option" where
  "break_entry _ m =
     (if dbg_break_active (cpu_dbg m) \<and> cpu_pc m = dbg_break_pc (cpu_dbg m)
      then Some \<lparr>bk_pc = cpu_pc m, bk_x = cpu_x m, bk_f = cpu_f m, bk_sp = cpu_x m 2, bk_instret = cpu_instret m\<rparr> else None)"

definition inst_entry :: "u32 \<Rightarrow> 'c vm \<Rightarrow> dbg_inst option" where
  "inst_entry insn m = Some \<lparr>il_pc = cpu_pc m, il_insn = insn, il_instret = cpu_instret m\<rparr>"

text \<open>The end of \<open>pg_uart_tx\<close>: a newline is logged with the console position after it.\<close>

definition uart_newline :: "u8 \<times> int \<Rightarrow> 'c vm \<Rightarrow> 'c vm undef" where
  "uart_newline a m = (case a of (ch, pos) \<Rightarrow>
     if ch = 10 then
       (let d = cpu_dbg m in do {
          slot \<leftarrow> ring_slot (dbg_console_log_count d) DBG_CONSOLE_LOG_SIZE;
          n \<leftarrow> int_inc (dbg_console_log_count d);
          Some (m\<lparr>cpu_dbg := d\<lparr>dbg_console_log := (dbg_console_log d)(slot := \<lparr>cl_instret = cpu_instret m, cl_console_pos = pos\<rparr>),
                    dbg_console_log_count := n\<rparr>\<rparr>)
        })
     else Some m)"

definition newline_entry :: "u8 \<times> int \<Rightarrow> 'c vm \<Rightarrow> dbg_console option" where
  "newline_entry a m = (if fst a = 10 then Some \<lparr>cl_instret = cpu_instret m, cl_console_pos = snd a\<rparr> else None)"

definition do_watch :: "u64 \<times> nat \<times> u64 \<Rightarrow> 'c vm \<Rightarrow> 'c vm undef" where
  "do_watch a m = (case a of (vaddr, sz, val) \<Rightarrow> store_watch m vaddr sz val)"

lemma trap_record_ring:
  assumes "trap_record m cause tval = Some m'" "0 \<le> dbg_trap_log_count (cpu_dbg m)" "trap_entry (Take_Trap cause tval) m = Some e"
  shows "dbg_trap_log_count (cpu_dbg m') = dbg_trap_log_count (cpu_dbg m) + 1 \<and>
    trap_ring_of m' = (trap_ring_of m)(nat (dbg_trap_log_count (cpu_dbg m) mod 4096) := e)"
  using assms by (auto simp: trap_record_def trap_entry_def trap_ring_of_def strip_ret_def fun_eq_iff Let_def bind_eq_Some_conv
    dest!: int_inc_SomeD split: if_splits)

lemma trap_dbg:
  assumes "trap m cause tval = Some m'"
  shows "\<exists>m1. trap_record m cause tval = Some m1 \<and> cpu_dbg m' = cpu_dbg m1"
  using assms by (auto simp: trap_def bind_eq_Some_conv split: if_splits)

interpretation trap_ring: recorder 4096 trap_ring_of "\<lambda>m. dbg_trap_log_count (cpu_dbg m)" do_trap trap_entry
proof
  fix a s s' e
  assume step: "do_trap a s = Some s'" and entry: "trap_entry a s = Some e" and pos: "0 \<le> dbg_trap_log_count (cpu_dbg s)"
  then obtain cause tval where a: "a = Take_Trap cause tval" by (cases a) (auto simp: trap_entry_def)
  have ring: "cpu_dbg x = cpu_dbg y \<Longrightarrow> trap_ring_of x = trap_ring_of y" for x y by (simp add: trap_ring_of_def fun_eq_iff)
  from step obtain m where m: "trap_record s cause tval = Some m" "cpu_dbg s' = cpu_dbg m"
    using trap_dbg[of s cause tval s'] by (auto simp: do_trap_def a)
  with trap_record_ring[OF m(1) pos] entry a show "dbg_trap_log_count (cpu_dbg s') = dbg_trap_log_count (cpu_dbg s) + 1 \<and>
      trap_ring_of s' = (trap_ring_of s)(nat (dbg_trap_log_count (cpu_dbg s) mod int 4096) := e)"
    using ring[OF m(2)] by simp
next
  fix a s s'
  assume step: "do_trap a s = Some s'" and none: "trap_entry a s = None"
  show "dbg_trap_log_count (cpu_dbg s') = dbg_trap_log_count (cpu_dbg s) \<and> trap_ring_of s' = trap_ring_of s"
  proof (cases a)
    case (Take_Trap cause tval)
    with step none trap_dbg[of s cause tval s'] show ?thesis
      by (auto simp: do_trap_def trap_entry_def trap_record_def trap_ring_of_def split: if_splits)
  next
    case (Other m)
    with step show ?thesis by (auto simp: do_trap_def split: if_splits)
  qed
qed simp

interpretation watch_ring: recorder 64 "\<lambda>m. dbg_store_log (cpu_dbg m)" "\<lambda>m. dbg_store_log_count (cpu_dbg m)" do_watch watch_entry
  by unfold_locales (auto simp: do_watch_def watch_entry_def store_watch_def Let_def bind_eq_Some_conv dest!: int_inc_SomeD split: if_splits prod.splits)

interpretation break_ring: recorder 16 "\<lambda>m. dbg_break_log (cpu_dbg m)" "\<lambda>m. dbg_break_log_count (cpu_dbg m)" "\<lambda>_. break_check" break_entry
  by unfold_locales (auto simp: break_entry_def break_check_def Let_def bind_eq_Some_conv dest!: int_inc_SomeD split: if_splits)

interpretation console_ring: recorder 256 "\<lambda>m. dbg_console_log (cpu_dbg m)" "\<lambda>m. dbg_console_log_count (cpu_dbg m)" uart_newline newline_entry
  by unfold_locales (auto simp: newline_entry_def uart_newline_def Let_def bind_eq_Some_conv dest!: int_inc_SomeD split: if_splits prod.splits)

interpretation inst_ring: recorder 4096 "\<lambda>m. dbg_inst_log (cpu_dbg m)" "\<lambda>m. dbg_inst_log_idx (cpu_dbg m)" "\<lambda>insn m. inst_log m insn" inst_entry
  by unfold_locales (auto simp: inst_entry_def inst_log_def Let_def bind_eq_Some_conv dest!: int_inc_SomeD)

text \<open>\<open>SRET\<close> is such a step; it completes the newest entry, whichever trap it returns from.\<close>

lemma sret_keeps_ring: "do_trap (Other (snd (sret m))) m = Some (snd (sret m))"
  by (auto simp: do_trap_def sret_def trap_ring_of_def strip_ret_def fun_eq_iff Let_def split: prod.split)

lemma sret_fills_newest:
  assumes "0 < dbg_trap_log_count (cpu_dbg m)" "cpu_priv (snd (sret m)) = PRIV_U"
  shows "tl_ret_a0 (dbg_trap_log (cpu_dbg (snd (sret m))) (dbg_trap_log_last_slot (cpu_dbg m))) = cpu_x m 10"
  using assms by (auto simp: sret_def Let_def split: prod.splits)

text \<open>Interrupts are not logged, so the return from an interrupt overwrites the result of the last system call.\<close>

theorem sret_from_interrupt_fills:
  assumes "trap m (0x8000000000000005) 0 = Some m1" "0 < dbg_trap_log_count (cpu_dbg m)" "cpu_dbg m2 = cpu_dbg m1" "cpu_priv (snd (sret m2)) = PRIV_U"
  shows "dbg_trap_log_count (cpu_dbg (snd (sret m2))) = dbg_trap_log_count (cpu_dbg m)"
    "tl_ret_a0 (dbg_trap_log (cpu_dbg (snd (sret m2))) (dbg_trap_log_last_slot (cpu_dbg m))) = cpu_x m2 10"
proof -
  from trap_dbg[OF assms(1)] have d: "cpu_dbg m1 = cpu_dbg m" by (auto simp: trap_record_def is_interrupt_def)
  then show "tl_ret_a0 (dbg_trap_log (cpu_dbg (snd (sret m2))) (dbg_trap_log_last_slot (cpu_dbg m))) = cpu_x m2 10"
    using sret_fills_newest[of m2] assms by simp
  show "dbg_trap_log_count (cpu_dbg (snd (sret m2))) = dbg_trap_log_count (cpu_dbg m)"
    using d assms(3) by (auto simp: sret_def Let_def split: prod.splits)
qed

lemma trap_row_strip: "take 10 (trap_row i (strip_ret e)) = take 10 (trap_row i e)"
  by (simp add: trap_row_def strip_ret_def)

lemma length_recent: "length (recent k xs) = length xs - (length xs - k)"
  by (simp add: recent_def)


text \<open>The other logs. A breakpoint hit is numbered by its row, a store by its position among all the hits.\<close>

lemma watch_log_lists:
  assumes "do_all do_watch as m = Some m'" "dbg_store_log_count (cpu_dbg m) = 0"
    and "st_worker_ready st" "cpu_dbg (st_cpu st) = cpu_dbg m'"
  shows "\<exists>rows. rv64_vm_watch_log (Some st) = Some rows \<and> length rows = length (recent 64 (events do_watch watch_entry as m)) \<and>
    (\<forall>i<length rows. rows ! i ! 2 = Int8 (st_addr (recent 64 (events do_watch watch_entry as m) ! i)))"
  using watch_ring.listing(1)[OF assms(1,2)] watch_ring.listing_nth[OF assms(1,2)] assms(3,4)
  by (auto simp: rv64_vm_watch_log_def require_vm_def Let_def watch_row_def)

lemma break_log_lists:
  assumes "do_all (\<lambda>_. break_check) as m = Some m'" "dbg_break_log_count (cpu_dbg m) = 0"
    and "st_worker_ready st" "cpu_dbg (st_cpu st) = cpu_dbg m'"
  shows "\<exists>rows. rv64_vm_break_log (Some st) = Some rows \<and> length rows = length (recent 16 (events (\<lambda>_. break_check) break_entry as m)) \<and>
    (\<forall>i<length rows. rows ! i ! 1 = Int8 (bk_pc (recent 16 (events (\<lambda>_. break_check) break_entry as m) ! i)))"
  using break_ring.listing(1)[OF assms(1,2)] break_ring.listing_nth[OF assms(1,2)] assms(3,4)
  by (auto simp: rv64_vm_break_log_def require_vm_def Let_def break_row_def)

lemma console_log_lists:
  assumes "do_all uart_newline as m = Some m'" "dbg_console_log_count (cpu_dbg m) = 0" "cpu_dbg (st_cpu st) = cpu_dbg m'"
  shows "\<exists>rows. rv64_vm_console_instret (Some st) = Some rows \<and> length rows = length (recent 256 (events uart_newline newline_entry as m)) \<and>
    (\<forall>i<length rows. fst (snd (rows ! i)) = cl_instret (recent 256 (events uart_newline newline_entry as m) ! i))"
  using console_ring.listing(1)[OF assms(1,2)] console_ring.listing_nth[OF assms(1,2)] assms(3)
  by (cases "dbg_console_log_count (cpu_dbg m') = 0") (auto simp: rv64_vm_console_instret_def Let_def ring_count_def)


end
