(* ===== verification/RV_Disasm.thy ===== *)
theory RV_Disasm
  imports RV_Logs
begin

text \<open>
  The disassembler of \<open>rv64_pgext.c\<close>: \<open>disasm_one\<close>, which prints one 32-bit instruction, and \<open>vm_disasm\<close>, which prints a range of guest memory. The
  properties relate the text to the interpreter: the addresses, offsets and registers that are printed are those that \<open>rv64_step\<close> uses, and
  the name of a register operation is the name of what is computed. Where this fails is stated as well.
\<close>

subsection \<open>Registers and immediates\<close>

definition int_abi_names :: "string list" where
  "int_abi_names = [''zero'',''ra'',''sp'',''gp'',''tp'',''t0'',''t1'',''t2'',''s0'',''s1'',''a0'',''a1'',''a2'',''a3'',''a4'',''a5'',
     ''a6'',''a7'',''s2'',''s3'',''s4'',''s5'',''s6'',''s7'',''s8'',''s9'',''s10'',''s11'',''t3'',''t4'',''t5'',''t6'']"

definition reg_name :: "u32 \<Rightarrow> string" where
  "reg_name r = int_abi_names ! unat r"

definition freg_name :: "u32 \<Rightarrow> string" where
  "freg_name r = ''f'' @ dec_digits (unat r)"

definition sext :: "u32 \<Rightarrow> nat \<Rightarrow> u64" where
  "sext val b = (let m = shl 1 (b - 1) in scast ((val XOR m) - m))"

text \<open>\<open>(off << n) >> n\<close> on \<open>int32_t\<close>, converted to 64 bits.\<close>

definition shift_sext :: "u32 \<Rightarrow> nat \<Rightarrow> u64" where
  "shift_sext off n = scast (sar (shl off n) n)"

definition jal_off :: "u32 \<Rightarrow> u64" where
  "jal_off insn = shift_sext (shl (shr insn 31 AND 1) 20 OR shl (shr insn 21 AND 0x3FF) 1 OR
     shl (shr insn 20 AND 1) 11 OR shl (shr insn 12 AND 0xFF) 12) 11"

definition branch_off :: "u32 \<Rightarrow> u64" where
  "branch_off insn = shift_sext (shl (shr insn 31 AND 1) 12 OR shl (shr insn 7 AND 1) 11 OR
     shl (shr insn 25 AND 0x3F) 5 OR shl (shr insn 8 AND 0xF) 1) 19"

definition store_off :: "u32 \<Rightarrow> u64" where
  "store_off insn = sext (shl (shr insn 25) 5 OR (shr insn 7 AND 0x1F)) 12"

subsection \<open>Formats\<close>

definition pick :: "string list \<Rightarrow> u32 \<Rightarrow> string" where
  "pick names i = names ! unat i"

text \<open>\<open>%-7s rd, rs1, rs2\<close>, \<open>%-7s r, imm(rs1)\<close> and \<open>%-7s rd, rs1, imm\<close>.\<close>

definition reg3 :: "string \<Rightarrow> u32 \<Rightarrow> string" where
  "reg3 name insn = fmt_left 7 name @ '' '' @ reg_name (rd_of insn) @ '', '' @ reg_name (rs1_of insn) @ '', '' @ reg_name (rs2_of insn)"

definition mem_operand :: "string \<Rightarrow> string \<Rightarrow> u64 \<Rightarrow> u32 \<Rightarrow> string" where
  "mem_operand name r off insn = fmt_left 7 name @ '' '' @ r @ '', '' @ fmt_ld off @ ''('' @ reg_name (rs1_of insn) @ '')''"

definition reg2_imm :: "string \<Rightarrow> u64 \<Rightarrow> u32 \<Rightarrow> string" where
  "reg2_imm name imm insn = fmt_left 7 name @ '' '' @ reg_name (rd_of insn) @ '', '' @ reg_name (rs1_of insn) @ '', '' @ fmt_ld imm"

definition fp3 :: "u32 \<Rightarrow> string" where
  "fp3 insn = freg_name (rd_of insn) @ '', '' @ freg_name (rs1_of insn) @ '', '' @ freg_name (rs2_of insn)"

definition fp2 :: "u32 \<Rightarrow> string" where
  "fp2 insn = freg_name (rd_of insn) @ '', '' @ freg_name (rs1_of insn)"

subsection \<open>The cases of the switch\<close>

definition branch_names :: "string list" where
  "branch_names = [''beq'',''bne'',''?'',''?'',''blt'',''bge'',''bltu'',''bgeu'']"

definition load_names :: "string list" where
  "load_names = [''lb'',''lh'',''lw'',''ld'',''lbu'',''lhu'',''lwu'',''?'']"

definition store_names :: "string list" where
  "store_names = [''sb'',''sh'',''sw'',''sd'',''?'',''?'',''?'',''?'']"

definition op_imm_names :: "string list" where
  "op_imm_names = [''addi'',''slli'',''slti'',''sltiu'',''xori'',''srli'',''ori'',''andi'']"

definition op_imm_w_names :: "string list" where
  "op_imm_w_names = [''addiw'',''slliw'',''?'',''?'',''?'',''srliw'',''?'',''?'']"

definition m_names :: "string list" where
  "m_names = [''mul'',''mulh'',''mulhsu'',''mulhu'',''div'',''divu'',''rem'',''remu'']"

definition op_names :: "string list" where
  "op_names = [''add'',''sll'',''slt'',''sltu'',''xor'',''srl'',''or'',''and'']"

definition op_20_names :: "string list" where
  "op_20_names = [''sub'',''?'',''?'',''?'',''?'',''sra'',''?'',''?'']"

definition m_w_names :: "string list" where
  "m_w_names = [''mulw'',''?'',''?'',''?'',''divw'',''divuw'',''remw'',''remuw'']"

definition amo_names :: "string list" where
  "amo_names = [''amoadd'',''amoswap'',''lr'',''sc'',''amoxor'',''?'',''amoor'',''amoand'',''amomin'',''amomax'',''amominu'',''amomaxu'']"

definition csr_op_names :: "string list" where
  "csr_op_names = [''?'',''csrrw'',''csrrs'',''csrrc'',''?'',''csrrwi'',''csrrsi'',''csrrci'']"

definition fma_names :: "string list" where
  "fma_names = [''fmadd'',''fmsub'',''fnmsub'',''fnmadd'']"

definition disasm_op_imm :: "u32 \<Rightarrow> string" where
  "disasm_op_imm insn =
     (let f3 = f3_of insn; imm = sext (shr insn 20) 12 in
      reg2_imm (pick op_imm_names f3) (if f3 = 1 \<or> f3 = 5 then ucast (rs2_of insn) else imm) insn)"

definition disasm_op :: "u32 \<Rightarrow> string" where
  "disasm_op insn =
     (let f3 = f3_of insn; f7 = f7_of insn in
      if f7 = 1 then reg3 (pick m_names f3) insn
      else reg3 (if f7 = 0x20 then pick op_20_names f3 else pick op_names f3) insn)"

definition disasm_op_w :: "u32 \<Rightarrow> string" where
  "disasm_op_w insn =
     (let f3 = f3_of insn; f7 = f7_of insn in
      if f7 = 1 then reg3 (pick m_w_names f3) insn
      else reg3 (if f7 = 0x20 then (if f3 = 0 then ''subw'' else ''sraw'') else (if f3 = 0 then ''addw'' else ''sllw'')) insn)"

definition disasm_fp :: "u32 \<Rightarrow> string" where
  "disasm_fp insn =
     (let f3 = f3_of insn; f7 = f7_of insn; rs2 = rs2_of insn; fmt = shr f7 2; sfx = (if f7 AND 1 \<noteq> 0 then ''.d'' else ''.s'');
          rd = reg_name (rd_of insn); frs1 = freg_name (rs1_of insn); frs2 = freg_name rs2; frd = freg_name (rd_of insn); rs1 = reg_name (rs1_of insn)
      in if fmt = 0 then ''fadd'' @ sfx @ ''  '' @ fp3 insn
      else if fmt = 1 then ''fsub'' @ sfx @ ''  '' @ fp3 insn
      else if fmt = 2 then ''fmul'' @ sfx @ ''  '' @ fp3 insn
      else if fmt = 3 then ''fdiv'' @ sfx @ ''  '' @ fp3 insn
      else if fmt = 0x0B then ''fsqrt'' @ sfx @ '' '' @ fp2 insn
      else if fmt = 4 then
        (if f3 = 0 then ''fsgnj'' else if f3 = 1 then ''fsgnjn'' else ''fsgnjx'') @ sfx @ '' '' @ fp3 insn
      else if fmt = 5 then (if f3 = 0 then ''fmin'' else ''fmax'') @ sfx @ '' '' @ fp3 insn
      else if fmt = 0x14 then
        (if f3 = 2 then ''feq'' else if f3 = 1 then ''flt'' else ''fle'') @ sfx @ ''   '' @ rd @ '', '' @ frs1 @ '', '' @ frs2
      else if fmt = 0x18 then ''fcvt.w'' @ (if rs2 \<noteq> 0 then ''u'' else []) @ ''.'' @ tl sfx @ '' '' @ rd @ '', '' @ frs1
      else if fmt = 0x1A then ''fcvt'' @ sfx @ ''.w'' @ (if rs2 \<noteq> 0 then ''u'' else []) @ '' '' @ frd @ '', '' @ rs1
      else if fmt = 0x1C then
        (if f3 = 0 then ''fmv.x.w '' @ rd @ '', '' @ frs1 else ''fclass'' @ sfx @ '' '' @ rd @ '', '' @ frs1)
      else if fmt = 0x1E then ''fmv.w.x '' @ frd @ '', '' @ rs1
      else if fmt = 8 then (if f7 AND 1 \<noteq> 0 then ''fcvt.d.s '' else ''fcvt.s.d '') @ fp2 insn
      else ''fp_op   f7=0x'' @ fmt_0x 2 (unat f7) @ '' f3='' @ dec_digits (unat f3) @ '' rd='' @ dec_digits (unat (rd_of insn)) @
        '' rs1='' @ dec_digits (unat (rs1_of insn)) @ '' rs2='' @ dec_digits (unat rs2))"

definition disasm_fma :: "u32 \<Rightarrow> string" where
  "disasm_fma insn =
     pick fma_names ((op_of insn - 0x43) div 4) @ (if shr insn 25 AND 1 \<noteq> 0 then ''.d'' else ''.s'') @ '' '' @ fp3 insn @ '', '' @
     freg_name (shr insn 27 AND 0x1F)"

definition disasm_amo :: "u32 \<Rightarrow> string" where
  "disasm_amo insn =
     (let oper = shr (f7_of insn) 2; n = (if oper < 12 then pick amo_names oper else ''amo?'');
          w = (if f3_of insn = 2 then ''.w'' else ''.d'');
          rd = reg_name (rd_of insn); rs1 = reg_name (rs1_of insn); rs2 = reg_name (rs2_of insn)
      in if oper = 2 then ''lr'' @ w @ ''     '' @ rd @ '', ('' @ rs1 @ '')''
      else if oper = 3 then ''sc'' @ w @ ''     '' @ rd @ '', '' @ rs2 @ '', ('' @ rs1 @ '')''
      else n @ w @ '' '' @ rd @ '', '' @ rs2 @ '', ('' @ rs1 @ '')'')"

definition disasm_system :: "u32 \<Rightarrow> string" where
  "disasm_system insn =
     (if insn = 0x00000073 then ''ecall''
      else if insn = 0x00100073 then ''ebreak''
      else if insn = 0x30200073 then ''mret''
      else if insn = 0x10200073 then ''sret''
      else if insn = 0x10500073 then ''wfi''
      else if shr insn 25 = 0x09 then ''sfence.vma '' @ reg_name (rs1_of insn) @ '', '' @ reg_name (rs2_of insn)
      else fmt_left 7 (pick csr_op_names (f3_of insn)) @ '' '' @ reg_name (rd_of insn) @ '', 0x'' @ fmt_0x 3 (unat (shr insn 20)) @ '', '' @
        (if f3_of insn \<ge> 4 then [] else reg_name (rs1_of insn)))"

text \<open>The whole switch, before \<open>snprintf\<close> cuts it at the size of the buffer.\<close>

definition disasm_text :: "u32 \<Rightarrow> u64 \<Rightarrow> string" where
  "disasm_text insn pc =
     (let opcode = op_of insn; rd = rd_of insn; f3 = f3_of insn
      in if opcode = 0x37 then ''lui     '' @ reg_name rd @ '', 0x'' @ hex_digits (unat (shr insn 12))
      else if opcode = 0x17 then ''auipc   '' @ reg_name rd @ '', 0x'' @ hex_digits (unat (shr insn 12))
      else if opcode = 0x6F then ''jal     '' @ reg_name rd @ '', 0x'' @ hex_digits (unat (pc + jal_off insn))
      else if opcode = 0x67 then ''jalr    '' @ reg_name rd @ '', '' @ fmt_ld (sext (shr insn 20) 12) @ ''('' @ reg_name (rs1_of insn) @ '')''
      else if opcode = 0x63 then
        fmt_left 7 (pick branch_names f3) @ '' '' @ reg_name (rs1_of insn) @ '', '' @ reg_name (rs2_of insn) @ '', 0x'' @
        hex_digits (unat (pc + branch_off insn))
      else if opcode = 0x03 then mem_operand (pick load_names f3) (reg_name rd) (sext (shr insn 20) 12) insn
      else if opcode = 0x23 then mem_operand (pick store_names f3) (reg_name (rs2_of insn)) (store_off insn) insn
      else if opcode = 0x13 then disasm_op_imm insn
      else if opcode = 0x1B then reg2_imm (pick op_imm_w_names f3) (sext (shr insn 20) 12) insn
      else if opcode = 0x33 then disasm_op insn
      else if opcode = 0x3B then disasm_op_w insn
      else if opcode = 0x07 then mem_operand (if f3 = 2 then ''flw'' else ''fld'') (freg_name rd) (sext (shr insn 20) 12) insn
      else if opcode = 0x27 then mem_operand (if f3 = 2 then ''fsw'' else ''fsd'') (freg_name (rs2_of insn)) (store_off insn) insn
      else if opcode = 0x53 then disasm_fp insn
      else if opcode = 0x43 \<or> opcode = 0x47 \<or> opcode = 0x4B \<or> opcode = 0x4F then disasm_fma insn
      else if opcode = 0x2F then disasm_amo insn
      else if opcode = 0x73 then disasm_system insn
      else if opcode = 0x0F then ''fence''
      else ''unknown opcode=0x'' @ fmt_0x 2 (unat opcode) @ '' insn=0x'' @ fmt_0x 8 (unat insn))"

definition disasm_one :: "u32 \<Rightarrow> u64 \<Rightarrow> nat \<Rightarrow> string" where
  "disasm_one insn pc buflen = snprintf_text buflen (disasm_text insn pc)"

subsection \<open>A range of guest memory\<close>

text \<open>One row: address, bytes and text, and the address of the next row. The second half of an instruction is 0 when its load faults.\<close>

definition disasm_row :: "u64 \<Rightarrow> lir list vm \<Rightarrow> (datum list \<times> u64 \<times> lir list vm) undef" where
  "disasm_row pc m = do {
     let addr = snprintf_text 20 (''0x'' @ hex_digits (unat pc));
     (r, m1) \<leftarrow> rv64_cpu_load m pc 2 ACCESS_EXEC;
     (case r of
        Inl _ \<Rightarrow> Some ([Text addr, Text ''----'', Text ''<fault>''], pc + 2, m1)
      | Inr lo \<Rightarrow>
          let half = (ucast lo :: u16) in
          if half AND 3 \<noteq> 3 then
            Some ([Text addr, Text (snprintf_text 12 (fmt_0x 4 (unat half))), Text (snprintf_text 80 (''c.??? (0x'' @ fmt_0x 4 (unat half) @ '')''))], pc + 2, m1)
          else do {
            (r2, m2) \<leftarrow> rv64_cpu_load m1 (pc + 2) 2 ACCESS_EXEC;
            let hi = (case r2 of Inl _ \<Rightarrow> 0 | Inr v \<Rightarrow> v);
                full = (ucast half OR shl (ucast hi) 16 :: u32) in
            Some ([Text addr, Text (snprintf_text 12 (fmt_0x 8 (unat full))), Text (disasm_one full pc 80)], pc + 4, m2)
          })
   }"

fun disasm_rows :: "nat \<Rightarrow> u64 \<Rightarrow> lir list vm \<Rightarrow> (datum list list \<times> lir list vm) undef" where
  "disasm_rows 0 pc m = Some ([], m)"
| "disasm_rows (Suc n) pc m = do {
     (row, pc', m1) \<leftarrow> disasm_row pc m;
     (rows, m2) \<leftarrow> disasm_rows n pc' m1;
     Some (row # rows, m2)
   }"

definition rv64_vm_disasm :: "u64 \<Rightarrow> u64 \<Rightarrow> int \<Rightarrow> SharedVMState option \<Rightarrow> mem \<Rightarrow> ((string + datum list list) \<times> SharedVMState option \<times> mem) undef" where
  "rv64_vm_disasm delta addr cnt = inspect ''vm_disasm: no VM initialized'' delta (\<lambda>m. do {
     (rows, m1) \<leftarrow> disasm_rows (nat cnt) addr m;
     Some (Inr rows, m1)
   })"

subsection \<open>What is printed and what is executed\<close>

lemma xor_sub_bit:
  fixes v :: "'a::len word"
  assumes "take_bit b v = v" "0 < b" "b \<le> LENGTH('a)" "n < LENGTH('a)"
  shows "bit ((v XOR shl 1 (b - 1)) - shl 1 (b - 1)) n \<longleftrightarrow> bit v (if n < b then n else b - 1)"
proof -
  have hi: "n < b" if "bit v n" for n
    using that assms(1) by (metis bit_take_bit_iff)
  let ?m = "shl 1 (b - 1) :: 'a word"
  have bm: "bit ?m n \<longleftrightarrow> n = b - 1" if "n < LENGTH('a)" for n
    using that assms by (auto simp: bit_simps)
  have neg: "- ?m = NOT (mask (b - 1))"
    by (simp add: mask_eq_exp_minus_1 not_eq_complement push_bit_eq_mult)
  show ?thesis
  proof (cases "bit v (b - 1)")
    case True
    have d: "(v XOR ?m) AND NOT (mask (b - 1)) = 0"
      by (rule bit_word_eqI) (use True bm hi in \<open>fastforce simp: bit_simps\<close>)
    have "(v XOR ?m) - ?m = (v XOR ?m) OR NOT (mask (b - 1))"
      unfolding diff_conv_add_uminus neg by (rule disjunctive_add_eq_or) (rule d)
    with True bm [OF assms(4)] hi [of n] assms show ?thesis
      by (auto simp: bit_or_iff bit_xor_iff bit_not_iff bit_mask_iff)
  next
    case False
    have d: "v AND ?m = 0"
      by (rule bit_word_eqI) (use False bm in \<open>auto simp: bit_and_iff\<close>)
    have "v XOR ?m = v OR ?m"
      by (rule bit_word_eqI) (use False bm in \<open>auto simp: bit_or_iff bit_xor_iff\<close>)
    also have "\<dots> = v + ?m" using disjunctive_add_eq_or [OF d] by simp
    finally have "(v XOR ?m) - ?m = v" by simp
    with False hi [of n] show ?thesis by auto
  qed
qed

lemma sext_sign_extend:
  assumes "take_bit b val = val" "0 < b" "b < 32"
  shows "sext val b = sign_extend (ucast val) b"
proof (rule sign_extend_eqI[symmetric])
  show "take_bit b (ucast val :: u64) = ucast val" using assms(1) by (metis unsigned_take_bit_eq)
  fix n :: nat assume "n < 64"
  show "bit (sext val b) n = bit (ucast val :: u64) (if n < b then n else b - 1)"
    using assms xor_sub_bit[OF assms(1,2), of n] xor_sub_bit[OF assms(1,2), of 31] \<open>n < 64\<close>
    by (cases "n < 31") (auto simp: sext_def Let_def bit_simps min_def)
qed (use assms in auto)

lemma shift_sext_sign_extend:
  assumes "take_bit b val = val" "0 < b" "b < 32"
  shows "shift_sext val (32 - b) = sign_extend (ucast val) b"
proof (rule sign_extend_eqI[symmetric])
  show "take_bit b (ucast val :: u64) = ucast val" using assms(1) by (metis unsigned_take_bit_eq)
  fix n :: nat assume "n < 64"
  then show "bit (shift_sext val (32 - b)) n = bit (ucast val :: u64) (if n < b then n else b - 1)"
    using assms(2,3) by (auto simp: shift_sext_def bit_simps min_def)
qed (use assms in auto)

lemma bit_u32: "bit (w :: u32) n \<Longrightarrow> n < 32"
  using bit_imp_le_length by fastforce

lemma take_bit_selfI: "(\<And>n. bit v n \<Longrightarrow> n < b) \<Longrightarrow> take_bit b (v :: 'a::len word) = v"
  by (rule bit_word_eqI) (auto simp: bit_take_bit_iff)

lemma sext_imm_i: "sext (shr insn 20) 12 = imm_i insn"
  unfolding imm_i_def by (intro sext_sign_extend take_bit_selfI) (auto simp: field_bits dest: bit_u32)

lemma store_off_imm_s: "store_off insn = imm_s insn"
  unfolding imm_s_def store_off_def
  by (intro sext_sign_extend take_bit_selfI) (auto simp: field_bits field_masks dest: bit_u32)

lemma branch_off_imm_b: "branch_off insn = imm_b insn"
proof -
  have "take_bit 13 (shl (shr insn 31 AND 1) 12 OR shl (shr insn 7 AND 1) 11 OR shl (shr insn 25 AND 0x3F) 5 OR shl (shr insn 8 AND 0xF) 1) =
      shl (shr insn 31 AND 1) 12 OR shl (shr insn 7 AND 1) 11 OR shl (shr insn 25 AND 0x3F) 5 OR shl (shr insn 8 AND 0xF) 1"
    by (rule take_bit_selfI) (unfold field_masks field_bits, linarith)
  from shift_sext_sign_extend[OF this] show ?thesis unfolding imm_b_def branch_off_def by simp
qed

lemma jal_off_imm_j: "jal_off insn = imm_j insn"
proof -
  let ?v = "shl (shr insn 31 AND 1) 20 OR shl (shr insn 21 AND 0x3FF) 1 OR shl (shr insn 20 AND 1) 11 OR shl (shr insn 12 AND 0xFF) 12"
  have "take_bit 21 ?v = ?v" by (rule take_bit_selfI) (unfold field_masks field_bits, linarith)
  from shift_sext_sign_extend[OF this] have "jal_off insn = sign_extend (ucast ?v) 21" unfolding jal_off_def by simp
  also have "?v = shl (shr insn 31 AND 1) 20 OR shl (shr insn 12 AND 0xFF) 12 OR shl (shr insn 20 AND 1) 11 OR shl (shr insn 21 AND 0x3FF) 1"
    by (simp only: or.assoc or.commute or.left_commute)
  finally show ?thesis by (simp only: imm_j_def)
qed

lemma field_bounds: "unat (rd_of i) < 32" "unat (rs1_of i) < 32" "unat (rs2_of i) < 32" "unat (f3_of i) < 8" "unat (f7_of i) < 128" "unat (op_of i) < 128"
proof -
  have "unat (take_bit k (w :: u32)) < 2 ^ k" for k w by (simp add: unsigned_take_bit_eq take_bit_nat_less_exp)
  note b = this[of 5] this[of 3] this[of 7]
  from b show "unat (rd_of i) < 32" "unat (rs1_of i) < 32" "unat (rs2_of i) < 32" "unat (f3_of i) < 8" "unat (f7_of i) < 128" "unat (op_of i) < 128"
    by (simp_all add: field_defs)
qed

lemma pick_length: "unat i < length names \<Longrightarrow> list_all (\<lambda>n. length n \<le> 7) names \<Longrightarrow> length (pick names i) \<le> 7"
  by (simp add: pick_def list_all_length)

lemma reg_name_length: "unat r < 32 \<Longrightarrow> length (reg_name r) \<le> 4"
proof -
  have "list_all (\<lambda>n. length n \<le> 4) int_abi_names" "length int_abi_names = 32" by code_simp+
  then show "unat r < 32 \<Longrightarrow> ?thesis" by (simp add: reg_name_def list_all_length)
qed

lemma freg_name_length: "unat r < 32 \<Longrightarrow> length (freg_name r) \<le> 3"
  using dec_digits_length[of "unat r" 2] by (simp add: freg_name_def)

lemma fmt_ld_length: "length (fmt_ld v) \<le> 20"
proof -
  have "- (2 ^ 63) \<le> sint v" "sint v < 2 ^ 63" using sint_range_size[of v] by (auto simp: word_size)
  then have "\<bar>sint v\<bar> < 10 ^ 19" by simp
  from fmt_d_length[OF this] show ?thesis by (simp add: fmt_ld_def fmt_d_def)
qed

lemma fmt_left_length: "length s \<le> w \<Longrightarrow> length (fmt_left w s) = w"
  by (simp add: fmt_left_def)

lemma hex64_length: "length (hex_digits (unat (v :: u64))) \<le> 16"
  by (rule hex_digits_length, rule order_less_le_trans[OF unsigned_less]) simp_all

lemma hex32_length: "length (hex_digits (unat (v :: u32))) \<le> 8"
  by (rule hex_digits_length, rule order_less_le_trans[OF unsigned_less]) simp_all

lemma fmt_0x_length: "w \<le> 8 \<Longrightarrow> length (fmt_0x w (unat (v :: u32))) \<le> 8"
  using hex32_length[of v] by (simp add: length_fmt_0x)

lemmas reg_lengths = reg_name_length[OF field_bounds(1)] reg_name_length[OF field_bounds(2)] reg_name_length[OF field_bounds(3)]
  freg_name_length[OF field_bounds(1)] freg_name_length[OF field_bounds(2)] freg_name_length[OF field_bounds(3)]

lemma name_lengths:
  "length (pick branch_names (f3_of i)) \<le> 7" "length (pick load_names (f3_of i)) \<le> 7" "length (pick store_names (f3_of i)) \<le> 7"
  "length (pick op_imm_names (f3_of i)) \<le> 7" "length (pick op_imm_w_names (f3_of i)) \<le> 7" "length (pick m_names (f3_of i)) \<le> 7"
  "length (pick op_names (f3_of i)) \<le> 7" "length (pick op_20_names (f3_of i)) \<le> 7" "length (pick m_w_names (f3_of i)) \<le> 7"
  "length (pick csr_op_names (f3_of i)) \<le> 7"
  using field_bounds(4)[of i]
  by (rule_tac pick_length; simp add: branch_names_def load_names_def store_names_def op_imm_names_def op_imm_w_names_def m_names_def
    op_names_def op_20_names_def m_w_names_def csr_op_names_def)+

lemma operand_lengths:
  "length name \<le> 7 \<Longrightarrow> length (reg3 name i) \<le> 24"
  "length name \<le> 7 \<Longrightarrow> length (reg2_imm name v i) \<le> 40"
  "length name \<le> 7 \<Longrightarrow> length r \<le> 4 \<Longrightarrow> length (mem_operand name r v i) \<le> 40"
  "length (fp3 i) \<le> 13" "length (fp2 i) \<le> 8"
  using reg_lengths[of i] fmt_ld_length[of v]
  by (simp_all add: reg3_def reg2_imm_def mem_operand_def fp3_def fp2_def fmt_left_length)

lemma dec_field_length: "unat r < 100 \<Longrightarrow> length (dec_digits (unat r)) \<le> 2"
  by (rule dec_digits_length) simp_all

lemma disasm_op_lengths:
  "length (disasm_op_imm i) \<le> 40" "length (disasm_op i) \<le> 24" "length (disasm_op_w i) \<le> 24"
  by (simp_all add: disasm_op_imm_def disasm_op_def disasm_op_w_def Let_def operand_lengths name_lengths)

lemma disasm_fp_length: "length (disasm_fp i) \<le> 60"
proof -
  have "length (fmt_0x 2 (unat (f7_of i))) \<le> 8" by (rule fmt_0x_length) simp
  moreover have "unat (f3_of i) < 100" "unat (rd_of i) < 100" "unat (rs1_of i) < 100" "unat (rs2_of i) < 100" using field_bounds[of i] by linarith+
  ultimately show ?thesis using reg_lengths[of i] operand_lengths(4,5)[of i]
    dec_digits_length[of 0 2] dec_field_length[of "f3_of i"] dec_field_length[of "rd_of i"] dec_field_length[of "rs1_of i"] dec_field_length[of "rs2_of i"]
    unfolding disasm_fp_def Let_def by simp
qed

lemma disasm_fma_length:
  assumes "op_of i = 0x43 \<or> op_of i = 0x47 \<or> op_of i = 0x4B \<or> op_of i = 0x4F"
  shows "length (disasm_fma i) \<le> 40"
proof -
  have "length (pick fma_names ((op_of i - 0x43) div 4)) \<le> 7" using assms by (auto simp: pick_def fma_names_def)
  moreover have "unat (shr i 27 AND 0x1F) < 32" by (simp add: field_masks unsigned_take_bit_eq take_bit_nat_less_exp[of 5, simplified])
  ultimately show ?thesis using operand_lengths(4)[of i] freg_name_length[of "shr i 27 AND 0x1F"] by (simp add: disasm_fma_def)
qed

lemma disasm_amo_length: "length (disasm_amo i) \<le> 40"
proof -
  have "length (pick amo_names oper) \<le> 7" if "oper < 12" for oper
  proof (rule pick_length)
    show "unat oper < length amo_names" using that unat_mono[OF that] by (simp add: amo_names_def)
  qed (simp add: amo_names_def)
  from this[of "shr (f7_of i) 2"] show ?thesis using reg_lengths[of i] unfolding disasm_amo_def Let_def by (auto split: if_split)
qed

lemma disasm_system_length: "length (disasm_system i) \<le> 40"
  using reg_lengths[of i] name_lengths(10)[of i] fmt_0x_length[of 3 "shr i 20"]
  by (auto simp: disasm_system_def fmt_left_length)

text \<open>The buffer of 80 bytes is large enough for every line.\<close>

lemma disasm_fits: "disasm_one insn pc 80 = disasm_text insn pc"
proof -
  have "length (disasm_text insn pc) \<le> 60"
    using reg_lengths[of insn] disasm_op_lengths[of insn] disasm_fp_length[of insn] disasm_fma_length[of insn] disasm_amo_length[of insn]
      disasm_system_length[of insn] hex64_length[of "pc + jal_off insn"] hex64_length[of "pc + branch_off insn"]
      hex32_length[of "shr insn 12"] fmt_0x_length[of 8 insn] fmt_0x_length[of 2 "op_of insn"] fmt_ld_length[of "sext (shr insn 20) 12"]
      operand_lengths(2)[OF name_lengths(5), of insn "sext (shr insn 20) 12" insn]
      operand_lengths(3)[OF name_lengths(2), of "reg_name (rd_of insn)" insn "sext (shr insn 20) 12" insn]
      operand_lengths(3)[OF name_lengths(3), of "reg_name (rs2_of insn)" insn "store_off insn" insn]
      operand_lengths(3)[of "if f3_of insn = 2 then ''flw'' else ''fld''" "freg_name (rd_of insn)" "sext (shr insn 20) 12" insn]
      operand_lengths(3)[of "if f3_of insn = 2 then ''fsw'' else ''fsd''" "freg_name (rs2_of insn)" "store_off insn" insn]
    unfolding disasm_text_def Let_def by (auto simp: name_lengths fmt_left_length)
  then show ?thesis by (simp add: disasm_one_def snprintf_text_def)
qed



text \<open>What the names of the register operations stand for.\<close>

definition reg_op_meaning :: "(string \<times> (u64 \<Rightarrow> u64 \<Rightarrow> u64 undef)) list" where
  "reg_op_meaning =
    [(''add'', \<lambda>a b. Some (a + b)), (''sub'', \<lambda>a b. Some (a - b)), (''sll'', \<lambda>a b. Some (shl a (unat (b AND 0x3F)))),
     (''slt'', \<lambda>a b. Some (if sint a < sint b then 1 else 0)), (''sltu'', \<lambda>a b. Some (if a < b then 1 else 0)),
     (''xor'', \<lambda>a b. Some (a XOR b)), (''srl'', \<lambda>a b. Some (shr a (unat (b AND 0x3F)))), (''sra'', \<lambda>a b. Some (sar a (unat (b AND 0x3F)))),
     (''or'', \<lambda>a b. Some (a OR b)), (''and'', \<lambda>a b. Some (a AND b)),
     (''mul'', \<lambda>a b. Some (a * b)), (''mulh'', \<lambda>a b. Some (ucast (sar ((scast a :: u128) * scast b) 64))),
     (''mulhsu'', \<lambda>a b. Some (ucast (shr ((scast a :: u128) * ucast b) 64))), (''mulhu'', \<lambda>a b. Some (ucast (shr ((ucast a :: u128) * ucast b) 64))),
     (''div'', \<lambda>a b. if b \<noteq> 0 then c_sdiv a b else Some (NOT 0)), (''divu'', \<lambda>a b. Some (if b \<noteq> 0 then a div b else NOT 0)),
     (''rem'', \<lambda>a b. if b \<noteq> 0 then c_smod a b else Some a), (''remu'', \<lambda>a b. Some (if b \<noteq> 0 then a mod b else a))]"

lemma m_names_meaning:
  assumes "f3 \<in> {0, 1, 2, 3, 4, 5, 6, 7}"
  shows "map_of reg_op_meaning (pick m_names f3) = Some (mul_div f3)"
  using assms by (elim insertE emptyE; simp add: pick_def m_names_def reg_op_meaning_def mul_div_def fun_eq_iff)

lemma mul_div_alu: "mul_div f3 = alu_reg 1 f3"
  by (simp add: alu_reg_def fun_eq_iff)

lemma op_names_meaning:
  assumes "f3 \<in> {0, 1, 2, 3, 4, 5, 6, 7}" "f7 \<noteq> 1" "f7 \<noteq> 0x20"
  shows "map_of reg_op_meaning (pick op_names f3) = Some (alu_reg f7 f3)"
  using assms by (elim insertE emptyE; simp add: pick_def op_names_def reg_op_meaning_def alu_reg_def fun_eq_iff)

lemma op_20_names_meaning:
  assumes "f3 = 0 \<or> f3 = 5"
  shows "map_of reg_op_meaning (pick op_20_names f3) = Some (alu_reg 0x20 f3)"
  using assms by (elim disjE; simp add: pick_def op_20_names_def reg_op_meaning_def alu_reg_def fun_eq_iff)



subsection \<open>Where the text is wrong\<close>

text \<open>An arithmetic shift right by an immediate is printed as a logical one; a shift amount of 32 or more loses its highest bit; the shifts of words are printed
  with their funct7 as part of the amount, and a right shift of words by a register as a left shift.\<close>

lemma disasm_srai: "disasm_one 0x4052D293 0 80 = ''srli    t0, t0, 5''"
  by code_simp

lemma disasm_slli_40: "disasm_one 0x02829293 0 80 = ''slli    t0, t0, 8''"
  by code_simp

lemma disasm_sraiw: "disasm_one 0x4052D29B 0 80 = ''srliw   t0, t0, 1029''"
  by code_simp

lemma disasm_srlw: "disasm_one 0x0062D2BB 0 80 = ''sllw    t0, t0, t1''"
  by code_simp

text \<open>The names of the atomic operations are indexed by their number instead of their funct5, and a 64-bit move or conversion is printed as one of 32 bits.\<close>

lemma disasm_amoor: "disasm_one 0x4062B52F 0 80 = ''amomin.d a0, t1, (t0)''"
  by code_simp

lemma amoor_executes_or: "amo_result (shr (f7_of 0x4062B52F) 2) a b = Some (a OR b)"
  by (simp add: amo_result_def field_defs)

lemma disasm_fcvt_l: "disasm_one 0xD2250553 0 80 = ''fcvt.d.wu f10, a0''"
  by code_simp

end
