(* ===== verification/RV_Rows.thy ===== *)
theory RV_Rows
  imports RV_Logs
begin

text \<open>
  The functions of \<open>rv64_pgext.c\<close> that show the processor copy as rows (\<open>vm_state\<close>, \<open>vm_perf\<close>, \<open>vm_profile\<close>, \<open>vm_insn_stats\<close>, \<open>vm_io_stats\<close>, \<open>vm_jit_stats\<close>,
  \<open>vm_regs\<close>, \<open>vm_fregs\<close>, \<open>vm_dbg_state\<close>, \<open>vm_csrs\<close>, \<open>vm_timer_state\<close>, \<open>vm_tlb_dump\<close>), the write to guest memory (\<open>vm_poke\<close>), the compiler
  worker, and the functions that only report that they are not available.

  A row is the list of its columns; the server takes their types from the declarations of \<open>linuxsql_vm--1.0.sql\<close>, so each row must have the
  columns of its declaration.
\<close>

subsection \<open>Rows of the processor copy\<close>

definition vm_row :: "string \<Rightarrow> (SharedVMState \<Rightarrow> 'a) \<Rightarrow> SharedVMState option \<Rightarrow> string + 'a" where
  "vm_row msg f shared = (case require_vm msg shared of Inl e \<Rightarrow> Inl e | Inr st \<Rightarrow> Inr (f st))"

text \<open>The index of a queue's ring in guest memory, when it is set and lies inside RAM. \<open>ram\<close> is the session's mapping, if there is one.\<close>

definition ring_idx :: "mem option \<Rightarrow> u64 \<Rightarrow> u64 \<Rightarrow> u16" where
  "ring_idx ram ram_size a =
     (if a \<noteq> 0 then
        (case ram of
           None \<Rightarrow> 0
         | Some m \<Rightarrow> if a \<ge> RAM_BASE \<and> a - RAM_BASE + 4 < ram_size then ucast (load_le m (a - RAM_BASE + 2) 2) else 0)
      else 0)"

definition state_row :: "mem option \<Rightarrow> SharedVMState \<Rightarrow> datum list" where
  "state_row ram st =
     (let c = st_cpu st; q = dev_queues (cpu_virtio_blk c) 0 in
      [Int8 (cpu_pc c), Int4 (ucast (cpu_priv c)), Bool (cpu_halted c), Int8 (cpu_mip c), Int8 (cpu_mie c), Int8 (cpu_mideleg c),
       Int8 (cpu_mstatus c), Int8 (cpu_instret c), Int8 (c_mtime (cpu_clint c)), Bool (cpu_error c),
       Int4 (p_pending (cpu_plic c) 0), Int4 (p_enable (cpu_plic c) 1 0), Int4 (p_claim (cpu_plic c) 1), Int4 (p_threshold (cpu_plic c) 1),
       Int4 (dev_status (cpu_virtio_blk c)), Int4 (dev_int_status (cpu_virtio_blk c)), Int4 (vq_ready q), Int4 (ucast (vq_last_avail q)),
       Int4 (ucast (ring_idx ram (cpu_ram_size c) (vq_avail_addr q))), Int4 (ucast (ring_idx ram (cpu_ram_size c) (vq_used_addr q))),
       Int4 (of_int (st_console_pos st))])"

definition rv64_vm_state :: "SharedVMState option \<Rightarrow> mem \<Rightarrow> (string + datum list) \<times> SharedVMState option" where
  "rv64_vm_state shared ram = (case require_vm ''vm_state: no VM initialized'' shared of
     Inl e \<Rightarrow> (Inl e, shared)
   | Inr st0 \<Rightarrow> (case ensure_frontend_ram (Some st0) of
       Inl e \<Rightarrow> (Inl e, shared)
     | Inr st \<Rightarrow> (Inr (state_row (Some ram) st), Some st)))"

text \<open>\<open>vm_perf\<close> runs a step and divides by the time it took. \<open>timing\<close> gives the two floating point columns for a number of instructions.\<close>

definition rv64_vm_perf ::
  "host_fp \<Rightarrow> lir_host \<Rightarrow> sljit_alloc \<Rightarrow> boot_env \<Rightarrow> nat \<Rightarrow> (u64 \<Rightarrow> u64 \<times> u64) \<Rightarrow> u64 \<Rightarrow> service \<Rightarrow> ((string + datum list) \<times> service) undef" where
  "rv64_vm_perf hf h al env client timing cycles s = (case require_vm ''vm_perf: no VM initialized'' (Some (fst s)) of
     Inl e \<Rightarrow> Some (Inl e, s)
   | Inr st \<Rightarrow>
       ipc_return (\<lambda>st'. let insns = cpu_instret (st_cpu st') - cpu_instret (st_cpu st) in
           [Float8 (fst (timing insns)), Int8 insns, Float8 (snd (timing insns))])
         (ipc_send_and_wait hf h al env client VM_CMD_STEP (if sint cycles \<le> 0 then 100000000 else cycles) s))"

definition rv64_vm_profile :: "SharedVMState option \<Rightarrow> string + datum list" where
  "rv64_vm_profile = vm_row ''vm_profile: no VM initialized'' (\<lambda>st. let p = cpu_prof (st_cpu st) in
     [Int8 (prof_exec_cycles p), Int8 (prof_wfi_cycles p), Int8 (prof_irq_checks p), Int8 (prof_irq_taken p),
      Int8 (prof_mmu_walks p), Int8 (prof_mmu_walk_steps p), Int8 (prof_tlb_hits p), Int8 (prof_tlb_misses p)])"

definition rv64_vm_insn_stats :: "SharedVMState option \<Rightarrow> string + datum list" where
  "rv64_vm_insn_stats = vm_row ''vm_insn_stats: no VM initialized'' (\<lambda>st. let p = cpu_prof (st_cpu st) in
     [Int8 (prof_insn_alu p), Int8 (prof_insn_load p), Int8 (prof_insn_store p), Int8 (prof_insn_branch p), Int8 (prof_insn_jump p),
      Int8 (prof_insn_csr p), Int8 (prof_insn_fpu p), Int8 (prof_insn_atomic p), Int8 (prof_insn_system p), Int8 (prof_insn_other p)])"

definition rv64_vm_io_stats :: "SharedVMState option \<Rightarrow> string + datum list" where
  "rv64_vm_io_stats = vm_row ''vm_io_stats: no VM initialized'' (\<lambda>st. let d = cpu_virtio_blk (st_cpu st) in
     [Int8 (dev_blk_reads d), Int8 (dev_blk_writes d), Int8 (dev_blk_bytes_read d), Int8 (dev_blk_bytes_written d)])"

text \<open>The counters of the compiler are not reachable from a session; only whether there is a compiler is shown.\<close>

definition rv64_vm_jit_stats :: "SharedVMState option \<Rightarrow> string + datum list" where
  "rv64_vm_jit_stats = vm_row ''vm_jit_stats: no VM initialized'' (\<lambda>st.
     if cpu_jit (st_cpu st) \<noteq> None then [Bool True, Int8 0, Int8 0, Int8 0, Int8 0, Float8 0]
     else [Bool False, Int8 0, Int8 0, Int8 0, Int8 0, Float8 0])"

definition rv64_vm_regs :: "SharedVMState option \<Rightarrow> string + datum list" where
  "rv64_vm_regs = vm_row ''vm_regs: no VM initialized'' (\<lambda>st. let c = st_cpu st in
     [Int8 (cpu_pc c), Int8 (cpu_x c 2), Int8 (cpu_instret c), Text (regs_hex (cpu_x c)), Text (regs_hex (cpu_f c))])"

definition fp_abi_names :: "string list" where
  "fp_abi_names = [''ft0'',''ft1'',''ft2'',''ft3'',''ft4'',''ft5'',''ft6'',''ft7'',''fs0'',''fs1'',''fa0'',''fa1'',''fa2'',''fa3'',''fa4'',''fa5'',
     ''fa6'',''fa7'',''fs2'',''fs3'',''fs4'',''fs5'',''fs6'',''fs7'',''fs8'',''fs9'',''fs10'',''fs11'',''ft8'',''ft9'',''ft10'',''ft11'']"

definition freg_row :: "(u32 \<Rightarrow> u64) \<Rightarrow> nat \<Rightarrow> datum list" where
  "freg_row f i = (let raw = f (of_nat i) in
     [Int4 (of_nat i), Text (fp_abi_names ! i), Text (snprintf_text 20 (''0x'' @ fmt_0x 16 (unat raw))), Float4 (ucast raw), Float8 raw])"

definition rv64_vm_fregs :: "SharedVMState option \<Rightarrow> string + datum list list" where
  "rv64_vm_fregs = vm_row ''vm_fregs: no VM initialized'' (\<lambda>st. map (freg_row (cpu_f (st_cpu st))) [0..<32])"

definition run_exit_code :: "run_exit \<Rightarrow> u32" where
  "run_exit_code r = (case r of RUN_EXIT_NONE \<Rightarrow> 0 | RUN_EXIT_BUDGET \<Rightarrow> 1 | RUN_EXIT_ERROR \<Rightarrow> 2 | RUN_EXIT_DEBUG_HALT \<Rightarrow> 3 | RUN_EXIT_WFI_TIMEOUT \<Rightarrow> 4)"

definition rv64_vm_dbg_state :: "SharedVMState option \<Rightarrow> string + datum list" where
  "rv64_vm_dbg_state = vm_row ''vm_dbg_state: no VM initialized'' (\<lambda>st. let c = st_cpu st; d = cpu_dbg c in
     [Int8 (cpu_cycle c), Int8 (cpu_instret c), Bool (cpu_halted c), Bool (cpu_error c), Int4 (run_exit_code (cpu_run_exit_reason c)),
      Bool (dbg_debug_halt d), Bool (dbg_break_active d), Int8 (dbg_break_pc d), Bool (dbg_break_halt d), Int4 (of_int (dbg_break_log_count d)),
      Bool (dbg_watch_active d), Int8 (dbg_watch_addr d), Int4 (of_int (dbg_store_log_count d)), Int4 (of_int (dbg_console_log_count d)),
      Int8 (cpu_satp c), Int4 (cpu_fcsr c), Int8 (cpu_mepc c), Int8 (cpu_mcause c), Int8 (cpu_sepc c), Int8 (cpu_scause c)])"

definition rv64_vm_csrs :: "SharedVMState option \<Rightarrow> string + datum list" where
  "rv64_vm_csrs = vm_row ''vm_csrs: no VM initialized'' (\<lambda>st. let c = st_cpu st in
     [Int8 (cpu_mstatus c), Int8 (cpu_medeleg c), Int8 (cpu_mideleg c), Int8 (cpu_mie c), Int8 (cpu_mip c), Int8 (cpu_mtvec c), Int8 (cpu_mepc c),
      Int8 (cpu_mcause c), Int8 (cpu_mtval c), Int8 (cpu_stvec c), Int8 (cpu_sepc c), Int8 (cpu_scause c), Int8 (cpu_stval c), Int8 (cpu_satp c),
      Int4 (ucast (cpu_priv c))])"

text \<open>The distances to the timers are differences of \<open>int64_t\<close>, which C leaves undefined when they overflow.\<close>

definition int64_sub :: "u64 \<Rightarrow> u64 \<Rightarrow> u64 undef" where
  "int64_sub a b = (if - (2 ^ 63) \<le> sint a - sint b \<and> sint a - sint b < 2 ^ 63 then Some (a - b) else None)"

definition rv64_vm_timer_state :: "SharedVMState option \<Rightarrow> (string + datum list) undef" where
  "rv64_vm_timer_state shared = (case require_vm ''vm_timer_state: no VM initialized'' shared of
     Inl e \<Rightarrow> Some (Inl e)
   | Inr st \<Rightarrow>
       let c = st_cpu st; mtime = c_mtime (cpu_clint c); mtimecmp = c_mtimecmp (cpu_clint c); stimecmp = cpu_stimecmp c in do {
         delta_m \<leftarrow> int64_sub mtimecmp mtime;
         delta_s \<leftarrow> int64_sub stimecmp mtime;
         Some (Inr [Int8 mtime, Int8 mtimecmp, Int8 stimecmp, Int8 delta_m, Int8 delta_s])
       })"

definition rv64_vm_run_reason :: "SharedVMState option \<Rightarrow> string + string" where
  "rv64_vm_run_reason = vm_row ''vm_run_reason: no VM initialized'' (\<lambda>st. case cpu_run_exit_reason (st_cpu st) of
     RUN_EXIT_NONE \<Rightarrow> ''none (not run yet)'' | RUN_EXIT_BUDGET \<Rightarrow> ''budget exhausted''
   | RUN_EXIT_ERROR \<Rightarrow> ''fatal error (rv64_step returned -1)'' | RUN_EXIT_DEBUG_HALT \<Rightarrow> ''debug_halt (breakpoint or vm_step_until)''
   | RUN_EXIT_WFI_TIMEOUT \<Rightarrow> ''wfi_timeout (halted, budget exhausted)'')"

text \<open>The valid entries of the TLB. A pointer is shown and compared as an address: \<open>worker_ram\<close> and \<open>frontend_ram\<close> are the addresses of RAM in the worker and in
  the session, and the pointer of an entry is the worker's.\<close>

definition perm_text :: "u8 \<Rightarrow> string" where
  "perm_text p = [if p AND 2 \<noteq> 0 then CHR ''R'' else CHR ''-'', if p AND 4 \<noteq> 0 then CHR ''W'' else CHR ''-'',
     if p AND 8 \<noteq> 0 then CHR ''X'' else CHR ''-'', if p AND 16 \<noteq> 0 then CHR ''U'' else CHR ''-'']"

definition host_valid :: "u64 \<Rightarrow> u64 \<Rightarrow> u64 \<Rightarrow> u64 option \<Rightarrow> bool" where
  "host_valid worker_ram frontend_ram ram_size hb = (case hb of
     None \<Rightarrow> False
   | Some p \<Rightarrow> frontend_ram \<le> worker_ram + p \<and> worker_ram + p < frontend_ram + ram_size)"

definition tlb_row :: "u64 \<Rightarrow> u64 \<Rightarrow> u64 \<Rightarrow> nat \<Rightarrow> tlb_entry \<Rightarrow> datum list" where
  "tlb_row worker_ram frontend_ram ram_size i te =
     [Int4 (of_nat i), Text (fmt_0xlx (te_vpn te)), Text (fmt_0xlx (te_ppn te)), Text (perm_text (te_perm te)), Int4 (ucast (te_level te)), Bool (te_dirty te),
      Text (case te_host_base te of None \<Rightarrow> ''NULL (MMIO)'' | Some p \<Rightarrow> snprintf_text 24 (''0x'' @ hex_digits (unat (worker_ram + p)))),
      Bool (host_valid worker_ram frontend_ram ram_size (te_host_base te))]"

definition rv64_vm_tlb_dump :: "u64 \<Rightarrow> u64 \<Rightarrow> SharedVMState option \<Rightarrow> (string + datum list list) \<times> SharedVMState option" where
  "rv64_vm_tlb_dump worker_ram frontend_ram shared = (case require_vm ''vm_tlb_dump: no VM initialized'' shared of
     Inl e \<Rightarrow> (Inl e, shared)
   | Inr st0 \<Rightarrow> (case ensure_frontend_ram (Some st0) of
       Inl e \<Rightarrow> (Inl e, shared)
     | Inr st \<Rightarrow>
         let c = st_cpu st in
         (Inr (map (\<lambda>i. tlb_row worker_ram frontend_ram (cpu_ram_size c) i (cpu_tlb c (of_nat i)))
               (filter (\<lambda>i. te_valid (cpu_tlb c (of_nat i))) [0..<TLB_SIZE])), Some st)))"

subsection \<open>Writing guest memory\<close>

definition rv64_vm_poke :: "u64 \<Rightarrow> u64 \<Rightarrow> u64 \<Rightarrow> int option \<Rightarrow> SharedVMState option \<Rightarrow> mem \<Rightarrow> ((string + unit) \<times> SharedVMState option \<times> mem) undef" where
  "rv64_vm_poke delta addr val sz = inspect ''vm_poke: no VM initialized'' delta (\<lambda>m.
     let n = (case sz of None \<Rightarrow> 8 | Some k \<Rightarrow> k) in
     if \<not> peek_size n then Some (Inl ''vm_poke: size must be 1, 2, 4, or 8'', m)
     else do {
       (r, m1) \<leftarrow> rv64_jit_store m addr (nat n) val;
       Some (case r of Inl _ \<Rightarrow> Inl ''vm_poke: store fault'' | Inr _ \<Rightarrow> Inr (), m1)
     })"

subsection \<open>What is not available\<close>

text \<open>\<open>vm_jit_set\<close> never switches anything, and \<open>vm_jit_compare\<close> stops before it compares anything.\<close>

definition rv64_vm_jit_set :: "bool \<Rightarrow> SharedVMState option \<Rightarrow> string + string" where
  "rv64_vm_jit_set enable shared = (case require_vm ''vm_jit_set: no VM initialized'' shared of
     Inl e \<Rightarrow> Inl e
   | Inr st \<Rightarrow>
       if cpu_jit (st_cpu st) = None then
         (if enable then Inl ''vm_jit_set: JIT compiler not supported on this host (mmap failed or wrong arch)''
          else Inr ''JIT compiler is permanently unavailable.'')
       else Inl ''vm_jit_set: toggling JIT requires IPC command (not yet implemented)'')"

definition rv64_vm_jit_compare :: "SharedVMState option \<Rightarrow> (string + datum list list) \<times> SharedVMState option" where
  "rv64_vm_jit_compare shared = (case require_vm ''vm_jit_compare: no VM initialized'' shared of
     Inl e \<Rightarrow> (Inl e, shared)
   | Inr st0 \<Rightarrow> (case ensure_frontend_ram (Some st0) of
       Inl e \<Rightarrow> (Inl e, shared)
     | Inr st \<Rightarrow> (Inl ''vm_jit_compare: not yet supported in frontend/worker model'', Some st)))"

text \<open>The compiler worker: one answer for each request of eight bytes, of 20 bytes where nothing was compiled. (The answer with code is never made, since
  \<open>jit_compile_offline\<close> compiles nothing; \<open>code\<close> stands for what it would have left.)\<close>

definition parallel_answer :: "'c vm \<Rightarrow> 'c jit_state \<Rightarrow> u32 \<Rightarrow> u32 \<Rightarrow> u32 list \<Rightarrow> u8 list \<Rightarrow> (u64 \<times> u32 list) option" where
  "parallel_answer m jit insn_count has_store code req =
     (if length req \<noteq> 8 then None
      else let target_pc = le_val req; words = jit_compile_offline m jit target_pc in
        if words = 0 then Some (target_pc, [0, 0, 0])
        else if words < 1000 then Some (target_pc, [insn_count, has_store, words] @ take (unat words) code)
        else None)"

fun rv64_jit_parallel_worker :: "'c vm \<Rightarrow> 'c jit_state \<Rightarrow> u32 \<Rightarrow> u32 \<Rightarrow> u32 list \<Rightarrow> u8 list list \<Rightarrow> (u64 \<times> u32 list) list" where
  "rv64_jit_parallel_worker m jit ic hs code [] = []"
| "rv64_jit_parallel_worker m jit ic hs code (req # reqs) =
     (case parallel_answer m jit ic hs code req of None \<Rightarrow> [] | Some a \<Rightarrow> [a]) @ rv64_jit_parallel_worker m jit ic hs code reqs"

end
