(* ===== verification/RV_Snapshot.thy ===== *)
theory RV_Snapshot
  imports RV_Rows
begin

text \<open>
  Snapshots in files: \<open>vm_save\<close>, \<open>vm_load\<close> and \<open>vm_snapshot_info\<close> of \<open>rv64_pgext.c\<close>. A file is what \<open>fread\<close> finds in it: a header, the processor structure,
  RAM and the console text, of which RAM and text may be short and the others missing. \<open>cpu_size\<close> is \<open>sizeof(struct rv64_cpu)\<close> of the build.

  A snapshot restores what was saved, but only in a session whose worker is not running, and into variables of that session; in every other
  session loading a snapshot is undefined.
\<close>

abbreviation (input) SNAPSHOT_MAGIC :: u64 where "SNAPSHOT_MAGIC \<equiv> 0x485350414E535652"
abbreviation (input) SNAPSHOT_VERSION :: u32 where "SNAPSHOT_VERSION \<equiv> 1"

record vm_snapshot_header =
  hdr_magic :: u64
  hdr_version :: u32
  hdr_struct_size :: u64
  hdr_ram_size :: u64
  hdr_console_size :: u32
  hdr_pc :: u64
  hdr_instret :: u64
  hdr_cycle :: u64
  hdr_priv :: u8
  hdr_mtime :: u64
  hdr_satp :: u64
  hdr_halted :: bool
  hdr_error :: bool
  hdr_run_exit_reason :: u32
  hdr_mstatus :: u64
  hdr_fcsr :: u32

record snapshot_file =
  sn_header :: "vm_snapshot_header option"
  sn_cpu :: "lir list rv64_cpu option"
  sn_ram :: "u8 list"
  sn_console :: "u8 list"

definition snapshot_header :: "u64 \<Rightarrow> SharedVMState \<Rightarrow> vm_snapshot_header" where
  "snapshot_header cpu_size st = (let c = st_cpu st in
     \<lparr>hdr_magic = SNAPSHOT_MAGIC, hdr_version = SNAPSHOT_VERSION, hdr_struct_size = cpu_size, hdr_ram_size = cpu_ram_size c,
      hdr_console_size = of_int (st_console_pos st), hdr_pc = cpu_pc c, hdr_instret = cpu_instret c, hdr_cycle = cpu_cycle c, hdr_priv = cpu_priv c,
      hdr_mtime = c_mtime (cpu_clint c), hdr_satp = cpu_satp c, hdr_halted = cpu_halted c, hdr_error = cpu_error c,
      hdr_run_exit_reason = run_exit_code (cpu_run_exit_reason c), hdr_mstatus = cpu_mstatus c, hdr_fcsr = cpu_fcsr c\<rparr>)"

text \<open>\<open>opened\<close> and \<open>written\<close>: whether the file could be opened and all of it written. The header is made before the size of RAM is
  copied into the processor.\<close>

definition rv64_vm_save :: "u64 \<Rightarrow> bool \<Rightarrow> bool \<Rightarrow> SharedVMState option \<Rightarrow> mem \<Rightarrow> (string + snapshot_file) \<times> SharedVMState option" where
  "rv64_vm_save cpu_size opened written shared ram = (case require_vm ''vm_save: no VM initialized'' shared of
     Inl e \<Rightarrow> (Inl e, shared)
   | Inr st0 \<Rightarrow>
       if \<not> opened then (Inl ''vm_save: cannot open for writing'', shared)
       else (let hdr = snapshot_header cpu_size st0 in
         case ensure_frontend_ram (Some st0) of
           Inl e \<Rightarrow> (Inl e, shared)
         | Inr st \<Rightarrow>
             if written then
               (Inr \<lparr>sn_header = Some hdr, sn_cpu = Some (st_cpu st), sn_ram = read_bytes ram 0 (unat (cpu_ram_size (st_cpu st))),
                     sn_console = map (st_console_buf st) [0..<nat (st_console_pos st)]\<rparr>, Some st)
             else (Inl ''vm_save: write error'', Some st)))"

text \<open>The variables \<open>vm_cpu\<close> and \<open>vm_ram\<close> of the session that loads.\<close>

record session_vars =
  sv_cpu :: "lir list rv64_cpu option"
  sv_ram :: "u8 list option"

definition zero_session_cpu :: "lir list rv64_cpu" where
  "zero_session_cpu = st_cpu fresh_shared"

definition load_header :: "u64 \<Rightarrow> snapshot_file option \<Rightarrow> string + vm_snapshot_header" where
  "load_header cpu_size file = (case file of
     None \<Rightarrow> Inl ''vm_load: cannot open''
   | Some f \<Rightarrow> (case sn_header f of
       None \<Rightarrow> Inl ''vm_load: cannot read header''
     | Some hdr \<Rightarrow>
         if hdr_magic hdr \<noteq> SNAPSHOT_MAGIC then Inl ''vm_load: bad magic (not a VM snapshot)''
         else if hdr_version hdr \<noteq> SNAPSHOT_VERSION then Inl ''vm_load: version mismatch''
         else if hdr_struct_size hdr \<noteq> cpu_size then Inl ''vm_load: struct size mismatch''
         else Inr hdr))"

text \<open>Allocation of the two buffers; a null \<open>vm_cpu\<close> is read when there is RAM to compare.\<close>

definition load_buffers :: "vm_snapshot_header \<Rightarrow> SharedVMState option \<Rightarrow> session_vars \<Rightarrow> session_vars undef" where
  "load_buffers hdr shared v =
     (let cpu = (case require_vm [] shared of Inl _ \<Rightarrow> Some zero_session_cpu | Inr _ \<Rightarrow> sv_cpu v);
          fresh = replicate (unat (hdr_ram_size hdr)) 0 in
      case sv_ram v of
        None \<Rightarrow> Some (v\<lparr>sv_cpu := cpu, sv_ram := Some fresh\<rparr>)
      | Some r \<Rightarrow> (case cpu of
          None \<Rightarrow> None
        | Some c \<Rightarrow> Some (v\<lparr>sv_cpu := cpu, sv_ram := Some (if cpu_ram_size c \<noteq> hdr_ram_size hdr then fresh else r)\<rparr>)))"

text \<open>The console text; a size of \<open>2\<^sup>3\<^sup>1\<close> or more becomes a negative position. When the file ends early, the position is
  already set and what there was of the text is in the buffer.\<close>

definition load_console :: "vm_snapshot_header \<Rightarrow> u8 list \<Rightarrow> SharedVMState \<Rightarrow> ((string + unit) \<times> SharedVMState) undef" where
  "load_console hdr txt st =
     (let n = sint (hdr_console_size hdr); pos = (if n > CONSOLE_BUF_SIZE - 1 then CONSOLE_BUF_SIZE - 1 else n);
          filled = (\<lambda>i. if i < min (nat pos) (length txt) then txt ! i else st_console_buf st i) in
      if pos > 0 \<and> length txt < nat pos then
        Some (Inl ''vm_load: cannot read console'', st\<lparr>st_console_pos := pos, st_console_buf := filled\<rparr>)
      else if pos < 0 then None
      else Some (Inr (), st\<lparr>st_console_pos := pos, st_console_buf := filled(nat pos := 0)\<rparr>))"

definition load_fixup :: "'c jit_state option \<Rightarrow> ('c, 'z) rv64_cpu_scheme \<Rightarrow> ('c, 'z) rv64_cpu_scheme" where
  "load_fixup jit c = c\<lparr>cpu_jit := jit, cpu_uart := (cpu_uart c)\<lparr>u_tx_callback := True\<rparr>, cpu_tlb := (\<lambda>_. zero_tlb_entry),
     cpu_dbg := (cpu_dbg c)\<lparr>dbg_debug_halt := False\<rparr>\<rparr>"

text \<open>A buffer after \<open>fread\<close> of \<open>bs\<close> into it.\<close>

definition fread_into :: "u8 list \<Rightarrow> u8 list \<Rightarrow> u8 list" where
  "fread_into bs buf = bs @ drop (length bs) buf"

text \<open>\<open>jit\<close>: the new compiler state, if it could be made.\<close>

definition rv64_vm_load ::
  "u64 \<Rightarrow> lir list jit_state option \<Rightarrow> snapshot_file option \<Rightarrow> SharedVMState option \<Rightarrow> session_vars \<Rightarrow>
   ((string + unit) \<times> SharedVMState option \<times> session_vars) undef" where
  "rv64_vm_load cpu_size jit file shared v = (case load_header cpu_size file of
     Inl e \<Rightarrow> Some (Inl e, shared, v)
   | Inr hdr \<Rightarrow> do {
       v1 \<leftarrow> load_buffers hdr shared v;
       st \<leftarrow> shared;
       _ \<leftarrow> sv_cpu v1;
       let st1 = st\<lparr>st_console_pos := 0\<rparr>; f = the file in
       (case sn_cpu f of
          None \<Rightarrow> Some (Inl ''vm_load: cannot read cpu struct'', Some st1, v1)
        | Some c \<Rightarrow>
            let v2 = v1\<lparr>sv_cpu := Some c, sv_ram := map_option (fread_into (take (unat (hdr_ram_size hdr)) (sn_ram f))) (sv_ram v1)\<rparr> in
            if length (sn_ram f) < unat (hdr_ram_size hdr) then Some (Inl ''vm_load: cannot read RAM'', Some st1, v2)
            else do {
              (r, st2) \<leftarrow> load_console hdr (sn_console f) st1;
              Some (case r of
                 Inl e \<Rightarrow> (Inl e, Some st2, v2)
               | Inr _ \<Rightarrow> (Inr (), Some st2, v2\<lparr>sv_cpu := Some (load_fixup jit c)\<rparr>))
            })
     })"

text \<open>\<open>(int32_t)hdr.ram_size / (1024*1024)\<close>: the cast comes before the division.\<close>

definition ram_mb :: "u64 \<Rightarrow> u32" where
  "ram_mb n = of_int (let i = sint (ucast n :: u32) in if i < 0 then - ((- i) div 1048576) else i div 1048576)"

definition rv64_vm_snapshot_info :: "snapshot_file option \<Rightarrow> string + datum list" where
  "rv64_vm_snapshot_info file = (case file of
     None \<Rightarrow> Inl ''vm_snapshot_info: cannot open''
   | Some f \<Rightarrow> (case sn_header f of
       None \<Rightarrow> Inl ''vm_snapshot_info: cannot read header''
     | Some h \<Rightarrow>
         if hdr_magic h \<noteq> SNAPSHOT_MAGIC then Inl ''vm_snapshot_info: not a VM snapshot''
         else Inr [Int8 (hdr_pc h), Int4 (ucast (hdr_priv h)), Int8 (hdr_instret h), Int8 (hdr_cycle h), Int8 (hdr_mtime h), Bool (hdr_halted h), Bool (hdr_error h),
           Int4 (hdr_run_exit_reason h), Int8 (hdr_satp h), Int8 (hdr_mstatus h), Int4 (ram_mb (hdr_ram_size h)), Int4 (hdr_console_size h)]))"

subsection \<open>Saving and loading\<close>


text \<open>A machine of one page with an empty console.\<close>

definition small_shared :: SharedVMState where
  "small_shared = fresh_shared\<lparr>st_worker_ready := True, st_ram_handle_valid := True, st_ram_size := 4096,
     st_cpu := (st_cpu fresh_shared)\<lparr>cpu_ram_size := 4096\<rparr>\<rparr>"


text \<open>In a session of a running machine that has no processor of its own the header is checked and then a null pointer is written; without shared memory as well.\<close>

theorem vm_load_undefined:
  assumes "load_header cpu_size file = Inr hdr" "sv_cpu v = None" "sv_ram v = None"
    and "\<And>st. shared = Some st \<Longrightarrow> st_worker_ready st"
  shows "rv64_vm_load cpu_size jit file shared v = None"
  using assms by (cases shared) (simp_all add: rv64_vm_load_def load_buffers_def require_vm_def Let_def)

text \<open>The size of RAM is shown negative: a machine has two gigabytes.\<close>

lemma ram_mb_negative: "ram_mb (2048 * 1024 * 1024) = - 2048"
  by (simp add: ram_mb_def Let_def)

text \<open>A console size of \<open>2\<^sup>3\<^sup>1\<close> in the header passes every check and is used as a negative index.\<close>

lemma load_console_negative: "hdr_console_size hdr = 0x80000000 \<Longrightarrow> load_console hdr txt st = None"
  by (simp add: load_console_def Let_def)

text \<open>The information about a file is what the saved machine shows.\<close>

lemma snapshot_info_saved:
  assumes "rv64_vm_save cpu_size True True (Some st) ram = (Inr f, shared')"
  shows "\<exists>row. rv64_vm_snapshot_info (Some f) = Inr row \<and> take 2 row = [Int8 (cpu_pc (st_cpu st)), Int4 (ucast (cpu_priv (st_cpu st)))] \<and>
    row ! 2 = Int8 (cpu_instret (st_cpu st)) \<and> row ! 8 = Int8 (cpu_satp (st_cpu st))"
  using assms by (auto simp: rv64_vm_save_def rv64_vm_snapshot_info_def snapshot_header_def require_vm_def ensure_frontend_ram_def Let_def split: if_splits)

end
