(* ===== verification/RV_Columns.thy ===== *)
theory RV_Columns
  imports RV_Snapshot RV_Disasm
begin

text \<open>
  The columns that \<open>linuxsql_vm--1.0.sql\<close> declares for the functions that return rows, and the proof that every row has them. The server trusts a
  C function to build its rows with the declared columns: a missing one, or a number where a text is declared, would be read as something else or as a pointer.
\<close>

datatype column = INT4OID | INT8OID | BOOLOID | TEXTOID | FLOAT4OID | FLOAT8OID

fun column_of :: "datum \<Rightarrow> column" where
  "column_of (Int4 _) = INT4OID"
| "column_of (Int8 _) = INT8OID"
| "column_of (Bool _) = BOOLOID"
| "column_of (Text _) = TEXTOID"
| "column_of (Float4 _) = FLOAT4OID"
| "column_of (Float8 _) = FLOAT8OID"

definition typed_row :: "column list \<Rightarrow> datum list \<Rightarrow> bool" where
  "typed_row cols row \<longleftrightarrow> map column_of row = cols"

subsection \<open>The declarations\<close>

definition vm_state_t :: "column list" where
  "vm_state_t = [INT8OID, INT4OID, BOOLOID, INT8OID, INT8OID, INT8OID, INT8OID, INT8OID, INT8OID, BOOLOID, INT4OID, INT4OID, INT4OID, INT4OID,
     INT4OID, INT4OID, INT4OID, INT4OID, INT4OID, INT4OID, INT4OID]"

definition vm_profile_t :: "column list" where
  "vm_profile_t = [INT8OID, INT8OID, INT8OID, INT8OID, INT8OID, INT8OID, INT8OID, INT8OID]"

definition vm_perf_t :: "column list" where
  "vm_perf_t = [FLOAT8OID, INT8OID, FLOAT8OID]"

definition vm_insn_stats_t :: "column list" where
  "vm_insn_stats_t = [INT8OID, INT8OID, INT8OID, INT8OID, INT8OID, INT8OID, INT8OID, INT8OID, INT8OID, INT8OID]"

definition vm_io_stats_t :: "column list" where
  "vm_io_stats_t = [INT8OID, INT8OID, INT8OID, INT8OID]"

definition vm_jit_stats_t :: "column list" where
  "vm_jit_stats_t = [BOOLOID, INT8OID, INT8OID, INT8OID, INT8OID, FLOAT8OID]"

definition vm_regs_t :: "column list" where
  "vm_regs_t = [INT8OID, INT8OID, INT8OID, TEXTOID, TEXTOID]"

definition vm_dbg_state_t :: "column list" where
  "vm_dbg_state_t = [INT8OID, INT8OID, BOOLOID, BOOLOID, INT4OID, BOOLOID, BOOLOID, INT8OID, BOOLOID, INT4OID, BOOLOID, INT8OID, INT4OID, INT4OID,
     INT8OID, INT4OID, INT8OID, INT8OID, INT8OID, INT8OID]"

definition vm_timer_state_t :: "column list" where
  "vm_timer_state_t = [INT8OID, INT8OID, INT8OID, INT8OID, INT8OID]"

definition vm_snapshot_info_t :: "column list" where
  "vm_snapshot_info_t = [INT8OID, INT4OID, INT8OID, INT8OID, INT8OID, BOOLOID, BOOLOID, INT4OID, INT8OID, INT8OID, INT4OID, INT4OID]"

definition vm_csrs_t :: "column list" where
  "vm_csrs_t = [INT8OID, INT8OID, INT8OID, INT8OID, INT8OID, INT8OID, INT8OID, INT8OID, INT8OID, INT8OID, INT8OID, INT8OID, INT8OID, INT8OID, INT4OID]"

definition watch_log_columns :: "column list" where
  "watch_log_columns = [INT4OID, INT8OID, INT8OID, INT8OID, INT4OID, INT8OID]"

definition break_log_columns :: "column list" where
  "break_log_columns = [INT4OID, INT8OID, INT8OID, INT8OID, TEXTOID, TEXTOID]"

definition trap_log_columns :: "column list" where
  "trap_log_columns = [INT4OID, TEXTOID, TEXTOID, TEXTOID, TEXTOID, INT8OID, INT8OID, TEXTOID, TEXTOID, TEXTOID, TEXTOID, TEXTOID]"

definition profile_guest_columns :: "column list" where
  "profile_guest_columns = [INT4OID, INT8OID, INT8OID, INT8OID]"

definition fregs_columns :: "column list" where
  "fregs_columns = [INT4OID, TEXTOID, TEXTOID, FLOAT4OID, FLOAT8OID]"

definition disasm_columns :: "column list" where
  "disasm_columns = [TEXTOID, TEXTOID, TEXTOID]"

definition tlb_dump_columns :: "column list" where
  "tlb_dump_columns = [INT4OID, TEXTOID, TEXTOID, TEXTOID, INT4OID, BOOLOID, TEXTOID, BOOLOID]"

subsection \<open>Every row is typed\<close>

lemma vm_row_Inr: "vm_row msg f shared = Inr r \<Longrightarrow> \<exists>st. shared = Some st \<and> r = f st"
  by (auto simp: vm_row_def require_vm_def split: option.splits if_splits)

lemma typed_composites:
  "rv64_vm_profile shared = Inr row \<Longrightarrow> typed_row vm_profile_t row"
  "rv64_vm_insn_stats shared = Inr row \<Longrightarrow> typed_row vm_insn_stats_t row"
  "rv64_vm_io_stats shared = Inr row \<Longrightarrow> typed_row vm_io_stats_t row"
  "rv64_vm_jit_stats shared = Inr row \<Longrightarrow> typed_row vm_jit_stats_t row"
  "rv64_vm_regs shared = Inr row \<Longrightarrow> typed_row vm_regs_t row"
  "rv64_vm_dbg_state shared = Inr row \<Longrightarrow> typed_row vm_dbg_state_t row"
  "rv64_vm_csrs shared = Inr row \<Longrightarrow> typed_row vm_csrs_t row"
  unfolding rv64_vm_profile_def rv64_vm_insn_stats_def rv64_vm_io_stats_def rv64_vm_jit_stats_def rv64_vm_regs_def rv64_vm_dbg_state_def rv64_vm_csrs_def
  by (drule vm_row_Inr, auto simp: typed_row_def Let_def vm_profile_t_def vm_insn_stats_t_def vm_io_stats_t_def vm_jit_stats_t_def vm_regs_t_def
    vm_dbg_state_t_def vm_csrs_t_def)+

lemma typed_state: "rv64_vm_state shared ram = (Inr row, shared') \<Longrightarrow> typed_row vm_state_t row"
  by (auto simp: rv64_vm_state_def state_row_def typed_row_def vm_state_t_def Let_def split: sum.splits)

lemma ipc_return_Inr:
  assumes "ipc_return f res = Some (Inr v, s')"
  shows "v \<in> range f"
proof -
  from assms obtain r st where "(case r of Inl e \<Rightarrow> Inl e | Inr (_ :: unit) \<Rightarrow> Inr (f st)) = (Inr v :: string + 'a)"
    by (auto simp: ipc_return_def)
  then show ?thesis by (cases r) auto
qed

lemma typed_perf: "rv64_vm_perf hf h al env client timing cycles s = Some (Inr row, s') \<Longrightarrow> typed_row vm_perf_t row"
  by (auto simp: rv64_vm_perf_def typed_row_def vm_perf_t_def Let_def dest!: ipc_return_Inr split: sum.split_asm)

lemma typed_timer: "rv64_vm_timer_state shared = Some (Inr row) \<Longrightarrow> typed_row vm_timer_state_t row"
  by (auto simp: rv64_vm_timer_state_def typed_row_def vm_timer_state_t_def Let_def bind_eq_Some_conv split: sum.splits)

lemma typed_snapshot_info: "rv64_vm_snapshot_info file = Inr row \<Longrightarrow> typed_row vm_snapshot_info_t row"
  by (auto simp: rv64_vm_snapshot_info_def typed_row_def vm_snapshot_info_t_def split: option.splits if_splits)

lemma typed_logs:
  "rv64_vm_watch_log shared = Some rows \<Longrightarrow> row \<in> set rows \<Longrightarrow> typed_row watch_log_columns row"
  "rv64_vm_break_log shared = Some rows \<Longrightarrow> row \<in> set rows \<Longrightarrow> typed_row break_log_columns row"
  "rv64_vm_trap_log shared = Inr rows \<Longrightarrow> row \<in> set rows \<Longrightarrow> typed_row trap_log_columns row"
  "row \<in> set (rv64_vm_profile_guest shared) \<Longrightarrow> typed_row profile_guest_columns row"
  by (auto simp: rv64_vm_watch_log_def rv64_vm_break_log_def rv64_vm_trap_log_def rv64_vm_profile_guest_def watch_row_def break_row_def trap_row_def typed_row_def
    watch_log_columns_def break_log_columns_def trap_log_columns_def profile_guest_columns_def Let_def split: sum.splits option.splits)

lemma typed_fregs: "rv64_vm_fregs shared = Inr rows \<Longrightarrow> row \<in> set rows \<Longrightarrow> typed_row fregs_columns row"
  unfolding rv64_vm_fregs_def
  by (drule vm_row_Inr) (auto simp: freg_row_def typed_row_def fregs_columns_def Let_def)

lemma typed_disasm_row:
  assumes "disasm_row pc m = Some (r, pc', m1)"
  shows "typed_row disasm_columns r"
proof -
  from assms obtain a b where load: "rv64_cpu_load m pc 2 ACCESS_EXEC = Some (a, b)" by (auto simp: disasm_row_def Let_def bind_eq_Some_conv)
  show ?thesis
  proof (cases a)
    case Inl
    with assms load show ?thesis by (auto simp: disasm_row_def Let_def typed_row_def disasm_columns_def)
  next
    case (Inr lo)
    with assms load show ?thesis
      by (cases "(ucast lo :: u16) AND 3 = 3") (auto simp: disasm_row_def Let_def typed_row_def disasm_columns_def bind_eq_Some_conv)
  qed
qed

lemma typed_disasm_rows: "disasm_rows n pc m = Some (rows, m') \<Longrightarrow> row \<in> set rows \<Longrightarrow> typed_row disasm_columns row"
proof (induction n arbitrary: pc m rows)
  case (Suc n)
  from Suc.prems(1) obtain r pc' m1 rs where step: "disasm_row pc m = Some (r, pc', m1)" "disasm_rows n pc' m1 = Some (rs, m')" "rows = r # rs"
    by (auto simp: bind_eq_Some_conv)
  have "typed_row disasm_columns r" using step(1) by (rule typed_disasm_row)
  with Suc.IH[OF step(2)] Suc.prems(2) step(3) show ?case by auto
qed simp

lemma typed_disasm: "rv64_vm_disasm delta addr cnt shared ram = Some (Inr rows, shared', ram') \<Longrightarrow> row \<in> set rows \<Longrightarrow> typed_row disasm_columns row"
  by (auto simp: rv64_vm_disasm_def inspect_def bind_eq_Some_conv split: sum.splits dest: typed_disasm_rows)

lemma typed_tlb_dump: "rv64_vm_tlb_dump wr fr shared = (Inr rows, shared') \<Longrightarrow> row \<in> set rows \<Longrightarrow> typed_row tlb_dump_columns row"
  by (auto simp: rv64_vm_tlb_dump_def tlb_row_def typed_row_def tlb_dump_columns_def Let_def split: sum.splits)



subsection \<open>Where a row misleads\<close>

text \<open>The pointers of the TLB are addresses of the worker. A session that maps RAM elsewhere shows a sound entry as one outside RAM.\<close>

theorem tlb_dump_flags_sound_entry:
  assumes "p < ram_size" "unat worker_ram + unat ram_size < 2 ^ 64" "worker_ram + ram_size \<le> frontend_ram"
  shows "\<not> host_valid worker_ram frontend_ram ram_size (Some p)"
proof -
  have "unat (worker_ram + p) < unat (worker_ram + ram_size)"
    using assms(1,2) by (simp add: unat_word_ariths word_less_nat_alt)
  then have "worker_ram + p < worker_ram + ram_size" by (simp add: word_less_nat_alt)
  with assms(3) have "worker_ram + p < frontend_ram" by simp
  then show ?thesis by (simp add: host_valid_def not_le)
qed

text \<open>A timer that is switched off by the largest value seems to be overdue.\<close>

lemma timer_off_overdue:
  assumes "c_mtimecmp (cpu_clint (st_cpu st)) = - 1" "cpu_stimecmp (st_cpu st) = - 1" "c_mtime (cpu_clint (st_cpu st)) = 5" "st_worker_ready st"
  shows "rv64_vm_timer_state (Some st) = Some (Inr [Int8 5, Int8 (- 1), Int8 (- 1), Int8 (- 6), Int8 (- 6)])"
  using assms by (simp add: rv64_vm_timer_state_def require_vm_def int64_sub_def Let_def)

end
