(* ===== verification/RV_Boot_File.thy ===== *)
theory RV_Boot_File
  imports RV_Snapshot
begin

text \<open>
  The boot from host files, \<open>rv64_vm_boot\<close> of \<open>rv64_pgext.c\<close>, with \<open>vm_auto_resume\<close> and \<open>load_to_ram\<close>. It makes a machine in the variables of the session
  itself, where no worker runs it: the machine of the row saved in \<open>vm_state\<close>, if there is one, or a reset machine with firmware, kernel, device tree and RAM disk read from
  files.

  Files, memory and the database are parameters (\<open>file_env\<close>). The largest request that \<open>palloc\<close> grants, \<open>fe_palloc_max\<close>, is one byte below a
  gigabyte in PostgreSQL; no theorem needs the number. Memory from \<open>malloc\<close> has the contents \<open>fe_heap\<close>.
\<close>

subsection \<open>Files\<close>

text \<open>A file that can be opened: its size and what successive calls of \<open>read\<close> return, \<open>None\<close> for an error and nothing at the end.\<close>

record host_file =
  hf_size :: u64
  hf_reads :: "u8 list option list"

definition read_fd :: "u8 list option list \<Rightarrow> u64 \<Rightarrow> u8 list option" where
  "read_fd rs n = (case rs of [] \<Rightarrow> Some [] | r # _ \<Rightarrow> map_option (take (unat n)) r)"

definition load_to_ram :: "host_file option \<Rightarrow> u64 \<Rightarrow> u64 \<Rightarrow> mem \<Rightarrow> (u64 \<times> mem) undef" where
  "load_to_ram file ram_size load_addr ram = (case file of
     None \<Rightarrow> Some (- 1, ram)
   | Some f \<Rightarrow>
       let offset = load_addr - RAM_BASE in
       if offset + hf_size f > ram_size then Some (- 1, ram)
       else (case read_fd (hf_reads f) (hf_size f) of
          None \<Rightarrow> Some (- 1, ram)
        | Some bs \<Rightarrow>
            if in_block ram_size offset (length bs)
            then Some (if of_nat (length bs) = hf_size f then hf_size f else - 1, write_bytes ram offset bs) else None))"

text \<open>The disk is read in pieces of at most a gigabyte, until its size is reached or a read fails.\<close>

fun disk_read_loop :: "u64 \<Rightarrow> u64 \<Rightarrow> u8 list option list \<Rightarrow> mem \<Rightarrow> u64 \<times> mem" where
  "disk_read_loop disk_size tot [] disk = (tot, disk)"
| "disk_read_loop disk_size tot (r # rs) disk =
     (if tot < disk_size then
        (let want = (if disk_size - tot > 0x40000000 then 0x40000000 else disk_size - tot) in
         case read_fd (r # rs) want of
           None \<Rightarrow> (tot, disk)
         | Some bs \<Rightarrow> if bs = [] then (tot, disk) else disk_read_loop disk_size (tot + of_nat (length bs)) rs (write_bytes disk tot bs))
      else (tot, disk))"

subsection \<open>Session and environment\<close>

text \<open>The pointer \<open>vm_ram\<close>: null, from \<open>palloc\<close>, or the address of a shared segment.\<close>

datatype ram_block = NoRam | PallocRam | SegmentRam

record file_session =
  fs_cpu :: "lir list vm option"
  fs_ram :: ram_block
  fs_disk :: "mem option"
  fs_disk_size :: u64
  fs_dirty :: bitmap

text \<open>The row of \<open>vm_state\<close>; columns may be null. A large object that does not exist reads as nothing. \<open>rr_cpu\<close> is missing when the column is null or
  has another size than the structure.\<close>

record resume_row =
  rr_ram_size :: "u64 option"
  rr_disk_size :: "u64 option"
  rr_ram :: "u8 list option option"
  rr_disk :: "u8 list option"
  rr_cpu :: "lir list rv64_cpu option"
  rr_console :: "u8 list option"

record file_env =
  fe_file :: "string \<Rightarrow> host_file option"
  fe_row :: "resume_row option"
  fe_blocks :: blocks
  fe_connect :: bool
  fe_dsm :: bool
  fe_palloc_max :: u64
  fe_malloc :: bool
  fe_calloc :: bool
  fe_heap :: mem
  fe_jit_alloc :: bool
  fe_clock :: "nat \<Rightarrow> u64"

record boot_args =
  ba_fw :: string
  ba_kernel :: string
  ba_dtb :: string
  ba_initrd :: string
  ba_disk :: "string option"
  ba_ram_mb :: "int option"

subsection \<open>Resuming\<close>

text \<open>The copied structure, with RAM if it could be allocated. A saved pointer to a disk does not outlive its process.\<close>

definition resume_cpu :: "file_env \<Rightarrow> mem option \<Rightarrow> lir list rv64_cpu \<Rightarrow> lir list vm" where
  "resume_cpu env ram c = (let m = rv64_cpu.extend c (vm.fields ram (fe_clock env) 0 0)
     in m\<lparr>cpu_virtio_blk := (cpu_virtio_blk m)\<lparr>dev_disk_data := None\<rparr>\<rparr>)"

definition resume_console :: "u8 list option \<Rightarrow> SharedVMState \<Rightarrow> SharedVMState" where
  "resume_console con st = (case con of
     Some (b # bs) \<Rightarrow>
       let n = min (length (b # bs)) (nat CONSOLE_BUF_SIZE - 1) in
       st\<lparr>st_console_pos := int n, st_console_buf := (\<lambda>i. if i < n then (b # bs) ! i else if i = n then 0 else st_console_buf st i)\<rparr>
   | _ \<Rightarrow> st\<lparr>st_console_pos := 0, st_console_buf := (st_console_buf st)(0 := 0)\<rparr>)"

text \<open>The saved disk; without memory for it the null pointer is written to.\<close>

definition resume_disk :: "file_env \<Rightarrow> resume_row \<Rightarrow> u64 \<Rightarrow> (mem option \<times> u64) undef" where
  "resume_disk env r old_size =
     (let sz = (case rr_disk_size r of None \<Rightarrow> 0 | Some n \<Rightarrow> n) in
      case rr_disk r of
        None \<Rightarrow> Some (None, old_size)
      | Some lo \<Rightarrow>
          if sz = 0 then Some (None, old_size)
          else if fe_malloc env then Some (Some (write_bytes (fe_heap env) 0 (snd (lo_read_buf (Some lo) sz))), sz)
          else None)"

definition resume_fixup :: "file_env \<Rightarrow> mem option \<Rightarrow> u64 \<Rightarrow> lir list vm \<Rightarrow> lir list vm" where
  "resume_fixup env disk sz m =
     (let m1 = load_fixup (if fe_jit_alloc env then Some (jit_init zero_jit) else None) m in
      set_boot_time_ns (case disk of
        None \<Rightarrow> m1
      | Some d \<Rightarrow> m1\<lparr>cpu_virtio_blk := (cpu_virtio_blk m1)\<lparr>dev_disk_data := Some d, dev_disk_size := sz\<rparr>\<rparr>))"

text \<open>An error of the allocation (\<open>Inl\<close>), or whether a machine was resumed. \<open>pfree\<close> of a shared segment is undefined.\<close>

definition resume_machine ::
  "file_env \<Rightarrow> resume_row \<Rightarrow> u64 \<Rightarrow> u8 list option \<Rightarrow> lir list rv64_cpu \<Rightarrow> SharedVMState option \<Rightarrow> file_session \<Rightarrow>
   ((string + bool) \<times> SharedVMState option \<times> file_session) undef" where
  "resume_machine env r sz lo c shared s =
     (if fs_ram s = SegmentRam then None
      else let s1 = s\<lparr>fs_cpu := Some (resume_cpu env None c), fs_ram := NoRam, fs_disk := None\<rparr> in
      if sz > fe_palloc_max env then Some (Inl ''invalid memory alloc request size'', shared, s1)
      else do {
        let ram = write_bytes (\<lambda>_. 0) 0 (snd (lo_read_buf lo sz));
        st \<leftarrow> shared;
        (disk, dsize) \<leftarrow> resume_disk env r (fs_disk_size s);
        Some (Inr True, Some (resume_console (rr_console r) st),
          s1\<lparr>fs_cpu := Some (resume_fixup env disk dsize (resume_cpu env (Some ram) c)), fs_ram := PallocRam,
             fs_disk := disk, fs_disk_size := dsize\<rparr>)
      })"

definition vm_auto_resume ::
  "file_env \<Rightarrow> SharedVMState option \<Rightarrow> file_session \<Rightarrow> ((string + bool) \<times> SharedVMState option \<times> file_session) undef" where
  "vm_auto_resume env shared s = (case fe_row env of
     None \<Rightarrow> Some (Inr False, shared, s)
   | Some r \<Rightarrow> (case (rr_ram_size r, rr_ram r, rr_cpu r) of
       (Some sz, Some lo, Some c) \<Rightarrow> resume_machine env r sz lo c shared s
     | _ \<Rightarrow> Some (Inr False, shared, s)))"

subsection \<open>Cold boot\<close>

definition load_images :: "file_env \<Rightarrow> boot_args \<Rightarrow> u64 \<Rightarrow> mem \<Rightarrow> ((u64 \<times> u64 \<times> u64 \<times> u64) \<times> mem) undef" where
  "load_images env a ram_size ram = do {
     (fw, ram1) \<leftarrow> load_to_ram (fe_file env (ba_fw a)) ram_size 0x80000000 ram;
     (kern, ram2) \<leftarrow> load_to_ram (fe_file env (ba_kernel a)) ram_size 0x80200000 ram1;
     (dtb, ram3) \<leftarrow> load_to_ram (fe_file env (ba_dtb a)) ram_size 0x82000000 ram2;
     (init, ram4) \<leftarrow> load_to_ram (fe_file env (ba_initrd a)) ram_size 0x82200000 ram3;
     Some ((fw, kern, dtb, init), ram4)
   }"

text \<open>The disk with the stored blocks of machine 1 laid over it.\<close>

definition load_disk_file :: "file_env \<Rightarrow> string \<Rightarrow> file_session \<Rightarrow> ((string + unit) \<times> file_session) undef" where
  "load_disk_file env path s = (case fe_file env path of
     None \<Rightarrow> Some (Inl ''vm_boot: cannot open disk'', s)
   | Some f \<Rightarrow>
       let sz = hf_size f; s1 = s\<lparr>fs_disk := None, fs_disk_size := sz\<rparr> in
       if \<not> fe_malloc env then Some (Inl ''vm_boot: malloc failed'', s1)
       else do {
         let disk = snd (disk_read_loop sz 0 (hf_reads f) (fe_heap env));
         disk' \<leftarrow> (if fe_connect env then overlay_blocks sz (select_blocks 1 (fe_blocks env)) disk else Some disk);
         Some (Inr (), s1\<lparr>fs_disk := Some disk', fs_dirty := (if fe_calloc env then disk_bitmap sz else None)\<rparr>)
       })"

definition cold_cpu :: "file_env \<Rightarrow> u64 \<Rightarrow> mem \<Rightarrow> file_session \<Rightarrow> lir list vm" where
  "cold_cpu env ram_size ram s =
     (let m0 = rv64_init (fe_jit_alloc env) ((bare_vm ram 0)\<lparr>vm_clock := fe_clock env\<rparr>) ram_size;
          m1 = set_boot_time_ns (m0\<lparr>cpu_uart := (cpu_uart m0)\<lparr>u_tx_callback := True\<rparr>\<rparr>);
          m2 = (case fs_disk s of None \<Rightarrow> m1 | Some d \<Rightarrow> attach_disk d (fs_disk_size s) m1)
      in m2\<lparr>cpu_virtio_devs := (cpu_virtio_devs m2)(0 := Some Virtio_Blk), cpu_x := (cpu_x m2)(10 := 0, 11 := 0x82000000)\<rparr>)"

definition file_boot_message :: "u64 \<times> u64 \<times> u64 \<times> u64 \<Rightarrow> u64 \<Rightarrow> string" where
  "file_boot_message sizes disk_size = (case sizes of (fw, kern, dtb, init) \<Rightarrow>
     snprintf_text 256 (''VM initialized: fw='' @ fmt_ld fw @ '' kern='' @ fmt_ld kern @ '' dtb='' @ fmt_ld dtb @
       '' initrd='' @ fmt_ld init @ '' disk='' @ dec_digits (unat disk_size)))"

definition boot_ram_size :: "int option \<Rightarrow> u64" where
  "boot_ram_size mb = of_int (case mb of None \<Rightarrow> 2048 | Some n \<Rightarrow> n) * 1024 * 1024"

definition cold_boot ::
  "file_env \<Rightarrow> boot_args \<Rightarrow> SharedVMState option \<Rightarrow> file_session \<Rightarrow> ((string + string) \<times> SharedVMState option \<times> file_session) undef" where
  "cold_boot env a shared s =
     (let ram_size = boot_ram_size (ba_ram_mb a) in
      if \<not> fe_dsm env then Some (Inl ''Failed to allocate 2GB DSM for vm_ram'', shared, s)
      else do {
        let s1 = s\<lparr>fs_ram := SegmentRam\<rparr>;
        st \<leftarrow> shared;
        let sh1 = Some (st\<lparr>st_console_pos := 0\<rparr>);
        ((fw, kern, dtb, init), ram1) \<leftarrow> load_images env a ram_size (\<lambda>_. 0);
        if sint fw < 0 \<or> sint kern < 0 \<or> sint dtb < 0 \<or> sint init < 0 then Some (Inl ''vm_boot: failed to load VM images'', sh1, s1)
        else do {
          ram2 \<leftarrow> dtb_patch ram_size ram1 init;
          (r, s2) \<leftarrow> (case ba_disk a of None \<Rightarrow> Some (Inr (), s1) | Some path \<Rightarrow> load_disk_file env path s1);
          Some (case r of
             Inl e \<Rightarrow> (Inl e, sh1, s2)
           | Inr _ \<Rightarrow> (Inr (file_boot_message (fw, kern, dtb, init) (fs_disk_size s2)), sh1,
                       s2\<lparr>fs_cpu := Some (cold_cpu env ram_size ram2 s2)\<rparr>))
        }
      })"

definition running_message :: "'c vm \<Rightarrow> string" where
  "running_message m = snprintf_text 256 (''VM already running (instret='' @ dec_digits (unat (cpu_instret m)) @ '', pc=0x'' @ hex_digits (unat (cpu_pc m)) @ '')'')"

definition resumed_message :: "'c vm \<Rightarrow> u64 \<Rightarrow> string" where
  "resumed_message m disk_size = snprintf_text 256 (''VM resumed (instret='' @ dec_digits (unat (cpu_instret m)) @ '', pc=0x'' @ hex_digits (unat (cpu_pc m)) @
     '', ram='' @ dec_digits (unat (cpu_ram_size m div 1048576)) @ ''MB, disk='' @ dec_digits (unat (disk_size div 1048576)) @ ''MB)'')"

definition rv64_vm_boot ::
  "file_env \<Rightarrow> boot_args \<Rightarrow> SharedVMState option \<Rightarrow> file_session \<Rightarrow> ((string + string) \<times> SharedVMState option \<times> file_session) undef" where
  "rv64_vm_boot env a shared s = (case fs_cpu s of
     Some m \<Rightarrow> Some (Inr (running_message m), shared, s)
   | None \<Rightarrow> do {
       (r, sh1, s1) \<leftarrow> vm_auto_resume env shared s;
       (case r of
          Inl e \<Rightarrow> Some (Inl e, sh1, s1)
        | Inr False \<Rightarrow> cold_boot env a sh1 s1
        | Inr True \<Rightarrow> Some (Inr (case fs_cpu s1 of None \<Rightarrow> [] | Some m \<Rightarrow> resumed_message m (fs_disk_size s1)), sh1, s1))
     })"

subsection \<open>What a cold boot leaves\<close>

definition whole_file :: "u8 list \<Rightarrow> host_file" where
  "whole_file d = \<lparr>hf_size = of_nat (length d), hf_reads = [Some d]\<rparr>"

lemma load_to_ram_whole:
  assumes "unat (load_addr - RAM_BASE) + length d \<le> unat ram_size"
  shows "load_to_ram (Some (whole_file d)) ram_size load_addr ram = Some (of_nat (length d), write_bytes ram (load_addr - RAM_BASE) d)"
proof -
  have len: "length d < 2 ^ 64" using assms unsigned_less[of ram_size, where ?'a = nat] by simp
  then have "unat (load_addr - RAM_BASE + of_nat (length d)) = unat (load_addr - RAM_BASE) + length d"
    using assms unsigned_less[of ram_size, where ?'a = nat] by (simp add: unat_word_ariths unat_of_nat)
  then have "\<not> load_addr - RAM_BASE + of_nat (length d) > ram_size" using assms by (simp add: word_less_nat_alt)
  moreover have "unat (of_nat (length d) :: u64) = length d" using len by (simp add: unat_of_nat)
  ultimately show ?thesis using assms by (simp add: load_to_ram_def whole_file_def read_fd_def in_block_def Let_def)
qed

text \<open>The four images in zeroed memory, in the order in which they are read.\<close>

definition boot_image :: "u8 list \<Rightarrow> u8 list \<Rightarrow> u8 list \<Rightarrow> u8 list \<Rightarrow> mem" where
  "boot_image fw kern dtb init =
     write_bytes (write_bytes (write_bytes (write_bytes (\<lambda>_. 0) 0 fw) 0x200000 kern) 0x2000000 dtb) 0x2200000 init"

definition images_fit :: "u64 \<Rightarrow> u8 list \<Rightarrow> u8 list \<Rightarrow> u8 list \<Rightarrow> u8 list \<Rightarrow> bool" where
  "images_fit ram_size fw kern dtb init \<longleftrightarrow> length fw \<le> 0x200000 \<and> length kern \<le> 0x1E00000 \<and> length dtb \<le> 0x200000 \<and>
     0x2200000 + length init \<le> unat ram_size"

definition image_files :: "file_env \<Rightarrow> boot_args \<Rightarrow> u8 list \<Rightarrow> u8 list \<Rightarrow> u8 list \<Rightarrow> u8 list \<Rightarrow> bool" where
  "image_files env a fw kern dtb init \<longleftrightarrow> fe_file env (ba_fw a) = Some (whole_file fw) \<and> fe_file env (ba_kernel a) = Some (whole_file kern) \<and>
     fe_file env (ba_dtb a) = Some (whole_file dtb) \<and> fe_file env (ba_initrd a) = Some (whole_file init)"

lemma boot_image_parts:
  assumes "images_fit ram_size fw kern dtb init"
  shows "read_bytes (boot_image fw kern dtb init) 0 (length fw) = fw" "read_bytes (boot_image fw kern dtb init) 0x200000 (length kern) = kern"
    "read_bytes (boot_image fw kern dtb init) 0x2000000 (length dtb) = dtb" "read_bytes (boot_image fw kern dtb init) 0x2200000 (length init) = init"
  using assms unsigned_less[of ram_size, where ?'a = nat]
  by (simp_all add: boot_image_def images_fit_def read_write_bytes read_write_bytes_disjoint)

lemma load_images_whole:
  assumes "image_files env a fw kern dtb init" "images_fit ram_size fw kern dtb init"
  shows "load_images env a ram_size (\<lambda>_. 0) =
    Some ((of_nat (length fw), of_nat (length kern), of_nat (length dtb), of_nat (length init)), boot_image fw kern dtb init)"
  using assms by (simp add: load_images_def image_files_def images_fit_def load_to_ram_whole boot_image_def)

lemma cold_cpu_inv:
  assumes "unat ram_size \<le> 2 ^ 63" "4096 dvd unat ram_size"
  shows "vm_inv (cold_cpu env ram_size ram s)"
  using assms
  by (cases "fs_disk s")
    (simp_all add: cold_cpu_def rv64_init_def zero_cpu_def bare_vm_def Let_def vm_inv_def tlb_inv_def ram_ok_def tlb_entry_ok_def zero_tlb_entry_def
      set_boot_time_ns_def attach_disk_def)

lemma cold_cpu_fields:
  "vm_ram (cold_cpu env ram_size ram s) = Some ram" "cpu_pc (cold_cpu env ram_size ram s) = RAM_BASE" "cpu_priv (cold_cpu env ram_size ram s) = PRIV_M"
  "cpu_x (cold_cpu env ram_size ram s) 10 = 0" "cpu_x (cold_cpu env ram_size ram s) 11 = 0x82000000" "cpu_ram_size (cold_cpu env ram_size ram s) = ram_size"
  by (cases "fs_disk s"; simp add: cold_cpu_def rv64_init_def zero_cpu_def bare_vm_def Let_def set_boot_time_ns_def attach_disk_def)+

lemma boot_ram_size_unat:
  assumes "0 \<le> mb" "mb < 2 ^ 31"
  shows "unat (boot_ram_size (Some mb)) = nat mb * 1048576"
proof -
  have u: "unat (of_nat k :: u64) = k" if "k < 2 ^ 64" for k using that by (simp add: unat_of_nat)
  have "boot_ram_size (Some mb) = of_nat (nat mb * 1048576)" using assms by (simp add: boot_ram_size_def)
  moreover have "nat mb * 1048576 < 2 ^ 64" using assms by simp
  ultimately show ?thesis by (simp only: u)
qed

lemma of_nat_not_negative: "n < 2 ^ 63 \<Longrightarrow> \<not> sint (of_nat n :: u64) < 0"
  by (simp add: signed_of_nat signed_take_bit_int_eq_self)


text \<open>Empty images in 64 megabytes: no device tree, nothing patched.\<close>

definition empty_env :: file_env where
  "empty_env = \<lparr>fe_file = (\<lambda>_. Some (whole_file [])), fe_row = None, fe_blocks = [], fe_connect = True, fe_dsm = True, fe_palloc_max = 0x3FFFFFFF,
     fe_malloc = True, fe_calloc = True, fe_heap = (\<lambda>_. 0), fe_jit_alloc = False, fe_clock = (\<lambda>_. 0)\<rparr>"

definition empty_args :: boot_args where
  "empty_args = \<lparr>ba_fw = ''fw'', ba_kernel = ''kernel'', ba_dtb = ''dtb'', ba_initrd = ''initrd'', ba_disk = None, ba_ram_mb = Some 64\<rparr>"

definition new_session :: file_session where
  "new_session = \<lparr>fs_cpu = None, fs_ram = NoRam, fs_disk = None, fs_disk_size = 0, fs_dirty = None\<rparr>"


subsection \<open>The disk\<close>

lemma write_bytes_append:
  assumes "length p + length q < 2 ^ 64"
  shows "write_bytes (write_bytes m a p) (a + of_nat (length p)) q = write_bytes m a (p @ q)"
proof
  fix b :: u64
  define d where "d = b - a"
  have l: "unat (of_nat (length p) :: u64) = length p" using assms by (simp add: unat_of_nat)
  have "unat (d - of_nat (length p)) = (if length p \<le> unat d then unat d - length p else unat d + 2 ^ 64 - length p)"
    unfolding unat_sub_if' l by simp
  then have "unat (b - (a + of_nat (length p))) = (if length p \<le> unat d then unat d - length p else unat d + 2 ^ 64 - length p)"
    by (simp add: d_def diff_diff_eq)
  with assms show "write_bytes (write_bytes m a p) (a + of_nat (length p)) q b = write_bytes m a (p @ q) b"
    by (auto simp: write_bytes_def nth_append d_def[symmetric])
qed

text \<open>Reads that deliver a file in pieces fill the disk with it.\<close>

lemma disk_read_loop_pieces:
  assumes "list_all (\<lambda>p. p \<noteq> [] \<and> length p \<le> 0x40000000) ps" "unat tot + length (concat ps) = unat sz"
  shows "disk_read_loop sz tot (map Some ps) disk = (sz, write_bytes disk tot (concat ps))"
  using assms
proof (induction ps arbitrary: tot disk)
  case Nil
  then have "tot = sz" by (simp add: word_unat_eq_iff)
  then show ?case by (simp add: write_bytes_def)
next
  case (Cons p ps)
  have p: "p \<noteq> []" "length p \<le> 0x40000000" using Cons.prems(1) by simp_all
  have room: "unat tot + length p \<le> unat sz" using Cons.prems(2) by simp
  then have lt: "tot < sz" using p(1) by (cases p) (simp_all add: word_less_nat_alt)
  have "unat (sz - tot) = unat sz - unat tot" using lt by (simp add: unat_sub)
  then have want: "length p \<le> unat (if sz - tot > 0x40000000 then 0x40000000 else sz - tot)" using p(2) room by auto
  have tot: "unat (tot + of_nat (length p)) = unat tot + length p" by (rule chunk_fits(2)[OF lt want])
  have "disk_read_loop sz tot (map Some (p # ps)) disk = disk_read_loop sz (tot + of_nat (length p)) (map Some ps) (write_bytes disk tot p)"
    using lt p(1) want unat_gt_0[of "sz - tot"] by (auto simp: read_fd_def Let_def)
  also have "\<dots> = (sz, write_bytes (write_bytes disk tot p) (tot + of_nat (length p)) (concat ps))"
    using Cons.prems by (intro Cons.IH) (simp_all add: tot)
  also have "write_bytes (write_bytes disk tot p) (tot + of_nat (length p)) (concat ps) = write_bytes disk tot (concat (p # ps))"
    using Cons.prems(2) unsigned_less[of sz, where ?'a = nat] by (simp add: write_bytes_append)
  finally show ?case .
qed

text \<open>A disk file that cannot be read is not an error: the guest gets the memory of the server as its disk.\<close>

lemma disk_unread:
  assumes "fe_file env path = Some f" "hf_reads f = [] \<or> hf_reads f = None # rs" "fe_malloc env" "\<not> fe_connect env"
  shows "\<exists>s'. load_disk_file env path s = Some (Inr (), s') \<and> fs_disk s' = Some (fe_heap env) \<and> fs_disk_size s' = hf_size f"
  using assms by (auto simp: load_disk_file_def Let_def read_fd_def)

subsection \<open>Where the boot goes wrong\<close>

text \<open>The shared memory is written without attaching to it: in a session that has no worker the boot is undefined.\<close>

theorem vm_boot_detached:
  assumes "fs_cpu s = None" "fe_row env = None" "fe_dsm env"
  shows "rv64_vm_boot env a None s = None"
  using assms by (simp add: rv64_vm_boot_def vm_auto_resume_def cold_boot_def Let_def)

text \<open>Saved RAM that \<open>palloc\<close> does not grant (the worker saves two gigabytes) makes the boot fail, and from then on the session reports a running machine, which has no RAM.\<close>

theorem resume_too_large:
  assumes "fs_cpu s = None" "fs_ram s \<noteq> SegmentRam"
    and "fe_row env = Some r" "rr_ram_size r = Some sz" "rr_ram r = Some lo" "rr_cpu r = Some c" "sz > fe_palloc_max env"
  shows "\<exists>s' m. rv64_vm_boot env a shared s = Some (Inl ''invalid memory alloc request size'', shared, s') \<and>
    rv64_vm_boot env a shared s' = Some (Inr (running_message m), shared, s') \<and> fs_cpu s' = Some m \<and> vm_ram m = None"
  using assms by (simp add: rv64_vm_boot_def vm_auto_resume_def resume_machine_def resume_cpu_def Let_def rv64_cpu.defs vm.defs)

text \<open>A boot whose files cannot be loaded leaves \<open>vm_ram\<close> in a shared segment, and resuming a saved row afterwards frees it as if \<open>palloc\<close> had made it.\<close>

lemma load_disk_file_ram: "load_disk_file env path s = Some (r, s') \<Longrightarrow> fs_ram s' = fs_ram s"
  by (auto simp: load_disk_file_def Let_def bind_eq_Some_conv split: if_split_asm option.split_asm)

lemma failed_boot_leaves_segment:
  assumes "cold_boot env a shared s = Some (Inl e, shared', s')" "fe_dsm env"
  shows "fs_ram s' = SegmentRam"
proof -
  have loaded: "fs_ram s2 = SegmentRam"
    if "(case ba_disk a of None \<Rightarrow> Some (Inr (), s\<lparr>fs_ram := SegmentRam\<rparr>) | Some path \<Rightarrow> load_disk_file env path (s\<lparr>fs_ram := SegmentRam\<rparr>)) = Some (r, s2)" for r s2
    using that by (auto dest: load_disk_file_ram split: option.split_asm)
  have result: "fs_ram s2 = SegmentRam \<Longrightarrow> (case r of Inl e \<Rightarrow> (Inl e, sh, s2) | Inr u \<Rightarrow> (Inr (msg u), sh, s2\<lparr>fs_cpu := c\<rparr>)) = (Inl e, shared', s') \<Longrightarrow>
      fs_ram s' = SegmentRam" for r :: "string + unit" and s2 sh msg c
    by (cases r) auto
  from assms show ?thesis
    by (auto simp: cold_boot_def Let_def bind_eq_Some_conv dest!: loaded dest: result split: if_split_asm)
qed

theorem resume_after_failed_boot:
  assumes "fs_cpu s = None" "fs_ram s = SegmentRam"
    and "fe_row env = Some r" "rr_ram_size r = Some sz" "rr_ram r = Some lo" "rr_cpu r = Some c"
  shows "rv64_vm_boot env a shared s = None"
  using assms by (simp add: rv64_vm_boot_def vm_auto_resume_def resume_machine_def)

text \<open>Nothing keeps the images apart: a kernel of more than 30 megabytes is overwritten by the device tree.\<close>

lemma kernel_overwritten:
  assumes "dtb \<noteq> []" "length init \<le> 2 ^ 63"
  shows "boot_image fw kern dtb init 0x2000000 = hd dtb"
  using assms by (simp add: boot_image_def write_bytes_def hd_conv_nth)

end
