(* ===== verification/PG_Log.thy ===== *)
theory PG_Log
  imports RV_Text
begin

text \<open>
  The log of \<open>linuxsql.c\<close>: a buffer of 256 KB that keeps what the traced commands and the kernel print, and \<open>linux_boot\<close>, which runs the kernel and
  returns the log. The kernel (\<open>start_kernel\<close>) is not part of the sources; it is the argument \<open>kernel_run\<close>: the texts it prints and the
  signal of a crash, if there is one. The standard error of the server is the list of the texts written to it.

  The log implements a bounded text: a write that fits is appended, one that does not is dropped as a whole.
\<close>

abbreviation (input) BOOT_LOG_SIZE :: int where "BOOT_LOG_SIZE \<equiv> 262144"

subsection \<open>State\<close>

text \<open>The pointer \<open>guest_memory\<close>: \<open>NULL\<close>, \<open>MAP_FAILED\<close> or a mapping.\<close>

datatype guest_mapping = Unmapped | MapFailed | Mapped

record linuxsql =
  pg_boot_log :: "(nat \<Rightarrow> u8) option"
  pg_boot_log_pos :: int
  guest_memory :: guest_mapping
  lx_stderr :: "u8 list list"

text \<open>\<open>palloc0(BOOT_LOG_SIZE)\<close>, and \<open>memcpy\<close> followed by the terminator.\<close>

definition fresh_log :: "nat \<Rightarrow> u8" where
  "fresh_log = (\<lambda>_. 0)"

definition log_copy :: "(nat \<Rightarrow> u8) \<Rightarrow> nat \<Rightarrow> u8 list \<Rightarrow> (nat \<Rightarrow> u8)" where
  "log_copy b pos bs = (\<lambda>i. if pos \<le> i \<and> i < pos + length bs then bs ! (i - pos) else if i = pos + length bs then 0 else b i)"

text \<open>\<open>pg_ext_console_write\<close>, and \<open>pg_console_write\<close>, its copy for the kernel. \<open>len\<close> is the length of a text, far below \<open>INT_MAX\<close>.\<close>

definition log_append :: "u8 list \<Rightarrow> linuxsql \<Rightarrow> linuxsql undef" where
  "log_append bs c =
     (case pg_boot_log c of
        None \<Rightarrow> Some c
      | Some b \<Rightarrow>
          if pg_boot_log_pos c + int (length bs) < BOOT_LOG_SIZE then
            (if pg_boot_log_pos c < 0 then None
             else Some (c\<lparr>pg_boot_log := Some (log_copy b (nat (pg_boot_log_pos c)) bs),
                          pg_boot_log_pos := pg_boot_log_pos c + int (length bs)\<rparr>))
          else Some c)"

definition pg_ext_console_write :: "u8 list \<Rightarrow> linuxsql \<Rightarrow> linuxsql undef" where
  "pg_ext_console_write bs c = log_append bs (c\<lparr>lx_stderr := lx_stderr c @ [bs]\<rparr>)"

definition pg_console_write :: "u8 list \<Rightarrow> linuxsql \<Rightarrow> linuxsql undef" where
  "pg_console_write bs c = log_append bs (c\<lparr>lx_stderr := lx_stderr c @ [bs]\<rparr>)"

text \<open>\<open>snprintf(pg_boot_log + pos, BOOT_LOG_SIZE - pos, \<dots>)\<close> and the addition of its result, the length of the whole text. A position
  past the end makes the size a huge unsigned number, and \<open>snprintf\<close> writes outside the buffer.\<close>

definition log_snprintf :: "u8 list \<Rightarrow> linuxsql \<Rightarrow> linuxsql undef" where
  "log_snprintf bs c =
     (case pg_boot_log c of
        None \<Rightarrow> None
      | Some b \<Rightarrow>
          let pos = pg_boot_log_pos c; room = BOOT_LOG_SIZE - pos in
          if pos < 0 \<or> room < 0 then None
          else Some (c\<lparr>pg_boot_log := Some (if room = 0 then b else log_copy b (nat pos) (take (nat room - 1) bs)),
                       pg_boot_log_pos := pos + int (length bs)\<rparr>))"

text \<open>The bytes before the first terminator, where the buffer has one.\<close>

definition c_string :: "nat \<Rightarrow> (nat \<Rightarrow> u8) \<Rightarrow> u8 list undef" where
  "c_string n b = (let bs = map b [0..<n] in if 0 \<in> set bs then Some (takeWhile (\<lambda>x. x \<noteq> 0) bs) else None)"

definition log_text :: "linuxsql \<Rightarrow> u8 list undef" where
  "log_text c = (case pg_boot_log c of None \<Rightarrow> None | Some b \<Rightarrow> c_string (nat BOOT_LOG_SIZE) b)"

subsection \<open>Booting the kernel\<close>

record kernel_run =
  kr_prints :: "u8 list list"
  kr_crash :: "int option"

fun kernel_prints :: "u8 list list \<Rightarrow> linuxsql \<Rightarrow> linuxsql undef" where
  "kernel_prints [] c = Some c"
| "kernel_prints (bs # rest) c = pg_console_write bs c \<bind> kernel_prints rest"

definition crash_message :: "int \<Rightarrow> string" where
  "crash_message sig = char_of (10 :: nat) # ''*** KERNEL CRASH: signal '' @ fmt_d sig @ '' ***'' @ [char_of (10 :: nat)]"

text \<open>\<open>linux_boot\<close>: an error (\<open>Inl\<close>) or the log. The pointer is assigned before it is compared with \<open>MAP_FAILED\<close>.\<close>

definition boot_memory :: "bool \<Rightarrow> linuxsql \<Rightarrow> (string + unit) \<times> linuxsql" where
  "boot_memory mmap_ok c =
     (if guest_memory c = Unmapped then
        (if mmap_ok then (Inr (), c\<lparr>guest_memory := Mapped\<rparr>)
         else (Inl ''linuxsql: failed to mmap'', c\<lparr>guest_memory := MapFailed\<rparr>))
      else (Inr (), c))"

definition boot_log_alloc :: "linuxsql \<Rightarrow> linuxsql" where
  "boot_log_alloc c = (if pg_boot_log c = None then c\<lparr>pg_boot_log := Some fresh_log, pg_boot_log_pos := 0\<rparr> else c)"

definition linux_boot :: "bool \<Rightarrow> kernel_run \<Rightarrow> linuxsql \<Rightarrow> ((string + u8 list) \<times> linuxsql) undef" where
  "linux_boot mmap_ok kr c =
     (case boot_memory mmap_ok c of
        (Inl err, c1) \<Rightarrow> Some (Inl err, c1)
      | (Inr _, c1) \<Rightarrow> do {
          c2 \<leftarrow> kernel_prints (kr_prints kr) (boot_log_alloc c1);
          c3 \<leftarrow> (case kr_crash kr of None \<Rightarrow> Some c2 | Some sig \<Rightarrow> log_snprintf (bytes_of (crash_message sig)) c2);
          txt \<leftarrow> log_text c3;
          Some (Inr txt, c3)
        })"

subsection \<open>The log as a bounded text\<close>

text \<open>The text of a log, and the log as the writes leave it: a position inside the buffer with the terminator there.\<close>

definition log_bytes :: "linuxsql \<Rightarrow> u8 list" where
  "log_bytes c = (case pg_boot_log c of None \<Rightarrow> [] | Some b \<Rightarrow> map b [0..<nat (pg_boot_log_pos c)])"

definition log_ok :: "linuxsql \<Rightarrow> bool" where
  "log_ok c \<longleftrightarrow> (case pg_boot_log c of None \<Rightarrow> False
     | Some b \<Rightarrow> 0 \<le> pg_boot_log_pos c \<and> pg_boot_log_pos c < BOOT_LOG_SIZE \<and> b (nat (pg_boot_log_pos c)) = 0)"

text \<open>A bounded text: of a sequence of writes, those are kept that fit when they come.\<close>

primrec put_all :: "(u8 list \<Rightarrow> 's \<Rightarrow> 's option) \<Rightarrow> u8 list list \<Rightarrow> 's \<Rightarrow> 's option" where
  "put_all put [] s = Some s"
| "put_all put (bs # rest) s = put bs s \<bind> put_all put rest"

primrec kept_text :: "nat \<Rightarrow> u8 list \<Rightarrow> u8 list list \<Rightarrow> u8 list" where
  "kept_text cap acc [] = acc"
| "kept_text cap acc (bs # rest) = kept_text cap (if length acc + length bs < cap then acc @ bs else acc) rest"

lemma kept_all: "length acc + sum_list (map length bss) < cap \<Longrightarrow> kept_text cap acc bss = acc @ concat bss"
  by (induction bss arbitrary: acc) auto

lemma kept_bound: "length acc < cap \<Longrightarrow> length (kept_text cap acc bss) < cap"
  by (induction bss arbitrary: acc) auto

lemma kept_append: "kept_text cap acc (a @ b) = kept_text cap (kept_text cap acc a) b"
  by (induction a arbitrary: acc) auto

text \<open>An output device that keeps a bounded text.\<close>

locale bounded_text =
  fixes wf :: "'s \<Rightarrow> bool" and put :: "u8 list \<Rightarrow> 's \<Rightarrow> 's option" and contents :: "'s \<Rightarrow> u8 list" and cap :: nat
  assumes put_defined: "wf s \<Longrightarrow> \<exists>s'. put bs s = Some s' \<and> wf s' \<and>
      contents s' = (if length (contents s) + length bs < cap then contents s @ bs else contents s)"
    and contents_fit: "wf s \<Longrightarrow> length (contents s) < cap"
begin

lemma put_all_kept: "wf s \<Longrightarrow> \<exists>s'. put_all put bss s = Some s' \<and> wf s' \<and> contents s' = kept_text cap (contents s) bss"
proof (induction bss arbitrary: s)
  case (Cons bs rest)
  from put_defined[OF Cons.prems, of bs] obtain s1 where s1: "put bs s = Some s1" "wf s1"
    and "contents s1 = (if length (contents s) + length bs < cap then contents s @ bs else contents s)" by blast
  with Cons.IH[OF s1(2)] show ?case by auto
qed simp

end

lemma log_copy_bytes:
  "map (log_copy b pos bs) [0..<pos + length bs] = map b [0..<pos] @ bs"
  by (rule nth_equalityI) (auto simp: log_copy_def nth_append)

lemma log_append_ok:
  assumes "log_ok c"
  shows "\<exists>c'. log_append bs c = Some c' \<and> log_ok c' \<and> lx_stderr c' = lx_stderr c \<and>
    log_bytes c' = (if length (log_bytes c) + length bs < 262144 then log_bytes c @ bs else log_bytes c)"
proof -
  from assms obtain b where b: "pg_boot_log c = Some b" and pos: "0 \<le> pg_boot_log_pos c" "pg_boot_log_pos c < BOOT_LOG_SIZE"
    by (auto simp: log_ok_def split: option.splits)
  define p where "p = nat (pg_boot_log_pos c)"
  then have p: "pg_boot_log_pos c = int p" using pos by simp
  have "nat (int p + int (length bs)) = p + length bs" by simp
  then show ?thesis
    using assms pos b log_copy_bytes[of b p bs] unfolding p
    by (simp add: log_append_def log_ok_def log_bytes_def p) (simp add: log_copy_def)
qed

lemma c_string_terminated:
  assumes "p < n" "b p = 0"
  shows "c_string n b = Some (takeWhile (\<lambda>x. x \<noteq> 0) (map b [0..<p]))"
proof -
  have "[0..<n] = [0..<p] @ p # [Suc p..<n]" using assms(1) by (metis le_add1 less_imp_le_nat plus_nat.add_0 upt_add_eq_append upt_conv_Cons le_add_diff_inverse)
  with assms(2) show ?thesis by (auto simp: c_string_def Let_def takeWhile_append takeWhile_eq_all_conv[THEN iffD2])
qed

lemma log_ok_text: "log_ok c \<Longrightarrow> log_text c = Some (takeWhile (\<lambda>x. x \<noteq> 0) (log_bytes c))"
  by (auto simp: log_ok_def log_text_def log_bytes_def nat_less_iff c_string_terminated simp del: upt.simps upt_rec_numeral split: option.splits)

lemma log_bytes_bound: "log_ok c \<Longrightarrow> length (log_bytes c) < 262144"
  by (auto simp: log_ok_def log_bytes_def split: option.splits)

interpretation ext_log: bounded_text log_ok pg_ext_console_write log_bytes 262144
proof
  fix c bs assume "log_ok c"
  then have "log_ok (c\<lparr>lx_stderr := lx_stderr c @ [bs]\<rparr>)" and same: "log_bytes (c\<lparr>lx_stderr := lx_stderr c @ [bs]\<rparr>) = log_bytes c"
    by (cases "pg_boot_log c"; simp add: log_ok_def log_bytes_def)+
  from log_append_ok[OF this(1), of bs] same show "\<exists>s'. pg_ext_console_write bs c = Some s' \<and> log_ok s' \<and>
      log_bytes s' = (if length (log_bytes c) + length bs < 262144 then log_bytes c @ bs else log_bytes c)"
    unfolding pg_ext_console_write_def by auto
qed (rule log_bytes_bound)

lemma console_write_copies: "pg_console_write = pg_ext_console_write"
  by (intro ext) (simp add: pg_console_write_def pg_ext_console_write_def)

interpretation kernel_log: bounded_text log_ok pg_console_write log_bytes 262144
  unfolding console_write_copies by (rule ext_log.bounded_text_axioms)

subsection \<open>Booting twice\<close>

text \<open>A failed mapping is kept as the guest memory: the next call does not try again and starts the kernel.\<close>

lemma boot_memory_failed:
  assumes "guest_memory c = Unmapped"
  shows "linux_boot False kr c = Some (Inl ''linuxsql: failed to mmap'', c\<lparr>guest_memory := MapFailed\<rparr>)"
    "boot_memory ok (c\<lparr>guest_memory := MapFailed\<rparr>) = (Inr (), c\<lparr>guest_memory := MapFailed\<rparr>)"
  using assms by (simp_all add: linux_boot_def boot_memory_def)

text \<open>The note about a crash moves the position past the end when the log is almost full, and the note about a second crash is written outside the buffer.\<close>

lemma second_crash_overruns:
  assumes "log_ok c" "pg_boot_log_pos c = BOOT_LOG_SIZE - 1"
  shows "log_snprintf (bytes_of (crash_message sig)) c \<bind> log_snprintf (bytes_of (crash_message sig)) = None"
proof -
  have "1 < length (crash_message sig)" by (simp add: crash_message_def)
  with assms show ?thesis by (auto simp: log_ok_def log_snprintf_def Let_def split: option.splits)
qed

text \<open>Without a crash the log stays well formed and the result is the text that fitted.\<close>

lemma kernel_prints_put_all: "kernel_prints bss c = put_all pg_console_write bss c"
proof (induction bss arbitrary: c)
  case (Cons bs bss)
  then show ?case by (cases "pg_console_write bs c") simp_all
qed simp

lemma boot_log_alloc_ok: "pg_boot_log c = None \<or> log_ok c \<Longrightarrow> log_ok (boot_log_alloc c)"
  by (auto simp: boot_log_alloc_def log_ok_def fresh_log_def)

lemma linux_boot_text:
  assumes "guest_memory c = Mapped" "pg_boot_log c = None \<or> log_ok c" "kr_crash kr = None"
  shows "\<exists>c'. linux_boot ok kr c = Some (Inr (takeWhile (\<lambda>x. x \<noteq> 0) (kept_text 262144 (log_bytes (boot_log_alloc c)) (kr_prints kr))), c') \<and> log_ok c'"
proof -
  from kernel_log.put_all_kept[OF boot_log_alloc_ok[OF assms(2)], of "kr_prints kr"] obtain c' where
    "kernel_prints (kr_prints kr) (boot_log_alloc c) = Some c'" "log_ok c'" "log_bytes c' = kept_text 262144 (log_bytes (boot_log_alloc c)) (kr_prints kr)"
    by (auto simp: kernel_prints_put_all)
  with assms log_ok_text[of c'] show ?thesis by (simp add: linux_boot_def boot_memory_def)
qed

end
