(* ===== verification/PG_Process.thy ===== *)
theory PG_Process
  imports PG_Log
begin

text \<open>
  \<open>pg_process.c\<close>: a shell command runs as a traced child of the server. At each system call the child stops twice: at the entry the tracer decides whether
  it answers the call itself, in which case it replaces the number of the call by \<open>-1\<close>, and at the exit it stores its answer into \<open>x0\<close>.
  Console output goes to the log. \<open>linux_exec\<close> of \<open>linuxsql.c\<close> runs a command and returns the log.

  The operating system is a parameter: what \<open>waitpid\<close> and the \<open>ptrace\<close> requests answer is a sequence of \<open>wait_result\<close>s, each with the registers and
  the readable memory of the stopped process. What the tracer asks the system to do is the list \<open>tr_requests\<close>. Where C reads variables that nothing has
  set (a failed read of the child's memory is not noticed), the bytes are those of \<open>st_stack\<close>, which no theorem restricts.
\<close>

subsection \<open>Registers and stops\<close>

type_synonym pid = int

record aarch64_regs =
  ar_x :: "nat \<Rightarrow> u64"
  ar_sp :: u64
  ar_pc :: u64
  ar_pstate :: u64

record stop =
  st_pid :: pid
  st_status :: u32
  st_op :: "nat option"            \<comment> \<open>\<open>PTRACE_GET_SYSCALL_INFO\<close>, or failure\<close>
  st_regs :: "aarch64_regs option" \<comment> \<open>\<open>PTRACE_GETREGSET\<close>, or failure\<close>
  st_msg :: u64                    \<comment> \<open>\<open>PTRACE_GETEVENTMSG\<close>\<close>
  st_read :: "u64 \<Rightarrow> nat \<Rightarrow> u8 list option" \<comment> \<open>\<open>process_vm_readv\<close>\<close>
  st_stack :: "nat \<Rightarrow> nat \<Rightarrow> u8"  \<comment> \<open>unset local variables, by iteration and offset\<close>

datatype wait_result = WaitFailed bool string | Stopped stop

datatype request =
    PtraceSetOptions pid u32
  | PtraceCont pid
  | PtraceSyscall pid int
  | SetRegs pid aarch64_regs
  | WriteMem pid u64 "u8 list"
  | KillPid pid
  | Reap pid

text \<open>The macros of \<open>sys/wait.h\<close>.\<close>

definition WTERMSIG :: "u32 \<Rightarrow> int" where "WTERMSIG s = uint (s AND 0x7F)"
definition WEXITSTATUS :: "u32 \<Rightarrow> int" where "WEXITSTATUS s = uint (shr s 8 AND 0xFF)"
definition WIFEXITED :: "u32 \<Rightarrow> bool" where "WIFEXITED s \<longleftrightarrow> WTERMSIG s = 0"
definition WIFSIGNALED :: "u32 \<Rightarrow> bool" where "WIFSIGNALED s \<longleftrightarrow> WTERMSIG s \<noteq> 0 \<and> WTERMSIG s \<noteq> 0x7F"
definition WIFSTOPPED :: "u32 \<Rightarrow> bool" where "WIFSTOPPED s \<longleftrightarrow> s AND 0xFF = 0x7F"
definition WSTOPSIG :: "u32 \<Rightarrow> int" where "WSTOPSIG s = WEXITSTATUS s"
definition stop_event :: "u32 \<Rightarrow> int" where "stop_event s = uint (shr s 16 AND 0xFF)"

subsection \<open>State of the tracer\<close>

datatype sc_action = SC_PASSTHROUGH | SC_HANDLED | SC_EXIT

record tracer =
  entry_action :: sc_action
  entry_nr :: u64
  handled_retval :: u64
  saved_x0 :: u64
  saved_x1 :: u64
  saved_x2 :: u64
  tr_regs :: aarch64_regs          \<comment> \<open>the local variable \<open>regs\<close> of the loop\<close>
  tr_log :: linuxsql
  tr_requests :: "request list"

definition ask :: "request list \<Rightarrow> tracer \<Rightarrow> tracer" where
  "ask rs t = t\<lparr>tr_requests := tr_requests t @ rs\<rparr>"

definition console_out :: "u8 list \<Rightarrow> tracer \<Rightarrow> tracer undef" where
  "console_out bs t = map_option (\<lambda>c. t\<lparr>tr_log := c\<rparr>) (pg_ext_console_write bs (tr_log t))"

text \<open>\<open>pg_log\<close>: the text in a buffer of 512 bytes, of which as many bytes are written as the whole text has; a longer text would be read past the buffer.\<close>

definition pg_log :: "string \<Rightarrow> tracer \<Rightarrow> tracer undef" where
  "pg_log s t = (if length s = 0 then Some t else if length s < 512 then console_out (bytes_of s) t else None)"

subsection \<open>System call entry\<close>

definition passthrough_calls :: "u64 list" where
  "passthrough_calls = [214, 222, 215, 226, 233, 96, 99, 134, 135, 261, 293, 278, 113, 57, 63, 78, 79, 80, 29, 25, 17, 56,
     220, 221, 260, 59, 24, 73, 139, 132, 123, 124]"

definition id_calls :: "(u64 \<times> u64) list" where
  "id_calls = [(172, 1), (173, 0), (178, 1), (174, 0), (175, 0), (176, 0), (177, 0)]"

text \<open>\<open>r->x[8] = -1; set_regs(pid, r); return SC_HANDLED;\<close>\<close>

definition nullify :: "pid \<Rightarrow> aarch64_regs \<Rightarrow> tracer \<Rightarrow> sc_action \<times> aarch64_regs \<times> tracer" where
  "nullify pid r t = (let r' = r\<lparr>ar_x := (ar_x r)(8 := - 1)\<rparr> in (SC_HANDLED, r', ask [SetRegs pid r'] t))"

definition console_fd :: "aarch64_regs \<Rightarrow> bool" where
  "console_fd r \<longleftrightarrow> (let fd = (ucast (ar_x r 0) :: u32) in fd = 1 \<or> fd = 2)"

definition entry_write :: "stop \<Rightarrow> aarch64_regs \<Rightarrow> tracer \<Rightarrow> (sc_action \<times> aarch64_regs \<times> tracer) undef" where
  "entry_write s r t =
     (if console_fd r then do {
        let count = (if ar_x r 2 > 4096 then 4096 else ar_x r 2);
        t1 \<leftarrow> (case st_read s (ar_x r 1) (unat count) of
                 Some (b # bs) \<Rightarrow> map_option (\<lambda>t1. t1\<lparr>handled_retval := of_nat (length (b # bs))\<rparr>) (console_out (b # bs) t)
               | _ \<Rightarrow> Some (t\<lparr>handled_retval := - 14\<rparr>));
        Some (nullify (st_pid s) r t1)
      } else Some (SC_PASSTHROUGH, r, t))"

text \<open>A local variable after a read of the child's memory into it: what was read, then what was there.\<close>

definition read_into :: "stop \<Rightarrow> nat \<Rightarrow> nat \<Rightarrow> u64 \<Rightarrow> nat \<Rightarrow> u8 list" where
  "read_into s i off addr len =
     (let old = map (\<lambda>j. st_stack s i (off + j)) [0..<len] in
      case st_read s addr len of None \<Rightarrow> old | Some bs \<Rightarrow> bs @ drop (length bs) old)"

definition iov_base :: "stop \<Rightarrow> u64 \<Rightarrow> nat \<Rightarrow> u64" where
  "iov_base s iov_addr i = le_val (read_into s i 0 (iov_addr + of_nat (i * 16)) 8)"

definition iov_len :: "stop \<Rightarrow> u64 \<Rightarrow> nat \<Rightarrow> u64" where
  "iov_len s iov_addr i = le_val (read_into s i 8 (iov_addr + of_nat (i * 16) + 8) 8)"

definition iov_text :: "stop \<Rightarrow> u64 \<Rightarrow> nat \<Rightarrow> u8 list" where
  "iov_text s iov_addr i = read_into s i 16 (iov_base s iov_addr i) (unat (iov_len s iov_addr i))"

fun writev_loop :: "stop \<Rightarrow> u64 \<Rightarrow> nat \<Rightarrow> nat \<Rightarrow> u64 \<Rightarrow> tracer \<Rightarrow> (u64 \<times> tracer) undef" where
  "writev_loop s iov_addr 0 i tot t = Some (tot, t)"
| "writev_loop s iov_addr (Suc n) i tot t =
     (let len = iov_len s iov_addr i in
      if len > 0 \<and> len \<le> 4096 then do {
        t1 \<leftarrow> console_out (iov_text s iov_addr i) t;
        writev_loop s iov_addr n (Suc i) (tot + len) t1
      } else writev_loop s iov_addr n (Suc i) tot t)"

text \<open>The loop runs while \<open>i < iovcnt \<and> i < 16\<close>, with \<open>iovcnt\<close> an \<open>int\<close>.\<close>

definition iov_count :: "aarch64_regs \<Rightarrow> nat" where
  "iov_count r = nat (min (sint (ucast (ar_x r 2) :: u32)) 16)"

definition entry_writev :: "stop \<Rightarrow> aarch64_regs \<Rightarrow> tracer \<Rightarrow> (sc_action \<times> aarch64_regs \<times> tracer) undef" where
  "entry_writev s r t =
     (if console_fd r then do {
        (tot, t1) \<leftarrow> writev_loop s (ar_x r 1) (iov_count r) 0 0 t;
        Some (nullify (st_pid s) r (t1\<lparr>handled_retval := tot\<rparr>))
      } else Some (SC_PASSTHROUGH, r, t))"

definition uts_field :: "string \<Rightarrow> u8 list" where
  "uts_field s = (let bs = take 64 (bytes_of s) in bs @ replicate (65 - length bs) 0)"

definition uts_bytes :: "u8 list" where
  "uts_bytes = uts_field ''Linux'' @ uts_field ''postgresql'' @ uts_field ''6.1.0-postgres'' @
     uts_field ''LinuxSQL on PostgreSQL'' @ uts_field ''aarch64'' @ uts_field ''(none)''"

definition entry_uname :: "stop \<Rightarrow> aarch64_regs \<Rightarrow> tracer \<Rightarrow> sc_action \<times> aarch64_regs \<times> tracer" where
  "entry_uname s r t =
     nullify (st_pid s) r ((ask [WriteMem (st_pid s) (ar_x r 0) uts_bytes] t)\<lparr>handled_retval := 0\<rparr>)"

definition handle_entry :: "stop \<Rightarrow> aarch64_regs \<Rightarrow> tracer \<Rightarrow> (sc_action \<times> aarch64_regs \<times> tracer) undef" where
  "handle_entry s r t0 =
     (let nr = ar_x r 8;
          t = t0\<lparr>entry_nr := nr, saved_x0 := ar_x r 0, saved_x1 := ar_x r 1, saved_x2 := ar_x r 2\<rparr> in
      if nr \<in> set passthrough_calls then Some (SC_PASSTHROUGH, r, t)
      else if nr = 94 \<or> nr = 93 then Some (SC_EXIT, r, t\<lparr>handled_retval := ar_x r 0\<rparr>)
      else if nr = 64 then entry_write s r t
      else if nr = 66 then entry_writev s r t
      else if nr = 160 then Some (entry_uname s r t)
      else case map_of id_calls nr of
          Some v \<Rightarrow> Some (nullify (st_pid s) r (t\<lparr>handled_retval := v\<rparr>))
        | None \<Rightarrow> Some (SC_PASSTHROUGH, r, t))"

definition handle_exit :: "stop \<Rightarrow> aarch64_regs \<Rightarrow> tracer \<Rightarrow> aarch64_regs \<times> tracer" where
  "handle_exit s r t =
     (if entry_action t = SC_HANDLED then
        (let r' = r\<lparr>ar_x := (ar_x r)(0 := handled_retval t)\<rparr> in (r', ask [SetRegs (st_pid s) r'] t))
      else (r, t))"

subsection \<open>Messages\<close>

definition msg_wait :: "string \<Rightarrow> string" where
  "msg_wait err = ''[ptrace] waitpid failed: '' @ err @ [char_of (10 :: nat)]"

definition msg_start :: "string \<Rightarrow> string" where
  "msg_start err = ''[ptrace] initial SYSCALL failed: '' @ err @ [char_of (10 :: nat)]"

definition msg_fork :: "string \<Rightarrow> string" where
  "msg_fork err = ''arch/postgres: fork failed: '' @ err @ [char_of (10 :: nat)]"

definition msg_unstopped :: "u32 \<Rightarrow> string" where
  "msg_unstopped s1 = ''arch/postgres: child didn'' @ [char_of (39 :: nat)] @ ''t stop (status=0x'' @ hex_digits (unat s1) @ '')'' @ [char_of (10 :: nat)]"

definition msg_exited :: "u32 \<Rightarrow> string" where
  "msg_exited s2 = ''arch/postgres: child exited immediately (code '' @ fmt_d (WEXITSTATUS s2) @ '')'' @ [char_of (10 :: nat)]"

definition msg_odd :: "u32 \<Rightarrow> string" where
  "msg_odd s2 = ''arch/postgres: unexpected stop (sig='' @ fmt_d (WSTOPSIG s2) @ '' event='' @ fmt_d (stop_event s2) @ '')'' @ [char_of (10 :: nat)]"

subsection \<open>The loop\<close>

text \<open>\<open>get_regs\<close> leaves the variable alone when it fails.\<close>

definition load_regs :: "stop \<Rightarrow> tracer \<Rightarrow> tracer" where
  "load_regs s t = (case st_regs s of None \<Rightarrow> t | Some r \<Rightarrow> t\<lparr>tr_regs := r\<rparr>)"

definition kill_child :: "pid \<Rightarrow> tracer \<Rightarrow> tracer" where
  "kill_child pid t = ask [KillPid pid, Reap pid] t"

text \<open>One iteration: \<open>Some c\<close> when the loop ends with exit code \<open>c\<close>.\<close>

definition loop_event :: "stop \<Rightarrow> tracer \<Rightarrow> tracer" where
  "loop_event s t =
     (let ev = stop_event (st_status s) in
      ask ((if ev = 3 \<or> ev = 1 \<or> ev = 2 then [PtraceSyscall (sint (ucast (st_msg s) :: u32)) 0] else [])
           @ [PtraceSyscall (st_pid s) 0]) t)"

definition loop_syscall :: "pid \<Rightarrow> stop \<Rightarrow> tracer \<Rightarrow> (int option \<times> tracer) undef" where
  "loop_syscall root s t0 =
     (case st_op s of
        None \<Rightarrow> Some (None, t0)
      | Some op \<Rightarrow>
          let t = load_regs s t0 in
          if op = 1 then do {
            (act, r, t1) \<leftarrow> handle_entry s (tr_regs t) t;
            let t2 = t1\<lparr>entry_action := act, tr_regs := r\<rparr>;
            if act = SC_EXIT then
              Some (if st_pid s = root then Some (sint (ucast (handled_retval t2) :: u32)) else None, kill_child (st_pid s) t2)
            else Some (None, ask [PtraceSyscall (st_pid s) 0] t2)
          }
          else if op = 2 then
            (case handle_exit s (tr_regs t) t of (r, t1) \<Rightarrow>
               Some (None, ask [PtraceSyscall (st_pid s) 0] (t1\<lparr>tr_regs := r\<rparr>)))
          else Some (None, ask [PtraceSyscall (st_pid s) 0] t))"

definition crash_line :: "pid \<Rightarrow> int \<Rightarrow> u64 \<Rightarrow> string" where
  "crash_line pid sig pc = ''[crash] pid '' @ fmt_d pid @ '' signal '' @ fmt_d sig @ '' at PC=0x'' @ hex_digits (unat pc) @ [char_of (10 :: nat)]"

definition loop_crash :: "pid \<Rightarrow> stop \<Rightarrow> int \<Rightarrow> tracer \<Rightarrow> (int option \<times> tracer) undef" where
  "loop_crash root s sig t0 = do {
     let t = load_regs s t0;
     t1 \<leftarrow> pg_log (crash_line (st_pid s) sig (ar_pc (tr_regs t))) t;
     Some (if st_pid s = root then Some (128 + sig) else None, kill_child (st_pid s) t1)
   }"

definition loop_body :: "pid \<Rightarrow> wait_result \<Rightarrow> tracer \<Rightarrow> (int option \<times> tracer) undef" where
  "loop_body root w t =
     (case w of
        WaitFailed echild err \<Rightarrow>
          if echild then Some (Some (- 1), t)
          else map_option (\<lambda>t1. (Some (- 1), t1)) (pg_log (msg_wait err) t)
      | Stopped s \<Rightarrow>
          let status = st_status s; sig = WSTOPSIG status in
          if WIFEXITED status then Some (if st_pid s = root then Some (WEXITSTATUS status) else None, t)
          else if WIFSIGNALED status then Some (if st_pid s = root then Some (128 + WTERMSIG status) else None, t)
          else if \<not> WIFSTOPPED status then Some (None, t)
          else if stop_event status \<noteq> 0 then Some (None, loop_event s t)
          else if sig = 0x85 then loop_syscall root s t
          else if sig = 11 \<or> sig = 7 then loop_crash root s sig t
          else Some (None, ask [PtraceSyscall (st_pid s) sig] t))"

text \<open>The whole loop; \<open>None\<close> as the code when the answers end and the tracer still waits.\<close>

fun syscall_loop :: "pid \<Rightarrow> wait_result list \<Rightarrow> tracer \<Rightarrow> (int option \<times> tracer) undef" where
  "syscall_loop root [] t = Some (None, t)"
| "syscall_loop root (w # ws) t = do {
     (code, t1) \<leftarrow> loop_body root w t;
     (case code of None \<Rightarrow> syscall_loop root ws t1 | Some c \<Rightarrow> Some (Some c, t1))
   }"

text \<open>\<open>start\<close>: the error of the first \<open>PTRACE_SYSCALL\<close>, if it fails.\<close>

definition pg_syscall_loop :: "pid \<Rightarrow> string option \<Rightarrow> wait_result list \<Rightarrow> tracer \<Rightarrow> (int option \<times> tracer) undef" where
  "pg_syscall_loop root start ws t =
     (case start of
        Some err \<Rightarrow> map_option (\<lambda>t1. (Some (- 1), t1)) (pg_log (msg_start err) t)
      | None \<Rightarrow> syscall_loop root ws (ask [PtraceSyscall root 0] t))"

subsection \<open>Running a command\<close>

definition quoted :: "string \<Rightarrow> string" where
  "quoted s = [char_of (39 :: nat)] @ s @ [char_of (39 :: nat)]"

definition shell_argv :: "string \<Rightarrow> string list" where
  "shell_argv cmd = [''/bin/sh'', ''-c'', cmd]"

definition shell_envp :: "string list" where
  "shell_envp = [''HOME=/'', ''PATH=/usr/local/bin:/usr/bin:/bin:/work/initramfs/bin'', ''TERM=linux'', ''DISPLAY=host.docker.internal:0'']"

text \<open>System call stops marked, children killed with the tracer, and stops at \<open>exec\<close>, \<open>clone\<close>, \<open>fork\<close> and \<open>vfork\<close>.\<close>

definition TRACE_OPTIONS :: u32 where
  "TRACE_OPTIONS = 0x00000001 OR 0x00100000 OR 0x00000010 OR 0x00000008 OR 0x00000002 OR 0x00000004"

text \<open>What the system answers: the result of \<open>fork\<close> for a child that executes the arguments (a process, or an error), the status of the two waits
  before the loop, and what the loop meets.\<close>

record run_host =
  rh_fork :: "string list \<Rightarrow> string list \<Rightarrow> string + pid"
  rh_first :: u32
  rh_second :: u32
  rh_start :: "string option"
  rh_waits :: "wait_result list"

definition pg_run_cmd :: "run_host \<Rightarrow> string \<Rightarrow> tracer \<Rightarrow> (int option \<times> tracer) undef" where
  "pg_run_cmd h cmd t =
     (case rh_fork h (shell_argv cmd) shell_envp of
        Inl err \<Rightarrow> map_option (\<lambda>t1. (Some (- 1), t1)) (pg_log (msg_fork err) t)
      | Inr pid \<Rightarrow>
          let s1 = rh_first h; s2 = rh_second h in
          if \<not> WIFSTOPPED s1 \<or> WSTOPSIG s1 \<noteq> 19 then
            map_option (\<lambda>t1. (Some (- 1), kill_child pid t1))
              (pg_log (msg_unstopped s1) t)
          else let t0 = ask [PtraceSetOptions pid TRACE_OPTIONS, PtraceCont pid] t in
          if WIFEXITED s2 then
            map_option (\<lambda>t1. (Some (WEXITSTATUS s2), t1))
              (pg_log (msg_exited s2) t0)
          else do {
            t1 \<leftarrow> (if WIFSTOPPED s2 \<and> stop_event s2 \<noteq> 4 then
                     pg_log (msg_odd s2) t0
                   else Some t0);
            pg_syscall_loop pid (rh_start h) (rh_waits h) t1
          })"

definition pg_run_init :: "run_host \<Rightarrow> tracer \<Rightarrow> (int option \<times> tracer) undef" where
  "pg_run_init h t =
     pg_run_cmd h (''echo '' @ quoted ''=== LinuxSQL init ==='' @ ''; echo '' @ quoted ''Hello from inside PostgreSQL!'' @
       ''; echo '' @ quoted ''PID 1 running as busybox ash'' @ ''; echo '' @ quoted ''=== init done ==='') t"

text \<open>The static variables before a run and the uninitialized \<open>regs\<close> come with the tracer. \<open>linux_exec\<close> waits for ever when the command does (\<open>None\<close>
  as its result).\<close>

definition exec_reset :: "linuxsql \<Rightarrow> linuxsql" where
  "exec_reset c = (let b = (case pg_boot_log c of None \<Rightarrow> fresh_log | Some b \<Rightarrow> b) in
     c\<lparr>pg_boot_log := Some (b(0 := 0)), pg_boot_log_pos := 0\<rparr>)"

definition exit_line :: "int \<Rightarrow> string" where
  "exit_line code = char_of (10 :: nat) # ''[exit code: '' @ fmt_d code @ '']'' @ [char_of (10 :: nat)]"

definition linux_exec :: "run_host \<Rightarrow> string \<Rightarrow> tracer \<Rightarrow> (u8 list option \<times> tracer) undef" where
  "linux_exec h cmd t = do {
     (code, t1) \<leftarrow> pg_run_cmd h cmd (t\<lparr>tr_log := exec_reset (tr_log t)\<rparr>);
     (case code of
        None \<Rightarrow> Some (None, t1)
      | Some n \<Rightarrow> do {
          c \<leftarrow> (if n \<noteq> 0 then log_snprintf (bytes_of (exit_line n)) (tr_log t1) else Some (tr_log t1));
          res \<leftarrow> log_text c;
          Some (Some res, t1\<lparr>tr_log := c\<rparr>)
        })
   }"

subsection \<open>What the tracer prints\<close>

text \<open>How the log and the standard error of a later state continue those of an earlier one.\<close>

definition log_ext :: "u8 list list \<Rightarrow> linuxsql \<Rightarrow> linuxsql \<Rightarrow> bool" where
  "log_ext bss c c' \<longleftrightarrow> log_ok c' \<and> lx_stderr c' = lx_stderr c @ bss \<and> log_bytes c' = kept_text 262144 (log_bytes c) bss"

lemma log_ext_refl: "log_ok c \<Longrightarrow> log_ext [] c c"
  by (simp add: log_ext_def)

lemma log_ext_trans: "log_ext a c c' \<Longrightarrow> log_ext b c' c'' \<Longrightarrow> log_ext (a @ b) c c''"
  by (simp add: log_ext_def kept_append)

lemma log_ext_ok: "log_ext bss c c' \<Longrightarrow> log_ok c'"
  by (simp add: log_ext_def)

lemma console_write_ext:
  assumes "log_ok c"
  shows "\<exists>c'. pg_ext_console_write bs c = Some c' \<and> log_ext [bs] c c'"
proof -
  from ext_log.put_defined[OF assms, of bs] obtain c' where c': "pg_ext_console_write bs c = Some c'" "log_ok c'"
    and bytes: "log_bytes c' = (if length (log_bytes c) + length bs < 262144 then log_bytes c @ bs else log_bytes c)" by blast
  have "lx_stderr c' = lx_stderr c @ [bs]"
    using c'(1) by (auto simp: pg_ext_console_write_def log_append_def split: option.splits if_splits)
  with c' bytes show ?thesis by (auto simp: log_ext_def)
qed

lemma console_out_ext:
  assumes "log_ok (tr_log t)"
  shows "\<exists>c. console_out bs t = Some (t\<lparr>tr_log := c\<rparr>) \<and> log_ext [bs] (tr_log t) c"
  using console_write_ext[OF assms, of bs] by (auto simp: console_out_def)

lemma pg_log_ext:
  assumes "log_ok (tr_log t)" "length s < 512"
  shows "\<exists>c bss. pg_log s t = Some (t\<lparr>tr_log := c\<rparr>) \<and> log_ext bss (tr_log t) c"
  using console_out_ext[OF assms(1), of "bytes_of s"] assms log_ext_refl[OF assms(1)]
  by (cases "s = []") (force simp: pg_log_def)+

text \<open>What a call prints, and the answer of the tracer to it, when it answers the call.\<close>

definition iov_ok :: "stop \<Rightarrow> u64 \<Rightarrow> nat \<Rightarrow> bool" where
  "iov_ok s a i \<longleftrightarrow> 0 < iov_len s a i \<and> iov_len s a i \<le> 4096"

definition iov_used :: "stop \<Rightarrow> aarch64_regs \<Rightarrow> nat list" where
  "iov_used s r = filter (iov_ok s (ar_x r 1)) [0..<iov_count r]"

definition write_text :: "stop \<Rightarrow> aarch64_regs \<Rightarrow> u8 list" where
  "write_text s r = (case st_read s (ar_x r 1) (unat (min 4096 (ar_x r 2))) of None \<Rightarrow> [] | Some bs \<Rightarrow> bs)"

definition printed :: "stop \<Rightarrow> aarch64_regs \<Rightarrow> u8 list list" where
  "printed s r =
     (if ar_x r 8 = 64 \<and> console_fd r then filter (\<lambda>bs. bs \<noteq> []) [write_text s r]
      else if ar_x r 8 = 66 \<and> console_fd r then map (iov_text s (ar_x r 1)) (iov_used s r)
      else [])"

definition emulated :: "stop \<Rightarrow> aarch64_regs \<Rightarrow> u64 option" where
  "emulated s r =
     (if ar_x r 8 = 64 \<and> console_fd r then Some (if write_text s r = [] then - 14 else of_nat (length (write_text s r)))
      else if ar_x r 8 = 66 \<and> console_fd r then Some (\<Sum>i\<leftarrow>iov_used s r. iov_len s (ar_x r 1) i)
      else if ar_x r 8 = 160 then Some 0
      else map_of id_calls (ar_x r 8))"

definition entry_requests :: "stop \<Rightarrow> aarch64_regs \<Rightarrow> request list" where
  "entry_requests s r =
     (if emulated s r = None then []
      else (if ar_x r 8 = 160 then [WriteMem (st_pid s) (ar_x r 0) uts_bytes] else [])
        @ [SetRegs (st_pid s) (r\<lparr>ar_x := (ar_x r)(8 := - 1)\<rparr>)])"

lemma writev_loop_ext:
  assumes "log_ok (tr_log t)"
  shows "\<exists>c. writev_loop s a n i tot t = Some (tot + (\<Sum>j\<leftarrow>filter (iov_ok s a) [i..<i+n]. iov_len s a j), t\<lparr>tr_log := c\<rparr>)
    \<and> log_ext (map (iov_text s a) (filter (iov_ok s a) [i..<i+n])) (tr_log t) c"
  using assms
proof (induction n arbitrary: i tot t)
  case 0
  then show ?case using log_ext_refl[OF 0] by (force intro: exI[of _ "tr_log t"])
next
  case (Suc n)
  have up: "[i..<i + Suc n] = i # [Suc i..<Suc i + n]" by (simp add: upt_conv_Cons del: upt.simps)
  show ?case
  proof (cases "iov_ok s a i")
    case True
    obtain c where c: "console_out (iov_text s a i) t = Some (t\<lparr>tr_log := c\<rparr>)" "log_ext [iov_text s a i] (tr_log t) c"
      using console_out_ext[OF Suc.prems] by blast
    from Suc.IH[of "t\<lparr>tr_log := c\<rparr>" "Suc i" "tot + iov_len s a i"] log_ext_ok[OF c(2)] obtain c' where
      rest: "writev_loop s a n (Suc i) (tot + iov_len s a i) (t\<lparr>tr_log := c\<rparr>) =
        Some (tot + iov_len s a i + (\<Sum>j\<leftarrow>filter (iov_ok s a) [Suc i..<Suc i + n]. iov_len s a j), t\<lparr>tr_log := c'\<rparr>)"
      and ext: "log_ext (map (iov_text s a) (filter (iov_ok s a) [Suc i..<Suc i + n])) c c'" by auto
    have "writev_loop s a (Suc n) i tot t = writev_loop s a n (Suc i) (tot + iov_len s a i) (t\<lparr>tr_log := c\<rparr>)"
      using True c(1) by (simp add: iov_ok_def)
    with rest log_ext_trans[OF c(2) ext] True show ?thesis
      unfolding up by (intro exI[of _ c']) (simp add: add.assoc del: upt.simps writev_loop.simps)
  next
    case False
    then have "writev_loop s a (Suc n) i tot t = writev_loop s a n (Suc i) tot t" by (auto simp: iov_ok_def)
    with False Suc.IH[OF Suc.prems, of "Suc i" tot] show ?thesis unfolding up by (simp del: upt.simps writev_loop.simps)
  qed
qed

text \<open>The entry: the calls that are answered, their answers, what is printed and what the system is asked to do.\<close>

lemma nullify_eq:
  "nullify pid r t = (SC_HANDLED, r\<lparr>ar_x := (ar_x r)(8 := - 1)\<rparr>, ask [SetRegs pid (r\<lparr>ar_x := (ar_x r)(8 := - 1)\<rparr>)] t)"
  by (simp add: nullify_def Let_def)

definition entry_state :: "stop \<Rightarrow> aarch64_regs \<Rightarrow> linuxsql \<Rightarrow> tracer \<Rightarrow> tracer" where
  "entry_state s r c t =
     t\<lparr>entry_nr := ar_x r 8, saved_x0 := ar_x r 0, saved_x1 := ar_x r 1, saved_x2 := ar_x r 2,
       handled_retval := (case emulated s r of None \<Rightarrow> handled_retval t | Some v \<Rightarrow> v), tr_log := c,
       tr_requests := tr_requests t @ entry_requests s r\<rparr>"

lemma passthrough_not_emulated:
  assumes "nr \<in> set passthrough_calls"
  shows "nr \<noteq> 64" "nr \<noteq> 66" "nr \<noteq> 160" "map_of id_calls nr = None"
  using assms by (auto simp: passthrough_calls_def id_calls_def)

lemma id_calls_number: "map_of id_calls nr = Some v \<Longrightarrow> nr \<noteq> 64 \<and> nr \<noteq> 66 \<and> nr \<noteq> 160"
  by (auto simp: id_calls_def split: if_splits)

lemma entry_write_spec:
  assumes "log_ok (tr_log t)" "console_fd r"
  shows "\<exists>c. entry_write s r t = Some (nullify (st_pid s) r
      (t\<lparr>tr_log := c, handled_retval := (if write_text s r = [] then - 14 else of_nat (length (write_text s r)))\<rparr>))
    \<and> log_ext (filter (\<lambda>bs. bs \<noteq> []) [write_text s r]) (tr_log t) c"
proof -
  have count: "unat (if ar_x r 2 > 4096 then 4096 else ar_x r 2) = unat (min 4096 (ar_x r 2))" by (auto simp: min_def)
  show ?thesis
  proof (cases "write_text s r")
    case Nil
    then have "entry_write s r t = Some (nullify (st_pid s) r (t\<lparr>handled_retval := - 14\<rparr>))"
      using assms(2) unfolding entry_write_def write_text_def Let_def count by (auto split: option.splits)
    with Nil log_ext_refl[OF assms(1)] show ?thesis by (intro exI[of _ "tr_log t"]) simp
  next
    case (Cons b bs)
    then have rd: "st_read s (ar_x r 1) (unat (min 4096 (ar_x r 2))) = Some (b # bs)"
      by (simp add: write_text_def split: option.splits)
    obtain c where c: "console_out (b # bs) t = Some (t\<lparr>tr_log := c\<rparr>)" "log_ext [b # bs] (tr_log t) c"
      using console_out_ext[OF assms(1)] by blast
    then have "entry_write s r t = Some (nullify (st_pid s) r (t\<lparr>tr_log := c, handled_retval := of_nat (length (b # bs))\<rparr>))"
      using assms(2) rd unfolding entry_write_def Let_def count by simp
    with c(2) Cons show ?thesis by (intro exI[of _ c]) simp
  qed
qed

lemma handle_entry_spec:
  assumes ok: "log_ok (tr_log t)" and nr: "ar_x r 8 \<noteq> 93" "ar_x r 8 \<noteq> 94"
  shows "\<exists>c r'. handle_entry s r t = Some (if emulated s r = None then SC_PASSTHROUGH else SC_HANDLED, r', entry_state s r c t)
    \<and> log_ext (printed s r) (tr_log t) c"
proof -
  define t1 where "t1 = t\<lparr>entry_nr := ar_x r 8, saved_x0 := ar_x r 0, saved_x1 := ar_x r 1, saved_x2 := ar_x r 2\<rparr>"
  have log1: "tr_log t1 = tr_log t" by (simp add: t1_def)
  have entry: "handle_entry s r t =
     (if ar_x r 8 \<in> set passthrough_calls then Some (SC_PASSTHROUGH, r, t1)
      else if ar_x r 8 = 64 then entry_write s r t1
      else if ar_x r 8 = 66 then entry_writev s r t1
      else if ar_x r 8 = 160 then Some (entry_uname s r t1)
      else case map_of id_calls (ar_x r 8) of
          Some v \<Rightarrow> Some (nullify (st_pid s) r (t1\<lparr>handled_retval := v\<rparr>))
        | None \<Rightarrow> Some (SC_PASSTHROUGH, r, t1))"
    using nr unfolding handle_entry_def t1_def Let_def by simp
  have "emulated s r = None \<or> ar_x r 8 = 64 \<and> console_fd r \<or> ar_x r 8 = 66 \<and> console_fd r \<or> ar_x r 8 = 160 \<or>
      (\<exists>v. map_of id_calls (ar_x r 8) = Some v)"
    by (cases "emulated s r") (auto simp: emulated_def split: if_splits)
  then consider (none) "emulated s r = None" | (w) "ar_x r 8 = 64" "console_fd r" | (v) "ar_x r 8 = 66" "console_fd r"
    | (u) "ar_x r 8 = 160" | (i) v where "map_of id_calls (ar_x r 8) = Some v"
    by metis
  then show ?thesis
  proof cases
    case none
    then have "\<not> (ar_x r 8 = 64 \<and> console_fd r)" "\<not> (ar_x r 8 = 66 \<and> console_fd r)" "ar_x r 8 \<noteq> 160" "map_of id_calls (ar_x r 8) = None"
      by (auto simp: emulated_def split: if_splits)
    then have "handle_entry s r t = Some (SC_PASSTHROUGH, r, t1)" "printed s r = []"
      unfolding entry by (auto simp: entry_write_def entry_writev_def printed_def)
    moreover have "entry_state s r (tr_log t) t = t1" using none by (simp add: entry_state_def entry_requests_def t1_def)
    ultimately show ?thesis using none log_ext_refl[OF ok] by auto
  next
    case w
    then have np: "ar_x r 8 \<notin> set passthrough_calls" using passthrough_not_emulated by metis
    from entry_write_spec[of t1 r s] ok w obtain c where "entry_write s r t1 = Some (nullify (st_pid s) r
      (t1\<lparr>tr_log := c, handled_retval := (if write_text s r = [] then - 14 else of_nat (length (write_text s r)))\<rparr>))"
      and "log_ext (filter (\<lambda>bs. bs \<noteq> []) [write_text s r]) (tr_log t1) c" unfolding log1 by blast
    moreover from w have "emulated s r = Some (if write_text s r = [] then - 14 else of_nat (length (write_text s r)))"
      "printed s r = filter (\<lambda>bs. bs \<noteq> []) [write_text s r]" by (simp_all add: emulated_def printed_def)
    ultimately show ?thesis using w np unfolding entry
      by (intro exI[of _ c]) (simp add: nullify_eq entry_state_def entry_requests_def ask_def t1_def)
  next
    case v
    then have np: "ar_x r 8 \<notin> set passthrough_calls" using passthrough_not_emulated by metis
    from writev_loop_ext[of t1 s "ar_x r 1" "iov_count r" 0 0] ok obtain c where
      "writev_loop s (ar_x r 1) (iov_count r) 0 0 t1 = Some (\<Sum>j\<leftarrow>iov_used s r. iov_len s (ar_x r 1) j, t1\<lparr>tr_log := c\<rparr>)"
      and "log_ext (map (iov_text s (ar_x r 1)) (iov_used s r)) (tr_log t) c" unfolding log1 iov_used_def by auto
    moreover from v have "emulated s r = Some (\<Sum>i\<leftarrow>iov_used s r. iov_len s (ar_x r 1) i)"
      "printed s r = map (iov_text s (ar_x r 1)) (iov_used s r)" by (simp_all add: emulated_def printed_def)
    ultimately show ?thesis using v np unfolding entry entry_writev_def
      by (intro exI[of _ c]) (simp add: nullify_eq entry_state_def entry_requests_def ask_def t1_def)
  next
    case u
    then have np: "ar_x r 8 \<notin> set passthrough_calls" using passthrough_not_emulated by metis
    from u have "emulated s r = Some 0" "printed s r = []" by (simp_all add: emulated_def printed_def)
    then show ?thesis using u np log_ext_refl[OF ok] unfolding entry entry_uname_def
      by (intro exI[of _ "tr_log t"]) (simp add: nullify_eq entry_state_def entry_requests_def ask_def t1_def)
  next
    case (i v)
    then have np: "ar_x r 8 \<notin> set passthrough_calls" and "ar_x r 8 \<noteq> 64" "ar_x r 8 \<noteq> 66" "ar_x r 8 \<noteq> 160"
      using passthrough_not_emulated(4) id_calls_number by force+
    moreover then have "emulated s r = Some v" "printed s r = []" using i by (simp_all add: emulated_def printed_def)
    ultimately show ?thesis using i log_ext_refl[OF ok] unfolding entry
      by (intro exI[of _ "tr_log t"]) (simp add: nullify_eq entry_state_def entry_requests_def ask_def t1_def)
  qed
qed

subsection \<open>A call and its answer\<close>

definition syscall_stop :: "nat \<Rightarrow> stop \<Rightarrow> bool" where
  "syscall_stop op s \<longleftrightarrow> WIFSTOPPED (st_status s) \<and> stop_event (st_status s) = 0 \<and> WSTOPSIG (st_status s) = 0x85 \<and> st_op s = Some op"

definition entry_stop :: "wait_result \<Rightarrow> bool" where
  "entry_stop w \<longleftrightarrow> (case w of WaitFailed _ _ \<Rightarrow> False | Stopped s \<Rightarrow> syscall_stop 1 s)"

lemma stopped_only:
  assumes "WIFSTOPPED s"
  shows "\<not> WIFEXITED s" "\<not> WIFSIGNALED s"
proof -
  have "s AND 0x7F = (s AND 0xFF) AND 0x7F" by (simp add: and.assoc)
  with assms have "WTERMSIG s = 0x7F" by (simp add: WIFSTOPPED_def WTERMSIG_def)
  then show "\<not> WIFEXITED s" "\<not> WIFSIGNALED s" by (simp_all add: WIFEXITED_def WIFSIGNALED_def)
qed

lemma loop_body_syscall: "syscall_stop op s \<Longrightarrow> loop_body root (Stopped s) t = loop_syscall root s t"
  by (simp add: loop_body_def syscall_stop_def stopped_only)

lemma load_regs_fields [simp]:
  "entry_action (load_regs s t) = entry_action t" "handled_retval (load_regs s t) = handled_retval t"
  "tr_log (load_regs s t) = tr_log t" "tr_requests (load_regs s t) = tr_requests t"
  by (simp_all add: load_regs_def split: option.split)

lemma ask_fields [simp]:
  "entry_action (ask rs t) = entry_action t" "handled_retval (ask rs t) = handled_retval t"
  "tr_log (ask rs t) = tr_log t" "tr_requests (ask rs t) = tr_requests t @ rs"
  by (simp_all add: ask_def)

lemma kill_child_fields [simp]:
  "entry_action (kill_child pid t) = entry_action t" "handled_retval (kill_child pid t) = handled_retval t"
  "tr_log (kill_child pid t) = tr_log t" "tr_requests (kill_child pid t) = tr_requests t @ [KillPid pid, Reap pid]"
  by (simp_all add: kill_child_def)

text \<open>What a step that is no entry leaves alone.\<close>

definition tracer_keeps :: "tracer \<Rightarrow> tracer \<Rightarrow> bool" where
  "tracer_keeps t t' \<longleftrightarrow> entry_action t' = entry_action t \<and> handled_retval t' = handled_retval t \<and>
     (\<exists>rs. tr_requests t' = tr_requests t @ rs) \<and> (\<exists>bss. lx_stderr (tr_log t') = lx_stderr (tr_log t) @ bss)"

lemma tracer_keeps_refl: "tracer_keeps t t"
  by (simp add: tracer_keeps_def)

lemma tracer_keeps_trans: "tracer_keeps t t' \<Longrightarrow> tracer_keeps t' t'' \<Longrightarrow> tracer_keeps t t''"
  by (force simp: tracer_keeps_def)

lemma pg_log_keeps: "pg_log s t = Some t' \<Longrightarrow> tracer_keeps t t'"
  by (auto simp: pg_log_def console_out_def pg_ext_console_write_def log_append_def tracer_keeps_def split: if_splits option.splits)

lemma ask_keeps: "tracer_keeps t t' \<Longrightarrow> tracer_keeps t (ask rs t')"
  by (auto simp: tracer_keeps_def)

lemma loop_syscall_keeps:
  assumes "loop_syscall root s t = Some (code, t')" "st_op s \<noteq> Some 1"
  shows "tracer_keeps t t'"
  using assms by (auto simp: loop_syscall_def Let_def handle_exit_def tracer_keeps_def split: option.splits if_splits prod.splits)

lemma loop_body_keeps:
  assumes "loop_body root w t = Some (code, t')" "\<not> entry_stop w"
  shows "tracer_keeps t t'"
proof (cases w)
  case (WaitFailed e err)
  with assms show ?thesis by (auto simp: loop_body_def tracer_keeps_refl dest: pg_log_keeps split: if_splits)
next
  case (Stopped s)
  consider (sys) "WIFSTOPPED (st_status s)" "stop_event (st_status s) = 0" "WSTOPSIG (st_status s) = 0x85"
    | (other) "\<not> (WIFSTOPPED (st_status s) \<and> stop_event (st_status s) = 0 \<and> WSTOPSIG (st_status s) = 0x85)" by blast
  then show ?thesis
  proof cases
    case sys
    then have "loop_syscall root s t = Some (code, t')" "st_op s \<noteq> Some 1"
      using assms Stopped by (auto simp: loop_body_def entry_stop_def syscall_stop_def stopped_only)
    then show ?thesis by (rule loop_syscall_keeps)
  next
    case other
    have crash: "loop_crash root s sig t = Some (c, u) \<Longrightarrow> tracer_keeps t u" for sig c u
      by (auto simp: loop_crash_def Let_def bind_eq_Some_conv tracer_keeps_def dest!: pg_log_keeps)
    from other assms Stopped show ?thesis
      by (auto simp: loop_body_def Let_def loop_event_def intro: tracer_keeps_refl ask_keeps dest: crash split: if_splits)
  qed
qed

lemma syscall_loop_append:
  "syscall_loop root (a @ b) t =
     (syscall_loop root a t \<bind> (\<lambda>(code, t1). case code of None \<Rightarrow> syscall_loop root b t1 | Some c \<Rightarrow> Some (Some c, t1)))"
  by (induction a arbitrary: t) (auto split: option.splits prod.splits bind_splits)

lemma syscall_loop_keeps:
  assumes "syscall_loop root ws t = Some (code, t')" "\<forall>w\<in>set ws. \<not> entry_stop w"
  shows "tracer_keeps t t'"
  using assms
proof (induction ws arbitrary: t)
  case (Cons w ws)
  from Cons.prems obtain c t1 where step: "loop_body root w t = Some (c, t1)" and
    rest: "(case c of None \<Rightarrow> syscall_loop root ws t1 | Some n \<Rightarrow> Some (Some n, t1)) = Some (code, t')"
    by (auto simp: bind_eq_Some_conv)
  from loop_body_keeps[OF step] Cons.prems have k1: "tracer_keeps t t1" by simp
  show ?case
  proof (cases c)
    case None
    with rest Cons have "tracer_keeps t1 t'" by simp
    with k1 show ?thesis by (rule tracer_keeps_trans)
  qed (use rest k1 in simp)
qed (simp add: tracer_keeps_refl)

lemma entry_step:
  assumes "syscall_stop 1 s" "st_regs s = Some r" "ar_x r 8 \<noteq> 93" "ar_x r 8 \<noteq> 94" "log_ok (tr_log t)"
  shows "\<exists>t1. loop_body root (Stopped s) t = Some (None, t1) \<and>
    tr_requests t1 = tr_requests t @ entry_requests s r @ [PtraceSyscall (st_pid s) 0] \<and>
    log_ext (printed s r) (tr_log t) (tr_log t1) \<and>
    entry_action t1 = (if emulated s r = None then SC_PASSTHROUGH else SC_HANDLED) \<and>
    (\<forall>v. emulated s r = Some v \<longrightarrow> handled_retval t1 = v)"
proof -
  have "tr_regs (load_regs s t) = r" using assms(2) by (simp add: load_regs_def)
  from handle_entry_spec[of "load_regs s t" r s] assms obtain c r' where
    h: "handle_entry s r (load_regs s t) = Some (if emulated s r = None then SC_PASSTHROUGH else SC_HANDLED, r', entry_state s r c (load_regs s t))"
    and ext: "log_ext (printed s r) (tr_log t) c" by auto
  have op: "st_op s = Some 1" using assms(1) by (simp add: syscall_stop_def)
  have "loop_body root (Stopped s) t = Some (None, ask [PtraceSyscall (st_pid s) 0]
      ((entry_state s r c (load_regs s t))\<lparr>entry_action := (if emulated s r = None then SC_PASSTHROUGH else SC_HANDLED), tr_regs := r'\<rparr>))"
    using h op \<open>tr_regs (load_regs s t) = r\<close> unfolding loop_body_syscall[OF assms(1)] loop_syscall_def by (simp add: Let_def)
  with ext show ?thesis by (auto simp: entry_state_def)
qed

lemma exit_step:
  assumes "syscall_stop 2 s" "st_regs s = Some r"
  shows "\<exists>t1. loop_body root (Stopped s) t = Some (None, t1) \<and> tr_log t1 = tr_log t \<and>
    tr_requests t1 = tr_requests t @
      (if entry_action t = SC_HANDLED then [SetRegs (st_pid s) (r\<lparr>ar_x := (ar_x r)(0 := handled_retval t)\<rparr>)] else [])
      @ [PtraceSyscall (st_pid s) 0]"
proof -
  have "tr_regs (load_regs s t) = r" "st_op s = Some 2" using assms by (simp_all add: load_regs_def syscall_stop_def)
  then show ?thesis unfolding loop_body_syscall[OF assms(1)] loop_syscall_def
    by (simp add: handle_exit_def Let_def)
qed


subsection \<open>The text of a command\<close>

text \<open>What the system answers fits: process numbers are \<open>int\<close>s and messages of \<open>strerror\<close> short.\<close>

definition wait_ok :: "wait_result \<Rightarrow> bool" where
  "wait_ok w \<longleftrightarrow> (case w of WaitFailed _ err \<Rightarrow> length err < 400 | Stopped s \<Rightarrow> \<bar>st_pid s\<bar> < 2 ^ 32)"

definition host_ok :: "run_host \<Rightarrow> bool" where
  "host_ok h \<longleftrightarrow> (\<forall>argv envp err. rh_fork h argv envp = Inl err \<longrightarrow> length err < 400) \<and>
     (\<forall>err. rh_start h = Some err \<longrightarrow> length err < 400) \<and> (\<forall>w\<in>set (rh_waits h). wait_ok w)"

text \<open>A step with a defined result that only adds to the log.\<close>

definition logs :: "('a \<times> tracer) undef \<Rightarrow> tracer \<Rightarrow> bool" where
  "logs res t \<longleftrightarrow> (\<exists>a t' bss. res = Some (a, t') \<and> log_ext bss (tr_log t) (tr_log t'))"

lemma logs_same: "log_ok (tr_log t) \<Longrightarrow> tr_log t' = tr_log t \<Longrightarrow> logs (Some (a, t')) t"
  by (auto simp: logs_def intro: log_ext_refl)

lemma logs_trans: "log_ext bss (tr_log t) (tr_log t1) \<Longrightarrow> logs res t1 \<Longrightarrow> logs res t"
  by (auto simp: logs_def intro: log_ext_trans)

lemma logs_pg_log:
  assumes "log_ok (tr_log t)" "length s < 512" "\<And>u. tr_log (snd (f u)) = tr_log u"
  shows "logs (map_option f (pg_log s t)) t"
proof -
  obtain c bss where c: "pg_log s t = Some (t\<lparr>tr_log := c\<rparr>)" "log_ext bss (tr_log t) c" using pg_log_ext[OF assms(1,2)] by blast
  have "map_option f (pg_log s t) = Some (fst (f (t\<lparr>tr_log := c\<rparr>)), snd (f (t\<lparr>tr_log := c\<rparr>)))" using c(1) by simp
  with c(2) assms(3) show ?thesis unfolding logs_def by (metis tracer.select_convs(8) tracer.surjective tracer.update_convs(8))
qed

lemma crash_line_length:
  assumes "\<bar>pid\<bar> < 2 ^ 32" "\<bar>sig\<bar> < 2 ^ 32"
  shows "length (crash_line pid sig pc) < 512"
proof -
  have "unat pc < 16 ^ 16" by (rule order_less_le_trans[OF unsigned_less]) simp
  then have "length (hex_digits (unat pc)) \<le> 16" by (rule hex_digits_length) simp
  with assms fmt_d_length[of pid 10] fmt_d_length[of sig 10] show ?thesis by (simp add: crash_line_def)
qed

lemma logs_if: "(c \<Longrightarrow> logs a t) \<Longrightarrow> (\<not> c \<Longrightarrow> logs b t) \<Longrightarrow> logs (if c then a else b) t"
  by simp

lemma loop_syscall_logs:
  assumes "log_ok (tr_log t)"
  shows "logs (loop_syscall root s t) t"
proof -
  define r where "r = tr_regs (load_regs s t)"
  have exit: "handle_entry s r (load_regs s t) = Some (SC_EXIT, r, (load_regs s t)\<lparr>entry_nr := ar_x r 8, saved_x0 := ar_x r 0,
      saved_x1 := ar_x r 1, saved_x2 := ar_x r 2, handled_retval := ar_x r 0\<rparr>)" if "ar_x r 8 = 93 \<or> ar_x r 8 = 94"
    using that by (auto simp: handle_entry_def Let_def passthrough_calls_def)
  show ?thesis
  proof (cases "st_op s = Some 1")
    case True
    show ?thesis
    proof (cases "ar_x r 8 = 93 \<or> ar_x r 8 = 94")
      case e: True
      from exit[OF e] True assms show ?thesis unfolding r_def by (auto simp: loop_syscall_def Let_def intro: logs_same)
    next
      case False
      from handle_entry_spec[of "load_regs s t" r s] False assms obtain c r' where
        "handle_entry s r (load_regs s t) = Some (if emulated s r = None then SC_PASSTHROUGH else SC_HANDLED, r', entry_state s r c (load_regs s t))"
        "log_ext (printed s r) (tr_log t) c" by auto
      with True show ?thesis unfolding r_def logs_def by (auto simp: loop_syscall_def Let_def entry_state_def)
    qed
  next
    case False
    with assms show ?thesis
      by (auto simp: loop_syscall_def Let_def handle_exit_def intro!: logs_same split: option.splits)
  qed
qed

lemma loop_body_logs:
  assumes "log_ok (tr_log t)" "wait_ok w"
  shows "logs (loop_body root w t) t"
proof (cases w)
  case (WaitFailed e err)
  with assms logs_pg_log[OF assms(1), of "msg_wait err" "\<lambda>t1. (Some (- 1), t1)"] show ?thesis
    by (auto simp: loop_body_def wait_ok_def msg_wait_def intro: logs_same)
next
  case (Stopped s)
  have crash: "logs (loop_crash root s sig t) t" if "sig = 11 \<or> sig = 7" for sig
  proof -
    have "length (crash_line (st_pid s) sig (ar_pc (tr_regs (load_regs s t)))) < 512"
      using assms(2) Stopped that by (intro crash_line_length) (auto simp: wait_ok_def)
    from logs_pg_log[OF _ this, of "load_regs s t" "\<lambda>t1. (if st_pid s = root then Some (128 + sig) else None, kill_child (st_pid s) t1)"] assms(1)
    show ?thesis by (cases "pg_log (crash_line (st_pid s) sig (ar_pc (tr_regs (load_regs s t)))) (load_regs s t)")
      (simp_all add: loop_crash_def logs_def)
  qed
  show ?thesis unfolding Stopped loop_body_def wait_result.case Let_def
    by (intro logs_if crash loop_syscall_logs logs_same assms) (simp_all add: loop_event_def Let_def)
qed

lemma syscall_loop_logs:
  assumes "log_ok (tr_log t)" "\<forall>w\<in>set ws. wait_ok w"
  shows "logs (syscall_loop root ws t) t"
  using assms
proof (induction ws arbitrary: t)
  case Nil
  then show ?case by (simp add: logs_same)
next
  case (Cons w ws)
  from loop_body_logs[OF Cons.prems(1), of w root] Cons.prems obtain code t1 bss where
    step: "loop_body root w t = Some (code, t1)" "log_ext bss (tr_log t) (tr_log t1)" unfolding logs_def by auto
  show ?case
  proof (cases code)
    case None
    with step Cons.IH[of t1] Cons.prems log_ext_ok[OF step(2)] logs_trans[OF step(2)] show ?thesis by simp
  next
    case (Some c)
    with step show ?thesis by (auto simp: logs_def)
  qed
qed

lemma word_digits_length: "length (hex_digits (unat (w :: u32))) \<le> 8"
  by (rule hex_digits_length, rule order_less_le_trans[OF unsigned_less]) simp_all

lemma status_length: "length (fmt_d (WEXITSTATUS s)) \<le> 11" "length (fmt_d (stop_event s)) \<le> 11"
proof -
  have u: "\<bar>uint w\<bar> < 10 ^ 10" for w :: u32
  proof -
    have "uint w < 2 ^ 32" using unsigned_less[of w] by simp
    then show ?thesis by simp
  qed
  show "length (fmt_d (WEXITSTATUS s)) \<le> 11" "length (fmt_d (stop_event s)) \<le> 11"
    using fmt_d_length[OF u] by (simp_all add: WEXITSTATUS_def stop_event_def)
qed

lemma msg_lengths:
  "length (msg_unstopped s) < 512" "length (msg_exited s) < 512" "length (msg_odd s) < 512"
  using word_digits_length[of s] status_length[of s] by (simp_all add: msg_unstopped_def msg_exited_def msg_odd_def WSTOPSIG_def)

lemma msg_error_lengths:
  "length err < 400 \<Longrightarrow> length (msg_wait err) < 512" "length err < 400 \<Longrightarrow> length (msg_start err) < 512"
  "length err < 400 \<Longrightarrow> length (msg_fork err) < 512"
  by (simp_all add: msg_wait_def msg_start_def msg_fork_def)

lemma pg_syscall_loop_logs:
  assumes "log_ok (tr_log t)" "host_ok h"
  shows "logs (pg_syscall_loop pid (rh_start h) (rh_waits h) t) t"
proof (cases "rh_start h")
  case None
  with syscall_loop_logs[of "ask [PtraceSyscall pid 0] t" "rh_waits h" pid] assms show ?thesis
    by (simp add: pg_syscall_loop_def host_ok_def logs_def)
next
  case (Some err)
  with assms(2) have "length (msg_start err) < 512" by (simp add: host_ok_def msg_error_lengths)
  then show ?thesis unfolding pg_syscall_loop_def Some option.case by (intro logs_pg_log assms) simp_all
qed

lemma pg_run_cmd_logs:
  assumes "log_ok (tr_log t)" "host_ok h"
  shows "logs (pg_run_cmd h cmd t) t"
proof (cases "rh_fork h (shell_argv cmd) shell_envp")
  case (Inl err)
  with assms(2) have "length err < 400" unfolding host_ok_def by blast
  then show ?thesis unfolding pg_run_cmd_def Inl sum.case by (intro logs_pg_log msg_error_lengths assms) simp_all
next
  case (Inr pid)
  define t0 where "t0 = ask [PtraceSetOptions pid TRACE_OPTIONS, PtraceCont pid] t"
  have t0: "log_ok (tr_log t0)" "log_ext [] (tr_log t) (tr_log t0)" using assms(1) by (simp_all add: t0_def log_ext_refl)
  have go: "logs ((if WIFSTOPPED (rh_second h) \<and> stop_event (rh_second h) \<noteq> 4 then pg_log (msg_odd (rh_second h)) t0 else Some t0)
      \<bind> pg_syscall_loop pid (rh_start h) (rh_waits h)) t0"
  proof (cases "WIFSTOPPED (rh_second h) \<and> stop_event (rh_second h) \<noteq> 4")
    case True
    obtain c bss where c: "pg_log (msg_odd (rh_second h)) t0 = Some (t0\<lparr>tr_log := c\<rparr>)"
      "log_ext bss (tr_log t0) (tr_log (t0\<lparr>tr_log := c\<rparr>))" using pg_log_ext[OF t0(1) msg_lengths(3)[of "rh_second h"]] by auto
    from True c(1) logs_trans[OF c(2) pg_syscall_loop_logs[OF log_ext_ok[OF c(2)] assms(2)]] show ?thesis by simp
  next
    case False
    with pg_syscall_loop_logs[OF t0(1) assms(2)] show ?thesis by auto
  qed
  show ?thesis unfolding pg_run_cmd_def Inr sum.case Let_def t0_def[symmetric]
    by (intro logs_if logs_trans[OF t0(2)] go logs_pg_log assms t0 msg_lengths) simp_all
qed

lemma exec_reset_ok: "log_ok (exec_reset c)" "log_bytes (exec_reset c) = []" "lx_stderr (exec_reset c) = lx_stderr c"
  by (simp_all add: exec_reset_def Let_def log_ok_def log_bytes_def)

lemma log_snprintf_text:
  assumes "log_ok c"
  shows "\<exists>c'. log_snprintf bs c = Some c' \<and> lx_stderr c' = lx_stderr c \<and>
    log_text c' = Some (takeWhile (\<lambda>x. x \<noteq> 0) (take 262143 (log_bytes c @ bs)))"
proof -
  from assms obtain b where b: "pg_boot_log c = Some b" and pos: "0 \<le> pg_boot_log_pos c" "pg_boot_log_pos c < BOOT_LOG_SIZE"
    by (auto simp: log_ok_def split: option.splits)
  define p where "p = nat (pg_boot_log_pos c)"
  have p: "pg_boot_log_pos c = int p" "p < 262144" using pos by (simp_all add: p_def)
  define ds where "ds = take (262143 - p) bs"
  have room: "nat (BOOT_LOG_SIZE - int p) - 1 = 262143 - p" using p(2) by simp
  have fits: "p + length ds < 262144" using p(2) by (simp add: ds_def)
  have "log_copy b p ds (p + length ds) = 0" by (simp add: log_copy_def)
  then have "c_string 262144 (log_copy b p ds) = Some (takeWhile (\<lambda>x. x \<noteq> 0) (map b [0..<p] @ ds))"
    using c_string_terminated[of "p + length ds" 262144 "log_copy b p ds"] p(2) fits unfolding log_copy_bytes by simp
  moreover have "take 262143 (log_bytes c @ bs) = map b [0..<p] @ ds"
    using p b by (simp add: log_bytes_def ds_def)
  ultimately show ?thesis using b p room by (simp add: log_snprintf_def log_text_def Let_def ds_def del: upt_rec_numeral)
qed


subsection \<open>Example runs\<close>

text \<open>A process 7 with the number of a call and its first arguments; a stop of a process; a tracer with an empty log.\<close>

definition call_regs :: "u64 \<Rightarrow> u64 \<Rightarrow> u64 \<Rightarrow> u64 \<Rightarrow> aarch64_regs" where
  "call_regs nr a0 a1 a2 = \<lparr>ar_x = (\<lambda>_. 0)(8 := nr, 0 := a0, 1 := a1, 2 := a2), ar_sp = 0, ar_pc = 0, ar_pstate = 0\<rparr>"

definition call_stop :: "pid \<Rightarrow> nat \<Rightarrow> aarch64_regs \<Rightarrow> stop" where
  "call_stop p op r = \<lparr>st_pid = p, st_status = 0x857F, st_op = Some op, st_regs = Some r, st_msg = 0,
     st_read = (\<lambda>a n. if a = 0x1000 then Some (take n [104, 105]) else None), st_stack = (\<lambda>_ _. 0)\<rparr>"

definition idle_tracer :: tracer where
  "idle_tracer = \<lparr>entry_action = SC_PASSTHROUGH, entry_nr = 0, handled_retval = 0, saved_x0 = 0, saved_x1 = 0, saved_x2 = 0,
     tr_regs = call_regs 0 0 0 0,
     tr_log = \<lparr>pg_boot_log = Some fresh_log, pg_boot_log_pos = 0, guest_memory = Unmapped, lx_stderr = []\<rparr>, tr_requests = []\<rparr>"

lemma call_stop_syscall: "syscall_stop op (call_stop p op r)"
  by (simp add: syscall_stop_def call_stop_def WIFSTOPPED_def stop_event_def WSTOPSIG_def WEXITSTATUS_def)

lemma call_stop_fields [simp]: "st_regs (call_stop p op r) = Some r" "st_pid (call_stop p op r) = p"
  by (simp_all add: call_stop_def)

lemma idle_tracer_log: "log_ok (tr_log idle_tracer)"
  by (simp add: idle_tracer_def log_ok_def fresh_log_def)


definition idle_host :: run_host where
  "idle_host = \<lparr>rh_fork = (\<lambda>_ _. Inr 7), rh_first = 0x137F, rh_second = 0x0100, rh_start = None, rh_waits = []\<rparr>"


subsection \<open>Where processes are confused\<close>

text \<open>The action and the answer are variables of the tracer, not of the process. Process 8 enters a call of its own (\<open>brk\<close>) while process 7 is inside \<open>getpid\<close>,
  and 7 is resumed without its answer.\<close>

theorem answers_lost:
  "\<exists>t'. syscall_loop 7 [Stopped (call_stop 7 1 (call_regs 172 0 0 0)), Stopped (call_stop 8 1 (call_regs 214 0 0 0)),
      Stopped (call_stop 7 2 (call_regs (- 1) 0 0 0))] idle_tracer = Some (None, t') \<and>
    tr_requests t' = [SetRegs 7 (call_regs (- 1) 0 0 0), PtraceSyscall 7 0, PtraceSyscall 8 0, PtraceSyscall 7 0]"
proof -
  have regs: "(call_regs 172 0 0 0)\<lparr>ar_x := (ar_x (call_regs 172 0 0 0))(8 := - 1)\<rparr> = call_regs (- 1) 0 0 0"
    by (simp add: call_regs_def fun_eq_iff)
  have nr: "ar_x (call_regs 172 0 0 0) 8 \<noteq> 93" "ar_x (call_regs 172 0 0 0) 8 \<noteq> 94" "ar_x (call_regs 214 0 0 0) 8 \<noteq> 93" "ar_x (call_regs 214 0 0 0) 8 \<noteq> 94"
    by (simp_all add: call_regs_def)
  have em: "emulated s (call_regs 172 0 0 0) = Some 1" "emulated s (call_regs 214 0 0 0) = None" for s
    by (simp_all add: emulated_def call_regs_def id_calls_def)
  from entry_step[OF call_stop_syscall[of 1 7] _ nr(1,2) idle_tracer_log, of "call_regs 172 0 0 0" 7] em regs obtain t1 where
    t1: "loop_body 7 (Stopped (call_stop 7 1 (call_regs 172 0 0 0))) idle_tracer = Some (None, t1)"
    "tr_requests t1 = [SetRegs 7 (call_regs (- 1) 0 0 0), PtraceSyscall 7 0]" "log_ok (tr_log t1)"
    by (auto simp: entry_requests_def idle_tracer_def call_regs_def dest: log_ext_ok)
  from entry_step[OF call_stop_syscall[of 1 8] _ nr(3,4) t1(3), of "call_regs 214 0 0 0" 7] em obtain t2 where
    t2: "loop_body 7 (Stopped (call_stop 8 1 (call_regs 214 0 0 0))) t1 = Some (None, t2)"
    "tr_requests t2 = tr_requests t1 @ [PtraceSyscall 8 0]" "entry_action t2 = SC_PASSTHROUGH"
    by (auto simp: entry_requests_def)
  from exit_step[OF call_stop_syscall[of 2 7], of "call_regs (- 1) 0 0 0" "call_regs (- 1) 0 0 0" 7 t2] t2(3) obtain t3 where
    "loop_body 7 (Stopped (call_stop 7 2 (call_regs (- 1) 0 0 0))) t2 = Some (None, t3)" "tr_requests t3 = tr_requests t2 @ [PtraceSyscall 7 0]"
    by auto
  with t1 t2 show ?thesis by simp
qed

text \<open>A process that ends and is not the shell itself is killed, so that its parent sees a process killed by a signal instead of its exit status.\<close>

theorem child_exit_killed:
  assumes "syscall_stop 1 s" "st_regs s = Some r" "ar_x r 8 = 93 \<or> ar_x r 8 = 94" "st_pid s \<noteq> root"
  shows "\<exists>t1. loop_body root (Stopped s) t = Some (None, t1) \<and> tr_requests t1 = tr_requests t @ [KillPid (st_pid s), Reap (st_pid s)]"
  using assms unfolding loop_body_syscall[OF assms(1)]
  by (auto simp: loop_syscall_def syscall_stop_def load_regs_def handle_entry_def Let_def passthrough_calls_def)

text \<open>The exit code of the shell is the argument of its last call, which the system would cut to eight bits.\<close>

theorem root_exit_code:
  assumes "syscall_stop 1 s" "st_regs s = Some r" "ar_x r 8 = 93 \<or> ar_x r 8 = 94" "st_pid s = root"
  shows "\<exists>t1. loop_body root (Stopped s) t = Some (Some (sint (ucast (ar_x r 0) :: u32)), t1)"
  using assms unfolding loop_body_syscall[OF assms(1)]
  by (auto simp: loop_syscall_def syscall_stop_def load_regs_def handle_entry_def Let_def passthrough_calls_def)

text \<open>Writing no bytes is answered with an error, and a buffer of more than 4096 bytes is left out of a \<open>writev\<close> while those after it are printed.\<close>

lemma write_nothing_fails:
  assumes "ar_x r 8 = 64" "console_fd r" "st_read s (ar_x r 1) 0 = Some []" "ar_x r 2 = 0"
  shows "emulated s r = Some (- 14)"
  using assms by (simp add: emulated_def write_text_def)

lemma writev_skips_large:
  assumes "ar_x r 8 = 66" "console_fd r" "iov_count r = 2" "iov_len s (ar_x r 1) 0 = 5000" "iov_len s (ar_x r 1) 1 = 3"
  shows "emulated s r = Some 3" "printed s r = [iov_text s (ar_x r 1) 1]"
  using assms by (simp_all add: emulated_def printed_def iov_used_def iov_ok_def upt_rec)

end
