(* ===== verification/Spec2Isabelle.thy ===== *)
theory Spec2Isabelle
  imports RV_Prelude RV_State RV_Uart RV_Irqchip RV_Virtio RV_Virtio_Net RV_Bus RV_Init RV_Mmu RV_Mem
    RV_Csr RV_Trap RV_Decompress RV_Decode RV_Alu RV_Fpu RV_Exec
    RV_Lir RV_Sljit RV_Jit_Sim RV_Jit RV_Run
    RV_Disk RV_Track RV_Ipc RV_Text RV_Boot RV_Worker RV_Service RV_Inspect RV_Session
    RV_Logs RV_Disasm RV_Rows RV_Snapshot RV_Columns RV_Boot_File
    PG_Log PG_Process
begin

text \<open>
  A verification development for the RISC-V machine of \<open>src/extension\<close>: a 64-bit processor
  (RV64IMAFDC with supervisor mode and Sv39), its devices, and the compilers that speed it up,
  built to run Linux inside a database server.

  \<^bold>\<open>The program.\<close> \<open>rv64_cpu.c\<close> interprets one instruction at a time (\<open>rv64_step\<close>) and takes
  traps and interrupts. Every memory access goes through \<open>rv64_cpu_load\<close> or \<open>cpu_store\<close>: a fast path
  through the TLB, or \<open>rv64_translate\<close> of \<open>rv64_mmu.c\<close> followed by \<open>bus_load\<close> or
  \<open>bus_store\<close> of \<open>rv64_bus.c\<close>. The bus dispatches to RAM, a UART, a timer (CLINT), an interrupt
  controller (PLIC) and virtio devices (\<open>rv64_virtio.c\<close>, \<open>rv64_virtio_net.c\<close>), whose queues are
  read back from RAM. \<open>rv64_fpu.c\<close> executes floating point instructions. \<open>rv64_sljit.c\<close> compiles
  basic blocks with a vendored code generator; \<open>rv64_jit.c\<close> is an older compiler for ARM64.

  \<open>rv64_pgext.c\<close> puts the machine into a database server. A background worker owns it; SQL sessions leave commands, typed text and
  settings in shared memory and read the console and a copy of the processor there. The worker boots the machine from large objects
  of the database, or from a state that a session has saved, and stores the disk blocks the guest has written into a table, which the next boot
  lays over the disk image. Other functions show the processor copy, its logs and guest memory as rows and text, save and load snapshots in files, and boot from host files
  inside the session.

  \<open>linuxsql.c\<close> and \<open>pg_process.c\<close> are a second, independent part: a shell command runs as a traced child of the server, whose system calls are answered or passed on,
  and what it prints is collected in a log and returned.

  \<^bold>\<open>The theories\<close>, in the order of the imports:

  \<^item> \<open>RV_Prelude\<close>: word types, shifts and byte access as the C code uses them, shared lemmas.
  \<^item> \<open>RV_State\<close>: \<open>struct rv64_cpu\<close> and everything in it as records; RAM and disk as byte buffers
    with bounds; out-of-bounds accesses, which C leaves undefined, are \<open>None\<close>.
  \<^item> \<open>RV_Uart\<close>: \<open>uart_load\<close>, \<open>uart_store\<close>, \<open>rv64_uart_rx\<close>; the receive ring refines a bounded queue
    (locale interpreted on the code's push and pop).
  \<^item> \<open>RV_Irqchip\<close>: \<open>clint_load/store\<close>, \<open>plic_load/store\<close>; what a claim returns.
  \<^item> \<open>RV_Virtio\<close>, \<open>RV_Virtio_Net\<close>: the MMIO transport, block requests, the network queues.
    libslirp and \<open>poll\<close> are parameters of the definitions that call them.
  \<^item> \<open>RV_Bus\<close>: \<open>bus_load\<close>, \<open>bus_store\<close>; RAM through the bus is a byte store.
  \<^item> \<open>RV_Init\<close>: \<open>rv64_init\<close>.
  \<^item> \<open>RV_Mmu\<close>: \<open>rv64_translate\<close> and \<open>rv64_tlb_flush\<close>; an abstract Sv39 path relation and the theorem
    that translation computes it, and the TLB as a cache that never answers with a stale entry.
  \<^item> \<open>RV_Mem\<close>: \<open>rv64_cpu_load\<close>, \<open>cpu_store\<close>; the fast paths equal the reference paths, and loads
    return what was stored.
  \<^item> \<open>RV_Csr\<close>: \<open>csr_read\<close>, \<open>csr_write\<close>. \<open>RV_Trap\<close>: \<open>trap\<close>, \<open>check_interrupts\<close>, \<open>MRET\<close>, \<open>SRET\<close>.
  \<^item> \<open>RV_Decompress\<close>: the three decompressors (interpreter, \<open>sljit_uncompress\<close>, \<open>decompress\<close>), each
    transcribed on its own, and their agreement. \<open>RV_Decode\<close>: fields and immediates.
  \<^item> \<open>RV_Alu\<close>: integer arithmetic. \<open>RV_Fpu\<close>: \<open>rv64_fp_exec\<close>; rounded results of the host are
    the parameter \<open>host_fp\<close>, everything else is defined on bit patterns.
  \<^item> \<open>RV_Exec\<close>: \<open>rv64_step\<close>; a locale for invariants of the step, interpreted three times.
  \<^item> \<open>RV_Lir\<close>: the operations of the code generator that the compiler uses, with the meaning \<open>sljitLir.h\<close>
    documents. \<open>RV_Sljit\<close>: the compiler of \<open>rv64_sljit.c\<close>, its cache and \<open>jit_exec\<close>; compiled code is kept as
    a list of operations and run by their meaning.
  \<^item> \<open>RV_Jit_Sim\<close>: one emitted instruction simulates one case of the interpreter's switch, and a block a
    sequence of them. \<open>RV_Jit\<close>: compiled blocks refine the interpreter, and three places where
    compiled code differs: they are the exclusions of the refinement (\<open>insn_ok\<close>: multiplications, shifts out of
    range, accesses whose funct3 the interpreter rejects; blocks cut short at 61 exits).
  \<^item> \<open>RV_Run\<close>: \<open>rv64_run\<close> and \<open>rv64_run_jit\<close> as partial functions; the machine as a transition system, locales for
    its invariants, why a run ends, and that waiting ends.
  \<^item> \<open>RV_Disk\<close>: the dirty-block bitmap, the flushes and the overlay; the table together with the bitmap backs the disk, so that
    writes survive. \<open>RV_Track\<close>: every write of the guest is reported to the callback through a whole run (a locale for what the
    bus keeps, interpreted on the bus, the step and the run), until the driver resets the device.
  \<^item> \<open>RV_Ipc\<close>: \<open>SharedVMState\<close>, console and input buffers, posting a command and waiting for it.
    \<open>RV_Boot\<close>: large objects, assets, the device tree patch, \<open>worker_handle_cmd_boot\<close> and \<open>rv64_vm_state_save\<close>; a saved machine resumes.
  \<^item> \<open>RV_Worker\<close>: one turn of \<open>linuxsql_vm_worker_main\<close>; the system of sessions, worker and database as a transition system and its
    invariant. \<open>RV_Service\<close>: how a step is answered and that it keeps the disk; commands that are lost.
  \<^item> \<open>RV_Inspect\<close>: \<open>vm_peek\<close>, \<open>vm_physpeek\<close>, \<open>vm_find\<close> and \<open>vm_translate\<close> on the session's view of the machine; the search over any source of
    bytes (a locale, interpreted on guest memory) ends with the first occurrence, and the explained translation is that of the MMU.
    \<open>RV_Session\<close>: the functions that post a command and wait, and \<open>vm_step_until\<close>, which finds what is printed.

  \<^item> \<open>RV_Text\<close>: the conversions of \<open>snprintf\<close>, with numbers that read back. \<open>RV_Logs\<close>: the rings of traps, watched stores, breakpoints, instructions and newlines; a
    locale for what records into a ring, interpreted on each of the five, gives that a listing is the end of the history. \<open>RV_Disasm\<close>: the disassembler, whose operands
    and names are those of the interpreter, and the instructions it misnames.
  \<^item> \<open>RV_Rows\<close>: the functions that return one row or a table, \<open>vm_poke\<close> and the compiler worker. \<open>RV_Snapshot\<close>: \<open>vm_save\<close>, \<open>vm_load\<close>; a snapshot restores what was
    saved. \<open>RV_Columns\<close>: the column types of \<open>linuxsql_vm--1.0.sql\<close>, and that every row has them. \<open>RV_Boot_File\<close>: \<open>rv64_vm_boot\<close>, which places the images, and how it fails.
  \<^item> \<open>PG_Log\<close>: the log of \<open>linuxsql.c\<close> as a bounded text (a locale, interpreted on both writers) and \<open>linux_boot\<close>. \<open>PG_Process\<close>: \<open>pg_process.c\<close> and \<open>linux_exec\<close>; the answer of a
    system call reaches the process, a command returns what it printed, and where processes are confused with each other.

  \<^bold>\<open>Conventions.\<close> An operation on the machine is a function from machine to \<open>(result, machine) option\<close>.
  \<open>None\<close> stands for undefined behaviour of the C code (an access outside a host buffer, a division
  that overflows, a remainder by zero), for a call of a function pointer that is not set and for
  exhausted fuel; for the run loops also for a loop that never ends. A statement \<open>= Some \<dots>\<close> therefore says that the code reaches a defined result.
  Exceptions are \<open>Inl\<close> the cause. Integers have their C width. Registers are functions from indices.
  Diagnostics printed on \<open>stderr\<close> are left out.

  \<^bold>\<open>Parameters.\<close> \<open>host_fp\<close>: the rounded floating point results of the host. \<open>lir_host\<close>: what the generated code
  leaves open (scratch registers after a call, upper halves of 32-bit results); its one law, \<open>int_abi\<close>, is that widening an
  \<open>int\<close> result keeps its lower half, and zero. \<open>sljit_alloc\<close>: whether memory for code could be had. libslirp and
  \<open>poll\<close> are arguments of the network device. \<open>spi\<close>, \<open>boot_env\<close> and \<open>attach_env\<close>: what the database server supplies
  (connections, insertions, rows, large objects, memory) and which processes live. The host clock is a sequence of readings in the state.
  What the operating system answers the tracer is a list of \<open>wait_result\<close>s and the record \<open>run_host\<close>; the kernel that \<open>linux_boot\<close> starts is a \<open>kernel_run\<close>. Files are
  what reading finds in them (\<open>snapshot_file\<close>, \<open>host_file\<close>), and \<open>file_env\<close> holds what the boot from files meets.

  \<^bold>\<open>Not modelled.\<close> The ARM64 code that \<open>rv64_jit.c\<close> emits (the file is not built; its decompressor is modelled). Of \<open>rv64_pgext.c\<close>: \<open>vm_profile_host\<close>, which runs a host
  program, and the part of \<open>vm_jit_compare\<close> behind the error that it always raises. The newline log is modelled as an operation of its own and not along with each printed
  character. \<open>lds_symbols.c\<close> defines linker symbols; \<open>sljit_src\<close> is third-party; \<open>src/guest\<close> holds programs that run inside the machine.
\<close>

end
